(* ===== verification/Prelude.thy ===== *)
theory Prelude
  imports Main "HOL-Library.Char_ord" "HOL-Library.Sublist" "HOL-Library.AList"
begin

text \<open>
  What the components share: Go strings (byte strings, so \<open>string\<close> with one
  \<open>char\<close> per byte) and the functions of the package \<open>strings\<close> the sources use,
  64-bit integers, instants and durations, the sentinel errors of
  \<open>internal/domain/errors.go\<close> and the errors that wrap them, and lemmas about
  finite maps kept as association lists.

  \<open>strings.ToLower\<close> is modelled on ASCII letters; other bytes are left alone.
  \<open>strings.TrimSpace\<close> is exact: it removes the UTF-8 encodings of all Unicode
  white space at both ends.
\<close>

named_theorems go_eval \<open>equations that evaluate Go library functions on concrete strings\<close>

section \<open>Strings\<close>

subsection \<open>Prefixes, suffixes, substrings\<close>

primrec has_prefix :: "string \<Rightarrow> string \<Rightarrow> bool" where
  "has_prefix s [] = True"
| "has_prefix s (p # ps) = (case s of [] \<Rightarrow> False | c # cs \<Rightarrow> c = p \<and> has_prefix cs ps)"

definition has_suffix :: "string \<Rightarrow> string \<Rightarrow> bool" where
  "has_suffix s p = has_prefix (rev s) (rev p)"

fun contains :: "string \<Rightarrow> string \<Rightarrow> bool" where
  "contains [] p = (p = [])"
| "contains (c # cs) p = (has_prefix (c # cs) p \<or> contains cs p)"

definition trim_prefix :: "string \<Rightarrow> string \<Rightarrow> string" where
  "trim_prefix s p = (if has_prefix s p then drop (length p) s else s)"

lemma has_prefix_iff: "has_prefix s p \<longleftrightarrow> (\<exists>t. s = p @ t)"
  by (induction p arbitrary: s) (auto split: list.splits)

lemma has_prefix_eq_prefix: "has_prefix s p \<longleftrightarrow> prefix p s"
  by (auto simp: has_prefix_iff prefix_def)

lemma has_prefix_append [simp, intro]: "has_prefix (p @ t) p"
  by (auto simp: has_prefix_iff)

lemma has_prefix_trans: "has_prefix t p \<Longrightarrow> has_prefix u t \<Longrightarrow> has_prefix u p"
  by (auto simp: has_prefix_iff)

lemma has_prefix_length: "has_prefix s p \<Longrightarrow> length p \<le> length s"
  by (auto simp: has_prefix_iff)

lemma has_suffix_iff: "has_suffix s p \<longleftrightarrow> (\<exists>t. s = t @ p)"
proof
  assume "has_suffix s p"
  then obtain t where "rev s = rev p @ t" by (auto simp: has_suffix_def has_prefix_iff)
  then have "s = rev t @ p" by (simp add: rev_eq_append_conv)
  then show "\<exists>t. s = t @ p" by blast
next
  assume "\<exists>t. s = t @ p"
  then show "has_suffix s p" by (auto simp: has_suffix_def)
qed

lemma has_prefix_contains: "has_prefix s p \<Longrightarrow> contains s p"
  by (cases s) (auto simp: has_prefix_iff)

lemma contains_iff: "contains s p \<longleftrightarrow> (\<exists>a b. s = a @ p @ b)"
proof (induction s)
  case Nil
  then show ?case by simp
next
  case (Cons c cs)
  show ?case
  proof
    assume "contains (c # cs) p"
    then consider "has_prefix (c # cs) p" | "contains cs p" by auto
    then show "\<exists>a b. c # cs = a @ p @ b"
    proof cases
      case 1
      then show ?thesis by (metis append_Nil has_prefix_iff)
    next
      case 2
      then show ?thesis using Cons.IH by (metis append_Cons)
    qed
  next
    assume "\<exists>a b. c # cs = a @ p @ b"
    then obtain a b where ab: "c # cs = a @ p @ b" by blast
    show "contains (c # cs) p"
    proof (cases a)
      case Nil
      with ab show ?thesis by (metis append_Nil has_prefix_append has_prefix_contains)
    next
      case (Cons x xs)
      with ab have "cs = xs @ p @ b" by simp
      then show ?thesis using Cons.IH by auto
    qed
  qed
qed

lemma contains_append_right: "contains s p \<Longrightarrow> contains (s @ t) p"
  by (metis append.assoc contains_iff)

lemma contains_append_left: "contains t p \<Longrightarrow> contains (s @ t) p"
  by (metis append.assoc contains_iff)

lemma contains_self [simp]: "contains p p"
  by (metis append_Nil append_Nil2 contains_iff)

lemma contains_set: "contains s p \<Longrightarrow> set p \<subseteq> set s"
  by (auto simp: contains_iff)

subsection \<open>Trimming white space\<close>

text \<open>
  The UTF-8 encodings of the code points for which \<open>unicode.IsSpace\<close> holds: six
  ASCII characters, U+0085, U+00A0, U+1680, U+2000 to U+200A, U+2028, U+2029, U+202F,
  U+205F and U+3000.
\<close>

definition white_space :: "string list" where
  "white_space =
     [[CHR 0x09], [CHR 0x0A], [CHR 0x0B], [CHR 0x0C], [CHR 0x0D], [CHR 0x20],
      [CHR 0xC2, CHR 0x85], [CHR 0xC2, CHR 0xA0], [CHR 0xE1, CHR 0x9A, CHR 0x80],
      [CHR 0xE2, CHR 0x80, CHR 0x80], [CHR 0xE2, CHR 0x80, CHR 0x81],
      [CHR 0xE2, CHR 0x80, CHR 0x82], [CHR 0xE2, CHR 0x80, CHR 0x83],
      [CHR 0xE2, CHR 0x80, CHR 0x84], [CHR 0xE2, CHR 0x80, CHR 0x85],
      [CHR 0xE2, CHR 0x80, CHR 0x86], [CHR 0xE2, CHR 0x80, CHR 0x87],
      [CHR 0xE2, CHR 0x80, CHR 0x88], [CHR 0xE2, CHR 0x80, CHR 0x89],
      [CHR 0xE2, CHR 0x80, CHR 0x8A], [CHR 0xE2, CHR 0x80, CHR 0xA8],
      [CHR 0xE2, CHR 0x80, CHR 0xA9], [CHR 0xE2, CHR 0x80, CHR 0xAF],
      [CHR 0xE2, CHR 0x81, CHR 0x9F], [CHR 0xE3, CHR 0x80, CHR 0x80]]"

function trim_left_by :: "string list \<Rightarrow> string \<Rightarrow> string" where
  "trim_left_by ws s =
     (case find (\<lambda>w. w \<noteq> [] \<and> has_prefix s w) ws of
        None \<Rightarrow> s
      | Some w \<Rightarrow> trim_left_by ws (drop (length w) s))"
  by pat_completeness auto
termination
  by (relation "measure (\<lambda>(ws, s). length s)")
     (auto simp: find_Some_iff dest!: has_prefix_length intro!: diff_less)

declare trim_left_by.simps [simp del]

lemma trim_left_by_stop:
  "find (\<lambda>w. w \<noteq> [] \<and> has_prefix s w) ws = None \<Longrightarrow> trim_left_by ws s = s"
  by (subst trim_left_by.simps) simp

lemma trim_left_by_step:
  "find (\<lambda>w. w \<noteq> [] \<and> has_prefix s w) ws = Some w \<Longrightarrow>
   trim_left_by ws s = trim_left_by ws (drop (length w) s)"
  by (subst trim_left_by.simps) simp

definition trim_space :: "string \<Rightarrow> string" where
  "trim_space s =
     rev (trim_left_by (map rev white_space) (rev (trim_left_by white_space s)))"

lemma trim_left_by_clean: "w \<in> set ws \<Longrightarrow> w \<noteq> [] \<Longrightarrow> \<not> has_prefix (trim_left_by ws s) w"
proof (induction ws s rule: trim_left_by.induct)
  case (1 ws s)
  show ?case
  proof (cases "find (\<lambda>w. w \<noteq> [] \<and> has_prefix s w) ws")
    case None
    with "1.prems" show ?thesis
      by (auto simp: trim_left_by_stop find_None_iff)
  next
    case (Some v)
    with 1 show ?thesis by (simp add: trim_left_by_step)
  qed
qed

lemma trim_left_by_id:
  assumes "\<And>w. w \<in> set ws \<Longrightarrow> w \<noteq> [] \<Longrightarrow> \<not> has_prefix s w"
  shows "trim_left_by ws s = s"
proof -
  have "find (\<lambda>w. w \<noteq> [] \<and> has_prefix s w) ws = None"
    using assms by (auto simp: find_None_iff)
  then show ?thesis by (rule trim_left_by_stop)
qed

lemma trim_left_by_suffix: "\<exists>t. s = t @ trim_left_by ws s"
proof (induction ws s rule: trim_left_by.induct)
  case (1 ws s)
  show ?case
  proof (cases "find (\<lambda>w. w \<noteq> [] \<and> has_prefix s w) ws")
    case None
    then show ?thesis by (simp add: trim_left_by_stop)
  next
    case (Some w)
    with 1 obtain t where "drop (length w) s = t @ trim_left_by ws (drop (length w) s)" by blast
    then have "s = (take (length w) s @ t) @ trim_left_by ws (drop (length w) s)"
      by (metis append.assoc append_take_drop_id)
    with Some show ?thesis by (metis trim_left_by_step)
  qed
qed

lemma trim_left_by_Nil [simp]: "trim_left_by ws [] = []"
  by (rule trim_left_by_id) (auto simp: has_prefix_iff)

lemma trim_space_Nil [simp]: "trim_space [] = []"
  by (simp add: trim_space_def)

text \<open>The trimmed string is a contiguous part of the argument with no white space at its ends.\<close>

lemma trim_space_infix: "\<exists>a b. s = a @ trim_space s @ b"
proof -
  let ?u = "trim_left_by white_space s"
  obtain a where a: "s = a @ ?u" using trim_left_by_suffix by blast
  obtain c where c: "rev ?u = c @ trim_left_by (map rev white_space) (rev ?u)"
    using trim_left_by_suffix by blast
  then have "?u = trim_space s @ rev c"
    unfolding trim_space_def by (metis rev_append rev_rev_ident)
  with a show ?thesis by metis
qed

lemma trim_space_set: "set (trim_space s) \<subseteq> set s"
  using trim_space_infix [of s] by (metis Un_iff set_append subsetI)

lemma length_trim_space: "length (trim_space s) \<le> length s"
  using trim_space_infix [of s] by (metis le_add1 le_add2 length_append order_trans)

definition trimmed :: "string \<Rightarrow> bool" where
  "trimmed s \<longleftrightarrow> (\<forall>w \<in> set white_space. \<not> has_prefix s w \<and> \<not> has_suffix s w)"

lemma white_space_nonempty: "w \<in> set white_space \<Longrightarrow> w \<noteq> []"
  by (auto simp: white_space_def)

lemma trim_space_trimmed: "trimmed (trim_space s)"
proof -
  let ?u = "trim_left_by white_space s"
  have "\<not> has_suffix (trim_space s) w" if w: "w \<in> set white_space" for w
  proof -
    have "\<not> has_prefix (trim_left_by (map rev white_space) (rev ?u)) (rev w)"
      using w white_space_nonempty [OF w] by (intro trim_left_by_clean) auto
    then show ?thesis by (simp add: trim_space_def has_suffix_def)
  qed
  moreover have "\<not> has_prefix (trim_space s) w" if w: "w \<in> set white_space" for w
  proof
    obtain c where "rev ?u = c @ trim_left_by (map rev white_space) (rev ?u)"
      using trim_left_by_suffix by blast
    then have "?u = trim_space s @ rev c"
      unfolding trim_space_def by (metis rev_append rev_rev_ident)
    moreover assume "has_prefix (trim_space s) w"
    ultimately have "has_prefix ?u w" using has_prefix_trans by (metis has_prefix_append)
    then show False using trim_left_by_clean white_space_nonempty w by blast
  qed
  ultimately show ?thesis by (auto simp: trimmed_def)
qed

lemma trimmed_trim_space: "trimmed s \<Longrightarrow> trim_space s = s"
proof -
  assume s: "trimmed s"
  then have 1: "trim_left_by white_space s = s"
    by (intro trim_left_by_id) (auto simp: trimmed_def)
  from s have 2: "trim_left_by (map rev white_space) (rev s) = rev s"
    by (intro trim_left_by_id) (auto simp: trimmed_def has_suffix_def)
  show ?thesis by (simp add: trim_space_def 1 2)
qed

lemma trim_space_idem [simp]: "trim_space (trim_space s) = trim_space s"
  by (rule trimmed_trim_space) (rule trim_space_trimmed)

lemma trimmed_iff: "trimmed s \<longleftrightarrow> trim_space s = s"
  using trim_space_trimmed trimmed_trim_space by metis

lemma trimmed_Nil [simp]: "trimmed []"
  by (simp add: trimmed_iff)

subsection \<open>Lower case\<close>

definition lower_char :: "char \<Rightarrow> char" where
  "lower_char c =
     (if CHR ''A'' \<le> c \<and> c \<le> CHR ''Z'' then char_of (of_char c + 32 :: nat) else c)"

definition to_lower :: "string \<Rightarrow> string" where
  "to_lower s = map lower_char s"

lemma of_lower_char:
  "(of_char (lower_char c) :: nat) =
     (if CHR ''A'' \<le> c \<and> c \<le> CHR ''Z'' then of_char c + 32 else of_char c)"
proof -
  have "of_char c + 32 < (256::nat)" if "c \<le> CHR ''Z''"
    using that by (simp add: less_eq_char_def)
  then show ?thesis by (simp add: lower_char_def of_char_of)
qed

lemma lower_char_idem [simp]: "lower_char (lower_char c) = lower_char c"
  by (simp add: of_lower_char lower_char_def [of "lower_char c"] less_eq_char_def)
     (auto simp: lower_char_def less_eq_char_def)

lemma to_lower_idem [simp]: "to_lower (to_lower s) = to_lower s"
  by (simp add: to_lower_def)

lemma to_lower_Nil [simp]: "to_lower [] = []"
  by (simp add: to_lower_def)

lemma to_lower_eq_Nil [simp]: "to_lower s = [] \<longleftrightarrow> s = []"
  by (simp add: to_lower_def)

lemma length_to_lower [simp]: "length (to_lower s) = length s"
  by (simp add: to_lower_def)

lemma to_lower_append: "to_lower (s @ t) = to_lower s @ to_lower t"
  by (simp add: to_lower_def)

text \<open>White space is not affected by lower case, so trimming and lower case commute on ends.\<close>

lemma lower_char_fixed: "\<not> (CHR ''a'' \<le> d \<and> d \<le> CHR ''z'') \<Longrightarrow> lower_char c = d \<Longrightarrow> c = d"
proof -
  assume d: "\<not> (CHR ''a'' \<le> d \<and> d \<le> CHR ''z'')" and c: "lower_char c = d"
  have "\<not> (CHR ''A'' \<le> c \<and> c \<le> CHR ''Z'')"
  proof
    assume "CHR ''A'' \<le> c \<and> c \<le> CHR ''Z''"
    then have "CHR ''a'' \<le> lower_char c \<and> lower_char c \<le> CHR ''z''"
      by (simp add: less_eq_char_def of_lower_char)
    with d c show False by simp
  qed
  with c show "c = d" by (simp add: lower_char_def)
qed

lemma map_lower_char_fixed:
  "(\<And>d. d \<in> set w \<Longrightarrow> \<not> (CHR ''a'' \<le> d \<and> d \<le> CHR ''z'')) \<Longrightarrow> map lower_char u = w \<Longrightarrow> u = w"
  by (induction u arbitrary: w) (auto intro: lower_char_fixed)

lemma white_space_no_letter:
  "w \<in> set white_space \<Longrightarrow> d \<in> set w \<Longrightarrow> \<not> (CHR ''a'' \<le> d \<and> d \<le> CHR ''z'')"
  by (auto simp: white_space_def less_eq_char_def)

lemma trimmed_to_lower: "trimmed s \<Longrightarrow> trimmed (to_lower s)"
proof -
  assume s: "trimmed s"
  have "\<not> has_prefix (to_lower s) w \<and> \<not> has_suffix (to_lower s) w" if w: "w \<in> set white_space" for w
  proof -
    have fixed: "u = w" if "map lower_char u = w" for u
      using white_space_no_letter [OF w] that by (rule map_lower_char_fixed)
    have "\<not> has_prefix (to_lower s) w"
    proof
      assume "has_prefix (to_lower s) w"
      then obtain u t where u: "s = u @ t" "map lower_char u = w"
        by (auto simp: has_prefix_iff to_lower_def map_eq_append_conv)
      from u(2) have "u = w" by (rule fixed)
      with u(1) have "has_prefix s w" by simp
      with s w show False by (simp add: trimmed_def)
    qed
    moreover have "\<not> has_suffix (to_lower s) w"
    proof
      assume "has_suffix (to_lower s) w"
      then obtain u t where u: "s = t @ u" "map lower_char u = w"
        by (auto simp: has_suffix_iff to_lower_def map_eq_append_conv)
      from u(2) have "u = w" by (rule fixed)
      with u(1) have "has_suffix s w" by (auto simp: has_suffix_iff)
      with s w show False by (simp add: trimmed_def)
    qed
    ultimately show ?thesis by blast
  qed
  then show ?thesis by (simp add: trimmed_def)
qed

definition lower_trim :: "string \<Rightarrow> string" where
  "lower_trim s = to_lower (trim_space s)"

lemma trim_space_lower_trim [simp]: "trim_space (lower_trim s) = lower_trim s"
  unfolding lower_trim_def
  by (rule trimmed_trim_space, rule trimmed_to_lower, rule trim_space_trimmed)

lemma lower_trim_idem [simp]: "lower_trim (lower_trim s) = lower_trim s"
  by (subst lower_trim_def) (simp, simp add: lower_trim_def)

subsection \<open>Splitting and joining\<close>

text \<open>
  \<open>split_first s c\<close> is \<open>strings.Split(s, c)[0]\<close> for a one-byte separator, and
  \<open>split_on c s\<close> the whole list \<open>strings.Split(s, c)\<close>. \<open>remove_char c s\<close> is
  \<open>strings.ReplaceAll(s, c, "")\<close>, \<open>replace_char c d s\<close> replaces one byte by another,
  \<open>join sep xs\<close> is \<open>strings.Join(xs, sep)\<close>.
\<close>

definition split_first :: "char \<Rightarrow> string \<Rightarrow> string" where
  "split_first c s = takeWhile (\<lambda>x. x \<noteq> c) s"

fun split_on :: "char \<Rightarrow> string \<Rightarrow> string list" where
  "split_on c [] = [[]]"
| "split_on c (x # xs) =
     (if x = c then [] # split_on c xs
      else case split_on c xs of [] \<Rightarrow> [[x]] | p # ps \<Rightarrow> (x # p) # ps)"

definition remove_char :: "char \<Rightarrow> string \<Rightarrow> string" where
  "remove_char c s = filter (\<lambda>x. x \<noteq> c) s"

definition replace_char :: "char \<Rightarrow> char \<Rightarrow> string \<Rightarrow> string" where
  "replace_char c d s = map (\<lambda>x. if x = c then d else x) s"

fun join :: "string \<Rightarrow> string list \<Rightarrow> string" where
  "join sep [] = []"
| "join sep [x] = x"
| "join sep (x # y # ys) = x @ sep @ join sep (y # ys)"

lemma split_on_nonempty [simp]: "split_on c s \<noteq> []"
  by (induction s) (auto split: list.splits)

lemma split_on_single: "c \<notin> set s \<Longrightarrow> split_on c s = [s]"
  by (induction s) auto

lemma split_on_append: "c \<notin> set a \<Longrightarrow> split_on c (a @ c # b) = a # split_on c b"
  by (induction a) auto

lemma split_first_no_sep [simp]: "c \<notin> set s \<Longrightarrow> split_first c s = s"
  by (simp add: split_first_def takeWhile_eq_all_conv) blast

lemma set_split_first: "set (split_first c s) \<subseteq> set s - {c}"
  by (auto simp: split_first_def dest: set_takeWhileD)

section \<open>Digits\<close>

definition is_digit :: "char \<Rightarrow> bool" where
  "is_digit c \<longleftrightarrow> CHR ''0'' \<le> c \<and> c \<le> CHR ''9''"

definition digit_value :: "char \<Rightarrow> int" where
  "digit_value c = int (of_char c) - 48"

text \<open>
  \<open>strconv.Atoi\<close> (and \<open>ParseInt(s, 10, 64)\<close>): an optional sign, then decimal digits,
  an error (\<open>None\<close>) for anything else and outside 64 bits.
\<close>

definition digits_value :: "string \<Rightarrow> int" where
  "digits_value s = foldl (\<lambda>n c. 10 * n + digit_value c) 0 s"

definition atoi :: "string \<Rightarrow> int option" where
  "atoi s =
     (let neg = has_prefix s ''-'';
          ds = (if has_prefix s ''-'' \<or> has_prefix s ''+'' then drop 1 s else s);
          v = (if neg then - digits_value ds else digits_value ds)
      in if ds \<noteq> [] \<and> list_all is_digit ds \<and> - (2 ^ 63) \<le> v \<and> v < 2 ^ 63
         then Some v else None)"

text \<open>\<open>%d\<close> of a natural number.\<close>

fun show_nat :: "nat \<Rightarrow> string" where
  "show_nat n =
     (if n < 10 then [char_of (n + 48)] else show_nat (n div 10) @ [char_of (n mod 10 + 48)])"

declare show_nat.simps [simp del]

definition show_int :: "int \<Rightarrow> string" where
  "show_int n = (if n < 0 then ''-'' @ show_nat (nat (- n)) else show_nat (nat n))"

text \<open>Reading what was printed gives the number back, so different numbers print differently.\<close>

lemma digit_value_char_of: "k < 10 \<Longrightarrow> digit_value (char_of (k + 48)) = int k"
  by (simp add: digit_value_def of_char_of)

lemma digits_value_snoc: "digits_value (s @ [c]) = 10 * digits_value s + digit_value c"
  by (simp add: digits_value_def)

lemma digits_value_show_nat: "digits_value (show_nat n) = int n"
proof (induction n rule: less_induct)
  case (less n)
  show ?case
  proof (cases "n < 10")
    case True
    then show ?thesis
      by (subst show_nat.simps) (simp add: digits_value_def digit_value_char_of)
  next
    case False
    then have "n div 10 < n" by simp
    have "10 * int (n div 10) + int (n mod 10) = int n" by (simp add: zdiv_int zmod_int)
    with less [OF \<open>n div 10 < n\<close>] False show ?thesis
      by (subst show_nat.simps) (simp add: digits_value_snoc digit_value_char_of)
  qed
qed

lemma show_nat_inject [simp]: "show_nat m = show_nat n \<longleftrightarrow> m = n"
  using digits_value_show_nat by (metis of_nat_eq_iff)

section \<open>Machine integers, instants and durations\<close>

text \<open>
  Go's \<open>int\<close> and \<open>int64\<close> are 64 bits wide: \<open>int64 x\<close> is the value left after
  wrap-around. An instant is the number of nanoseconds since Go's zero time, so
  \<open>IsZero\<close> is \<open>= 0\<close>; a \<open>time.Duration\<close> is a 64-bit number of nanoseconds.
\<close>

definition int64 :: "int \<Rightarrow> int" where
  "int64 x = signed_take_bit 63 x"

definition fits64 :: "int \<Rightarrow> bool" where
  "fits64 x \<longleftrightarrow> - (2 ^ 63) \<le> x \<and> x < 2 ^ 63"

lemma int64_id [simp]: "fits64 x \<Longrightarrow> int64 x = x"
  by (simp add: int64_def fits64_def signed_take_bit_int_eq_self)

lemma fits64_int64 [simp]: "fits64 (int64 x)"
  using signed_take_bit_int_greater_eq_minus_exp [of 63 x] signed_take_bit_int_less_exp [of 63 x]
  by (simp add: int64_def fits64_def)

type_synonym time = int
type_synonym duration = int

definition second :: duration where "second = 1000000000"
definition minute :: duration where "minute = 60 * second"
definition hour :: duration where "hour = 60 * minute"

text \<open>\<open>Time.Unix\<close>: seconds since 1970, 62135596800 seconds after the zero time.\<close>

definition unix :: "time \<Rightarrow> int" where
  "unix t = t div second - 62135596800"

lemma second_pos [simp]: "0 < second" by (simp add: second_def)
lemma minute_pos [simp]: "0 < minute" by (simp add: minute_def)
lemma hour_pos [simp]: "0 < hour" by (simp add: hour_def)

lemma unix_mono: "s \<le> t \<Longrightarrow> unix s \<le> unix t"
  by (simp add: unix_def zdiv_mono1)

section \<open>Errors\<close>

text \<open>
  The sentinel errors of \<open>internal/domain/errors.go\<close> and the library errors the code
  tests for with \<open>errors.Is\<close>. An error carries the sentinel it wraps, if any, and the
  text of \<open>Error()\<close>.
\<close>

datatype sentinel =
    ErrUnauthorized | ErrForbidden | ErrNotFound | ErrConflict | ErrValidation
  | ErrTimeout | ErrRateLimited | ErrRecordNotFound | DeadlineExceeded | Canceled

fun sentinel_text :: "sentinel \<Rightarrow> string" where
  "sentinel_text ErrUnauthorized = ''unauthorized''"
| "sentinel_text ErrForbidden = ''forbidden''"
| "sentinel_text ErrNotFound = ''not found''"
| "sentinel_text ErrConflict = ''conflict''"
| "sentinel_text ErrValidation = ''validation failed''"
| "sentinel_text ErrTimeout = ''timeout''"
| "sentinel_text ErrRateLimited = ''rate limited''"
| "sentinel_text ErrRecordNotFound = ''record not found''"
| "sentinel_text DeadlineExceeded = ''context deadline exceeded''"
| "sentinel_text Canceled = ''context canceled''"

datatype go_error = GoError (err_is: "sentinel option") (err_text: string)

definition sentinel_error :: "sentinel \<Rightarrow> go_error" where
  "sentinel_error k = GoError (Some k) (sentinel_text k)"

text \<open>\<open>fmt.Errorf("%w: msg", sentinel)\<close>, \<open>fmt.Errorf("msg: %w", err)\<close> and \<open>fmt.Errorf("msg")\<close>.\<close>

definition wrap :: "sentinel \<Rightarrow> string \<Rightarrow> go_error" where
  "wrap k msg = GoError (Some k) (sentinel_text k @ '': '' @ msg)"

definition wrap_error :: "string \<Rightarrow> go_error \<Rightarrow> go_error" where
  "wrap_error msg e = GoError (err_is e) (msg @ '': '' @ err_text e)"

definition plain_error :: "string \<Rightarrow> go_error" where
  "plain_error msg = GoError None msg"

lemma err_is_simps [simp]:
  "err_is (sentinel_error k) = Some k" "err_is (wrap k msg) = Some k"
  "err_is (wrap_error msg e) = err_is e" "err_is (plain_error msg) = None"
  by (simp_all add: sentinel_error_def wrap_def wrap_error_def plain_error_def)

section \<open>Maps\<close>

text \<open>The loop \<open>for k, v := range m { if p(v) { delete(m, k) } }\<close>.\<close>

definition delete_where :: "('v \<Rightarrow> bool) \<Rightarrow> ('k \<rightharpoonup> 'v) \<Rightarrow> ('k \<rightharpoonup> 'v)" where
  "delete_where p m = (\<lambda>k. case m k of None \<Rightarrow> None | Some v \<Rightarrow> if p v then None else Some v)"

lemma delete_where_simps [simp]:
  "delete_where p m k = None \<longleftrightarrow> (case m k of None \<Rightarrow> True | Some v \<Rightarrow> p v)"
  "delete_where p m k = Some v \<longleftrightarrow> m k = Some v \<and> \<not> p v"
  by (auto simp: delete_where_def split: option.splits)

lemma delete_where_empty [simp]: "delete_where p Map.empty = Map.empty"
  by (simp add: delete_where_def)

section \<open>JSON\<close>

text \<open>
  The values of an \<open>any\<close>: those \<open>json.Unmarshal\<close> stores there, and the instants that
  code of the repository puts beside them (no decoded document holds one); an object is an
  association list, read with \<open>map_of\<close>. The nil map is the empty one.
\<close>

datatype json =
    JNull | JBool bool | JNum string | JStr string | JArr "json list" | JObj "(string \<times> json) list"
  | JTime time

type_synonym json_object = "(string \<times> json) list"

section \<open>Lists\<close>

lemma sum_list_indicator: "sum_list (map (\<lambda>x. if P x then 1 else 0 :: int) xs) = int (length (filter P xs))"
  by (induction xs) auto

end
