(* ===== verification/Jid.thy ===== *)
theory Jid
  imports Prelude
begin

text \<open>
  Phone numbers and WhatsApp JIDs: \<open>CreateJID\<close> and what is built on it in
  \<open>pkg/utils/utils.go\<close>. The JID parser of the whatsmeow library is a parameter.
\<close>

section \<open>Country formats\<close>

definition formatMXOrARNumber :: "string \<Rightarrow> string" where
  "formatMXOrARNumber jid =
     (if length jid < 2 then jid
      else let countryCode = take 2 jid in
        if countryCode = ''52'' \<and> length jid = 13 then
          (if jid ! 2 = CHR ''1'' then countryCode @ drop 3 jid else jid)
        else if countryCode = ''54'' \<and> length jid = 13 then countryCode @ drop 3 jid
        else jid)"

definition formatBRNumber :: "string \<Rightarrow> string" where
  "formatBRNumber jid =
     (if length jid \<noteq> 13 \<or> \<not> has_prefix jid ''55'' then jid
      else case atoi (take 2 (drop 2 jid)) of
        None \<Rightarrow> jid
      | Some dddNum \<Rightarrow>
          if dddNum < 11 \<or> dddNum > 99 then jid
          else if length jid < 6 then jid
          else case atoi (take 1 (drop 4 jid)) of
            None \<Rightarrow> jid
          | Some firstDigitNum \<Rightarrow>
              if firstDigitNum \<ge> 7 \<and> dddNum \<ge> 31 then take 4 jid @ drop 5 jid else jid)"

section \<open>CreateJID\<close>

definition is_jid_form :: "string \<Rightarrow> bool" where
  "is_jid_form s \<longleftrightarrow>
     contains s ''@g.us'' \<or> contains s ''@s.whatsapp.net'' \<or> contains s ''@lid'' \<or>
     contains s ''@broadcast'' \<or> contains s ''@newsletter''"

text \<open>The four \<open>ReplaceAll\<close> calls and the cut at the first colon.\<close>

definition clean_number :: "string \<Rightarrow> string" where
  "clean_number s =
     split_first (CHR '':'')
       (remove_char (CHR '')'') (remove_char (CHR ''('')
         (remove_char (CHR ''+'') (remove_char (CHR '' '') s))))"

definition group_id :: "string \<Rightarrow> string" where
  "group_id s = filter (\<lambda>r. is_digit r \<or> r = CHR ''-'') s"

definition only_digits :: "string \<Rightarrow> string" where
  "only_digits s = filter is_digit s"

definition CreateJID :: "string \<Rightarrow> go_error + string" where
  "CreateJID number =
     (if number = [] then Inl (plain_error ''number cannot be empty'')
      else if is_jid_form number then Inr number
      else let number = clean_number number in
        if contains number ''-'' \<and> length number \<ge> 24 then Inr (group_id number @ ''@g.us'')
        else if length number \<ge> 18 then Inr (group_id number @ ''@g.us'')
        else let number = only_digits number in
          if number = [] then Inl (plain_error ''invalid number format'')
          else let number = formatBRNumber (formatMXOrARNumber number);
                   number = (if \<not> has_prefix number ''+'' then ''+'' @ number else number)
               in Inr (number @ ''@s.whatsapp.net''))"

section \<open>Parsing and canonical form\<close>

record wa_jid =
  jid_user :: string
  jid_server :: string

definition DefaultUserServer :: string where
  "DefaultUserServer = ''s.whatsapp.net''"

text \<open>
  \<open>ParseJID\<close>; \<open>wa_parse\<close> stands for \<open>types.ParseJID\<close> of whatsmeow, which returns a
  JID together with an error (\<open>Some\<close>) or none.
\<close>

definition ParseJID :: "(string \<Rightarrow> wa_jid \<times> go_error option) \<Rightarrow> string \<Rightarrow> wa_jid \<times> bool" where
  "ParseJID wa_parse arg =
     (let none = \<lparr>jid_user = [], jid_server = DefaultUserServer\<rparr> in
      if arg = [] then (none, False)
      else case CreateJID arg of
        Inl _ \<Rightarrow> (none, False)
      | Inr jidString \<Rightarrow>
          (case wa_parse jidString of
             (recipient, Some _) \<Rightarrow> (recipient, False)
           | (recipient, None) \<Rightarrow>
               if jid_user recipient = [] \<and> \<not> contains jidString ''@broadcast''
               then (recipient, False)
               else (recipient, True)))"

definition CanonicalJID :: "wa_jid \<Rightarrow> wa_jid" where
  "CanonicalJID jid = jid\<lparr>jid_user := trim_prefix (jid_user jid) ''+''\<rparr>"

section \<open>Numbers for the WhatsApp check\<close>

definition prepare_one :: "string \<Rightarrow> string" where
  "prepare_one number =
     (let rawNumber =
        (if contains number ''@s.whatsapp.net'' then split_first (CHR ''@'') number else number)
      in case CreateJID rawNumber of
        Inl _ \<Rightarrow> number
      | Inr normalizedJID \<Rightarrow>
          if contains normalizedJID ''@s.whatsapp.net''
          then split_first (CHR ''@'') normalizedJID
          else normalizedJID)"

definition PrepareNumbersForWhatsAppCheck :: "string list \<Rightarrow> bool option \<Rightarrow> string list" where
  "PrepareNumbersForWhatsAppCheck numbers formatJid =
     (let shouldFormat = (case formatJid of None \<Rightarrow> True | Some b \<Rightarrow> b)
      in if shouldFormat then map prepare_one numbers else numbers)"

definition PrepareNumberForWhatsAppCheck :: "string \<Rightarrow> bool \<Rightarrow> go_error + string" where
  "PrepareNumberForWhatsAppCheck phone formatJid =
     (case PrepareNumbersForWhatsAppCheck [phone] (Some formatJid) of
        [] \<Rightarrow> Inl (plain_error ''no valid number processed'')
      | n # _ \<Rightarrow> Inr n)"

section \<open>Proxy protocol\<close>

definition NormalizeProxyProtocol :: "string \<Rightarrow> string \<Rightarrow> string" where
  "NormalizeProxyProtocol protocol port =
     (let normalized = lower_trim protocol in
      if normalized = ''socks'' then ''socks5''
      else if normalized \<in> {''http'', ''https'', ''socks5''} then normalized
      else if trim_space port \<in> {''1080'', ''2080''} then ''socks5''
      else case atoi (trim_space port) of
        Some portNum \<Rightarrow> if 42000 \<le> portNum \<and> portNum \<le> 43000 then ''socks5'' else ''http''
      | None \<Rightarrow> ''http'')"

section \<open>Lemmas\<close>

subsection \<open>Digits\<close>

lemma only_digits_digits [simp]: "list_all is_digit (only_digits s)"
  by (simp add: only_digits_def list_all_iff)

lemma digits_no_char: "list_all is_digit s \<Longrightarrow> \<not> is_digit c \<Longrightarrow> c \<notin> set s"
  by (auto simp: list_all_iff)

lemma list_all_take_drop:
  "list_all P s \<Longrightarrow> list_all P (take n s)" "list_all P s \<Longrightarrow> list_all P (drop n s)"
  by (auto simp: list_all_iff dest: in_set_takeD in_set_dropD)

lemma not_digit [simp]:
  "\<not> is_digit CHR ''+''" "\<not> is_digit CHR ''-''" "\<not> is_digit CHR ''@''" "\<not> is_digit CHR '':''"
  "\<not> is_digit CHR '' ''" "\<not> is_digit CHR ''(''" "\<not> is_digit CHR '')''"
  by (simp_all add: is_digit_def less_eq_char_def)

lemma is_digit_2_4_5 [simp]: "is_digit CHR ''2''" "is_digit CHR ''4''" "is_digit CHR ''5''"
  by (simp_all add: is_digit_def less_eq_char_def)

subsection \<open>Country formats\<close>

text \<open>Both formats change only strings of 13 characters, and then remove exactly one.\<close>

lemma formatMXOrARNumber_other: "length s \<noteq> 13 \<Longrightarrow> formatMXOrARNumber s = s"
  by (simp add: formatMXOrARNumber_def)

lemma formatBRNumber_other: "length s \<noteq> 13 \<Longrightarrow> formatBRNumber s = s"
  by (simp add: formatBRNumber_def)

lemma formatMXOrARNumber_cases: "formatMXOrARNumber s = s \<or> length (formatMXOrARNumber s) = 12"
  by (auto simp: formatMXOrARNumber_def Let_def)

lemma formatBRNumber_cases: "formatBRNumber s = s \<or> length (formatBRNumber s) = 12"
  by (auto simp: formatBRNumber_def split: option.splits)

definition format_number :: "string \<Rightarrow> string" where
  "format_number s = formatBRNumber (formatMXOrARNumber s)"

lemma format_number_cases: "format_number s = s \<or> length (format_number s) = 12"
  using formatMXOrARNumber_cases [of s] formatBRNumber_cases [of "formatMXOrARNumber s"]
    formatBRNumber_other [of "formatMXOrARNumber s"]
  by (auto simp: format_number_def)

lemma format_number_idem: "format_number (format_number s) = format_number s"
  using format_number_cases [of s]
  by (auto simp: format_number_def formatMXOrARNumber_other formatBRNumber_other)

lemma format_number_length: "length (format_number s) \<le> length s"
  by (auto simp: format_number_def formatMXOrARNumber_def formatBRNumber_def Let_def
      split: option.splits)

lemma format_number_Nil: "format_number s = [] \<longleftrightarrow> s = []"
  using format_number_cases [of s] by (auto simp: format_number_def formatMXOrARNumber_other
      formatBRNumber_other)

lemma format_number_digits: "list_all is_digit s \<Longrightarrow> list_all is_digit (format_number s)"
  by (auto simp: format_number_def formatMXOrARNumber_def formatBRNumber_def Let_def
      list_all_take_drop split: option.splits)

subsection \<open>The forms a JID can take\<close>

lemma is_jid_form_at: "is_jid_form s \<Longrightarrow> CHR ''@'' \<in> set s"
  using contains_set [of s] by (fastforce simp: is_jid_form_def)

lemma is_jid_form_append [simp]:
  "is_jid_form (s @ ''@g.us'')" "is_jid_form (s @ ''@s.whatsapp.net'')"
  by (simp_all add: is_jid_form_def contains_append_left)

text \<open>What is left of a number that is no JID, and the two kinds of JID made from it.\<close>

definition is_group_number :: "string \<Rightarrow> bool" where
  "is_group_number s \<longleftrightarrow> 18 \<le> length (clean_number s)"

lemma CreateJID_unfold:
  "CreateJID s =
     (if s = [] then Inl (plain_error ''number cannot be empty'')
      else if is_jid_form s then Inr s
      else if is_group_number s then Inr (group_id (clean_number s) @ ''@g.us'')
      else let ds = only_digits (clean_number s) in
        if ds = [] then Inl (plain_error ''invalid number format'')
        else Inr (''+'' @ format_number ds @ ''@s.whatsapp.net''))"
proof -
  have "\<not> has_prefix (format_number ds) ''+''" if "list_all is_digit ds" for ds
    using format_number_digits [OF that] by (auto simp: has_prefix_iff)
  then show ?thesis
    by (auto simp: CreateJID_def is_group_number_def format_number_def Let_def)
qed

lemma length_only_digits: "length (only_digits s) \<le> length s"
  by (simp add: only_digits_def)

lemma phone_digits:
  assumes "\<not> is_group_number s" and "ds = format_number (only_digits (clean_number s))"
  shows "list_all is_digit ds" and "length ds < 18" and "format_number ds = ds"
  using assms format_number_digits [of "only_digits (clean_number s)"]
    format_number_length [of "only_digits (clean_number s)"] length_only_digits [of "clean_number s"]
  by (simp_all add: is_group_number_def format_number_idem)

lemma CreateJID_SomeE:
  assumes "CreateJID s = Inr j"
  obtains (jid) "s \<noteq> []" "is_jid_form s" "j = s"
  | (group) g where "\<not> is_jid_form s" "is_group_number s"
      "\<And>c. c \<in> set g \<Longrightarrow> is_digit c \<or> c = CHR ''-''" "j = g @ ''@g.us''"
  | (phone) ds where "\<not> is_jid_form s" "\<not> is_group_number s" "ds \<noteq> []" "list_all is_digit ds"
      "length ds < 18" "format_number ds = ds" "j = ''+'' @ ds @ ''@s.whatsapp.net''"
proof -
  consider "is_jid_form s" | "\<not> is_jid_form s" "is_group_number s"
    | "\<not> is_jid_form s" "\<not> is_group_number s" by blast
  then show thesis
  proof cases
    case 1
    with assms show thesis by (intro jid) (auto simp: CreateJID_unfold split: if_splits)
  next
    case 2
    with assms show thesis
      by (intro group) (auto simp: CreateJID_unfold group_id_def split: if_splits)
  next
    case 3
    with assms have "only_digits (clean_number s) \<noteq> []"
      and "j = ''+'' @ format_number (only_digits (clean_number s)) @ ''@s.whatsapp.net''"
      by (auto simp: CreateJID_unfold Let_def split: if_splits)
    with 3 phone_digits [OF 3(2) refl] show thesis by (intro phone) (auto simp: format_number_Nil)
  qed
qed

lemma CreateJID_result_form: "CreateJID s = Inr j \<Longrightarrow> is_jid_form j \<and> j \<noteq> []"
proof (erule CreateJID_SomeE)
  fix ds assume "j = ''+'' @ ds @ ''@s.whatsapp.net''"
  then show "is_jid_form j \<and> j \<noteq> []" using is_jid_form_append(2) [of "''+'' @ ds"] by simp
qed simp_all

subsection \<open>Plain numbers\<close>

lemma remove_char_none [simp]: "c \<notin> set s \<Longrightarrow> remove_char c s = s"
  by (auto simp: remove_char_def filter_id_conv)

lemma clean_number_digits: "list_all is_digit ds \<Longrightarrow> clean_number ds = ds"
  using digits_no_char [of ds] by (simp add: clean_number_def)

lemma CreateJID_phone_digits:
  assumes "ds \<noteq> []" and "list_all is_digit ds" and "length ds < 18"
  shows "CreateJID (''+'' @ ds) = Inr (''+'' @ format_number ds @ ''@s.whatsapp.net'')"
proof -
  have "clean_number (''+'' @ ds) = ds"
    using clean_number_digits [OF assms(2)] by (simp add: clean_number_def remove_char_def)
  moreover have "only_digits ds = ds" using assms(2) by (simp add: only_digits_def list_all_iff)
  moreover have "\<not> is_jid_form (''+'' @ ds)"
    using assms(2) digits_no_char [of ds] by (auto dest!: is_jid_form_at)
  ultimately show ?thesis using assms
    by (simp add: CreateJID_unfold is_group_number_def Let_def del: append.simps)
qed

lemma split_first_phone:
  "list_all is_digit ds \<Longrightarrow>
   split_first (CHR ''@'') (''+'' @ ds @ ''@s.whatsapp.net'') = ''+'' @ ds"
proof -
  assume "list_all is_digit ds"
  then have "takeWhile (\<lambda>x. x \<noteq> CHR ''@'') (ds @ ''@s.whatsapp.net'') =
      ds @ takeWhile (\<lambda>x. x \<noteq> CHR ''@'') ''@s.whatsapp.net''"
    using digits_no_char [of ds "CHR ''@''"] by (intro takeWhile_append2) auto
  then show ?thesis by (simp add: split_first_def)
qed

lemma group_not_user:
  assumes "\<And>c. c \<in> set g \<Longrightarrow> is_digit c \<or> c = CHR ''-''"
  shows "\<not> contains (g @ ''@g.us'') ''@s.whatsapp.net''"
proof
  assume "contains (g @ ''@g.us'') ''@s.whatsapp.net''"
  then have "CHR ''w'' \<in> set (g @ ''@g.us'')" using contains_set by fastforce
  then have "CHR ''w'' \<in> set g" by simp
  then show False using assms by (fastforce simp: is_digit_def less_eq_char_def)
qed

lemma contains_phone: "contains (''+'' @ ds @ ''@s.whatsapp.net'') ''@s.whatsapp.net''"
  using contains_append_left [OF contains_self, of "''+'' @ ds" "''@s.whatsapp.net''"]
  by (simp only: append.assoc)

lemma prepare_one_phone:
  assumes "ds \<noteq> []" and "list_all is_digit ds" and "length ds < 18" and "format_number ds = ds"
  shows "prepare_one (''+'' @ ds) = ''+'' @ ds"
proof -
  have "CHR ''@'' \<notin> set (''+'' @ ds)" using assms(2) digits_no_char [of ds] by auto
  then have "\<not> contains (''+'' @ ds) ''@s.whatsapp.net''"
    using contains_set [of "''+'' @ ds" "''@s.whatsapp.net''"] by auto
  then show ?thesis
    using contains_phone [of ds] CreateJID_phone_digits [OF assms(1-3)] assms(4) split_first_phone [OF assms(2)]
    by (simp add: prepare_one_def Let_def)
qed

lemma CreateJID_fixed:
  assumes "CreateJID s = Inr j"
  shows "CreateJID j = Inr j"
  using CreateJID_result_form [OF assms] by (simp add: CreateJID_unfold)

section \<open>Properties\<close>



text \<open>
  A JID made by \<open>CreateJID\<close> is the argument itself when it already names a
  WhatsApp server, a group JID of digits and hyphens, or \<open>+\<close>, one to seventeen digits in
  their country's format and \<open>@s.whatsapp.net\<close>.
\<close>

theorem CreateJID_forms:
  assumes "CreateJID s = Inr j"
  shows "(is_jid_form s \<and> j = s) \<or>
    (\<exists>g. j = g @ ''@g.us'' \<and> set g \<subseteq> {c. is_digit c \<or> c = CHR ''-''} \<and> is_group_number s) \<or>
    (\<exists>ds. j = ''+'' @ ds @ ''@s.whatsapp.net'' \<and> list_all is_digit ds \<and>
      0 < length ds \<and> length ds < 18 \<and> format_number ds = ds)"
  using assms by (rule CreateJID_SomeE) blast+

lemma CreateJID_forms_witness:
  "CreateJID ''5216562938493'' = Inr ''+526562938493@s.whatsapp.net''"
proof -
  have h: "CreateJID ''5216562938493'' = Inr ''+526562938493@s.whatsapp.net''" by code_simp
  show ?thesis using h CreateJID_forms [OF h] by blast
qed

text \<open>
  \<open>CreateJID\<close> fails exactly on the empty string and on short strings that name no
  WhatsApp server and hold no digit before the first colon.
\<close>

theorem CreateJID_error_iff:
  "(\<exists>e. CreateJID s = Inl e) \<longleftrightarrow>
     s = [] \<or> (\<not> is_jid_form s \<and> \<not> is_group_number s \<and> only_digits (clean_number s) = [])"
  by (auto simp: CreateJID_unfold Let_def)

text \<open>
  Preparing numbers for the WhatsApp check is idempotent, so checking a number and then
  sending to the number that was checked use the same address.
\<close>

theorem PrepareNumbers_idempotent:
  "PrepareNumbersForWhatsAppCheck (PrepareNumbersForWhatsAppCheck ns f) f =
   PrepareNumbersForWhatsAppCheck ns f"
proof -
  have "prepare_one (prepare_one n) = prepare_one n" for n
  proof -
    define raw where "raw = (if contains n ''@s.whatsapp.net'' then split_first (CHR ''@'') n else n)"
    show ?thesis
    proof (cases "CreateJID raw")
      case (Inl e)
      then have "prepare_one n = n" by (simp add: prepare_one_def raw_def Let_def)
      then show ?thesis by simp
    next
      case (Inr j)
      then show ?thesis
      proof (cases rule: CreateJID_SomeE)
        case jid
        then have "\<not> contains n ''@s.whatsapp.net''"
          using is_jid_form_at [of raw] set_split_first [of "CHR ''@''" n]
          by (auto simp: raw_def split: if_splits)
        with Inr jid show ?thesis by (simp add: prepare_one_def raw_def Let_def)
      next
        case (group g)
        then have no: "\<not> contains j ''@s.whatsapp.net''" using group_not_user by blast
        with Inr have "prepare_one n = j" by (simp add: prepare_one_def raw_def Let_def)
        with no CreateJID_fixed [OF Inr] show ?thesis by (simp add: prepare_one_def Let_def)
      next
        case (phone ds)
        have "contains j ''@s.whatsapp.net''"
          using phone(7) contains_phone by simp
        with Inr phone(7) split_first_phone [OF phone(4)] have "prepare_one n = ''+'' @ ds"
          by (simp add: prepare_one_def raw_def Let_def)
        then show ?thesis using prepare_one_phone [OF phone(3-6)] by simp
      qed
    qed
  qed
  then show ?thesis
    by (cases f) (simp_all add: PrepareNumbersForWhatsAppCheck_def Let_def)
qed

text \<open>
  The separators people type in phone numbers do not matter: spaces, plus signs and
  parentheses can be removed from a string that names no server without changing its JID.
\<close>

theorem CreateJID_ignores_punctuation:
  assumes "CHR ''@'' \<notin> set s"
    and "t = filter (\<lambda>c. c \<notin> {CHR '' '', CHR ''+'', CHR ''('', CHR '')''}) s" and "t \<noteq> []"
  shows "CreateJID s = CreateJID t"
proof -
  have "clean_number t = clean_number s"
    unfolding clean_number_def remove_char_def assms(2) filter_filter
    by (rule arg_cong [where f = "split_first CHR '':''"], rule filter_cong) auto
  moreover have "\<not> is_jid_form s" and "\<not> is_jid_form t"
    using assms(1,2) is_jid_form_at by fastforce+
  ultimately show ?thesis using assms(2,3)
    by (auto simp: CreateJID_unfold is_group_number_def)
qed

lemma CreateJID_ignores_punctuation_witness:
  "CreateJID ''+1 (415) 5550100'' = CreateJID ''14155550100''"
  by (rule CreateJID_ignores_punctuation) simp_all

text \<open>
  The formats the comments document and those the code applies. The Argentine example
  of the comment (5411123456789 is left as it is) does not hold: the digit after the country
  code is removed; a Brazilian number of area code 31 or more loses the digit 7 or 8 after
  the area code as it does a 9; and eighteen letters give a group JID with an empty group id.
\<close>

theorem format_divergences:
  "formatMXOrARNumber ''5411123456789'' = ''541123456789'' \<and>
   formatBRNumber ''5531712345678'' = ''553112345678'' \<and>
   formatBRNumber ''5511912345678'' = ''5511912345678'' \<and>
   CreateJID ''abcdefghijklmnopqr'' = Inr ''@g.us''"
  by code_simp

end
