(* ===== verification/Jid_Middleware.thy ===== *)
theory Jid_Middleware
  imports Jid
begin

text \<open>
  The request middleware of \<open>pkg/middleware/jid_validation_middleware.go\<close>: it checks the
  phone numbers of a request body and replaces them by JIDs. A body is modelled by what
  reading and \<open>json.Unmarshal\<close> make of it: a read failure, a document that does not decode
  into an object, or the decoded object (\<open>null\<close> decodes into the empty one). Writing
  the changed object back (\<open>json.Marshal\<close> of decoded data does not fail) gives the new
  object. An abort is the status and the error text of the JSON answer; \<open>Next\<close>
  is \<open>c.Next()\<close> with the request the handlers after it see.
\<close>

section \<open>Requests\<close>

datatype req_body = Unreadable | Malformed | Doc json_object

record request =
  content_type :: string
  req_body :: req_body
  post_form :: "string \<Rightarrow> string"

datatype outcome = Next request | Abort int string

definition bad_request :: "string \<Rightarrow> outcome" where
  "bad_request msg = Abort 400 msg"

definition put_field :: "json_object \<Rightarrow> string \<Rightarrow> string \<Rightarrow> json_object" where
  "put_field d f s = AList.update f (JStr s) d"

text \<open>The answer for a number \<open>CreateJID\<close> refuses.\<close>

definition invalid_format :: "string \<Rightarrow> go_error \<Rightarrow> string" where
  "invalid_format field e = ''Invalid '' @ field @ '' format: '' @ err_text e"

definition required_msg :: "string \<Rightarrow> string" where
  "required_msg field = field @ '' is required and cannot be empty''"

text \<open>
  Reading and decoding the body, and writing it back when it was modified: the prologue and
  the epilogue all five validators share.
\<close>

definition with_json_body ::
  "request \<Rightarrow> (json_object \<Rightarrow> string + json_object \<times> bool) \<Rightarrow> outcome" where
  "with_json_body r check =
     (case req_body r of
        Unreadable \<Rightarrow> bad_request ''Failed to read request body''
      | Malformed \<Rightarrow> bad_request ''Invalid JSON format''
      | Doc d \<Rightarrow>
          (case check d of
             Inl msg \<Rightarrow> bad_request msg
           | Inr (d', modified) \<Rightarrow>
               if modified then Next (r\<lparr>req_body := Doc d'\<rparr>) else Next r))"

section \<open>Form fields\<close>

fun validateFormFields :: "request \<Rightarrow> string list \<Rightarrow> outcome" where
  "validateFormFields r [] = Next r"
| "validateFormFields r (f # fs) =
     (let value = post_form r f in
      if value \<noteq> [] then
        (case CreateJID value of
           Inl e \<Rightarrow> bad_request (invalid_format f e)
         | Inr _ \<Rightarrow> validateFormFields r fs)
      else if f = ''number'' then bad_request (required_msg f)
      else validateFormFields r fs)"

section \<open>Named fields\<close>

text \<open>
  The loop of \<open>ValidateJIDFields\<close>. A value that is no string leaves \<open>strValue\<close> empty, so
  it gets the same answer as the empty string.
\<close>

fun validate_fields :: "string list \<Rightarrow> json_object \<Rightarrow> bool \<Rightarrow> string + json_object \<times> bool" where
  "validate_fields [] d modified = Inr (d, modified)"
| "validate_fields (f # fs) d modified =
     (case map_of d f of
        None \<Rightarrow> validate_fields fs d modified
      | Some (JStr s) \<Rightarrow>
          if s \<noteq> [] then
            (case CreateJID s of
               Inl e \<Rightarrow> Inl (invalid_format f e)
             | Inr j \<Rightarrow>
                 if j \<noteq> s then validate_fields fs (put_field d f j) True
                 else validate_fields fs d modified)
          else Inl (required_msg f)
      | Some _ \<Rightarrow> Inl (required_msg f))"

definition ValidateJIDFields :: "string list \<Rightarrow> request \<Rightarrow> outcome" where
  "ValidateJIDFields fieldNames r =
     (if \<not> contains (content_type r) ''application/json'' then
        if contains (content_type r) ''multipart/form-data'' then validateFormFields r fieldNames
        else Next r
      else with_json_body r (\<lambda>d. validate_fields fieldNames d False))"

section \<open>The number field\<close>

definition item_name :: "string \<Rightarrow> nat \<Rightarrow> string" where
  "item_name field i = field @ ''['' @ show_nat i @ '']''"

text \<open>
  The loop over an array value; \<open>i\<close> is the index of the first item. With \<open>formatJid\<close> false
  the items are only checked to be non-empty strings.
\<close>

fun validate_items :: "string \<Rightarrow> bool \<Rightarrow> nat \<Rightarrow> json list \<Rightarrow> string + json list \<times> bool" where
  "validate_items field formatJid i [] = Inr ([], False)"
| "validate_items field formatJid i (v # vs) =
     (case v of
        JStr s \<Rightarrow>
          if s \<noteq> [] then
            (if formatJid then
               (case CreateJID s of
                  Inl e \<Rightarrow> Inl (invalid_format (item_name field i) e)
                | Inr j \<Rightarrow>
                    (case validate_items field formatJid (Suc i) vs of
                       Inl msg \<Rightarrow> Inl msg
                     | Inr (vs', m) \<Rightarrow> Inr (JStr j # vs', m \<or> j \<noteq> s)))
             else
               (case validate_items field formatJid (Suc i) vs of
                  Inl msg \<Rightarrow> Inl msg
                | Inr (vs', m) \<Rightarrow> Inr (v # vs', m)))
          else Inl (item_name field i @ '' cannot be empty'')
      | _ \<Rightarrow> Inl (item_name field i @ '' cannot be empty''))"

definition validate_number :: "bool \<Rightarrow> json_object \<Rightarrow> string + json_object \<times> bool" where
  "validate_number formatJid d =
     (case map_of d ''number'' of
        None \<Rightarrow> Inr (d, False)
      | Some (JArr items) \<Rightarrow>
          if items = [] then Inl ''number array cannot be empty''
          else (case validate_items ''number'' formatJid 0 items of
                  Inl msg \<Rightarrow> Inl msg
                | Inr (items', m) \<Rightarrow> Inr (AList.update ''number'' (JArr items') d, m))
      | Some (JStr s) \<Rightarrow>
          if s = [] then Inl (required_msg ''number'')
          else if formatJid then
            (case CreateJID s of
               Inl e \<Rightarrow> Inl (invalid_format ''number'' e)
             | Inr j \<Rightarrow> if j \<noteq> s then Inr (put_field d ''number'' j, True) else Inr (d, False))
          else Inr (d, False)
      | Some _ \<Rightarrow> Inl ''number must be a string or array of strings'')"

definition ValidateNumberField :: "request \<Rightarrow> outcome" where
  "ValidateNumberField r =
     (if \<not> contains (content_type r) ''application/json'' then
        if contains (content_type r) ''multipart/form-data'' then validateFormFields r [''number'']
        else Next r
      else with_json_body r (validate_number True))"

text \<open>\<open>formatJid\<close> defaults to true; a value that is no boolean is ignored.\<close>

definition formatJid_of :: "json_object \<Rightarrow> bool" where
  "formatJid_of d = (case map_of d ''formatJid'' of Some (JBool b) \<Rightarrow> b | _ \<Rightarrow> True)"

definition ValidateNumberFieldWithFormatJid :: "request \<Rightarrow> outcome" where
  "ValidateNumberFieldWithFormatJid r =
     (if \<not> contains (content_type r) ''application/json'' then Next r
      else with_json_body r (\<lambda>d. validate_number (formatJid_of d) d))"

section \<open>Several numbers\<close>

text \<open>Here an item that is no string, or an empty one, is left as it is.\<close>

fun validate_each :: "string \<Rightarrow> nat \<Rightarrow> json list \<Rightarrow> string + json list \<times> bool" where
  "validate_each field i [] = Inr ([], False)"
| "validate_each field i (v # vs) =
     (case (case v of
              JStr s \<Rightarrow>
                if s \<noteq> [] then
                  (case CreateJID s of
                     Inl e \<Rightarrow> Inl (invalid_format (item_name field i) e)
                   | Inr j \<Rightarrow> Inr (JStr j, j \<noteq> s))
                else Inr (v, False)
            | _ \<Rightarrow> Inr (v, False)) of
        Inl msg \<Rightarrow> Inl msg
      | Inr (v', changed) \<Rightarrow>
          (case validate_each field (Suc i) vs of
             Inl msg \<Rightarrow> Inl msg
           | Inr (vs', m) \<Rightarrow> Inr (v' # vs', m \<or> changed)))"

definition ValidateMultipleNumbers :: "string \<Rightarrow> request \<Rightarrow> outcome" where
  "ValidateMultipleNumbers fieldName r =
     (if \<not> contains (content_type r) ''application/json'' then Next r
      else with_json_body r (\<lambda>d.
        case map_of d fieldName of
          Some (JArr items) \<Rightarrow>
            (case validate_each fieldName 0 items of
               Inl msg \<Rightarrow> Inl msg
             | Inr (items', m) \<Rightarrow> Inr (AList.update fieldName (JArr items') d, m))
        | _ \<Rightarrow> Inr (d, False)))"

section \<open>Contacts\<close>

definition validate_vcard :: "json_object \<Rightarrow> string option" where
  "validate_vcard d =
     (case map_of d ''vcard'' of
        Some (JObj vcard) \<Rightarrow>
          (case map_of vcard ''phone'' of
             Some (JStr phone) \<Rightarrow>
               if phone \<noteq> [] then
                 (case CreateJID phone of
                    Inl e \<Rightarrow> Some (invalid_format ''vcard phone'' e)
                  | Inr _ \<Rightarrow> None)
               else None
           | _ \<Rightarrow> None)
      | _ \<Rightarrow> None)"

definition validate_contact :: "json_object \<Rightarrow> string + json_object \<times> bool" where
  "validate_contact d =
     (case (case map_of d ''number'' of
              Some (JStr s) \<Rightarrow>
                if s \<noteq> [] then
                  (case CreateJID s of
                     Inl e \<Rightarrow> Inl (invalid_format ''number'' e)
                   | Inr j \<Rightarrow> if j \<noteq> s then Inr (put_field d ''number'' j, True) else Inr (d, False))
                else Inr (d, False)
            | _ \<Rightarrow> Inr (d, False)) of
        Inl msg \<Rightarrow> Inl msg
      | Inr (d', modified) \<Rightarrow>
          (case validate_vcard d' of
             Some msg \<Rightarrow> Inl msg
           | None \<Rightarrow> Inr (d', modified)))"

definition ValidateContactFields :: "request \<Rightarrow> outcome" where
  "ValidateContactFields r =
     (if \<not> contains (content_type r) ''application/json'' then Next r
      else with_json_body r validate_contact)"

section \<open>Lemmas\<close>

lemma map_of_update [simp]:
  "map_of (AList.update k v d) k' = (if k' = k then Some v else map_of d k')"
  by (simp add: update_conv')

lemma map_of_put_field [simp]:
  "map_of (put_field d f s) k = (if k = f then Some (JStr s) else map_of d k)"
  by (simp add: put_field_def)

lemma with_json_body_Next:
  "with_json_body r check = Next r' \<longleftrightarrow>
     (\<exists>d d' m. req_body r = Doc d \<and> check d = Inr (d', m) \<and>
        r' = (if m then r\<lparr>req_body := Doc d'\<rparr> else r))"
  by (auto simp: with_json_body_def bad_request_def split: req_body.splits sum.splits)

lemma with_json_body_status: "with_json_body r check = Abort n msg \<Longrightarrow> n = 400"
  by (auto simp: with_json_body_def bad_request_def split: req_body.splits sum.splits if_splits)

text \<open>What the loop over named fields makes of one of them.\<close>

definition normalized :: "json option \<Rightarrow> json option \<Rightarrow> bool" where
  "normalized v v' \<longleftrightarrow>
     (case v of
        None \<Rightarrow> v' = None
      | Some (JStr s) \<Rightarrow> s \<noteq> [] \<and> (\<exists>j. CreateJID s = Inr j \<and> v' = Some (JStr j))
      | Some _ \<Rightarrow> False)"

lemma normalized_trans: "normalized u v \<Longrightarrow> normalized v w \<Longrightarrow> normalized u w"
  by (auto simp: normalized_def dest: CreateJID_fixed split: option.splits json.splits)

lemma normalized_fixed: "normalized u v \<Longrightarrow> normalized v v"
  using CreateJID_fixed CreateJID_result_form
  by (fastforce simp: normalized_def split: option.splits json.splits)

lemma normalized_selfD:
  "normalized v v \<Longrightarrow> v = None \<or> (\<exists>j. v = Some (JStr j) \<and> j \<noteq> [] \<and> CreateJID j = Inr j)"
  by (auto simp: normalized_def split: option.splits json.splits)

lemma validate_fields_step:
  assumes "validate_fields (f # fs) d m = Inr (d', m')"
  obtains (absent) "map_of d f = None" "validate_fields fs d m = Inr (d', m')"
  | (present) s j where "map_of d f = Some (JStr s)" "s \<noteq> []" "CreateJID s = Inr j"
      "validate_fields fs (if j = s then d else put_field d f j) (m \<or> j \<noteq> s) = Inr (d', m')"
  using assms by (auto split: option.splits json.splits if_splits sum.splits)

lemma validate_fields_frame:
  "validate_fields fs d m = Inr (d', m') \<Longrightarrow> k \<notin> set fs \<Longrightarrow> map_of d' k = map_of d k"
proof (induction fs arbitrary: d m)
  case Nil
  then show ?case by simp
next
  case (Cons f fs)
  from Cons.prems(1) show ?case
  proof (cases rule: validate_fields_step)
    case absent
    with Cons show ?thesis by simp
  next
    case (present s j)
    with Cons.IH [OF present(4)] Cons.prems(2) show ?thesis by (simp split: if_splits)
  qed
qed

lemma validate_fields_normalized:
  "validate_fields fs d m = Inr (d', m') \<Longrightarrow> f \<in> set fs \<Longrightarrow> normalized (map_of d f) (map_of d' f)"
proof (induction fs arbitrary: d m)
  case Nil
  then show ?case by simp
next
  case (Cons g fs)
  from Cons.prems(1) show ?case
  proof (cases rule: validate_fields_step)
    case absent
    show ?thesis
    proof (cases "f \<in> set fs")
      case True
      with Cons.IH absent show ?thesis by blast
    next
      case False
      with absent validate_fields_frame Cons.prems(2) show ?thesis by (auto simp: normalized_def)
    qed
  next
    case (present s j)
    let ?d = "if j = s then d else put_field d g j"
    have g: "map_of ?d g = Some (JStr j)" using present(1) by simp
    have step: "normalized (map_of d g) (map_of ?d g)" using present g by (simp add: normalized_def)
    show ?thesis
    proof (cases "f \<in> set fs")
      case True
      with Cons.IH [OF present(4)] have tl: "normalized (map_of ?d f) (map_of d' f)" by simp
      show ?thesis
      proof (cases "f = g")
        case True
        with step tl show ?thesis by (blast intro: normalized_trans)
      next
        case False
        then have "map_of ?d f = map_of d f" by simp
        with tl show ?thesis by simp
      qed
    next
      case False
      then have "f = g" using Cons.prems(2) by simp
      moreover have "map_of d' f = map_of ?d f" using present(4) False by (rule validate_fields_frame)
      ultimately show ?thesis using step by simp
    qed
  qed
qed

lemma validate_fields_fixed:
  "(\<And>f. f \<in> set fs \<Longrightarrow> normalized (map_of d f) (map_of d f)) \<Longrightarrow> validate_fields fs d m = Inr (d, m)"
proof (induction fs)
  case Nil
  then show ?case by simp
next
  case (Cons f fs)
  have "normalized (map_of d f) (map_of d f)" using Cons.prems by simp
  moreover have "validate_fields fs d m = Inr (d, m)" using Cons by simp
  ultimately show ?case by (auto dest!: normalized_selfD)
qed

lemma validate_fields_unmodified:
  "validate_fields fs d m = Inr (d', m') \<Longrightarrow> (m \<longrightarrow> m') \<and> (\<not> m' \<longrightarrow> d' = d)"
proof (induction fs arbitrary: d m)
  case Nil
  then show ?case by simp
next
  case (Cons f fs)
  from Cons.prems show ?case
  proof (cases rule: validate_fields_step)
    case absent
    with Cons.IH show ?thesis by blast
  next
    case (present s j)
    with Cons.IH [OF present(4)] show ?thesis by (auto split: if_splits)
  qed
qed

text \<open>Array items: every item of the result is a JID, and checking the result changes nothing.\<close>

lemma validate_items_fixed:
  "validate_items f b i vs = Inr (vs', m) \<Longrightarrow>
   (\<exists>m'. validate_items f b k vs' = Inr (vs', False)) \<and> (\<not> m \<longrightarrow> vs' = vs) \<and> length vs' = length vs"
proof (induction vs arbitrary: i k vs' m)
  case Nil
  then show ?case by simp
next
  case (Cons v vs)
  from Cons.prems obtain s vs'' m'' where v: "v = JStr s" "s \<noteq> []"
    and tl: "validate_items f b (Suc i) vs = Inr (vs'', m'')"
    by (auto split: json.splits if_splits sum.splits)
  note IH = Cons.IH [OF tl, of "Suc k"]
  show ?case
  proof (cases b)
    case True
    with Cons.prems v tl obtain j where j: "CreateJID s = Inr j"
      and r: "vs' = JStr j # vs''" "m = (m'' \<or> j \<noteq> s)"
      by (auto split: sum.splits)
    from CreateJID_fixed [OF j] CreateJID_result_form [OF j] r IH True v show ?thesis by auto
  next
    case False
    with Cons.prems v tl IH show ?thesis by auto
  qed
qed

lemma validate_number_fixed:
  assumes "validate_number b d = Inr (d', m)"
  shows "\<exists>d''. validate_number b (if m then d' else d) = Inr (d'', False)"
proof (cases "map_of d ''number''")
  case None
  with assms show ?thesis by (simp add: validate_number_def)
next
  case (Some v)
  show ?thesis
  proof (cases v)
    case (JStr s)
    with Some assms show ?thesis
      using CreateJID_fixed CreateJID_result_form
      by (fastforce simp: validate_number_def split: if_splits sum.splits)
  next
    case (JArr vs)
    with Some assms obtain vs' where vs: "vs \<noteq> []" "validate_items ''number'' b 0 vs = Inr (vs', m)"
      and d': "d' = AList.update ''number'' (JArr vs') d"
      by (auto simp: validate_number_def split: if_splits sum.splits)
    from validate_items_fixed [OF vs(2), of 0]
    have "validate_items ''number'' b 0 vs' = Inr (vs', False)" "\<not> m \<longrightarrow> vs' = vs" "vs' \<noteq> []"
      using vs(1) by auto
    with Some JArr d' vs show ?thesis by (auto simp: validate_number_def)
  qed (use Some assms in \<open>simp_all add: validate_number_def\<close>)
qed

lemma validate_number_keeps_format:
  "validate_number b d = Inr (d', m) \<Longrightarrow> formatJid_of d' = formatJid_of d"
  by (auto simp: validate_number_def formatJid_of_def split: option.splits json.splits if_splits sum.splits)

lemma validateFormFields_Next: "validateFormFields r fs = Next r' \<Longrightarrow> r' = r"
  by (induction fs) (auto simp: bad_request_def Let_def split: if_splits sum.splits)

lemma with_json_body_content_type: "with_json_body r check = Next r' \<Longrightarrow> content_type r' = content_type r"
  by (auto simp: with_json_body_Next)

text \<open>A validator that accepts its own results accepts the requests it passed on.\<close>

lemma with_json_body_again:
  assumes "with_json_body r check = Next r'"
    and "\<And>d d' m. check d = Inr (d', m) \<Longrightarrow> \<exists>d''. check (if m then d' else d) = Inr (d'', False)"
  shows "with_json_body r' check = Next r'"
proof -
  from assms(1) obtain d d' m where d: "req_body r = Doc d" "check d = Inr (d', m)"
    and r': "r' = (if m then r\<lparr>req_body := Doc d'\<rparr> else r)"
    by (auto simp: with_json_body_Next)
  then have "req_body r' = Doc (if m then d' else d)" by simp
  with assms(2) [OF d(2)] show ?thesis by (auto simp: with_json_body_def)
qed

lemma ValidateNumberField_again:
  assumes "ValidateNumberField r = Next r'"
  shows "ValidateNumberField r' = Next r'"
proof (cases "contains (content_type r) ''application/json''")
  case True
  with assms have b: "with_json_body r (validate_number True) = Next r'"
    by (simp add: ValidateNumberField_def)
  with True with_json_body_again [OF b validate_number_fixed] with_json_body_content_type [OF b]
  show ?thesis by (simp add: ValidateNumberField_def)
next
  case False
  with assms have "r' = r"
    by (auto simp: ValidateNumberField_def simp del: validateFormFields.simps
        dest: validateFormFields_Next split: if_splits)
  with assms show ?thesis by simp
qed

lemma ValidateNumberFieldWithFormatJid_again:
  assumes "ValidateNumberFieldWithFormatJid r = Next r'"
  shows "ValidateNumberFieldWithFormatJid r' = Next r'"
proof (cases "contains (content_type r) ''application/json''")
  case True
  with assms have b: "with_json_body r (\<lambda>d. validate_number (formatJid_of d) d) = Next r'"
    by (simp add: ValidateNumberFieldWithFormatJid_def)
  have "with_json_body r' (\<lambda>d. validate_number (formatJid_of d) d) = Next r'"
  proof (rule with_json_body_again [OF b])
    fix d d' m assume v: "validate_number (formatJid_of d) d = Inr (d', m)"
    from validate_number_keeps_format [OF v] validate_number_fixed [OF v]
    show "\<exists>d''. validate_number (formatJid_of (if m then d' else d)) (if m then d' else d) = Inr (d'', False)"
      by (cases m) auto
  qed
  with True with_json_body_content_type [OF b] show ?thesis
    by (simp add: ValidateNumberFieldWithFormatJid_def)
next
  case False
  with assms show ?thesis by (auto simp: ValidateNumberFieldWithFormatJid_def)
qed

lemma ValidateJIDFields_again:
  assumes "ValidateJIDFields fs r = Next r'"
  shows "ValidateJIDFields fs r' = Next r'"
proof (cases "contains (content_type r) ''application/json''")
  case True
  with assms have b: "with_json_body r (\<lambda>d. validate_fields fs d False) = Next r'"
    by (simp add: ValidateJIDFields_def)
  have "with_json_body r' (\<lambda>d. validate_fields fs d False) = Next r'"
  proof (rule with_json_body_again [OF b])
    fix d d' m assume v: "validate_fields fs d False = Inr (d', m)"
    have "(if m then d' else d) = d'" using validate_fields_unmodified [OF v] by simp
    moreover have "validate_fields fs d' False = Inr (d', False)"
      using validate_fields_normalized [OF v] normalized_fixed by (intro validate_fields_fixed) blast
    ultimately show "\<exists>d''. validate_fields fs (if m then d' else d) False = Inr (d'', False)" by simp
  qed
  with True with_json_body_content_type [OF b] show ?thesis by (simp add: ValidateJIDFields_def)
next
  case False
  with assms have "r' = r"
    by (auto simp: ValidateJIDFields_def dest: validateFormFields_Next split: if_splits)
  with assms show ?thesis by simp
qed

section \<open>Properties\<close>

text \<open>
  \<open>ValidateJIDFields\<close> passes a JSON request on only when every named field that is
  present is a non-empty string \<open>CreateJID\<close> accepts; the request it passes on holds that
  JID in the field and every other field as it was.
\<close>

theorem ValidateJIDFields_normalizes:
  assumes "contains (content_type r) ''application/json''"
    and "ValidateJIDFields fs r = Next r'"
  shows "\<exists>d d'. req_body r = Doc d \<and> req_body r' = Doc d' \<and> content_type r' = content_type r \<and>
    (\<forall>k. k \<notin> set fs \<longrightarrow> map_of d' k = map_of d k) \<and>
    (\<forall>f \<in> set fs. case map_of d f of
        None \<Rightarrow> map_of d' f = None
      | Some (JStr s) \<Rightarrow> s \<noteq> [] \<and> (\<exists>j. CreateJID s = Inr j \<and> map_of d' f = Some (JStr j))
      | Some _ \<Rightarrow> False)"
proof -
  from assms obtain d d' m where d: "req_body r = Doc d" "validate_fields fs d False = Inr (d', m)"
    and r': "r' = (if m then r\<lparr>req_body := Doc d'\<rparr> else r)"
    by (auto simp: ValidateJIDFields_def with_json_body_Next)
  from validate_fields_unmodified [OF d(2)] d(1) r' have "req_body r' = Doc d'" by auto
  moreover have "content_type r' = content_type r" by (simp add: r')
  ultimately show ?thesis
    using d validate_fields_frame [OF d(2)] validate_fields_normalized [OF d(2)]
    unfolding normalized_def by blast
qed

definition sample_request :: "json_object \<Rightarrow> request" where
  "sample_request d = \<lparr>content_type = ''application/json'', req_body = Doc d, post_form = (\<lambda>_. [])\<rparr>"

lemma ValidateJIDFields_normalizes_witness:
  "\<exists>r'. ValidateJIDFields [''number''] (sample_request [(''number'', JStr ''14155550100'')]) = Next r' \<and>
     req_body r' = Doc [(''number'', JStr ''+14155550100@s.whatsapp.net'')]"
proof -
  let ?r = "sample_request [(''number'', JStr ''14155550100'')]"
  let ?r' = "sample_request [(''number'', JStr ''+14155550100@s.whatsapp.net'')]"
  have c: "contains (content_type ?r) ''application/json''" by (simp add: sample_request_def)
  have j: "CreateJID ''14155550100'' = Inr ''+14155550100@s.whatsapp.net''" by code_simp
  have h: "ValidateJIDFields [''number''] ?r = Next ?r'"
    by (simp add: ValidateJIDFields_def with_json_body_def sample_request_def j put_field_def)
  show ?thesis using ValidateJIDFields_normalizes [OF c h] h by (auto simp: sample_request_def)
qed

text \<open>
  The number validators are idempotent: a request one of them passed on is passed on
  unchanged when it meets the same validator again.
\<close>

theorem number_validators_idempotent:
  "(ValidateNumberField r = Next r' \<longrightarrow> ValidateNumberField r' = Next r') \<and>
   (ValidateNumberFieldWithFormatJid r = Next r' \<longrightarrow> ValidateNumberFieldWithFormatJid r' = Next r') \<and>
   (ValidateJIDFields fs r = Next r' \<longrightarrow> ValidateJIDFields fs r' = Next r')"
  using ValidateNumberField_again ValidateNumberFieldWithFormatJid_again ValidateJIDFields_again
  by blast

lemma number_validators_idempotent_witness:
  "ValidateNumberField (sample_request [(''number'', JArr [JStr ''14155550100''])]) =
     Next (sample_request [(''number'', JArr [JStr ''+14155550100@s.whatsapp.net''])]) \<and>
   ValidateNumberField (sample_request [(''number'', JArr [JStr ''+14155550100@s.whatsapp.net''])]) =
     Next (sample_request [(''number'', JArr [JStr ''+14155550100@s.whatsapp.net''])])"
proof -
  have j: "CreateJID ''14155550100'' = Inr ''+14155550100@s.whatsapp.net''" by code_simp
  have h: "ValidateNumberField (sample_request [(''number'', JArr [JStr ''14155550100''])]) =
     Next (sample_request [(''number'', JArr [JStr ''+14155550100@s.whatsapp.net''])])"
    by (simp add: ValidateNumberField_def with_json_body_def validate_number_def sample_request_def j)
  show ?thesis using h number_validators_idempotent by blast
qed

definition acceptable_number :: "json option \<Rightarrow> bool" where
  "acceptable_number v \<longleftrightarrow>
     (case v of
        None \<Rightarrow> True
      | Some (JStr s) \<Rightarrow> s \<noteq> []
      | Some (JArr vs) \<Rightarrow> vs \<noteq> [] \<and> (\<forall>x \<in> set vs. \<exists>s. x = JStr s \<and> s \<noteq> [])
      | Some _ \<Rightarrow> False)"

lemma validate_items_raw_ok:
  "\<forall>x \<in> set vs. \<exists>s. x = JStr s \<and> s \<noteq> [] \<Longrightarrow> validate_items f False i vs = Inr (vs, False)"
  by (induction vs arbitrary: i) auto

lemma validate_items_raw_error:
  "x \<in> set vs \<Longrightarrow> \<not> (\<exists>s. x = JStr s \<and> s \<noteq> []) \<Longrightarrow> \<exists>msg. validate_items f False i vs = Inl msg"
proof (induction vs arbitrary: i)
  case Nil
  then show ?case by simp
next
  case (Cons v vs)
  show ?case
  proof (cases "x = v")
    case True
    with Cons.prems show ?thesis by (cases v) auto
  next
    case False
    with Cons obtain msg where "validate_items f False (Suc i) vs = Inl msg" by auto
    then show ?thesis by (cases v) auto
  qed
qed

lemma validate_number_raw:
  "(\<exists>d'. validate_number False d = Inr (d', False)) \<and> acceptable_number (map_of d ''number'') \<or>
   (\<exists>msg. validate_number False d = Inl msg) \<and> \<not> acceptable_number (map_of d ''number'')"
proof (cases "\<exists>vs. map_of d ''number'' = Some (JArr vs)")
  case True
  then obtain vs where vs: "map_of d ''number'' = Some (JArr vs)" by blast
  show ?thesis
  proof (cases "\<forall>x \<in> set vs. \<exists>s. x = JStr s \<and> s \<noteq> []")
    case True
    with vs validate_items_raw_ok show ?thesis
      by (simp add: validate_number_def acceptable_number_def)
  next
    case False
    then obtain msg where "validate_items ''number'' False 0 vs = Inl msg"
      using validate_items_raw_error by blast
    with vs False show ?thesis by (auto simp: validate_number_def acceptable_number_def)
  qed
next
  case False
  then show ?thesis
    by (auto simp: validate_number_def acceptable_number_def split: option.splits json.splits)
qed

text \<open>
  With \<open>formatJid\<close> false the validator changes nothing: it passes a JSON object on as it
  came, exactly when the number is absent, a non-empty string, or a non-empty array of
  non-empty strings, and answers 400 otherwise.
\<close>

theorem raw_numbers_untouched:
  assumes "contains (content_type r) ''application/json''" and "req_body r = Doc d"
    and "map_of d ''formatJid'' = Some (JBool False)"
  shows "ValidateNumberFieldWithFormatJid r = Next r \<and> acceptable_number (map_of d ''number'') \<or>
    (\<exists>msg. ValidateNumberFieldWithFormatJid r = Abort 400 msg) \<and> \<not> acceptable_number (map_of d ''number'')"
proof -
  have f: "formatJid_of d = False" using assms(3) by (simp add: formatJid_of_def)
  show ?thesis using validate_number_raw [of d] assms f
    by (auto simp: ValidateNumberFieldWithFormatJid_def with_json_body_def bad_request_def)
qed

lemma raw_numbers_untouched_witness:
  "\<exists>d. d = [(''formatJid'', JBool False), (''number'', JStr ''5511999'')] \<and>
     ValidateNumberFieldWithFormatJid (sample_request d) = Next (sample_request d)"
proof -
  let ?d = "[(''formatJid'', JBool False), (''number'', JStr ''5511999'')]"
  have h: "contains (content_type (sample_request ?d)) ''application/json''"
    "req_body (sample_request ?d) = Doc ?d" "map_of ?d ''formatJid'' = Some (JBool False)"
    by (simp_all add: sample_request_def)
  have "acceptable_number (map_of ?d ''number'')" by (simp add: acceptable_number_def)
  with raw_numbers_untouched [OF h] show ?thesis by blast
qed

end
