(* ===== verification/Rate_Limit.thy ===== *)
theory Rate_Limit
  imports Prelude
begin

text \<open>
  The rate limiter of \<open>internal/middleware/rate_limit.go\<close>: the in-memory store of
  fixed-window counters and the two middlewares that use a store. The contract between them
  is the locale \<open>rate_store\<close>. The clock readings of a call are arguments.
\<close>

section \<open>Policies, decisions, keys\<close>

record RateLimitPolicy =
  rl_name :: string
  rl_limit :: int
  rl_window :: duration

record RateLimitDecision =
  rd_allowed :: bool
  rd_remaining :: int
  rd_reset_at :: time
  rd_scope :: string
  rd_policy :: string
  rd_limit :: int
  rd_current_hits :: int

definition MessageRateLimitPolicy :: "int \<Rightarrow> RateLimitPolicy" where
  "MessageRateLimitPolicy limit = \<lparr>rl_name = ''messages_per_minute'', rl_limit = limit, rl_window = minute\<rparr>"

definition SearchRateLimitPolicy :: "int \<Rightarrow> RateLimitPolicy" where
  "SearchRateLimitPolicy limit = \<lparr>rl_name = ''search_per_minute'', rl_limit = limit, rl_window = minute\<rparr>"

definition BroadcastRateLimitPolicy :: "int \<Rightarrow> RateLimitPolicy" where
  "BroadcastRateLimitPolicy limit = \<lparr>rl_name = ''broadcast_per_hour'', rl_limit = limit, rl_window = hour\<rparr>"

definition WebhookRateLimitPolicy :: "int \<Rightarrow> RateLimitPolicy" where
  "WebhookRateLimitPolicy limit = \<lparr>rl_name = ''webhook_calls_per_minute'', rl_limit = limit, rl_window = minute\<rparr>"

definition LoginRateLimitPolicy :: "int \<Rightarrow> RateLimitPolicy" where
  "LoginRateLimitPolicy limit = \<lparr>rl_name = ''login_per_minute'', rl_limit = limit, rl_window = minute\<rparr>"

definition scopedRateLimitKey :: "string \<Rightarrow> string \<Rightarrow> string \<Rightarrow> string" where
  "scopedRateLimitKey policyName scope subject = join '':'' [''rate_limit'', policyName, scope, subject]"

section \<open>The in-memory store\<close>

record memoryRateLimitEntry =
  rle_count :: int
  rle_window_end :: time

type_synonym MemoryRateLimitStore = "string \<rightharpoonup> memoryRateLimitEntry"

definition NewMemoryRateLimitStore :: MemoryRateLimitStore where
  "NewMemoryRateLimitStore = Map.empty"

text \<open>Every backend name, \<open>redis\<close> included, gives the in-memory store.\<close>

definition NewRateLimitStore :: "string \<Rightarrow> MemoryRateLimitStore" where
  "NewRateLimitStore backend =
     (if lower_trim backend \<in> {'''', ''memory''} then NewMemoryRateLimitStore
      else if lower_trim backend = ''redis'' then NewMemoryRateLimitStore
      else NewMemoryRateLimitStore)"

definition pruneExpired :: "time \<Rightarrow> MemoryRateLimitStore \<Rightarrow> MemoryRateLimitStore" where
  "pruneExpired now entries =
     delete_where (\<lambda>e. rle_window_end e \<noteq> 0 \<and> now > rle_window_end e) entries"

type_synonym 's rate_allow =
  "time \<Rightarrow> string \<Rightarrow> int \<Rightarrow> duration \<Rightarrow> 's \<Rightarrow> (go_error + RateLimitDecision) \<times> 's"

definition memory_Allow :: "MemoryRateLimitStore rate_allow" where
  "memory_Allow now key limit window s =
     (if limit \<le> 0 then
        (Inr \<lparr>rd_allowed = True, rd_remaining = 0, rd_reset_at = now + window, rd_scope = [],
              rd_policy = [], rd_limit = limit, rd_current_hits = 0\<rparr>, s)
      else
        (let s = pruneExpired now s;
             entry = (case s key of None \<Rightarrow> \<lparr>rle_count = 0, rle_window_end = 0\<rparr> | Some e \<Rightarrow> e);
             entry = (if rle_window_end entry = 0 \<or> now > rle_window_end entry
                      then \<lparr>rle_count = 0, rle_window_end = now + window\<rparr> else entry);
             entry = entry\<lparr>rle_count := rle_count entry + 1\<rparr>;
             s = s(key \<mapsto> entry);
             remaining = limit - rle_count entry
         in (Inr \<lparr>rd_allowed = (rle_count entry \<le> limit),
                  rd_remaining = (if remaining < 0 then 0 else remaining),
                  rd_reset_at = rle_window_end entry, rd_scope = [], rd_policy = [],
                  rd_limit = limit, rd_current_hits = rle_count entry\<rparr>, s)))"

definition redis_Allow :: "'s rate_allow" where
  "redis_Allow now key limit window s =
     (Inl (plain_error ''redis rate limit store not implemented yet''), s)"

section \<open>The middlewares\<close>

text \<open>
  A request is what the middlewares read of it. The body is absent (or of length 0), fails to
  read, is blank, does not decode into an object, or decodes.
\<close>

datatype rl_body = NoBody | BodyReadError go_error | BlankBody | BadJson go_error | JsonBody json_object

record rl_request =
  rl_tenant_id :: string
  rl_client_ip :: string
  rl_header :: "string \<Rightarrow> string"
  rl_param :: "string \<Rightarrow> string"
  rl_query :: "string \<Rightarrow> string"
  rl_body :: rl_body

datatype rl_outcome =
    RlError go_error
  | RlLimited RateLimitDecision int
  | RlNext "(string \<times> string) list" "string option"

text \<open>\<open>abortRateLimited\<close>: status 429 with the decision and the seconds left.\<close>

definition abortRateLimited :: "time \<Rightarrow> RateLimitDecision \<Rightarrow> rl_outcome" where
  "abortRateLimited now d =
     (let retryAfter = (rd_reset_at d - now) div second
      in RlLimited d (if retryAfter < 0 then 0 else retryAfter))"

fun first_string :: "string list \<Rightarrow> json_object \<Rightarrow> string" where
  "first_string [] payload = []"
| "first_string (k # ks) payload =
     (case map_of payload k of
        Some (JStr value) \<Rightarrow> trim_space value
      | _ \<Rightarrow> first_string ks payload)"

definition extractInstanceID :: "rl_request \<Rightarrow> go_error + string" where
  "extractInstanceID r =
     (let h = trim_space (rl_header r ''X-Instance-ID'');
          p1 = trim_space (rl_param r ''instance_id'');
          p2 = trim_space (rl_param r ''instanceID'');
          p3 = trim_space (rl_param r ''id'');
          p4 = trim_space (rl_param r ''instanceName'');
          q1 = trim_space (rl_query r ''instance_id'');
          q2 = trim_space (rl_query r ''instanceId'')
      in if h \<noteq> [] then Inr h
         else if p1 \<noteq> [] then Inr p1
         else if p2 \<noteq> [] then Inr p2
         else if p3 \<noteq> [] then Inr p3
         else if p4 \<noteq> [] then Inr p4
         else if q1 \<noteq> [] then Inr q1
         else if q2 \<noteq> [] then Inr q2
         else case rl_body r of
           NoBody \<Rightarrow> Inr []
         | BodyReadError e \<Rightarrow> Inl e
         | BlankBody \<Rightarrow> Inr []
         | BadJson e \<Rightarrow> Inl e
         | JsonBody payload \<Rightarrow> Inr (first_string [''instance_id'', ''instanceId''] payload))"

text \<open>
  \<open>t\<close> and \<open>t'\<close> are the clock readings of a store call and of the abort that may
  follow it.
\<close>

definition MiddlewareByIP ::
  "'s rate_allow \<Rightarrow> RateLimitPolicy \<Rightarrow> rl_request \<Rightarrow> time \<Rightarrow> time \<Rightarrow> 's \<Rightarrow> rl_outcome \<times> 's" where
  "MiddlewareByIP allow p r t t' s =
     (let key = scopedRateLimitKey (rl_name p) ''ip'' (rl_client_ip r) in
      case allow t key (rl_limit p) (rl_window p) s of
        (Inl e, s) \<Rightarrow> (RlError e, s)
      | (Inr d, s) \<Rightarrow>
          let d = d\<lparr>rd_scope := ''ip'', rd_policy := rl_name p\<rparr> in
          if \<not> rd_allowed d then (abortRateLimited t' d, s) else (RlNext [] None, s))"

definition Middleware ::
  "'s rate_allow \<Rightarrow> RateLimitPolicy \<Rightarrow> rl_request \<Rightarrow> time \<Rightarrow> time \<Rightarrow> time \<Rightarrow> 's \<Rightarrow> rl_outcome \<times> 's" where
  "Middleware allow p r t1 t2 t' s =
     (if rl_tenant_id r = [] then (RlError (sentinel_error ErrUnauthorized), s)
      else case extractInstanceID r of
        Inl _ \<Rightarrow> (RlError (wrap ErrValidation ''invalid request body for rate limiting''), s)
      | Inr instanceID \<Rightarrow>
          let tenantKey = scopedRateLimitKey (rl_name p) ''tenant'' (rl_tenant_id r) in
          case allow t1 tenantKey (rl_limit p) (rl_window p) s of
            (Inl e, s) \<Rightarrow> (RlError e, s)
          | (Inr td, s) \<Rightarrow>
              let td = td\<lparr>rd_scope := ''tenant'', rd_policy := rl_name p\<rparr>;
                  headers = [(''X-RateLimit-Policy'', rl_name p),
                             (''X-RateLimit-Limit'', show_int (rd_limit td)),
                             (''X-RateLimit-Remaining'', show_int (rd_remaining td)),
                             (''X-RateLimit-Reset'', show_int (unix (rd_reset_at td)))]
              in if \<not> rd_allowed td then (abortRateLimited t' td, s)
                 else if instanceID = [] then (RlNext headers None, s)
                 else let instanceKey = scopedRateLimitKey (rl_name p) ''instance''
                                          (rl_tenant_id r @ '':'' @ instanceID) in
                   case allow t2 instanceKey (rl_limit p) (rl_window p) s of
                     (Inl e, s) \<Rightarrow> (RlError e, s)
                   | (Inr d, s) \<Rightarrow>
                       let d = d\<lparr>rd_scope := ''instance'', rd_policy := rl_name p\<rparr> in
                       if \<not> rd_allowed d then (abortRateLimited t' d, s)
                       else (RlNext ((''X-RateLimit-Instance-Remaining'', show_int (rd_remaining d))
                               # headers) (Some instanceID), s))"

section \<open>Keys\<close>

lemma scoped_key_eq:
  "scopedRateLimitKey n sc su = scopedRateLimitKey n sc' su' \<longleftrightarrow> sc @ '':'' @ su = sc' @ '':'' @ su'"
  by (simp add: scopedRateLimitKey_def)

lemma tenant_key_inject [simp]:
  "scopedRateLimitKey n ''tenant'' a = scopedRateLimitKey n ''tenant'' b \<longleftrightarrow> a = b"
  "scopedRateLimitKey n ''instance'' a = scopedRateLimitKey n ''instance'' b \<longleftrightarrow> a = b"
  "scopedRateLimitKey n ''ip'' a = scopedRateLimitKey n ''ip'' b \<longleftrightarrow> a = b"
  by (simp_all add: scoped_key_eq)

lemma scope_keys_differ [simp]:
  "scopedRateLimitKey n ''tenant'' a \<noteq> scopedRateLimitKey n ''instance'' b"
  "scopedRateLimitKey n ''instance'' a \<noteq> scopedRateLimitKey n ''tenant'' b"
  "scopedRateLimitKey n ''tenant'' a \<noteq> scopedRateLimitKey n ''ip'' b"
  "scopedRateLimitKey n ''ip'' a \<noteq> scopedRateLimitKey n ''tenant'' b"
  "scopedRateLimitKey n ''instance'' a \<noteq> scopedRateLimitKey n ''ip'' b"
  by (simp_all add: scoped_key_eq)

lemma instance_subject_inject:
  assumes "CHR '':'' \<notin> set a" and "CHR '':'' \<notin> set b" and "a @ '':'' @ x = b @ '':'' @ y"
  shows "a = b \<and> x = y"
proof -
  have "split_first CHR '':'' (a @ '':'' @ x) = a" "split_first CHR '':'' (b @ '':'' @ y) = b"
    using assms(1,2) by (auto simp: split_first_def takeWhile_append)
  with assms(3) show ?thesis by auto
qed

section \<open>The contract of a store\<close>

text \<open>
  \<open>hits s t k\<close> is the number of calls counted for key \<open>k\<close> in the window open at time
  \<open>t\<close>. A store allows a call while fewer than \<open>limit\<close> were counted, counts it in any case,
  and leaves other keys alone.
\<close>

locale rate_store =
  fixes allow :: "'s rate_allow"
    and hits :: "'s \<Rightarrow> time \<Rightarrow> string \<Rightarrow> int"
  assumes unlimited: "limit \<le> 0 \<Longrightarrow> \<exists>d. allow t k limit w s = (Inr d, s) \<and> rd_allowed d"
    and limited: "0 < limit \<Longrightarrow> 0 < t \<Longrightarrow> 0 \<le> w \<Longrightarrow>
      \<exists>d s'. allow t k limit w s = (Inr d, s') \<and> (rd_allowed d \<longleftrightarrow> hits s t k < limit) \<and>
        hits s' t k = hits s t k + 1"
    and other_keys: "allow t k limit w s = (r, s') \<Longrightarrow> k' \<noteq> k \<Longrightarrow> t \<le> t' \<Longrightarrow>
      hits s' t' k' = hits s t' k'"
begin

lemma tenant_denied:
  assumes "0 < rl_limit p" "0 \<le> rl_window p" "0 < t1" "rl_tenant_id r \<noteq> []"
    and "extractInstanceID r = Inr i"
    and "rl_limit p \<le> hits s t1 (scopedRateLimitKey (rl_name p) ''tenant'' (rl_tenant_id r))"
  shows "\<exists>d n s'. Middleware allow p r t1 t2 t' s = (RlLimited d n, s') \<and> rd_scope d = ''tenant'' \<and>
    (\<forall>k t. k \<noteq> scopedRateLimitKey (rl_name p) ''tenant'' (rl_tenant_id r) \<longrightarrow> t1 \<le> t \<longrightarrow>
      hits s' t k = hits s t k)"
proof -
  let ?k = "scopedRateLimitKey (rl_name p) ''tenant'' (rl_tenant_id r)"
  from limited [OF assms(1,3,2), of ?k s] assms(6) obtain d s' where
    d: "allow t1 ?k (rl_limit p) (rl_window p) s = (Inr d, s')" "\<not> rd_allowed d" by auto
  with assms(4,5) other_keys [OF d(1)] show ?thesis
    by (auto simp: Middleware_def abortRateLimited_def Let_def)
qed

lemma Middleware_next_iff:
  assumes "0 < rl_limit p" "0 \<le> rl_window p" "0 < t1" "t1 \<le> t2"
  shows "(\<exists>h i s'. Middleware allow p r t1 t2 t' s = (RlNext h i, s')) \<longleftrightarrow>
    rl_tenant_id r \<noteq> [] \<and>
    (\<exists>i. extractInstanceID r = Inr i \<and>
       hits s t1 (scopedRateLimitKey (rl_name p) ''tenant'' (rl_tenant_id r)) < rl_limit p \<and>
       (i = [] \<or> hits s t2 (scopedRateLimitKey (rl_name p) ''instance''
                   (rl_tenant_id r @ '':'' @ i)) < rl_limit p))"
proof (cases "rl_tenant_id r = [] \<or> (\<exists>e. extractInstanceID r = Inl e)")
  case True
  then show ?thesis by (auto simp: Middleware_def)
next
  case False
  then obtain i where T: "rl_tenant_id r \<noteq> []" and i: "extractInstanceID r = Inr i"
    by (metis obj_sumE)
  let ?k = "scopedRateLimitKey (rl_name p) ''tenant'' (rl_tenant_id r)"
  let ?ik = "scopedRateLimitKey (rl_name p) ''instance'' (rl_tenant_id r @ '':'' @ i)"
  from limited [OF assms(1,3,2), of ?k s] obtain d s1 where
    d: "allow t1 ?k (rl_limit p) (rl_window p) s = (Inr d, s1)"
       "rd_allowed d \<longleftrightarrow> hits s t1 ?k < rl_limit p" by blast
  have "0 < t2" using assms(3,4) by simp
  from limited [OF assms(1) this assms(2), of ?ik s1] obtain d2 s2 where
    d2: "allow t2 ?ik (rl_limit p) (rl_window p) s1 = (Inr d2, s2)"
       "rd_allowed d2 \<longleftrightarrow> hits s1 t2 ?ik < rl_limit p" by blast
  have "hits s1 t2 ?ik = hits s t2 ?ik" using other_keys [OF d(1) _ assms(4)] by simp
  with T i d d2 show ?thesis by (auto simp: Middleware_def abortRateLimited_def Let_def)
qed

lemma Middleware_frame:
  assumes "Middleware allow p r t1 t2 t' s = (out, s')" "t1 \<le> t2" "t2 \<le> t"
    and "k \<noteq> scopedRateLimitKey (rl_name p) ''tenant'' (rl_tenant_id r)"
    and "\<And>i. extractInstanceID r = Inr i \<Longrightarrow>
      k \<noteq> scopedRateLimitKey (rl_name p) ''instance'' (rl_tenant_id r @ '':'' @ i)"
  shows "hits s' t k = hits s t k"
  using assms
  by (auto simp: Middleware_def Let_def other_keys split: if_splits sum.splits prod.splits)

end

section \<open>The in-memory store meets the contract\<close>

text \<open>An entry counts while its window is open; \<open>view\<close> is the open entry of a key.\<close>

definition open_entry :: "time \<Rightarrow> memoryRateLimitEntry \<Rightarrow> bool" where
  "open_entry t e \<longleftrightarrow> rle_window_end e \<noteq> 0 \<and> t \<le> rle_window_end e"

definition view :: "MemoryRateLimitStore \<Rightarrow> time \<Rightarrow> string \<Rightarrow> memoryRateLimitEntry option" where
  "view s t k = (case s k of None \<Rightarrow> None | Some e \<Rightarrow> if open_entry t e then Some e else None)"

definition memory_hits :: "MemoryRateLimitStore \<Rightarrow> time \<Rightarrow> string \<Rightarrow> int" where
  "memory_hits s t k = (case view s t k of None \<Rightarrow> 0 | Some e \<Rightarrow> rle_count e)"

text \<open>What a call does to the open entry of its key: a fixed-window counter.\<close>

definition counted :: "time \<Rightarrow> duration \<Rightarrow> memoryRateLimitEntry option \<Rightarrow> memoryRateLimitEntry" where
  "counted t w v =
     (case v of
        None \<Rightarrow> \<lparr>rle_count = 1, rle_window_end = t + w\<rparr>
      | Some e \<Rightarrow> e\<lparr>rle_count := rle_count e + 1\<rparr>)"

lemma memory_Allow_limited:
  assumes "0 < limit"
  shows "memory_Allow t k limit w s =
    (let e = counted t w (view s t k) in
     (Inr \<lparr>rd_allowed = rle_count e \<le> limit, rd_remaining = max 0 (limit - rle_count e),
           rd_reset_at = rle_window_end e, rd_scope = [], rd_policy = [], rd_limit = limit,
           rd_current_hits = rle_count e\<rparr>,
      (pruneExpired t s)(k \<mapsto> e)))"
proof -
  have "(case pruneExpired t s k of None \<Rightarrow> \<lparr>rle_count = 0, rle_window_end = 0\<rparr> | Some e \<Rightarrow> e) =
        (case view s t k of Some e \<Rightarrow> e | None \<Rightarrow>
           (case s k of None \<Rightarrow> \<lparr>rle_count = 0, rle_window_end = 0\<rparr>
              | Some e \<Rightarrow> if rle_window_end e = 0 then e else \<lparr>rle_count = 0, rle_window_end = 0\<rparr>))"
    by (auto simp: pruneExpired_def delete_where_def view_def open_entry_def split: option.splits)
  moreover have "rle_window_end e \<noteq> 0 \<and> t \<le> rle_window_end e" if "view s t k = Some e" for e
    using that by (auto simp: view_def open_entry_def split: option.splits if_splits)
  ultimately show ?thesis using assms
    by (auto simp: memory_Allow_def counted_def Let_def max_def split: option.splits)
qed

lemma view_after:
  assumes "t \<le> t'" and "0 < limit"
  shows "view (snd (memory_Allow t k limit w s)) t' k' =
    (if k' = k then let e = counted t w (view s t k) in if open_entry t' e then Some e else None
     else view s t' k')"
  using assms
  by (auto simp: memory_Allow_limited Let_def view_def open_entry_def pruneExpired_def
      delete_where_def split: option.splits)

lemma counted_open: "0 < t \<Longrightarrow> 0 \<le> w \<Longrightarrow> open_entry t (counted t w (view s t k))"
  by (auto simp: counted_def view_def open_entry_def split: option.splits if_splits)

interpretation mem: rate_store memory_Allow memory_hits
proof unfold_locales
  fix limit :: int and t :: time and k :: string and w :: duration and s :: MemoryRateLimitStore
  assume "limit \<le> 0"
  then show "\<exists>d. memory_Allow t k limit w s = (Inr d, s) \<and> rd_allowed d"
    by (simp add: memory_Allow_def)
next
  fix limit :: int and t :: time and k :: string and w :: duration and s :: MemoryRateLimitStore
  assume a: "0 < limit" "0 < t" "0 \<le> w"
  have c: "rle_count (counted t w (view s t k)) = memory_hits s t k + 1"
    by (auto simp: counted_def memory_hits_def split: option.splits)
  have "memory_hits (snd (memory_Allow t k limit w s)) t k = memory_hits s t k + 1"
    using view_after [of t t limit k w s k] a counted_open [of t w s k] c
    by (simp add: memory_hits_def Let_def)
  with a c show "\<exists>d s'. memory_Allow t k limit w s = (Inr d, s') \<and>
      (rd_allowed d \<longleftrightarrow> memory_hits s t k < limit) \<and> memory_hits s' t k = memory_hits s t k + 1"
    by (auto simp: memory_Allow_limited Let_def)
next
  fix t :: time and k :: string and limit :: int and w :: duration
    and s :: MemoryRateLimitStore and r s' and k' :: string and t' :: time
  assume a: "memory_Allow t k limit w s = (r, s')" "k' \<noteq> k" "t \<le> t'"
  show "memory_hits s' t' k' = memory_hits s t' k'"
  proof (cases "0 < limit")
    case True
    with a view_after [OF a(3) True, of k w s k'] show ?thesis by (simp add: memory_hits_def)
  next
    case False
    with a(1) show ?thesis by (simp add: memory_Allow_def split: if_splits)
  qed
qed

section \<open>Sequences of calls\<close>

text \<open>A call names its instant, key, limit and window; \<open>serve\<close> lists the decisions of a store.\<close>

type_synonym rl_call = "time \<times> string \<times> int \<times> duration"

fun serve :: "'s rate_allow \<Rightarrow> rl_call list \<Rightarrow> 's \<Rightarrow> (go_error + RateLimitDecision) list" where
  "serve allow [] s = []"
| "serve allow ((t, k, l, w) # cs) s =
     (case allow t k l w s of (r, s') \<Rightarrow> r # serve allow cs s')"

definition granted :: "go_error + RateLimitDecision \<Rightarrow> bool" where
  "granted r = (case r of Inl _ \<Rightarrow> False | Inr d \<Rightarrow> rd_allowed d)"

text \<open>The decisions taken for one key, and how many of them in an interval are positive.\<close>

definition key_grants :: "string \<Rightarrow> rl_call list \<Rightarrow> MemoryRateLimitStore \<Rightarrow> bool list" where
  "key_grants k cs s =
     map (\<lambda>(c, r). granted r) (filter (\<lambda>((t, k', l, w), r). k' = k) (zip cs (serve memory_Allow cs s)))"

definition granted_between :: "string \<Rightarrow> time \<Rightarrow> time \<Rightarrow> rl_call list \<Rightarrow> MemoryRateLimitStore \<Rightarrow> nat" where
  "granted_between k a b cs s =
     length (filter (\<lambda>((t, k', l, w), r). k' = k \<and> a \<le> t \<and> t \<le> b \<and> granted r)
       (zip cs (serve memory_Allow cs s)))"

text \<open>Calls in the order of the clock, all calls for \<open>k\<close> under one policy.\<close>

definition clocked :: "rl_call list \<Rightarrow> bool" where
  "clocked cs \<longleftrightarrow> sorted (map fst cs) \<and> (\<forall>c \<in> set cs. 0 < fst c)"

definition one_policy :: "string \<Rightarrow> int \<Rightarrow> duration \<Rightarrow> rl_call list \<Rightarrow> bool" where
  "one_policy k limit window cs \<longleftrightarrow> (\<forall>(t, k', l, w) \<in> set cs. k' = k \<longrightarrow> l = limit \<and> w = window)"

lemma clocked_Cons [simp]:
  "clocked (c # cs) \<longleftrightarrow> 0 < fst c \<and> (\<forall>d \<in> set cs. fst c \<le> fst d) \<and> clocked cs"
  by (auto simp: clocked_def)

lemma one_policy_Cons [simp]:
  "one_policy k limit window ((t, k', l, w) # cs) \<longleftrightarrow>
     (k' = k \<longrightarrow> l = limit \<and> w = window) \<and> one_policy k limit window cs"
  by (auto simp: one_policy_def)

definition counts_ok :: "MemoryRateLimitStore \<Rightarrow> bool" where
  "counts_ok s \<longleftrightarrow> (\<forall>k e. s k = Some e \<longrightarrow> 0 \<le> rle_count e)"

lemma counts_ok_view: "counts_ok s \<Longrightarrow> view s t k = Some e \<Longrightarrow> 0 \<le> rle_count e"
  by (auto simp: counts_ok_def view_def split: option.splits if_splits)

lemma counts_ok_Allow: "counts_ok s \<Longrightarrow> counts_ok (snd (memory_Allow t k l w s))"
proof (cases "0 < l")
  case True
  assume s: "counts_ok s"
  then have "0 \<le> rle_count (counted t w (view s t k))"
    by (auto simp: counted_def dest: counts_ok_view split: option.splits)
  with s True show ?thesis
    by (auto simp: memory_Allow_limited Let_def counts_ok_def pruneExpired_def)
qed (auto simp: memory_Allow_def)

lemma counts_ok_New [simp]: "counts_ok NewMemoryRateLimitStore"
  by (simp add: counts_ok_def NewMemoryRateLimitStore_def)

text \<open>
  How many more calls of a key may still be granted up to instant \<open>b\<close>, if the next window
  that opens outlasts \<open>b\<close>.
\<close>

definition budget :: "int \<Rightarrow> time \<Rightarrow> memoryRateLimitEntry option \<Rightarrow> int" where
  "budget limit b v =
     (case v of None \<Rightarrow> limit
      | Some e \<Rightarrow> max 0 (limit - rle_count e) + (if rle_window_end e < b then limit else 0))"

lemma budget_expire:
  "t \<le> t' \<Longrightarrow> t' \<le> b \<Longrightarrow> 0 < limit \<Longrightarrow> budget limit b (view s t' k) \<le> budget limit b (view s t k)"
  by (auto simp: budget_def view_def open_entry_def split: option.splits)

lemma view_Allow:
  "t \<le> t' \<Longrightarrow> view (snd (memory_Allow t k l w s)) t' k' =
     (if k' = k \<and> 0 < l then
        let e = counted t w (view s t k) in if open_entry t' e then Some e else None
      else view s t' k')"
  by (cases "0 < l") (auto simp: view_after, auto simp: memory_Allow_def)

lemma granted_Allow:
  "0 < l \<Longrightarrow> granted (fst (memory_Allow t k l w s)) \<longleftrightarrow> rle_count (counted t w (view s t k)) \<le> l"
  by (simp add: memory_Allow_limited granted_def Let_def)

lemma granted_between_Cons:
  "granted_between k a b ((t, k', l, w) # cs) s =
     (if k' = k \<and> a \<le> t \<and> t \<le> b \<and> granted (fst (memory_Allow t k' l w s)) then 1 else 0) +
     granted_between k a b cs (snd (memory_Allow t k' l w s))"
  by (simp add: granted_between_def split: prod.splits)

lemma granted_between_Nil [simp]: "granted_between k a b [] s = 0"
  by (simp add: granted_between_def)

lemma granted_between_late: "(\<And>c. c \<in> set cs \<Longrightarrow> b < fst c) \<Longrightarrow> granted_between k a b cs s = 0"
  by (fastforce simp: granted_between_def filter_empty_conv dest: set_zip_leftD)

lemma budget_step:
  assumes "0 < limit" "0 < w" "0 < t" "b - w \<le> t" "t \<le> b" "counts_ok s"
  shows "budget limit b (view (snd (memory_Allow t k limit w s)) t k) =
    budget limit b (view s t k) - (if granted (fst (memory_Allow t k limit w s)) then 1 else 0)"
proof -
  have "open_entry t (counted t w (view s t k))" using assms by (simp add: counted_open)
  then have "view (snd (memory_Allow t k limit w s)) t k = Some (counted t w (view s t k))"
    using assms by (simp add: view_Allow Let_def)
  then show ?thesis using assms
    by (auto simp: granted_Allow budget_def counted_def split: option.splits)
qed

lemma budget_bound:
  assumes "0 < limit" "0 < w" "b - w \<le> t0" "clocked cs" "one_policy k limit w cs"
    and "\<And>c. c \<in> set cs \<Longrightarrow> t0 \<le> fst c" "counts_ok s"
  shows "int (granted_between k a b cs s) \<le> budget limit b (view s t0 k)"
  using assms(3-)
proof (induction cs arbitrary: s t0)
  case Nil
  from assms(1) show ?case by (auto simp: budget_def split: option.splits)
next
  case (Cons c cs)
  obtain t k' l w' where c: "c = (t, k', l, w')" by (cases c)
  show ?case
  proof (cases "t \<le> b")
    case False
    then have "granted_between k a b (c # cs) s = 0"
      using Cons.prems by (intro granted_between_late) (auto simp: c intro: less_le_trans)
    then show ?thesis using assms(1) by (auto simp: budget_def split: option.splits)
  next
    case True
    let ?s' = "snd (memory_Allow t k' l w' s)"
    have t: "t0 \<le> t" "0 < t" using Cons.prems(2) Cons.prems(4) [of c] by (auto simp: c)
    have IH: "int (granted_between k a b cs ?s') \<le> budget limit b (view ?s' t k)"
      using Cons.prems t by (intro Cons.IH) (auto simp: c intro: counts_ok_Allow)
    have mono: "budget limit b (view s t k) \<le> budget limit b (view s t0 k)"
      using t True assms(1) by (intro budget_expire)
    show ?thesis
    proof (cases "k' = k")
      case True
      with Cons.prems c have "l = limit" "w' = w" by auto
      with True IH mono budget_step [of limit w t b s k] assms t \<open>t \<le> b\<close> Cons.prems show ?thesis
        by (auto simp: c granted_between_Cons split: if_splits)
    next
      case False
      with IH mono show ?thesis by (simp add: c granted_between_Cons view_Allow)
    qed
  qed
qed

text \<open>The reference: a counter that never prunes.\<close>

definition counter_Allow :: "MemoryRateLimitStore rate_allow" where
  "counter_Allow t k limit w m =
     (if limit \<le> 0 then (fst (memory_Allow t k limit w m), m)
      else let e = counted t w (view m t k) in
        (Inr \<lparr>rd_allowed = rle_count e \<le> limit, rd_remaining = max 0 (limit - rle_count e),
              rd_reset_at = rle_window_end e, rd_scope = [], rd_policy = [], rd_limit = limit,
              rd_current_hits = rle_count e\<rparr>, m(k \<mapsto> e)))"

lemma view_counter:
  "view (snd (counter_Allow t k l w m)) t' k' =
     (if k' = k \<and> 0 < l then
        let e = counted t w (view m t k) in if open_entry t' e then Some e else None
      else view m t' k')"
  by (auto simp: counter_Allow_def Let_def view_def)

section \<open>Properties\<close>

text \<open>
  A request under a positive limit passes the tenant rate limiter exactly when it has a
  tenant, its instance id can be read, fewer than the limit were counted for the tenant in the
  open window, and, when it names an instance, fewer than the limit for that instance.
\<close>

theorem Middleware_passes_iff:
  assumes "0 < rl_limit p" and "0 \<le> rl_window p" and "0 < t1" and "t1 \<le> t2"
  shows "(\<exists>h i s'. Middleware memory_Allow p r t1 t2 t' s = (RlNext h i, s')) \<longleftrightarrow>
    rl_tenant_id r \<noteq> [] \<and>
    (\<exists>i. extractInstanceID r = Inr i \<and>
       memory_hits s t1 (scopedRateLimitKey (rl_name p) ''tenant'' (rl_tenant_id r)) < rl_limit p \<and>
       (i = [] \<or> memory_hits s t2 (scopedRateLimitKey (rl_name p) ''instance''
                   (rl_tenant_id r @ '':'' @ i)) < rl_limit p))"
  using assms by (rule mem.Middleware_next_iff)

theorem Middleware_passes_iff_witness:
  "(\<exists>h i s'. Middleware memory_Allow (MessageRateLimitPolicy 1)
      \<lparr>rl_tenant_id = ''t'', rl_client_ip = ''10.0.0.1'', rl_header = (\<lambda>_. []), rl_param = (\<lambda>_. []),
       rl_query = (\<lambda>_. []), rl_body = NoBody\<rparr> 5 6 7 NewMemoryRateLimitStore = (RlNext h i, s'))"
  by (subst Middleware_passes_iff)
     (simp_all add: MessageRateLimitPolicy_def less_imp_le extractInstanceID_def memory_hits_def view_def
       NewMemoryRateLimitStore_def)

text \<open>
  C9: over any sequence of calls to a fresh in-memory store, whatever other keys are
  interleaved, any interval as long as the window sees at most twice the limit of granted calls
  per key (the bound of a fixed window).
\<close>

theorem fixed_window_bound:
  assumes "0 < limit" and "0 < window" and "clocked cs" and "one_policy k limit window cs"
  shows "int (granted_between k a (a + window) cs NewMemoryRateLimitStore) \<le> 2 * limit"
proof -
  have "int (granted_between k a (a + window) cs s) \<le> 2 * limit" if "counts_ok s" for s
    using assms(3,4) that
  proof (induction cs arbitrary: s)
    case Nil
    from assms(1) show ?case by simp
  next
    case (Cons c cs)
    obtain t k' l w' where c: "c = (t, k', l, w')" by (cases c)
    show ?case
    proof (cases "a \<le> t")
      case True
      have "int (granted_between k a (a + window) (c # cs) s) \<le> budget limit (a + window) (view s t k)"
        using assms(1,2) True Cons.prems by (intro budget_bound [where w = window]) (auto simp: c)
      also have "\<dots> \<le> 2 * limit"
        using assms(1) Cons.prems(3)
        by (auto simp: budget_def split: option.splits dest: counts_ok_view)
      finally show ?thesis .
    next
      case False
      with Cons.prems show ?thesis
        by (auto simp: c granted_between_Cons intro!: Cons.IH counts_ok_Allow)
    qed
  qed
  then show ?thesis by simp
qed

theorem fixed_window_bound_witness:
  "int (granted_between ''k'' 9 19 [(1, ''k'', 2, 10), (9, ''k'', 2, 10), (12, ''k'', 2, 10),
     (13, ''j'', 1, 10), (13, ''k'', 2, 10), (14, ''k'', 2, 10)] NewMemoryRateLimitStore) \<le> 4"
  using fixed_window_bound [of 2 10 "[(1, ''k'', 2, 10), (9, ''k'', 2, 10), (12, ''k'', 2, 10),
     (13, ''j'', 1, 10), (13, ''k'', 2, 10), (14, ''k'', 2, 10)]" "''k''" 9]
  by (simp add: clocked_def one_policy_def)

text \<open>
  C10: the store behaves like a fixed-window counter that keeps every window for ever: the
  pruning of expired entries is not observable, on no sequence of calls and for no key.
\<close>

theorem pruning_unobservable:
  assumes "clocked cs"
  shows "serve memory_Allow cs NewMemoryRateLimitStore = serve counter_Allow cs Map.empty"
proof -
  have "serve memory_Allow cs s = serve counter_Allow cs m"
    if "clocked cs" "\<And>c k. c \<in> set cs \<Longrightarrow> view s (fst c) k = view m (fst c) k" for s m
    using that
  proof (induction cs arbitrary: s m)
    case Nil
    then show ?case by simp
  next
    case (Cons c cs)
    obtain t k l w where c: "c = (t, k, l, w)" by (cases c)
    have v: "view s t k' = view m t k'" for k' using Cons.prems(2) [of c] by (simp add: c)
    have "serve memory_Allow cs (snd (memory_Allow t k l w s)) =
        serve counter_Allow cs (snd (counter_Allow t k l w m))"
    proof (rule Cons.IH)
      fix d k' assume d: "d \<in> set cs"
      with Cons.prems have "t \<le> fst d" "view s (fst d) k' = view m (fst d) k'" by (auto simp: c)
      with v show "view (snd (memory_Allow t k l w s)) (fst d) k' =
          view (snd (counter_Allow t k l w m)) (fst d) k'"
        by (simp add: view_Allow view_counter)
    qed (use Cons.prems in auto)
    moreover have "fst (memory_Allow t k l w s) = fst (counter_Allow t k l w m)"
      by (cases "0 < l") (simp_all add: counter_Allow_def memory_Allow_limited v Let_def,
        simp_all add: memory_Allow_def)
    ultimately show ?case
      by (cases "memory_Allow t k l w s"; cases "counter_Allow t k l w m") (simp add: c)
  qed
  from this [OF assms] show ?thesis by (simp add: NewMemoryRateLimitStore_def view_def)
qed

theorem pruning_unobservable_witness:
  "serve memory_Allow [(1, ''k'', 2, 10), (30, ''j'', 2, 10)] NewMemoryRateLimitStore =
     serve counter_Allow [(1, ''k'', 2, 10), (30, ''j'', 2, 10)] Map.empty"
  by (rule pruning_unobservable) (simp add: clocked_def)

text \<open>
  The requests of one tenant do not use up the limits of another. Whatever a request of
  the tenant does, what is counted for another tenant, and for the instances of another tenant,
  stays as it was (tenant ids are UUIDs, without a colon).
\<close>

theorem tenants_isolated:
  assumes "Middleware memory_Allow p r t1 t2 t' s = (out, s')" and "t1 \<le> t2" and "t2 \<le> t"
    and "CHR '':'' \<notin> set (rl_tenant_id r)" and "CHR '':'' \<notin> set other" and "other \<noteq> rl_tenant_id r"
  shows "memory_hits s' t (scopedRateLimitKey (rl_name p) ''tenant'' other) =
      memory_hits s t (scopedRateLimitKey (rl_name p) ''tenant'' other) \<and>
    memory_hits s' t (scopedRateLimitKey (rl_name p) ''instance'' (other @ '':'' @ i)) =
      memory_hits s t (scopedRateLimitKey (rl_name p) ''instance'' (other @ '':'' @ i))"
proof -
  have "other @ '':'' @ i \<noteq> rl_tenant_id r @ '':'' @ j" for j
    using instance_subject_inject [OF assms(5,4)] assms(6) by blast
  with assms(6) show ?thesis
    by (intro conjI mem.Middleware_frame [OF assms(1-3)]) (simp_all del: append_eq_append_conv)
qed

theorem tenants_isolated_witness:
  "let r = \<lparr>rl_tenant_id = ''a'', rl_client_ip = ''10.0.0.1'', rl_header = (\<lambda>_. []), rl_param = (\<lambda>_. []),
         rl_query = (\<lambda>_. []), rl_body = NoBody\<rparr>;
       s' = snd (Middleware memory_Allow (MessageRateLimitPolicy 1) r 5 6 7 NewMemoryRateLimitStore)
   in memory_hits s' 8 (scopedRateLimitKey ''messages_per_minute'' ''tenant'' ''b'') = 0"
  unfolding Let_def
  by (rule trans [OF conjunct1 [OF tenants_isolated [OF prod.collapse [symmetric], of 5 6 8 _ "''b''",
        where p = "MessageRateLimitPolicy 1", unfolded MessageRateLimitPolicy_def
          RateLimitPolicy.select_convs, folded MessageRateLimitPolicy_def]]])
     (simp_all add: memory_hits_def view_def NewMemoryRateLimitStore_def)

end
