(* ===== verification/Broadcast_Store.thy ===== *)
theory Broadcast_Store
  imports Prelude "HOL-Library.List_Lexorder" "HOL-Library.Multiset"
begin

text \<open>
  The broadcast tables and the repository over them: \<open>BroadcastJob\<close>,
  \<open>BroadcastRecipientProgress\<close> and \<open>BroadcastRecipientAnalytics\<close> of
  \<open>internal/repository/models.go\<close> and \<open>gormBroadcastRepository\<close> of
  \<open>internal/repository/gorm.go\<close>. A table is the list of its rows; each method is one SQL
  statement (\<open>ClaimNext\<close> one transaction), so it is one function. Rows that an \<open>ORDER BY\<close>
  leaves tied come in table order, text is ordered by bytes, and the bookkeeping column
  \<open>updated_at\<close>, which no query reads, is left out. New row ids are arguments. The failure of a
  statement (a lost connection) is added where the operations are used.
\<close>

section \<open>Rows\<close>

definition statusQueued :: string where "statusQueued = ''queued''"
definition statusProcessing :: string where "statusProcessing = ''processing''"
definition statusCompleted :: string where "statusCompleted = ''completed''"
definition statusCompletedWithFailures :: string where
  "statusCompletedWithFailures = ''completed_with_failures''"
definition statusFailed :: string where "statusFailed = ''failed''"

definition recipientStatusPending :: string where "recipientStatusPending = ''pending''"
definition recipientStatusSent :: string where "recipientStatusSent = ''sent''"
definition recipientStatusDelivered :: string where "recipientStatusDelivered = ''delivered''"
definition recipientStatusRead :: string where "recipientStatusRead = ''read''"
definition recipientStatusFailed :: string where "recipientStatusFailed = ''failed''"

lemmas job_status_defs =
  statusQueued_def statusProcessing_def statusCompleted_def statusCompletedWithFailures_def
  statusFailed_def

lemmas recipient_status_defs =
  recipientStatusPending_def recipientStatusSent_def recipientStatusDelivered_def
  recipientStatusRead_def recipientStatusFailed_def

record BroadcastJob =
  j_id :: string
  j_tenant_id :: string
  j_instance_id :: string
  j_status :: string
  j_message :: string
  j_rate_per_hour :: int
  j_delay_sec :: int
  j_attempts :: int
  j_max_attempts :: int
  j_worker_id :: string
  j_last_error :: string
  j_scheduled_at :: "time option"
  j_available_at :: time
  j_started_at :: "time option"
  j_completed_at :: "time option"
  j_failed_at :: "time option"
  j_created_at :: time

record BroadcastRecipientProgress =
  p_id :: string
  p_broadcast_id :: string
  p_tenant_id :: string
  p_instance_id :: string
  p_contact_id :: "string option"
  p_phone :: string
  p_delivery_status :: string
  p_attempt_count :: int
  p_last_error :: string
  p_last_attempt_at :: "time option"
  p_sent_at :: "time option"
  p_delivered_at :: "time option"
  p_read_at :: "time option"
  p_failed_at :: "time option"
  p_last_status_at :: "time option"
  p_status_source :: string
  p_message_id :: string
  p_server_id :: int
  p_chat_jid :: string
  p_created_at :: time

record BroadcastRecipientAnalytics =
  an_tracked_broadcasts :: int
  an_total_recipients :: int
  an_attempted :: int
  an_sent :: int
  an_delivered :: int
  an_read :: int
  an_failed :: int
  an_pending :: int
  an_partial :: bool

record BroadcastRecipientProgressFilter =
  f_status :: string
  f_query :: string
  f_page :: int
  f_limit :: int

record broadcast_db =
  db_jobs :: "BroadcastJob list"
  db_progress :: "BroadcastRecipientProgress list"

section \<open>Jobs\<close>

text \<open>\<open>gorm.ErrRecordNotFound\<close>, and what \<open>normalizeError\<close> makes of it.\<close>

definition not_found_error :: go_error where
  "not_found_error = wrap_error ''record not found'' (sentinel_error ErrRecordNotFound)"

text \<open>An empty id is filled in by \<open>BeforeCreate\<close>, a zero maximum by the column's default.\<close>

definition repo_Create :: "string \<Rightarrow> time \<Rightarrow> BroadcastJob \<Rightarrow> broadcast_db \<Rightarrow> BroadcastJob \<times> broadcast_db" where
  "repo_Create uuid now job db =
     (let job = job\<lparr>j_id := (if j_id job = [] then uuid else j_id job),
                    j_max_attempts := (if j_max_attempts job = 0 then 3 else j_max_attempts job),
                    j_created_at := (if j_created_at job = 0 then now else j_created_at job)\<rparr>
      in (job, db\<lparr>db_jobs := db_jobs db @ [job]\<rparr>))"

definition repo_GetByID :: "string \<Rightarrow> string \<Rightarrow> broadcast_db \<Rightarrow> go_error + BroadcastJob" where
  "repo_GetByID tenantID jobID db =
     (case find (\<lambda>j. j_tenant_id j = tenantID \<and> j_id j = jobID) (db_jobs db) of
        None \<Rightarrow> Inl not_found_error
      | Some job \<Rightarrow> Inr job)"

definition repo_ListByTenant :: "string \<Rightarrow> int \<Rightarrow> broadcast_db \<Rightarrow> BroadcastJob list" where
  "repo_ListByTenant tenantID limit db =
     (let jobs = sort_key (\<lambda>j. - j_created_at j) (filter (\<lambda>j. j_tenant_id j = tenantID) (db_jobs db))
      in if 0 < limit then take (nat limit) jobs else jobs)"

definition repo_CountByTenant :: "string \<Rightarrow> broadcast_db \<Rightarrow> int" where
  "repo_CountByTenant tenantID db = int (length (filter (\<lambda>j. j_tenant_id j = tenantID) (db_jobs db)))"

definition claimable :: "time \<Rightarrow> BroadcastJob \<Rightarrow> bool" where
  "claimable now j \<longleftrightarrow> j_status j = statusQueued \<and> j_available_at j \<le> now"

definition claim_order :: "time \<Rightarrow> int \<Rightarrow> broadcast_db \<Rightarrow> BroadcastJob list" where
  "claim_order now limit db =
     (let jobs = sort_key j_available_at (sort_key j_created_at (filter (claimable now) (db_jobs db)))
      in if 0 < limit then take (nat limit) jobs else jobs)"

definition claimed :: "string \<Rightarrow> time \<Rightarrow> BroadcastJob \<Rightarrow> BroadcastJob" where
  "claimed workerID now j =
     j\<lparr>j_status := statusProcessing, j_worker_id := workerID, j_started_at := Some now,
       j_attempts := j_attempts j + 1\<rparr>"

definition repo_ClaimNext ::
  "string \<Rightarrow> int \<Rightarrow> time \<Rightarrow> broadcast_db \<Rightarrow> BroadcastJob list \<times> broadcast_db" where
  "repo_ClaimNext workerID limit now db =
     (let jobs = claim_order now limit db;
          jobIDs = map j_id jobs
      in (map (claimed workerID now) jobs,
          db\<lparr>db_jobs := map (\<lambda>j. if j_id j \<in> set jobIDs then claimed workerID now j else j)
                          (db_jobs db)\<rparr>))"

text \<open>\<open>UPDATE ... WHERE tenant_id = ? AND id = ?\<close>, an error when no row is affected.\<close>

definition update_job ::
  "string \<Rightarrow> string \<Rightarrow> (BroadcastJob \<Rightarrow> BroadcastJob) \<Rightarrow> broadcast_db \<Rightarrow> go_error option \<times> broadcast_db" where
  "update_job tenantID jobID f db =
     (if \<exists>j \<in> set (db_jobs db). j_tenant_id j = tenantID \<and> j_id j = jobID
      then (None, db\<lparr>db_jobs := map (\<lambda>j. if j_tenant_id j = tenantID \<and> j_id j = jobID then f j else j)
                                  (db_jobs db)\<rparr>)
      else (Some (sentinel_error ErrRecordNotFound), db))"

definition repo_MarkCompleted ::
  "string \<Rightarrow> string \<Rightarrow> time \<Rightarrow> broadcast_db \<Rightarrow> go_error option \<times> broadcast_db" where
  "repo_MarkCompleted tenantID jobID completedAt =
     update_job tenantID jobID
       (\<lambda>j. j\<lparr>j_status := statusCompleted, j_completed_at := Some completedAt, j_last_error := [],
             j_worker_id := []\<rparr>)"

definition repo_MarkCompletedWithFailures ::
  "string \<Rightarrow> string \<Rightarrow> string \<Rightarrow> time \<Rightarrow> broadcast_db \<Rightarrow> go_error option \<times> broadcast_db" where
  "repo_MarkCompletedWithFailures tenantID jobID message completedAt =
     update_job tenantID jobID
       (\<lambda>j. j\<lparr>j_status := statusCompletedWithFailures, j_completed_at := Some completedAt,
             j_last_error := trim_space message, j_worker_id := []\<rparr>)"

definition repo_MarkFailed ::
  "string \<Rightarrow> string \<Rightarrow> string \<Rightarrow> time \<Rightarrow> time option \<Rightarrow> broadcast_db \<Rightarrow> go_error option \<times> broadcast_db" where
  "repo_MarkFailed tenantID jobID message failedAt retryAt =
     update_job tenantID jobID
       (\<lambda>j. let j = j\<lparr>j_last_error := message, j_worker_id := [], j_started_at := None\<rparr> in
          case retryAt of
            Some t \<Rightarrow> j\<lparr>j_status := statusQueued, j_available_at := t\<rparr>
          | None \<Rightarrow> j\<lparr>j_status := statusFailed, j_failed_at := Some failedAt\<rparr>)"

section \<open>Recipient progress\<close>

text \<open>The unique index of the table, and the columns a new row is given.\<close>

definition same_recipient :: "BroadcastRecipientProgress \<Rightarrow> BroadcastRecipientProgress \<Rightarrow> bool" where
  "same_recipient p q \<longleftrightarrow> p_broadcast_id p = p_broadcast_id q \<and> p_phone p = p_phone q"

definition with_default_status :: "BroadcastRecipientProgress \<Rightarrow> BroadcastRecipientProgress" where
  "with_default_status p =
     (if p_delivery_status p = [] then p\<lparr>p_delivery_status := recipientStatusPending\<rparr> else p)"

definition new_row :: "string \<Rightarrow> time \<Rightarrow> BroadcastRecipientProgress \<Rightarrow> BroadcastRecipientProgress" where
  "new_row uuid now p =
     (with_default_status p)\<lparr>p_id := (if p_id p = [] then uuid else p_id p),
        p_created_at := (if p_created_at p = 0 then now else p_created_at p)\<rparr>"

text \<open>\<open>ON CONFLICT DO NOTHING\<close>, row by row; \<open>gen i\<close> is the id made for the \<open>i\<close>-th record.\<close>

fun insert_new ::
  "(nat \<Rightarrow> string) \<Rightarrow> time \<Rightarrow> nat \<Rightarrow> BroadcastRecipientProgress list \<Rightarrow>
   BroadcastRecipientProgress list \<Rightarrow> BroadcastRecipientProgress list" where
  "insert_new gen now i [] rows = rows"
| "insert_new gen now i (p # ps) rows =
     insert_new gen now (Suc i) ps
       (if \<exists>q \<in> set rows. same_recipient q p then rows else rows @ [new_row (gen i) now p])"

definition repo_SeedRecipientProgress ::
  "(nat \<Rightarrow> string) \<Rightarrow> time \<Rightarrow> BroadcastRecipientProgress list \<Rightarrow> broadcast_db \<Rightarrow> broadcast_db" where
  "repo_SeedRecipientProgress gen now records db =
     (if records = [] then db
      else db\<lparr>db_progress := insert_new gen now 0 records (db_progress db)\<rparr>)"

text \<open>The columns that \<open>ON CONFLICT DO UPDATE\<close> takes from the new row.\<close>

definition assign_columns ::
  "BroadcastRecipientProgress \<Rightarrow> BroadcastRecipientProgress \<Rightarrow> BroadcastRecipientProgress" where
  "assign_columns p q =
     q\<lparr>p_tenant_id := p_tenant_id p, p_instance_id := p_instance_id p, p_contact_id := p_contact_id p,
       p_delivery_status := p_delivery_status p, p_attempt_count := p_attempt_count p,
       p_last_error := p_last_error p, p_last_attempt_at := p_last_attempt_at p,
       p_sent_at := p_sent_at p, p_delivered_at := p_delivered_at p, p_read_at := p_read_at p,
       p_failed_at := p_failed_at p, p_last_status_at := p_last_status_at p,
       p_status_source := p_status_source p, p_message_id := p_message_id p,
       p_server_id := p_server_id p, p_chat_jid := p_chat_jid p\<rparr>"

definition upsert ::
  "string \<Rightarrow> time \<Rightarrow> BroadcastRecipientProgress \<Rightarrow>
   BroadcastRecipientProgress list \<Rightarrow> BroadcastRecipientProgress list" where
  "upsert uuid now p rows =
     (if \<exists>q \<in> set rows. same_recipient q p
      then map (\<lambda>q. if same_recipient q p then assign_columns (with_default_status p) q else q) rows
      else rows @ [new_row uuid now p])"

definition repo_SaveRecipientProgress ::
  "string \<Rightarrow> time \<Rightarrow> BroadcastRecipientProgress \<Rightarrow> broadcast_db \<Rightarrow> broadcast_db" where
  "repo_SaveRecipientProgress uuid now p db = db\<lparr>db_progress := upsert uuid now p (db_progress db)\<rparr>"

definition of_job :: "string \<Rightarrow> string \<Rightarrow> BroadcastRecipientProgress \<Rightarrow> bool" where
  "of_job tenantID jobID p \<longleftrightarrow> p_tenant_id p = tenantID \<and> p_broadcast_id p = jobID"

definition progress_order :: "BroadcastRecipientProgress list \<Rightarrow> BroadcastRecipientProgress list" where
  "progress_order rows = sort_key p_created_at (sort_key p_phone rows)"

definition repo_ListRecipientProgress ::
  "string \<Rightarrow> string \<Rightarrow> broadcast_db \<Rightarrow> BroadcastRecipientProgress list" where
  "repo_ListRecipientProgress tenantID jobID db =
     progress_order (filter (of_job tenantID jobID) (db_progress db))"

text \<open>SQL \<open>LIKE\<close>: \<open>%\<close> stands for any text, \<open>_\<close> for one character, a backslash quotes.\<close>

fun sql_like :: "string \<Rightarrow> string \<Rightarrow> bool" where
  "sql_like [] s = (s = [])"
| "sql_like (c # cs) s =
     (if c = CHR ''%'' then sql_like cs s \<or> (case s of [] \<Rightarrow> False | x # xs \<Rightarrow> sql_like (c # cs) xs)
      else if c = CHR ''_'' then (case s of [] \<Rightarrow> False | x # xs \<Rightarrow> sql_like cs xs)
      else if c = CHR 0x5C then
        (case cs of [] \<Rightarrow> False
         | q # qs \<Rightarrow> (case s of [] \<Rightarrow> False | x # xs \<Rightarrow> x = q \<and> sql_like qs xs))
      else (case s of [] \<Rightarrow> False | x # xs \<Rightarrow> x = c \<and> sql_like cs xs))"

definition sql_ilike :: "string \<Rightarrow> string \<Rightarrow> bool" where
  "sql_ilike pattern s = sql_like (to_lower pattern) (to_lower s)"

definition matches_filter :: "BroadcastRecipientProgressFilter \<Rightarrow> BroadcastRecipientProgress \<Rightarrow> bool" where
  "matches_filter flt p \<longleftrightarrow>
     (trim_space (f_status flt) \<noteq> [] \<longrightarrow> p_delivery_status p = trim_space (f_status flt)) \<and>
     (trim_space (f_query flt) \<noteq> [] \<longrightarrow>
        (let like = ''%'' @ trim_space (f_query flt) @ ''%'' in
         sql_ilike like (p_phone p) \<or>
         (case p_contact_id p of None \<Rightarrow> False | Some c \<Rightarrow> sql_ilike like c)))"

definition repo_ListRecipientProgressPage ::
  "string \<Rightarrow> string \<Rightarrow> BroadcastRecipientProgressFilter \<Rightarrow> broadcast_db \<Rightarrow>
   BroadcastRecipientProgress list \<times> int" where
  "repo_ListRecipientProgressPage tenantID jobID flt db =
     (let rows = filter (\<lambda>p. of_job tenantID jobID p \<and> matches_filter flt p) (db_progress db);
          total = int (length rows);
          page = (if f_page flt \<le> 0 then 1 else f_page flt);
          limit = (if f_limit flt \<le> 0 then 50 else f_limit flt)
      in (take (nat limit) (drop (nat ((page - 1) * limit)) (progress_order rows)), total))"

definition receipt_matches ::
  "string \<Rightarrow> string \<Rightarrow> string \<Rightarrow> BroadcastRecipientProgress \<Rightarrow> bool" where
  "receipt_matches tenantID instanceID messageID p \<longleftrightarrow>
     p_tenant_id p = tenantID \<and> p_instance_id p = instanceID \<and> p_message_id p = messageID \<and>
     p_delivery_status p \<noteq> recipientStatusFailed"

definition coalesce :: "'a option \<Rightarrow> 'a \<Rightarrow> 'a option" where
  "coalesce a b = (case a of None \<Rightarrow> Some b | Some x \<Rightarrow> Some x)"

text \<open>The rows a receipt applies to and what it writes; \<open>None\<close> for other states.\<close>

definition receipt_update ::
  "string \<Rightarrow> time \<Rightarrow> ((BroadcastRecipientProgress \<Rightarrow> bool) \<times>
     (BroadcastRecipientProgress \<Rightarrow> BroadcastRecipientProgress)) option" where
  "receipt_update state timestamp =
     (if state = ''delivered'' then
        Some (\<lambda>p. p_delivery_status p \<noteq> recipientStatusRead,
              \<lambda>p. p\<lparr>p_last_status_at := Some timestamp, p_delivery_status := recipientStatusDelivered,
                    p_delivered_at := coalesce (p_delivered_at p) timestamp,
                    p_status_source := ''receipt_delivered''\<rparr>)
      else if state = ''read'' then
        Some (\<lambda>p. True,
              \<lambda>p. p\<lparr>p_last_status_at := Some timestamp, p_delivery_status := recipientStatusRead,
                    p_delivered_at := coalesce (p_delivered_at p) timestamp,
                    p_read_at := (case p_read_at p of
                        None \<Rightarrow> Some timestamp
                      | Some t \<Rightarrow> if t < timestamp then Some timestamp else Some t),
                    p_status_source := ''receipt_read''\<rparr>)
      else None)"

definition repo_MarkRecipientReceipt ::
  "string \<Rightarrow> string \<Rightarrow> string \<Rightarrow> string \<Rightarrow> time \<Rightarrow> broadcast_db \<Rightarrow> bool \<times> broadcast_db" where
  "repo_MarkRecipientReceipt tenantID instanceID messageID state at db =
     (let tenantID = trim_space tenantID; instanceID = trim_space instanceID;
          messageID = trim_space messageID; state = lower_trim state
      in if tenantID = [] \<or> instanceID = [] \<or> messageID = [] then (False, db)
         else case receipt_update state at of
           None \<Rightarrow> (False, db)
         | Some (extra, f) \<Rightarrow>
             (let hit = (\<lambda>p. receipt_matches tenantID instanceID messageID p \<and> extra p)
              in (\<exists>p \<in> set (db_progress db). hit p,
                  db\<lparr>db_progress := map (\<lambda>p. if hit p then f p else p) (db_progress db)\<rparr>)))"

definition count_rows ::
  "(BroadcastRecipientProgress \<Rightarrow> bool) \<Rightarrow> BroadcastRecipientProgress list \<Rightarrow> int" where
  "count_rows P rows = int (length (filter P rows))"

definition summarize :: "int \<Rightarrow> BroadcastRecipientProgress list \<Rightarrow> BroadcastRecipientAnalytics" where
  "summarize tracked rows =
     \<lparr>an_tracked_broadcasts = tracked,
      an_total_recipients = int (length rows),
      an_attempted = count_rows (\<lambda>p. 0 < p_attempt_count p) rows,
      an_sent = count_rows (\<lambda>p. p_delivery_status p \<in>
          {recipientStatusSent, recipientStatusDelivered, recipientStatusRead}) rows,
      an_delivered = count_rows (\<lambda>p. p_delivered_at p \<noteq> None) rows,
      an_read = count_rows (\<lambda>p. p_read_at p \<noteq> None) rows,
      an_failed = count_rows (\<lambda>p. p_delivery_status p = recipientStatusFailed) rows,
      an_pending = count_rows (\<lambda>p. p_delivery_status p = recipientStatusPending) rows,
      an_partial = False\<rparr>"

definition repo_SummarizeRecipientProgress ::
  "string \<Rightarrow> string \<Rightarrow> broadcast_db \<Rightarrow> BroadcastRecipientAnalytics" where
  "repo_SummarizeRecipientProgress tenantID jobID db =
     summarize 0 (filter (of_job tenantID jobID) (db_progress db))"

definition repo_SummarizeRecipientProgressByTenant ::
  "string \<Rightarrow> broadcast_db \<Rightarrow> BroadcastRecipientAnalytics" where
  "repo_SummarizeRecipientProgressByTenant tenantID db =
     (let rows = filter (\<lambda>p. p_tenant_id p = tenantID) (db_progress db)
      in summarize (int (card (set (map p_broadcast_id rows)))) rows)"

section \<open>Well-formed tables\<close>

text \<open>The primary key of the jobs and the unique index of the recipients.\<close>

definition recipient_key :: "BroadcastRecipientProgress \<Rightarrow> string \<times> string" where
  "recipient_key p = (p_broadcast_id p, p_phone p)"

definition db_ok :: "broadcast_db \<Rightarrow> bool" where
  "db_ok db \<longleftrightarrow> distinct (map j_id (db_jobs db)) \<and> distinct (map recipient_key (db_progress db))"

lemma same_recipient_key: "same_recipient p q \<longleftrightarrow> recipient_key p = recipient_key q"
  by (simp add: same_recipient_def recipient_key_def)

lemma recipient_key_simps [simp]:
  "recipient_key (assign_columns p q) = recipient_key q"
  "recipient_key (new_row uuid now p) = recipient_key p"
  "recipient_key (with_default_status p) = recipient_key p"
  by (simp_all add: recipient_key_def assign_columns_def new_row_def with_default_status_def)

lemma new_row_simps [simp]:
  "p_tenant_id (new_row uuid now p) = p_tenant_id p"
  "p_broadcast_id (new_row uuid now p) = p_broadcast_id p"
  "p_phone (new_row uuid now p) = p_phone p"
  "p_attempt_count (new_row uuid now p) = p_attempt_count p"
  "p_message_id (new_row uuid now p) = p_message_id p"
  by (simp_all add: new_row_def with_default_status_def)

lemma assign_columns_simps [simp]:
  "p_id (assign_columns p q) = p_id q"
  "p_broadcast_id (assign_columns p q) = p_broadcast_id q"
  "p_phone (assign_columns p q) = p_phone q"
  "p_created_at (assign_columns p q) = p_created_at q"
  "p_tenant_id (assign_columns p q) = p_tenant_id p"
  "p_delivery_status (assign_columns p q) = p_delivery_status p"
  "p_attempt_count (assign_columns p q) = p_attempt_count p"
  by (simp_all add: assign_columns_def)

lemma with_default_status_id [simp]: "p_delivery_status p \<noteq> [] \<Longrightarrow> with_default_status p = p"
  by (simp add: with_default_status_def)

lemma map_if_keys: "(\<And>x. f (g x) = f x) \<Longrightarrow> map f (map (\<lambda>x. if P x then g x else x) xs) = map f xs"
  by (induction xs) auto

lemma upsert_keys:
  "map recipient_key (upsert uuid now p rows) =
     map recipient_key rows @ (if recipient_key p \<in> recipient_key ` set rows then [] else [recipient_key p])"
proof (cases "\<exists>q \<in> set rows. same_recipient q p")
  case True
  then have "recipient_key p \<in> recipient_key ` set rows" by (metis image_eqI same_recipient_key)
  with True show ?thesis by (auto simp: upsert_def)
next
  case False
  then have "recipient_key p \<notin> recipient_key ` set rows" by (auto simp: same_recipient_key)
  with False show ?thesis by (auto simp: upsert_def)
qed

lemma upsert_distinct:
  "distinct (map recipient_key rows) \<Longrightarrow> distinct (map recipient_key (upsert uuid now p rows))"
  by (simp add: upsert_keys del: map_map)

lemma insert_new_distinct:
  "distinct (map recipient_key rows) \<Longrightarrow> distinct (map recipient_key (insert_new gen now i ps rows))"
proof (induction ps arbitrary: i rows)
  case (Cons p ps)
  then show ?case by (fastforce simp: same_recipient_key image_iff intro!: Cons.IH)
qed simp

text \<open>Seeding keeps the rows that are there and adds only records of the batch.\<close>

lemma insert_new_prefix: "\<exists>new. insert_new gen now i ps rows = rows @ new \<and>
  (\<forall>q \<in> set new. \<exists>p \<in> set ps. \<exists>k. q = new_row (gen k) now p)"
proof (induction ps arbitrary: i rows)
  case (Cons p ps)
  show ?case
  proof (cases "\<exists>q \<in> set rows. same_recipient q p")
    case True
    with Cons.IH [of "Suc i" rows] show ?thesis by fastforce
  next
    case False
    obtain new where "insert_new gen now (Suc i) ps (rows @ [new_row (gen i) now p]) =
        (rows @ [new_row (gen i) now p]) @ new"
      "\<forall>q \<in> set new. \<exists>p \<in> set ps. \<exists>k. q = new_row (gen k) now p" using Cons.IH by meson
    with False show ?thesis by (intro exI [of _ "new_row (gen i) now p # new"]) auto
  qed
qed simp

text \<open>Every record of the batch has a row afterwards.\<close>

lemma insert_new_complete:
  "p \<in> set ps \<Longrightarrow> recipient_key p \<in> recipient_key ` set (insert_new gen now i ps rows)"
proof (induction ps arbitrary: i rows)
  case (Cons q ps)
  show ?case
  proof (cases "p = q")
    case True
    let ?rows = "if \<exists>r \<in> set rows. same_recipient r q then rows else rows @ [new_row (gen i) now q]"
    have "recipient_key p \<in> recipient_key ` set ?rows"
      using True by (auto simp: same_recipient_key image_iff eq_commute)
    moreover obtain new where "insert_new gen now (Suc i) ps ?rows = ?rows @ new"
      using insert_new_prefix by blast
    then have "set ?rows \<subseteq> set (insert_new gen now i (q # ps) rows)"
      by (simp only: insert_new.simps set_append) blast
    ultimately show ?thesis by blast
  next
    case False
    with Cons show ?thesis by auto
  qed
qed simp

lemma set_progress_order [simp]: "set (progress_order rows) = set rows"
  by (simp add: progress_order_def)

lemma length_progress_order [simp]: "length (progress_order rows) = length rows"
  by (simp add: progress_order_def)

lemma mset_progress_order: "mset (progress_order rows) = mset rows"
  by (simp add: progress_order_def)

lemma distinct_map_progress_order [simp]: "distinct (map f (progress_order rows)) = distinct (map f rows)"
  by (intro mset_eq_imp_distinct_iff) (simp add: mset_progress_order)

section \<open>Claiming\<close>

lemma set_claim_order: "set (claim_order now limit db) \<subseteq> {j \<in> set (db_jobs db). claimable now j}"
  by (auto simp: claim_order_def Let_def dest: in_set_takeD)

lemma length_claim_order: "0 < limit \<Longrightarrow> length (claim_order now limit db) \<le> nat limit"
  by (simp add: claim_order_def Let_def)

lemma distinct_map_mset: "mset xs = mset ys \<Longrightarrow> distinct (map f xs) = distinct (map f ys)"
  by (intro mset_eq_imp_distinct_iff) simp

lemma distinct_claim_order:
  "distinct (map j_id (db_jobs db)) \<Longrightarrow> distinct (map j_id (claim_order now limit db))"
proof -
  let ?all = "sort_key j_available_at (sort_key j_created_at (filter (claimable now) (db_jobs db)))"
  assume "distinct (map j_id (db_jobs db))"
  then have "distinct (map j_id (filter (claimable now) (db_jobs db)))" by (rule distinct_map_filter)
  then have "distinct (map j_id ?all)"
    by (subst distinct_map_mset [of _ "filter (claimable now) (db_jobs db)"]) simp_all
  then show ?thesis by (simp add: claim_order_def Let_def take_map [symmetric])
qed

text \<open>What is left out is not claimable or not older than what is taken.\<close>

lemma claim_order_oldest:
  assumes "x \<in> set (claim_order now limit db)" "y \<in> set (db_jobs db)" "claimable now y"
    and "y \<notin> set (claim_order now limit db)"
  shows "j_available_at x \<le> j_available_at y \<and> int (length (claim_order now limit db)) = limit"
proof -
  let ?all = "sort_key j_available_at (sort_key j_created_at (filter (claimable now) (db_jobs db)))"
  have y: "y \<in> set ?all" using assms by simp
  with assms(4) have l: "0 < limit" "claim_order now limit db = take (nat limit) ?all"
    by (auto simp: claim_order_def Let_def split: if_splits)
  with y assms(4) have yd: "y \<in> set (drop (nat limit) ?all)"
    by (metis UnE append_take_drop_id set_append)
  have "sorted (map j_available_at (take (nat limit) ?all @ drop (nat limit) ?all))" by simp
  then have "j_available_at x \<le> j_available_at y"
    using assms(1) yd l(2) by (auto simp only: map_append sorted_append set_map image_iff)
  moreover have "nat limit < length ?all" using yd by (cases "nat limit < length ?all") auto
  ultimately show ?thesis using l by simp
qed

lemma repo_ClaimNext_simps [simp]:
  "fst (repo_ClaimNext workerID limit now db) = map (claimed workerID now) (claim_order now limit db)"
  "db_progress (snd (repo_ClaimNext workerID limit now db)) = db_progress db"
  "db_jobs (snd (repo_ClaimNext workerID limit now db)) =
     map (\<lambda>j. if j_id j \<in> j_id ` set (claim_order now limit db) then claimed workerID now j else j) (db_jobs db)"
  by (simp_all add: repo_ClaimNext_def Let_def)

lemma claimed_simps [simp]:
  "j_id (claimed w t j) = j_id j" "j_tenant_id (claimed w t j) = j_tenant_id j"
  "j_status (claimed w t j) = statusProcessing" "j_attempts (claimed w t j) = j_attempts j + 1"
  "j_max_attempts (claimed w t j) = j_max_attempts j" "j_instance_id (claimed w t j) = j_instance_id j"
  "j_message (claimed w t j) = j_message j" "j_rate_per_hour (claimed w t j) = j_rate_per_hour j"
  by (simp_all add: claimed_def)

lemma claimed_iff:
  assumes "distinct (map j_id (db_jobs db))" "j \<in> set (db_jobs db)"
  shows "j_id j \<in> j_id ` set (claim_order now limit db) \<longleftrightarrow> j \<in> set (claim_order now limit db)"
  using assms set_claim_order [of now limit db] by (auto simp: distinct_map inj_on_def)

lemma update_job_simps:
  "update_job t i f db = (r, db') \<Longrightarrow> db_progress db' = db_progress db \<and>
     db_jobs db' = map (\<lambda>j. if j_tenant_id j = t \<and> j_id j = i then f j else j) (db_jobs db)"
  by (auto simp: update_job_def map_idI split: if_splits intro!: sym [OF map_idI])

section \<open>Receipts\<close>

text \<open>The order in which a recipient moves; a failed recipient does not move.\<close>

definition status_rank :: "string \<Rightarrow> nat" where
  "status_rank st =
     (if st = recipientStatusRead then 3 else if st = recipientStatusDelivered then 2
      else if st = recipientStatusSent then 1 else 0)"

text \<open>What a receipt may do to a row: advance it, and never lose a time already recorded.\<close>

definition receipt_step :: "BroadcastRecipientProgress \<Rightarrow> BroadcastRecipientProgress \<Rightarrow> bool" where
  "receipt_step p q \<longleftrightarrow>
     q = p \<or>
     (p_delivery_status p \<noteq> recipientStatusFailed \<and> recipient_key q = recipient_key p \<and>
      p_tenant_id q = p_tenant_id p \<and> p_message_id q = p_message_id p \<and> p_attempt_count q = p_attempt_count p \<and>
      p_sent_at q = p_sent_at p \<and> p_failed_at q = p_failed_at p \<and>
      status_rank (p_delivery_status p) \<le> status_rank (p_delivery_status q) \<and>
      2 \<le> status_rank (p_delivery_status q) \<and> p_delivered_at q \<noteq> None \<and>
      (p_delivered_at p \<noteq> None \<longrightarrow> p_delivered_at q = p_delivered_at p) \<and>
      (\<forall>t. p_read_at p = Some t \<longrightarrow> (\<exists>t' \<ge> t. p_read_at q = Some t')))"

lemma status_rank_simps [simp]:
  "status_rank recipientStatusRead = 3" "status_rank recipientStatusDelivered = 2"
  "status_rank recipientStatusSent = 1" "status_rank recipientStatusPending = 0"
  "status_rank recipientStatusFailed = 0" "status_rank [] = 0"
  by (simp_all add: status_rank_def recipient_status_defs)

lemma status_rank_le: "status_rank st \<le> 3" "st \<noteq> recipientStatusRead \<Longrightarrow> status_rank st \<le> 2"
  by (simp_all add: status_rank_def)

lemma receipt_update_step:
  assumes "receipt_update state t = Some (extra, f)" "extra p" "p_delivery_status p \<noteq> recipientStatusFailed"
  shows "receipt_step p (f p)"
  using assms status_rank_le [of "p_delivery_status p"]
  by (auto simp: receipt_update_def receipt_step_def coalesce_def recipient_key_def split: if_splits option.splits)

lemma receipt_step_refl [simp]: "receipt_step p p"
  by (simp add: receipt_step_def)

lemma list_all2_map_step: "(\<And>x. x \<in> set xs \<Longrightarrow> R x (f x)) \<Longrightarrow> list_all2 R xs (map f xs)"
  by (simp add: list_all2_map2 list_all2_same)

lemma MarkRecipientReceipt_step:
  "list_all2 receipt_step (db_progress db) (db_progress (snd (repo_MarkRecipientReceipt t i m st at db)))"
proof (cases "receipt_update (lower_trim st) at")
  case None
  then show ?thesis by (simp add: repo_MarkRecipientReceipt_def Let_def list_all2_same)
next
  case (Some u)
  obtain extra f where u: "u = (extra, f)" by (cases u)
  with Some receipt_update_step [of "lower_trim st" at extra f] show ?thesis
    by (auto simp: repo_MarkRecipientReceipt_def Let_def list_all2_same receipt_matches_def
        intro!: list_all2_map_step)
qed

lemma MarkRecipientReceipt_jobs [simp]:
  "db_jobs (snd (repo_MarkRecipientReceipt t i m st at db)) = db_jobs db"
  by (auto simp: repo_MarkRecipientReceipt_def Let_def split: option.splits)

lemma receipt_step_keys: "list_all2 receipt_step ps qs \<Longrightarrow> map recipient_key qs = map recipient_key ps"
  by (induction ps qs rule: list_all2_induct) (auto simp: receipt_step_def)

section \<open>Properties\<close>

text \<open>
  A receipt only moves recipients forward (pending, sent, delivered, read): no status goes
  back, a failed recipient stays failed, a recorded delivery time is kept and a read time never
  decreases; message ids, attempt counts and send times are untouched.
\<close>

theorem receipts_monotone:
  "list_all2 receipt_step (db_progress db)
     (db_progress (snd (repo_MarkRecipientReceipt tenantID instanceID messageID state at db)))"
  by (rule MarkRecipientReceipt_step)

text \<open>
  C6: a claim takes at most \<open>limit\<close> jobs, each of them queued and due, each once; in the
  table exactly these become processing with one more attempt, all other jobs are untouched; and
  a due job is left behind only when the limit is reached, and then none of the claimed jobs was
  due later.
\<close>

theorem ClaimNext_correct:
  assumes "db_ok db" and "0 < limit" and "repo_ClaimNext workerID limit now db = (jobs, db')"
  shows "int (length jobs) \<le> limit \<and> distinct (map j_id jobs) \<and>
    set jobs = {j' \<in> set (db_jobs db'). j_id j' \<in> j_id ` set jobs} \<and>
    db_jobs db' = map (\<lambda>j. if j_id j \<in> j_id ` set jobs then claimed workerID now j else j) (db_jobs db) \<and>
    (\<forall>j \<in> set (db_jobs db). j_id j \<in> j_id ` set jobs \<longrightarrow> claimable now j) \<and>
    (\<forall>j \<in> set (db_jobs db). claimable now j \<longrightarrow> j_id j \<notin> j_id ` set jobs \<longrightarrow>
       int (length jobs) = limit \<and> (\<forall>j' \<in> set jobs. j_available_at j' \<le> j_available_at j))"
proof -
  let ?c = "claim_order now limit db"
  have d: "distinct (map j_id (db_jobs db))" using assms(1) by (simp add: db_ok_def)
  have eqs: "jobs = map (claimed workerID now) ?c"
    "db_jobs db' = map (\<lambda>j. if j_id j \<in> j_id ` set ?c then claimed workerID now j else j) (db_jobs db)"
    using assms(3) repo_ClaimNext_simps [of workerID limit now db] by (metis fst_conv, metis snd_conv)
  have ids: "j_id ` set jobs = j_id ` set ?c" by (simp add: eqs image_image)
  have 1: "int (length jobs) \<le> limit" using length_claim_order [OF assms(2), of now db] assms(2)
    by (simp add: eqs)
  have 2: "distinct (map j_id jobs)" using distinct_claim_order [OF d] by (simp add: eqs comp_def)
  have 3: "set jobs = {j' \<in> set (db_jobs db'). j_id j' \<in> j_id ` set jobs}"
    unfolding ids using set_claim_order [of now limit db] claimed_iff [OF d]
    by (auto simp: eqs image_iff) blast+
  have 5: "\<forall>j \<in> set (db_jobs db). j_id j \<in> j_id ` set jobs \<longrightarrow> claimable now j"
    unfolding ids using claimed_iff [OF d] set_claim_order [of now limit db] by blast
  have 6: "\<forall>j \<in> set (db_jobs db). claimable now j \<longrightarrow> j_id j \<notin> j_id ` set jobs \<longrightarrow>
       int (length jobs) = limit \<and> (\<forall>j' \<in> set jobs. j_available_at j' \<le> j_available_at j)"
  proof (intro ballI impI)
    fix j assume j: "j \<in> set (db_jobs db)" "claimable now j" "j_id j \<notin> j_id ` set jobs"
    then have "j \<notin> set ?c" unfolding ids by blast
    moreover have "?c \<noteq> []"
    proof -
      have "j \<in> set (sort_key j_available_at (sort_key j_created_at (filter (claimable now) (db_jobs db))))"
        using j by simp
      then show ?thesis using assms(2) by (auto simp: claim_order_def Let_def simp del: set_sort)
    qed
    ultimately show "int (length jobs) = limit \<and> (\<forall>j' \<in> set jobs. j_available_at j' \<le> j_available_at j)"
      using claim_order_oldest [of _ now limit db, OF _ j(1,2)] claim_order_oldest [OF hd_in_set j(1,2)]
      by (auto simp: eqs(1) claimed_def)
  qed
  have 4: "db_jobs db' = map (\<lambda>j. if j_id j \<in> j_id ` set jobs then claimed workerID now j else j) (db_jobs db)"
    unfolding ids by (rule eqs(2))
  show ?thesis by (intro conjI 1 2 3 4 5 6)
qed

theorem ClaimNext_correct_witness:
  "let job = \<lparr>j_id = ''a'', j_tenant_id = ''t'', j_instance_id = ''i'', j_status = ''queued'',
        j_message = ''m'', j_rate_per_hour = 0, j_delay_sec = 0, j_attempts = 0, j_max_attempts = 3,
        j_worker_id = [], j_last_error = [], j_scheduled_at = None, j_available_at = 5,
        j_started_at = None, j_completed_at = None, j_failed_at = None, j_created_at = 1\<rparr>;
       db = \<lparr>db_jobs = [job, job\<lparr>j_id := ''b'', j_available_at := 4\<rparr>], db_progress = []\<rparr>
   in int (length (fst (repo_ClaimNext ''w'' 1 9 db))) \<le> 1"
  unfolding Let_def
  by (rule conjunct1 [OF ClaimNext_correct [OF _ _ prod.collapse [symmetric]]])
     (simp_all add: db_ok_def)

end
