(* ===== verification/Broadcast_Processor.thy ===== *)
theory Broadcast_Processor
  imports Broadcast_Store
begin

text \<open>
  The delivery of one broadcast job, \<open>internal/broadcast/processor.go\<close>. The processor
  is defined over a record of the operations it calls (\<open>delivery_deps\<close>), on any state;
  the locale \<open>delivery_env\<close> says what it relies on, and the last section interprets it on
  the tables of \<open>Broadcast_Store\<close> with an environment that may cancel, lose statements and
  fail sends at any point. Log output is left out.
\<close>

section \<open>Operations the processor calls\<close>

record Contact =
  c_id :: string
  c_tenant_id :: string
  c_phone :: string
  c_name :: string
  c_email :: string
  c_instance_id :: string
  c_created_at :: time

record SendTextResult =
  sr_message_id :: string
  sr_server_id :: int
  sr_chat :: string
  sr_from_me :: bool
  sr_timestamp :: time

text \<open>
  \<open>dd_instance\<close> is \<open>GetByID\<close> of the instance finder (the id of the record, if there is
  one), \<open>dd_pace\<close> waits for the timer or the end of the context.
\<close>

record 's delivery_deps =
  dd_available :: bool
  dd_ctx_err :: "'s \<Rightarrow> go_error option \<times> 's"
  dd_now :: "'s \<Rightarrow> time \<times> 's"
  dd_pace :: "duration \<Rightarrow> 's \<Rightarrow> go_error option \<times> 's"
  dd_instance :: "string \<Rightarrow> string \<Rightarrow> 's \<Rightarrow> (go_error + string option) \<times> 's"
  dd_contacts :: "string \<Rightarrow> 's \<Rightarrow> (go_error + Contact list) \<times> 's"
  dd_list :: "string \<Rightarrow> string \<Rightarrow> 's \<Rightarrow> (go_error + BroadcastRecipientProgress list) \<times> 's"
  dd_seed :: "BroadcastRecipientProgress list \<Rightarrow> 's \<Rightarrow> go_error option \<times> 's"
  dd_save :: "BroadcastRecipientProgress \<Rightarrow> 's \<Rightarrow> go_error option \<times> 's"
  dd_send :: "string \<Rightarrow> string \<Rightarrow> string \<Rightarrow> string \<Rightarrow> 's \<Rightarrow> (go_error + SendTextResult option) \<times> 's"

section \<open>Errors\<close>

text \<open>An error is typed as retryable or permanent, or it is a raw error of the repository.\<close>

datatype processor_error = ProcessorError (pe_error: go_error) bool | RawError (pe_error: go_error)

definition retryableProcessorError :: "go_error \<Rightarrow> processor_error" where
  "retryableProcessorError e = ProcessorError e True"

definition permanentProcessorError :: "go_error \<Rightarrow> processor_error" where
  "permanentProcessorError e = ProcessorError e False"

definition isRetryableProcessorError :: "processor_error \<Rightarrow> bool" where
  "isRetryableProcessorError e = (case e of ProcessorError _ r \<Rightarrow> r | RawError _ \<Rightarrow> True)"

lemma isRetryable_simps [simp]:
  "isRetryableProcessorError (retryableProcessorError e)"
  "\<not> isRetryableProcessorError (permanentProcessorError e)"
  "isRetryableProcessorError (RawError e)"
  by (simp_all add: isRetryableProcessorError_def retryableProcessorError_def permanentProcessorError_def)

definition isPermanentSendError :: "go_error \<Rightarrow> bool" where
  "isPermanentSendError e \<longleftrightarrow>
     (let t = to_lower (err_text e) in
      contains t (sentinel_text ErrValidation) \<or> contains t (sentinel_text ErrForbidden) \<or>
      contains t (sentinel_text ErrNotFound) \<or> contains t ''not registered on whatsapp'')"

definition isConfirmedSendAttempt :: "SendTextResult option \<Rightarrow> bool" where
  "isConfirmedSendAttempt r =
     (case r of None \<Rightarrow> False
      | Some r \<Rightarrow> trim_space (sr_message_id r) \<noteq> [] \<or> sr_server_id r \<noteq> 0 \<or>
                  sr_timestamp r \<noteq> 0 \<or> trim_space (sr_chat r) \<noteq> [])"

section \<open>Recipients\<close>

record broadcastRecipient =
  br_contact_id :: "string option"
  br_phone :: string

definition eligible_contact :: "string \<Rightarrow> Contact \<Rightarrow> bool" where
  "eligible_contact instanceID c \<longleftrightarrow>
     trim_space (c_phone c) \<noteq> [] \<and>
     (trim_space (c_instance_id c) = [] \<or> trim_space (c_instance_id c) = instanceID)"

fun eligible_from :: "string set \<Rightarrow> Contact list \<Rightarrow> string \<Rightarrow> broadcastRecipient list" where
  "eligible_from seen [] instanceID = []"
| "eligible_from seen (c # cs) instanceID =
     (let phone = trim_space (c_phone c) in
      if \<not> eligible_contact instanceID c \<or> phone \<in> seen then eligible_from seen cs instanceID
      else \<lparr>br_contact_id = (if trim_space (c_id c) \<noteq> [] then Some (trim_space (c_id c)) else None),
            br_phone = phone\<rparr>
        # eligible_from (insert phone seen) cs instanceID)"

definition eligibleBroadcastRecipients :: "Contact list \<Rightarrow> string \<Rightarrow> broadcastRecipient list" where
  "eligibleBroadcastRecipients contacts instanceID = eligible_from {} contacts instanceID"

definition seed_record :: "BroadcastJob \<Rightarrow> broadcastRecipient \<Rightarrow> BroadcastRecipientProgress" where
  "seed_record job r =
     \<lparr>p_id = [], p_broadcast_id = j_id job, p_tenant_id = j_tenant_id job,
      p_instance_id = j_instance_id job, p_contact_id = br_contact_id r, p_phone = br_phone r,
      p_delivery_status = recipientStatusPending, p_attempt_count = 0, p_last_error = [],
      p_last_attempt_at = None, p_sent_at = None, p_delivered_at = None, p_read_at = None,
      p_failed_at = None, p_last_status_at = None, p_status_source = [], p_message_id = [],
      p_server_id = 0, p_chat_jid = [], p_created_at = 0\<rparr>"

definition is_pending :: "BroadcastRecipientProgress \<Rightarrow> bool" where
  "is_pending p \<longleftrightarrow> lower_trim (p_delivery_status p) \<notin>
     {recipientStatusSent, recipientStatusDelivered, recipientStatusRead, recipientStatusFailed}"

definition pendingRecipientProgress ::
  "BroadcastRecipientProgress list \<Rightarrow> BroadcastRecipientProgress list" where
  "pendingRecipientProgress progress = filter is_pending progress"

lemma lower_trim_status [simp]:
  "lower_trim recipientStatusPending = recipientStatusPending"
  "lower_trim recipientStatusSent = recipientStatusSent"
  "lower_trim recipientStatusDelivered = recipientStatusDelivered"
  "lower_trim recipientStatusRead = recipientStatusRead"
  "lower_trim recipientStatusFailed = recipientStatusFailed"
  by code_simp+

lemma is_pending_status:
  "p_delivery_status p = recipientStatusPending \<Longrightarrow> is_pending p"
  "p_delivery_status p = recipientStatusSent \<Longrightarrow> \<not> is_pending p"
  "p_delivery_status p = recipientStatusDelivered \<Longrightarrow> \<not> is_pending p"
  "p_delivery_status p = recipientStatusRead \<Longrightarrow> \<not> is_pending p"
  "p_delivery_status p = recipientStatusFailed \<Longrightarrow> \<not> is_pending p"
  by (simp_all add: is_pending_def) (simp add: recipient_status_defs)

text \<open>The loop that builds the records checks the context before each of them.\<close>

fun check_context :: "'s delivery_deps \<Rightarrow> nat \<Rightarrow> 's \<Rightarrow> go_error option \<times> 's" where
  "check_context d 0 s = (None, s)"
| "check_context d (Suc n) s =
     (case dd_ctx_err d s of
        (Some e, s) \<Rightarrow> (Some e, s)
      | (None, s) \<Rightarrow> check_context d n s)"

definition load_result ::
  "(go_error + 'a) \<times> 's \<Rightarrow> (processor_error + 'a) \<times> 's" where
  "load_result x = (case x of (Inl e, s) \<Rightarrow> (Inl (RawError e), s) | (Inr a, s) \<Rightarrow> (Inr a, s))"

definition seed_progress ::
  "'s delivery_deps \<Rightarrow> BroadcastJob \<Rightarrow> Contact list \<Rightarrow> 's \<Rightarrow>
   (processor_error + BroadcastRecipientProgress list) \<times> 's" where
  "seed_progress d job contacts s =
     (let recipients = eligibleBroadcastRecipients contacts (j_instance_id job) in
      if recipients = [] then (Inr [], s)
      else case check_context d (length recipients) s of
        (Some e, s) \<Rightarrow> (Inl (retryableProcessorError e), s)
      | (None, s) \<Rightarrow>
          (case dd_seed d (map (seed_record job) recipients) s of
             (Some e, s) \<Rightarrow>
               (Inl (retryableProcessorError (wrap_error ''seed broadcast recipient progress'' e)), s)
           | (None, s) \<Rightarrow> load_result (dd_list d (j_tenant_id job) (j_id job) s)))"

definition loadOrSeedRecipientProgress ::
  "'s delivery_deps \<Rightarrow> BroadcastJob \<Rightarrow> 's \<Rightarrow>
   (processor_error + BroadcastRecipientProgress list) \<times> 's" where
  "loadOrSeedRecipientProgress d job s =
     (case dd_ctx_err d s of
        (Some e, s) \<Rightarrow> (Inl (retryableProcessorError e), s)
      | (None, s) \<Rightarrow>
     (case dd_list d (j_tenant_id job) (j_id job) s of
        (Inl e, s) \<Rightarrow>
          (Inl (retryableProcessorError (wrap_error ''load broadcast recipient progress'' e)), s)
      | (Inr progress, s) \<Rightarrow>
          if progress \<noteq> [] then (Inr progress, s)
          else
     (case dd_ctx_err d s of
        (Some e, s) \<Rightarrow> (Inl (retryableProcessorError e), s)
      | (None, s) \<Rightarrow>
     (case dd_contacts d (j_tenant_id job) s of
        (Inl e, s) \<Rightarrow> (Inl (retryableProcessorError (wrap_error ''load broadcast contacts'' e)), s)
      | (Inr contacts, s) \<Rightarrow> seed_progress d job contacts s))))"

section \<open>Sending\<close>

text \<open>
  \<open>Process\<close> sends at a pace: an hour divided by the rate. The quotient is zero for rates
  above 3.6e12.
\<close>

definition intervalForRate :: "int \<Rightarrow> duration" where
  "intervalForRate ratePerHour =
     (if ratePerHour \<le> 0 then 500 * 1000000
      else let interval = int64 (hour div ratePerHour) in
        if interval \<le> 0 then 100 * 1000000 else interval)"

definition waitForRecipientPacing :: "'s delivery_deps \<Rightarrow> int \<Rightarrow> 's \<Rightarrow> go_error option \<times> 's" where
  "waitForRecipientPacing d ratePerHour s = dd_pace d (intervalForRate ratePerHour) s"

text \<open>What an attempt and its outcomes write into the recipient's record.\<close>

definition attempted :: "time \<Rightarrow> BroadcastRecipientProgress \<Rightarrow> BroadcastRecipientProgress" where
  "attempted attemptedAt r =
     r\<lparr>p_attempt_count := p_attempt_count r + 1, p_last_attempt_at := Some attemptedAt,
       p_last_error := [], p_delivery_status := recipientStatusPending\<rparr>"

definition failed_permanently ::
  "go_error \<Rightarrow> time \<Rightarrow> BroadcastRecipientProgress \<Rightarrow> BroadcastRecipientProgress" where
  "failed_permanently sendErr failedAt r =
     r\<lparr>p_last_error := err_text sendErr, p_delivery_status := recipientStatusFailed,
       p_failed_at := Some failedAt\<rparr>"

definition failed_retryably :: "go_error \<Rightarrow> BroadcastRecipientProgress \<Rightarrow> BroadcastRecipientProgress" where
  "failed_retryably e r =
     r\<lparr>p_last_error := err_text e, p_delivery_status := recipientStatusPending, p_failed_at := None\<rparr>"

definition confirmed ::
  "time \<Rightarrow> SendTextResult \<Rightarrow> BroadcastRecipientProgress \<Rightarrow> BroadcastRecipientProgress" where
  "confirmed attemptedAt result r =
     (let sentAt = (if sr_timestamp result \<noteq> 0 then sr_timestamp result else attemptedAt) in
      r\<lparr>p_delivery_status := recipientStatusSent, p_last_error := [], p_sent_at := Some sentAt,
        p_failed_at := None, p_last_status_at := Some sentAt, p_status_source := ''send_result'',
        p_message_id := trim_space (sr_message_id result), p_server_id := sr_server_id result,
        p_chat_jid := trim_space (sr_chat result)\<rparr>)"

definition unconfirmed_error :: "BroadcastRecipientProgress \<Rightarrow> go_error" where
  "unconfirmed_error r =
     plain_error (''instance send path returned no delivery evidence for recipient '' @ p_phone r)"

definition persist_error :: "string \<Rightarrow> BroadcastRecipientProgress \<Rightarrow> go_error \<Rightarrow> processor_error" where
  "persist_error what r e = retryableProcessorError (wrap_error (''persist '' @ what @ '' for '' @ p_phone r) e)"

text \<open>The part of the loop's body after the send: the saved outcome, and the error that ends the run.\<close>

definition settle ::
  "'s delivery_deps \<Rightarrow> time \<Rightarrow> BroadcastRecipientProgress \<Rightarrow> go_error + SendTextResult option \<Rightarrow> 's \<Rightarrow>
   processor_error option \<times> 's" where
  "settle d attemptedAt r sent s =
     (case sent of
        Inl sendErr \<Rightarrow>
          if isPermanentSendError sendErr then
            (case dd_now d s of (failedAt, s) \<Rightarrow>
             (case dd_save d (failed_permanently sendErr failedAt r) s of
                (Some e, s) \<Rightarrow> (Some (persist_error ''permanent broadcast recipient failure'' r e), s)
              | (None, s) \<Rightarrow> (None, s)))
          else
            (case dd_save d (failed_retryably sendErr r) s of
               (Some e, s) \<Rightarrow> (Some (persist_error ''retryable broadcast recipient failure'' r e), s)
             | (None, s) \<Rightarrow>
                 (Some (retryableProcessorError
                    (wrap_error (''broadcast delivery paused after retryable failure on '' @ p_phone r)
                       sendErr)), s))
      | Inr result \<Rightarrow>
          (case (isConfirmedSendAttempt result, result) of
             (True, Some result) \<Rightarrow>
               (case dd_save d (confirmed attemptedAt result r) s of
                  (Some e, s) \<Rightarrow> (Some (persist_error ''broadcast recipient success'' r e), s)
                | (None, s) \<Rightarrow> (None, s))
           | _ \<Rightarrow>
               (case dd_save d (failed_retryably (unconfirmed_error r) r) s of
                  (Some e, s) \<Rightarrow> (Some (persist_error ''unconfirmed broadcast recipient result'' r e), s)
                | (None, s) \<Rightarrow>
                    (Some (retryableProcessorError
                       (wrap_error (''broadcast delivery paused after unconfirmed send result on '' @ p_phone r)
                          (unconfirmed_error r))), s))))"

definition send_one ::
  "'s delivery_deps \<Rightarrow> BroadcastJob \<Rightarrow> string \<Rightarrow> BroadcastRecipientProgress \<Rightarrow> 's \<Rightarrow>
   processor_error option \<times> 's" where
  "send_one d job instanceID recipient s =
     (case dd_now d s of (attemptedAt, s) \<Rightarrow>
      let r = attempted attemptedAt recipient in
      (case dd_save d r s of
         (Some e, s) \<Rightarrow> (Some (persist_error ''broadcast recipient attempt'' r e), s)
       | (None, s) \<Rightarrow>
      (case dd_ctx_err d s of
         (Some e, s) \<Rightarrow> (Some (retryableProcessorError e), s)
       | (None, s) \<Rightarrow>
      (case dd_send d (j_tenant_id job) instanceID (p_phone r) (j_message job) s of
         (sent, s) \<Rightarrow> settle d attemptedAt r sent s))))"

definition pace_before ::
  "'s delivery_deps \<Rightarrow> BroadcastJob \<Rightarrow> bool \<Rightarrow> BroadcastRecipientProgress \<Rightarrow> 's \<Rightarrow>
   processor_error option \<times> 's" where
  "pace_before d job first recipient s =
     (case dd_ctx_err d s of
        (Some e, s) \<Rightarrow> (Some (retryableProcessorError e), s)
      | (None, s) \<Rightarrow>
          if first then (None, s)
          else case waitForRecipientPacing d (j_rate_per_hour job) s of
            (Some e, s) \<Rightarrow>
              (Some (retryableProcessorError
                 (wrap_error (''broadcast pacing interrupted before recipient '' @ p_phone recipient) e)), s)
          | (None, s) \<Rightarrow> (None, s))"

fun send_all ::
  "'s delivery_deps \<Rightarrow> BroadcastJob \<Rightarrow> string \<Rightarrow> bool \<Rightarrow> BroadcastRecipientProgress list \<Rightarrow> 's \<Rightarrow>
   processor_error option \<times> 's" where
  "send_all d job instanceID first [] s = (None, s)"
| "send_all d job instanceID first (r # rs) s =
     (case pace_before d job first r s of
        (Some e, s) \<Rightarrow> (Some e, s)
      | (None, s) \<Rightarrow>
          (case send_one d job instanceID r s of
             (Some e, s) \<Rightarrow> (Some e, s)
           | (None, s) \<Rightarrow> send_all d job instanceID False rs s))"

definition Process :: "'s delivery_deps \<Rightarrow> BroadcastJob \<Rightarrow> 's \<Rightarrow> processor_error option \<times> 's" where
  "Process d job s =
     (case dd_ctx_err d s of
        (Some e, s) \<Rightarrow> (Some (retryableProcessorError e), s)
      | (None, s) \<Rightarrow>
      if \<not> dd_available d then
        (Some (permanentProcessorError
           (wrap ErrConflict ''broadcast delivery dependencies are unavailable'')), s)
      else if trim_space (j_tenant_id job) = [] \<or> trim_space (j_instance_id job) = [] \<or>
          trim_space (j_message job) = [] then
        (Some (permanentProcessorError
           (wrap ErrValidation ''broadcast job is missing tenant_id, instance_id, or message'')), s)
      else
     (case dd_instance d (j_tenant_id job) (j_instance_id job) s of
        (Inl e, s) \<Rightarrow>
          (Some (permanentProcessorError
             (wrap ErrForbidden (''broadcast instance lookup failed: '' @ err_text e))), s)
      | (Inr None, s) \<Rightarrow>
          (Some (permanentProcessorError
             (wrap ErrForbidden ''broadcast instance not found for tenant'')), s)
      | (Inr (Some instanceID), s) \<Rightarrow>
     (case loadOrSeedRecipientProgress d job s of
        (Inl e, s) \<Rightarrow> (Some e, s)
      | (Inr progress, s) \<Rightarrow>
          if progress = [] then
            (Some (permanentProcessorError
               (wrap ErrConflict ''no eligible contacts available for this instance broadcast'')), s)
          else send_all d job instanceID True (pendingRecipientProgress progress) s)))"

text \<open>Once the loop has started, every error is retryable.\<close>

lemma settle_retryable: "settle d t r sent s = (Some e, s') \<Longrightarrow> isRetryableProcessorError e"
  by (auto simp: settle_def persist_error_def split: sum.splits option.splits if_splits prod.splits bool.splits)

lemma send_one_retryable: "send_one d job i r s = (Some e, s') \<Longrightarrow> isRetryableProcessorError e"
  by (auto simp: send_one_def persist_error_def Let_def split: option.splits prod.splits dest: settle_retryable)

lemma pace_before_retryable: "pace_before d job first r s = (Some e, s') \<Longrightarrow> isRetryableProcessorError e"
  by (auto simp: pace_before_def split: option.splits prod.splits if_splits)

lemma send_all_retryable: "send_all d job i first pend s = (Some e, s') \<Longrightarrow> isRetryableProcessorError e"
proof (induction pend arbitrary: first s)
  case (Cons r rs)
  then show ?case
    by (auto split: option.splits prod.splits dest: pace_before_retryable send_one_retryable)
qed simp

section \<open>What the processor relies on\<close>

text \<open>
  \<open>lookup s (t, j)\<close> are the recipients of job \<open>j\<close> of tenant \<open>t\<close> by phone, \<open>sends s\<close> the
  texts handed to the sender so far. A statement that fails may still have taken effect.
\<close>

type_synonym recipients = "string \<times> string \<Rightarrow> string \<Rightarrow> BroadcastRecipientProgress option"

definition set_recipient ::
  "BroadcastRecipientProgress \<Rightarrow> BroadcastRecipientProgress \<Rightarrow> recipients \<Rightarrow> recipients" where
  "set_recipient p q f =
     f((p_tenant_id p, p_broadcast_id p) :=
         (f (p_tenant_id p, p_broadcast_id p))(p_phone p \<mapsto> assign_columns p q))"

text \<open>\<open>g\<close> differs from \<open>f\<close> at most in the content of one recipient's row.\<close>

definition only_at :: "string \<times> string \<Rightarrow> string \<Rightarrow> recipients \<Rightarrow> recipients \<Rightarrow> bool" where
  "only_at k ph f g \<longleftrightarrow>
     (\<forall>k' ph'. k' \<noteq> k \<or> ph' \<noteq> ph \<longrightarrow> g k' ph' = f k' ph') \<and> (g k ph = None \<longleftrightarrow> f k ph = None)"

lemma only_at_refl [simp]: "only_at k ph f f"
  by (simp add: only_at_def)

lemma only_at_trans: "only_at k ph f g \<Longrightarrow> only_at k ph g h \<Longrightarrow> only_at k ph f h"
  by (simp add: only_at_def)

lemma only_at_dom: "only_at k ph f g \<Longrightarrow> dom (g k) = dom (f k)"
proof -
  assume a: "only_at k ph f g"
  have "g k x = None \<longleftrightarrow> f k x = None" for x
    using a unfolding only_at_def by metis
  then show ?thesis by (auto simp: dom_def)
qed

lemma only_at_set_recipient:
  "f (p_tenant_id p, p_broadcast_id p) (p_phone p) \<noteq> None \<Longrightarrow>
   only_at (p_tenant_id p, p_broadcast_id p) (p_phone p) f (set_recipient p q f)"
  by (auto simp: only_at_def set_recipient_def)

definition rows_map :: "BroadcastRecipientProgress list \<Rightarrow> string \<Rightarrow> BroadcastRecipientProgress option" where
  "rows_map ps = map_of (map (\<lambda>p. (p_phone p, p)) ps)"

lemma rows_map_None [simp]: "rows_map ps ph = None \<longleftrightarrow> ph \<notin> p_phone ` set ps"
  by (auto simp: rows_map_def map_of_eq_None_iff image_image)

lemma rows_map_SomeD: "rows_map ps ph = Some p \<Longrightarrow> p \<in> set ps \<and> p_phone p = ph"
  by (auto simp: rows_map_def dest!: map_of_SomeD)

lemma rows_map_Some: "distinct (map p_phone ps) \<Longrightarrow> p \<in> set ps \<Longrightarrow> rows_map ps (p_phone p) = Some p"
  by (auto simp: rows_map_def comp_def intro!: map_of_is_SomeI)

locale delivery_env =
  fixes d :: "'s delivery_deps"
    and inv :: "'s \<Rightarrow> bool"
    and lookup :: "'s \<Rightarrow> recipients"
    and sends :: "'s \<Rightarrow> (string \<times> string) list"
  assumes ctx: "dd_ctx_err d s = (r, s') \<Longrightarrow> inv s \<Longrightarrow> inv s' \<and> lookup s' = lookup s \<and> sends s' = sends s"
    and clock: "dd_now d s = (now, s') \<Longrightarrow> inv s \<Longrightarrow> inv s' \<and> lookup s' = lookup s \<and> sends s' = sends s"
    and pace: "dd_pace d w s = (r, s') \<Longrightarrow> inv s \<Longrightarrow> inv s' \<and> lookup s' = lookup s \<and> sends s' = sends s"
    and find_instance: "dd_instance d t i s = (ri, s') \<Longrightarrow> inv s \<Longrightarrow>
      inv s' \<and> lookup s' = lookup s \<and> sends s' = sends s"
    and list_contacts: "dd_contacts d t s = (rc, s') \<Longrightarrow> inv s \<Longrightarrow>
      inv s' \<and> lookup s' = lookup s \<and> sends s' = sends s"
    and list_rows: "dd_list d t j s = (rl, s') \<Longrightarrow> inv s \<Longrightarrow>
      inv s' \<and> lookup s' = lookup s \<and> sends s' = sends s \<and>
      (\<forall>ps. rl = Inr ps \<longrightarrow> distinct (map p_phone ps) \<and> rows_map ps = lookup s (t, j) \<and>
         (\<forall>p \<in> set ps. p_tenant_id p = t \<and> p_broadcast_id p = j))"
    and save: "dd_save d p s = (r, s') \<Longrightarrow> inv s \<Longrightarrow> p_delivery_status p \<noteq> [] \<Longrightarrow>
      lookup s (p_tenant_id p, p_broadcast_id p) (p_phone p) = Some q \<Longrightarrow>
      inv s' \<and> sends s' = sends s \<and>
      (lookup s' = set_recipient p q (lookup s) \<or> r \<noteq> None \<and> lookup s' = lookup s)"
    and seed: "dd_seed d ps s = (r, s') \<Longrightarrow> inv s \<Longrightarrow>
      (\<forall>p \<in> set ps. p_tenant_id p = t \<and> p_broadcast_id p = j \<and> p_delivery_status p \<noteq> []) \<Longrightarrow>
      inv s' \<and> sends s' = sends s \<and>
      (\<forall>k ph. lookup s k ph \<noteq> None \<or> k \<noteq> (t, j) \<longrightarrow> lookup s' k ph = lookup s k ph) \<and>
      (\<forall>ph q. lookup s (t, j) ph = None \<longrightarrow> lookup s' (t, j) ph = Some q \<longrightarrow>
         (\<exists>p \<in> set ps. \<exists>uuid now. q = new_row uuid now p))"
    and send: "dd_send d t i number msg s = (rs, s') \<Longrightarrow> inv s \<Longrightarrow>
      inv s' \<and> lookup s' = lookup s \<and> sends s' = sends s @ [(number, msg)]"
begin

lemma save_row:
  assumes "dd_save d p s = (r, s')" "inv s" "p_delivery_status p \<noteq> []"
    and "lookup s (p_tenant_id p, p_broadcast_id p) (p_phone p) \<noteq> None"
  shows "inv s' \<and> sends s' = sends s \<and>
    only_at (p_tenant_id p, p_broadcast_id p) (p_phone p) (lookup s) (lookup s') \<and>
    (\<exists>q. lookup s' (p_tenant_id p, p_broadcast_id p) (p_phone p) = Some q \<and>
       (r = None \<longrightarrow> p_delivery_status q = p_delivery_status p \<and> p_attempt_count q = p_attempt_count p) \<and>
       (p_attempt_count q = p_attempt_count p \<or>
        lookup s (p_tenant_id p, p_broadcast_id p) (p_phone p) = Some q))"
proof -
  from assms(4) obtain q where q: "lookup s (p_tenant_id p, p_broadcast_id p) (p_phone p) = Some q" by auto
  from save [OF assms(1-3) q] q only_at_set_recipient [of "lookup s" p q] show ?thesis
    by (auto simp: set_recipient_def)
qed

text \<open>What the saves of one attempt have in common: the same row, one more attempt.\<close>

definition attempt_of :: "BroadcastRecipientProgress \<Rightarrow> BroadcastRecipientProgress \<Rightarrow> bool" where
  "attempt_of p r \<longleftrightarrow> p_tenant_id r = p_tenant_id p \<and> p_broadcast_id r = p_broadcast_id p \<and>
     p_phone r = p_phone p \<and> p_attempt_count r = p_attempt_count p + 1 \<and> p_delivery_status r \<noteq> []"

lemma attempt_of_simps [simp]:
  "attempt_of p (attempted t p)"
  "attempt_of p r \<Longrightarrow> attempt_of p (failed_permanently e t r)"
  "attempt_of p r \<Longrightarrow> attempt_of p (failed_retryably e r)"
  "attempt_of p r \<Longrightarrow> attempt_of p (confirmed t res r)"
  by (simp_all add: attempt_of_def attempted_def failed_permanently_def failed_retryably_def
      confirmed_def recipient_status_defs Let_def)

text \<open>The state after an attempt was recorded: the row exists and counts it.\<close>

definition counted_row :: "'s \<Rightarrow> 's \<Rightarrow> BroadcastRecipientProgress \<Rightarrow> bool" where
  "counted_row s s' p \<longleftrightarrow> inv s' \<and>
     only_at (p_tenant_id p, p_broadcast_id p) (p_phone p) (lookup s) (lookup s') \<and>
     (\<exists>q. lookup s' (p_tenant_id p, p_broadcast_id p) (p_phone p) = Some q \<and>
        p_attempt_count q = p_attempt_count p + 1)"

lemma counted_row_save:
  assumes "counted_row s s1 p" "attempt_of p r" "dd_save d r s1 = (e, s2)"
  shows "counted_row s s2 p \<and> sends s2 = sends s1 \<and>
    (e = None \<longrightarrow> (\<exists>q. lookup s2 (p_tenant_id p, p_broadcast_id p) (p_phone p) = Some q \<and>
       p_delivery_status q = p_delivery_status r))"
proof -
  from assms have "inv s1" "p_delivery_status r \<noteq> []"
    "lookup s1 (p_tenant_id r, p_broadcast_id r) (p_phone r) \<noteq> None"
    by (auto simp: counted_row_def attempt_of_def)
  from save_row [OF assms(3) this] assms(1,2) show ?thesis
    by (auto simp: counted_row_def attempt_of_def intro: only_at_trans)
qed

lemma settled_status [simp]:
  "p_delivery_status q = p_delivery_status (failed_permanently e t r) \<Longrightarrow> \<not> is_pending q"
  "p_delivery_status q = p_delivery_status (confirmed t res r) \<Longrightarrow> \<not> is_pending q"
  by (simp_all add: failed_permanently_def confirmed_def Let_def is_pending_status)

lemma settle_result:
  assumes "counted_row s s1 p" "attempt_of p r" "settle d t r sent s1 = (e, s2)"
  shows "counted_row s s2 p \<and> sends s2 = sends s1 \<and>
    (e = None \<longrightarrow> (\<exists>q. lookup s2 (p_tenant_id p, p_broadcast_id p) (p_phone p) = Some q \<and> \<not> is_pending q))"
proof (cases sent)
  case (Inl sendErr)
  show ?thesis
  proof (cases "isPermanentSendError sendErr")
    case True
    obtain now s' where now: "dd_now d s1 = (now, s')" by (cases "dd_now d s1")
    with assms(1) clock [OF now] have c: "counted_row s s' p" "sends s' = sends s1"
      by (auto simp: counted_row_def)
    obtain e' s'' where sv: "dd_save d (failed_permanently sendErr now r) s' = (e', s'')" by fastforce
    from counted_row_save [OF c(1) _ sv] assms(2,3) Inl True now sv c(2) show ?thesis
      by (auto simp: settle_def split: option.splits)
  next
    case False
    obtain e' s'' where sv: "dd_save d (failed_retryably sendErr r) s1 = (e', s'')" by fastforce
    from counted_row_save [OF assms(1) _ sv] assms(2,3) Inl False sv show ?thesis
      by (auto simp: settle_def split: option.splits)
  qed
next
  case (Inr result)
  show ?thesis
  proof (cases "isConfirmedSendAttempt result")
    case True
    then obtain res where res: "result = Some res" by (cases result) (auto simp: isConfirmedSendAttempt_def)
    obtain e' s'' where sv: "dd_save d (confirmed t res r) s1 = (e', s'')" by fastforce
    from counted_row_save [OF assms(1) _ sv] assms(2,3) Inr True res sv show ?thesis
      by (auto simp: settle_def split: option.splits)
  next
    case False
    obtain e' s'' where sv: "dd_save d (failed_retryably (unconfirmed_error r) r) s1 = (e', s'')" by fastforce
    from counted_row_save [OF assms(1) _ sv] assms(2,3) Inr False sv show ?thesis
      by (auto simp: settle_def split: option.splits)
  qed
qed

text \<open>One recipient: at most one send, and the row is settled when the run goes on.\<close>

lemma send_one_result:
  assumes "send_one d job i p s = (e, s')" "inv s" "p_tenant_id p = t" "p_broadcast_id p = b"
    and "lookup s (t, b) (p_phone p) \<noteq> None"
  shows "inv s' \<and> only_at (t, b) (p_phone p) (lookup s) (lookup s') \<and>
    (sends s' = sends s \<and> e \<noteq> None \<or>
     sends s' = sends s @ [(p_phone p, j_message job)] \<and>
       (\<exists>q. lookup s' (t, b) (p_phone p) = Some q \<and> p_attempt_count q = p_attempt_count p + 1 \<and>
          (e = None \<longrightarrow> \<not> is_pending q)))"
proof -
  obtain now s1 where now: "dd_now d s = (now, s1)" by (cases "dd_now d s")
  from clock [OF now assms(2)] have s1: "inv s1" "lookup s1 = lookup s" "sends s1 = sends s" by auto
  let ?r = "attempted now p"
  have r: "attempt_of p ?r" by simp
  obtain e2 s2 where sv: "dd_save d ?r s1 = (e2, s2)" by fastforce
  have "p_delivery_status ?r \<noteq> []" "lookup s1 (p_tenant_id ?r, p_broadcast_id ?r) (p_phone ?r) \<noteq> None"
    using assms r s1 by (auto simp: attempt_of_def)
  from save_row [OF sv s1(1) this] r assms(3,4) s1 have s2: "inv s2" "sends s2 = sends s"
    "only_at (t, b) (p_phone p) (lookup s) (lookup s2)"
    "e2 = None \<Longrightarrow> counted_row s s2 p"
    by (auto simp: attempt_of_def counted_row_def)
  show ?thesis
  proof (cases e2)
    case (Some x)
    with assms(1) now sv s2 show ?thesis by (auto simp: send_one_def)
  next
    case None
    obtain e3 s3 where c: "dd_ctx_err d s2 = (e3, s3)" by fastforce
    from ctx [OF c s2(1)] have s3: "inv s3" "lookup s3 = lookup s2" "sends s3 = sends s" using s2 by auto
    show ?thesis
    proof (cases e3)
      case (Some x)
      with assms(1) now sv None c s2 s3 show ?thesis by (auto simp: send_one_def)
    next
      case e3: None
      obtain rs s4 where sd: "dd_send d (j_tenant_id job) i (p_phone ?r) (j_message job) s3 = (rs, s4)"
        by fastforce
      from send [OF sd s3(1)] s2(4) [OF None] s3 have s4: "counted_row s s4 p"
        "sends s4 = sends s @ [(p_phone p, j_message job)]"
        by (auto simp: counted_row_def attempted_def)
      have "settle d now ?r rs s4 = (e, s')" using assms(1) now sv None c e3 sd
        by (simp add: send_one_def)
      from settle_result [OF s4(1) r this] s4(2) assms(3,4) show ?thesis
        by (auto simp: counted_row_def)
    qed
  qed
qed

lemma pace_before_result:
  "pace_before d job first p s = (e, s') \<Longrightarrow> inv s \<Longrightarrow> inv s' \<and> lookup s' = lookup s \<and> sends s' = sends s"
  unfolding pace_before_def waitForRecipientPacing_def
  by (auto split: prod.splits option.splits if_splits dest!: ctx pace)

text \<open>
  A run over a list of pending recipients sends to a prefix of it, in order. The last recipient
  sent to may stay pending when the run ends with an error, all others sent to are settled, and
  rows of recipients that were not reached are untouched.
\<close>

definition run_result ::
  "BroadcastJob \<Rightarrow> BroadcastRecipientProgress list \<Rightarrow> 's \<Rightarrow> processor_error option \<Rightarrow> 's \<Rightarrow> bool" where
  "run_result job pend s e s' \<longleftrightarrow>
     (let k = (j_tenant_id job, j_id job) in
      inv s' \<and> (\<forall>k' ph. k' \<noteq> k \<or> ph \<notin> p_phone ` set pend \<longrightarrow> lookup s' k' ph = lookup s k' ph) \<and>
      dom (lookup s' k) = dom (lookup s k) \<and>
      (\<exists>n \<le> length pend.
         sends s' = sends s @ map (\<lambda>p. (p_phone p, j_message job)) (take n pend) \<and>
         (e = None \<longrightarrow> n = length pend) \<and>
         (\<forall>p \<in> set (drop (Suc n) pend). lookup s' k (p_phone p) = lookup s k (p_phone p)) \<and>
         (\<forall>p \<in> set (take n pend). \<exists>q. lookup s' k (p_phone p) = Some q \<and>
            p_attempt_count q = p_attempt_count p + 1) \<and>
         (\<forall>p \<in> set (take (if e = None then n else n - 1) pend). \<exists>q.
            lookup s' k (p_phone p) = Some q \<and> \<not> is_pending q)))"

lemma send_all_result:
  assumes "send_all d job i first pend s = (e, s')" "inv s" "distinct (map p_phone pend)"
    and "\<forall>p \<in> set pend. p_tenant_id p = j_tenant_id job \<and> p_broadcast_id p = j_id job \<and>
      lookup s (j_tenant_id job, j_id job) (p_phone p) \<noteq> None"
  shows "run_result job pend s e s'"
  using assms
proof (induction pend arbitrary: first s)
  case Nil
  then show ?case by (simp add: run_result_def)
next
  case (Cons p pend)
  let ?k = "(j_tenant_id job, j_id job)"
  obtain e1 s1 where pb: "pace_before d job first p s = (e1, s1)" by fastforce
  from pace_before_result [OF pb Cons.prems(2)] have s1: "inv s1" "lookup s1 = lookup s" "sends s1 = sends s"
    by auto
  show ?case
  proof (cases e1)
    case (Some x)
    with Cons.prems(1) pb s1 show ?thesis by (auto simp: run_result_def Let_def intro!: exI [of _ 0])
  next
    case None
    obtain e2 s2 where so: "send_one d job i p s1 = (e2, s2)" by fastforce
    have "lookup s1 ?k (p_phone p) \<noteq> None" using Cons.prems(4) s1 by simp
    from send_one_result [OF so s1(1) _ _ this] Cons.prems(4) s1
    have s2: "inv s2" "only_at ?k (p_phone p) (lookup s) (lookup s2)"
      and r2: "sends s2 = sends s \<and> e2 \<noteq> None \<or>
        sends s2 = sends s @ [(p_phone p, j_message job)] \<and>
        (\<exists>q. lookup s2 ?k (p_phone p) = Some q \<and> p_attempt_count q = p_attempt_count p + 1 \<and>
          (e2 = None \<longrightarrow> \<not> is_pending q))" by auto
    from s2(2) have dom2: "dom (lookup s2 ?k) = dom (lookup s ?k)" by (rule only_at_dom)
    have other: "lookup s2 k' ph = lookup s k' ph" if "k' \<noteq> ?k \<or> ph \<noteq> p_phone p" for k' ph
      using s2(2) that unfolding only_at_def by blast
    have notin: "p_phone p \<notin> p_phone ` set pend" using Cons.prems(3) by auto
    then have rest: "lookup s2 ?k (p_phone x) = lookup s ?k (p_phone x)" if "x \<in> set pend" for x
      using other that by (metis image_eqI)
    show ?thesis
    proof (cases e2)
      case (Some x)
      with Cons.prems(1) pb None so have e: "e = Some x" "s' = s2" by auto
      from r2 show ?thesis
      proof
        assume "sends s2 = sends s \<and> e2 \<noteq> None"
        with e s2(1) dom2 other rest show ?thesis
          by (auto simp: run_result_def Let_def intro!: exI [of _ 0])
      next
        assume "sends s2 = sends s @ [(p_phone p, j_message job)] \<and>
          (\<exists>q. lookup s2 ?k (p_phone p) = Some q \<and> p_attempt_count q = p_attempt_count p + 1 \<and>
            (e2 = None \<longrightarrow> \<not> is_pending q))"
        with e s2(1) dom2 other rest show ?thesis
          by (auto simp: run_result_def Let_def intro!: exI [of _ 1] dest!: in_set_dropD)
      qed
    next
      case e2: None
      with r2 obtain q where q: "lookup s2 ?k (p_phone p) = Some q"
        "p_attempt_count q = p_attempt_count p + 1" "\<not> is_pending q"
        and sn: "sends s2 = sends s @ [(p_phone p, j_message job)]" by auto
      have rec: "send_all d job i False pend s2 = (e, s')" using Cons.prems(1) pb None so e2 by simp
      have "run_result job pend s2 e s'"
        using Cons.prems(3,4) dom2 by (intro Cons.IH [OF rec s2(1)]) (auto simp: dom_def)
      then obtain n where n: "n \<le> length pend" "inv s'"
        "sends s' = sends s2 @ map (\<lambda>p. (p_phone p, j_message job)) (take n pend)"
        "e = None \<Longrightarrow> n = length pend"
        "\<And>k' ph. k' \<noteq> ?k \<or> ph \<notin> p_phone ` set pend \<Longrightarrow> lookup s' k' ph = lookup s2 k' ph"
        "dom (lookup s' ?k) = dom (lookup s2 ?k)"
        "\<forall>p \<in> set (drop (Suc n) pend). lookup s' ?k (p_phone p) = lookup s2 ?k (p_phone p)"
        "\<forall>p \<in> set (take n pend). \<exists>q. lookup s' ?k (p_phone p) = Some q \<and>
            p_attempt_count q = p_attempt_count p + 1"
        "\<forall>p \<in> set (take (if e = None then n else n - 1) pend). \<exists>q.
            lookup s' ?k (p_phone p) = Some q \<and> \<not> is_pending q"
        unfolding run_result_def Let_def by auto
      have lp: "lookup s' ?k (p_phone p) = Some q" using n(5) notin q(1) by simp
      have far: "lookup s' ?k (p_phone x) = lookup s ?k (p_phone x)" if "x \<in> set (drop (Suc n) pend)" for x
      proof -
        have "p_phone x \<noteq> p_phone p" using that notin by (metis image_eqI in_set_dropD)
        with n(7) that other show ?thesis by auto
      qed
      have settled: "\<exists>q. lookup s' ?k (p_phone x) = Some q \<and> \<not> is_pending q"
        if "x \<in> set (take (if e = None then Suc n else Suc n - 1) (p # pend))" for x
        using that lp q(3) n(9) by (cases n) (auto split: if_splits)
      show ?thesis unfolding run_result_def Let_def
        using n(1-4) n(5,6,8) sn dom2 other lp q far settled
        by (intro conjI exI [of _ "Suc n"]) auto
    qed
  qed
qed

text \<open>Loading or seeding the recipients sends nothing and gives the job's recipients.\<close>

lemma check_context_result:
  "check_context d n s = (e, s') \<Longrightarrow> inv s \<Longrightarrow> inv s' \<and> lookup s' = lookup s \<and> sends s' = sends s"
proof (induction n arbitrary: s)
  case (Suc n)
  then show ?case by (auto split: prod.splits option.splits dest!: ctx)
qed simp

definition loaded ::
  "BroadcastJob \<Rightarrow> 's \<Rightarrow> (processor_error + BroadcastRecipientProgress list) \<Rightarrow> 's \<Rightarrow> bool" where
  "loaded job s r s' \<longleftrightarrow>
     (let k = (j_tenant_id job, j_id job) in
      inv s' \<and> sends s' = sends s \<and>
      (\<forall>k' ph. lookup s k' ph \<noteq> None \<or> k' \<noteq> k \<longrightarrow> lookup s' k' ph = lookup s k' ph) \<and>
      (\<forall>ph q. lookup s k ph = None \<longrightarrow> lookup s' k ph = Some q \<longrightarrow>
         p_attempt_count q = 0 \<and> is_pending q) \<and>
      (\<forall>ps. r = Inr ps \<longrightarrow> ps \<noteq> [] \<longrightarrow>
         distinct (map p_phone ps) \<and> rows_map ps = lookup s' k \<and>
         (\<forall>p \<in> set ps. p_tenant_id p = fst k \<and> p_broadcast_id p = snd k)))"

lemma loaded_frame:
  assumes "loaded job s r s'" "lookup s k ph \<noteq> None \<or> k \<noteq> (j_tenant_id job, j_id job)"
  shows "lookup s' k ph = lookup s k ph"
  using assms(1) [unfolded loaded_def Let_def, THEN conjunct2, THEN conjunct2, THEN conjunct1] assms(2)
  by metis

lemma seed_record_simps [simp]:
  "p_tenant_id (seed_record job r) = j_tenant_id job" "p_broadcast_id (seed_record job r) = j_id job"
  "p_delivery_status (seed_record job r) = recipientStatusPending" "p_phone (seed_record job r) = br_phone r"
  "p_attempt_count (seed_record job r) = 0"
  by (simp_all add: seed_record_def)

lemma new_row_seed [simp]: "is_pending (new_row uuid now (seed_record job r))"
  by (rule is_pending_status) (simp add: new_row_def recipient_status_defs)

lemma seed_progress_result:
  assumes "seed_progress d job contacts s = (r, s')" "inv s"
  shows "loaded job s r s'"
proof -
  let ?rs = "eligibleBroadcastRecipients contacts (j_instance_id job)"
  let ?k = "(j_tenant_id job, j_id job)"
  show ?thesis
  proof (cases "?rs = []")
    case True
    with assms show ?thesis by (auto simp: seed_progress_def loaded_def Let_def)
  next
    case False
    obtain e1 s1 where c: "check_context d (length ?rs) s = (e1, s1)" by fastforce
    from check_context_result [OF c assms(2)] have s1: "inv s1" "lookup s1 = lookup s" "sends s1 = sends s"
      by auto
    show ?thesis
    proof (cases e1)
      case (Some x)
      with assms False c s1 show ?thesis by (auto simp: seed_progress_def loaded_def Let_def)
    next
      case None
      obtain e2 s2 where sd: "dd_seed d (map (seed_record job) ?rs) s1 = (e2, s2)" by fastforce
      have "\<forall>p \<in> set (map (seed_record job) ?rs). p_tenant_id p = j_tenant_id job \<and>
          p_broadcast_id p = j_id job \<and> p_delivery_status p \<noteq> []"
        by (auto simp: recipient_status_defs)
      note sds = seed [OF sd s1(1) this, unfolded s1(2,3)]
      then have s2: "inv s2" "sends s2 = sends s"
        "\<forall>k ph. lookup s k ph \<noteq> None \<or> k \<noteq> ?k \<longrightarrow> lookup s2 k ph = lookup s k ph" by blast+
      have fresh: "p_attempt_count q = 0 \<and> is_pending q"
        if "lookup s ?k ph = None" "lookup s2 ?k ph = Some q" for ph q
      proof -
        from sds that obtain p uuid now where "p \<in> set (map (seed_record job) ?rs)" "q = new_row uuid now p"
          by blast
        then show ?thesis by auto
      qed
      have run: "(case e2 of
          Some e \<Rightarrow> (Inl (retryableProcessorError (wrap_error ''seed broadcast recipient progress'' e)), s2)
        | None \<Rightarrow> load_result (dd_list d (j_tenant_id job) (j_id job) s2)) = (r, s')"
        using assms(1) False c None sd by (simp add: seed_progress_def split: option.splits)
      show ?thesis
      proof (cases e2)
        case (Some x)
        with run s2 fresh show ?thesis by (auto simp: loaded_def Let_def)
      next
        case e2: None
        obtain rl s3 where l: "dd_list d (j_tenant_id job) (j_id job) s2 = (rl, s3)" by (rule prod.exhaust)
        note rows = list_rows [OF l s2(1)]
        then have s3: "inv s3" "lookup s3 = lookup s2" "sends s3 = sends s2" by blast+
        have r: "loaded job s (Inl e) s3" for e
          unfolding loaded_def Let_def using s2 s3 fresh by simp
        show ?thesis
        proof (cases rl)
          case (Inl e)
          with run e2 l r show ?thesis by (auto simp: load_result_def)
        next
          case (Inr ps)
          with run e2 l have "r = Inr ps" "s' = s3" by (auto simp: load_result_def)
          moreover have "distinct (map p_phone ps) \<and> rows_map ps = lookup s3 ?k \<and>
              (\<forall>p \<in> set ps. p_tenant_id p = fst ?k \<and> p_broadcast_id p = snd ?k)"
            unfolding s3 fst_conv snd_conv using rows Inr by blast
          ultimately show ?thesis using r [of undefined] unfolding loaded_def Let_def by blast
        qed
      qed
    qed
  qed
qed

lemma load_result:
  assumes "loadOrSeedRecipientProgress d job s = (r, s')" "inv s"
  shows "loaded job s r s'"
proof -
  obtain e1 s1 where c: "dd_ctx_err d s = (e1, s1)" by (rule prod.exhaust)
  from ctx [OF c assms(2)] have s1: "inv s1" "lookup s1 = lookup s" "sends s1 = sends s" by auto
  obtain rl s2 where l: "dd_list d (j_tenant_id job) (j_id job) s1 = (rl, s2)" by (rule prod.exhaust)
  note rows = list_rows [OF l s1(1), unfolded s1(2,3)]
  then have s2: "inv s2" "lookup s2 = lookup s" "sends s2 = sends s" by blast+
  have ps: "distinct (map p_phone ps) \<and> rows_map ps = lookup s (j_tenant_id job, j_id job) \<and>
      (\<forall>p \<in> set ps. p_tenant_id p = j_tenant_id job \<and> p_broadcast_id p = j_id job)"
    if "rl = Inr ps" for ps using rows that by blast
  obtain e3 s3 where c3: "dd_ctx_err d s2 = (e3, s3)" by (rule prod.exhaust)
  from ctx [OF c3 s2(1)] s2 have s3: "inv s3" "lookup s3 = lookup s" "sends s3 = sends s" by auto
  obtain rc s4 where ct: "dd_contacts d (j_tenant_id job) s3 = (rc, s4)" by (rule prod.exhaust)
  from list_contacts [OF ct s3(1)] s3 have s4: "inv s4" "lookup s4 = lookup s" "sends s4 = sends s" by auto
  have stop: "loaded job s r s'" if "(Inl e, s'') = (r, s')" "inv s''" "lookup s'' = lookup s" "sends s'' = sends s" for e s''
    using that by (auto simp add: loaded_def Let_def)
  note run = assms(1) [unfolded loadOrSeedRecipientProgress_def c prod.case]
  show ?thesis
  proof (cases e1)
    case (Some x)
    show ?thesis by (rule stop [OF run [unfolded Some option.case prod.case] s1])
  next
    case e1: None
    note run = run [unfolded e1 option.case prod.case l]
    show ?thesis
    proof (cases rl)
      case (Inl x)
      show ?thesis by (rule stop [OF run [unfolded Inl sum.case prod.case] s2])
    next
      case rl: (Inr progress)
      note run = run [unfolded rl sum.case prod.case]
      show ?thesis
      proof (cases "progress = []")
        case False
        with run have "r = Inr progress" "s' = s2" by simp_all
        with s2 ps [OF rl] show ?thesis by (simp add: loaded_def Let_def)
      next
        case True
        with run c3 have run: "(case (e3, s3) of
            (Some e, s) \<Rightarrow> (Inl (retryableProcessorError e), s)
          | (None, s) \<Rightarrow> (case dd_contacts d (j_tenant_id job) s of
              (Inl e, s) \<Rightarrow> (Inl (retryableProcessorError (wrap_error ''load broadcast contacts'' e)), s)
            | (Inr contacts, s) \<Rightarrow> seed_progress d job contacts s)) = (r, s')" by simp
        show ?thesis
        proof (cases e3)
          case (Some x)
          show ?thesis by (rule stop [OF run [unfolded Some option.case prod.case] s3])
        next
          case e3: None
          note run = run [unfolded e3 option.case prod.case ct]
          show ?thesis
          proof (cases rc)
            case (Inl x)
            show ?thesis by (rule stop [OF run [unfolded Inl sum.case prod.case] s4])
          next
            case (Inr cs)
            from seed_progress_result [OF run [unfolded Inr sum.case prod.case] s4(1)] s4
            show ?thesis by (simp add: loaded_def)
          qed
        qed
      qed
    qed
  qed
qed

text \<open>A whole run: the recipients are loaded or seeded, then the pending ones are worked through.\<close>

lemma Process_cases:
  assumes "Process d job s = (e, s')" "inv s"
  shows "\<exists>r s1. loaded job s r s1 \<and>
    (e \<noteq> None \<and> inv s' \<and> lookup s' = lookup s1 \<and> sends s' = sends s1 \<or>
     (\<exists>ps. r = Inr ps \<and> ps \<noteq> [] \<and> (\<exists>i. send_all d job i True (filter is_pending ps) s1 = (e, s')) \<and>
        run_result job (filter is_pending ps) s1 e s'))"
proof -
  obtain e1 s1 where c: "dd_ctx_err d s = (e1, s1)" by (rule prod.exhaust)
  from ctx [OF c assms(2)] have s1: "inv s1" "lookup s1 = lookup s" "sends s1 = sends s" by auto
  obtain ri s2 where fi: "dd_instance d (j_tenant_id job) (j_instance_id job) s1 = (ri, s2)"
    by (rule prod.exhaust)
  from find_instance [OF fi s1(1)] s1 have s2: "inv s2" "lookup s2 = lookup s" "sends s2 = sends s" by auto
  obtain rp s3 where ld: "loadOrSeedRecipientProgress d job s2 = (rp, s3)" by (rule prod.exhaust)
  from load_result [OF ld s2(1)] s2 have l: "loaded job s rp s3" by (simp add: loaded_def)
  have l0: "loaded job s (Inl undefined) s" using assms(2) by (simp add: loaded_def)
  have early: ?thesis if "e \<noteq> None" "inv s'" "lookup s' = lookup s" "sends s' = sends s"
    using that l0 by blast
  show ?thesis
  proof (cases "e1 = None \<and> dd_available d \<and> trim_space (j_tenant_id job) \<noteq> [] \<and>
      trim_space (j_instance_id job) \<noteq> [] \<and> trim_space (j_message job) \<noteq> [] \<and> (\<exists>i. ri = Inr (Some i))")
    case False
    with assms(1) c fi s1 s2 have "e \<noteq> None \<and> inv s' \<and> lookup s' = lookup s \<and> sends s' = sends s"
      unfolding Process_def by (auto split: option.splits sum.splits if_splits)
    with early show ?thesis by blast
  next
    case True
    then obtain i where i: "ri = Inr (Some i)" by blast
    show ?thesis
    proof (cases "\<exists>ps. rp = Inr ps \<and> ps \<noteq> []")
      case False
      with assms(1) c fi ld True i have "e \<noteq> None \<and> s' = s3"
        unfolding Process_def by (auto split: sum.splits if_splits)
      with l show ?thesis by (intro exI [of _ rp] exI [of _ s3]) (auto simp: loaded_def Let_def)
    next
      case ne: True
      then obtain ps where ps: "rp = Inr ps" "ps \<noteq> []" by blast
      with assms(1) c fi ld True i
      have sa: "send_all d job i True (filter is_pending ps) s3 = (e, s')"
        by (simp add: Process_def pendingRecipientProgress_def)
      from l ps have lp: "inv s3" "distinct (map p_phone ps)" "rows_map ps = lookup s3 (j_tenant_id job, j_id job)"
        "\<forall>p \<in> set ps. p_tenant_id p = j_tenant_id job \<and> p_broadcast_id p = j_id job"
        unfolding loaded_def Let_def by auto
      have "run_result job (filter is_pending ps) s3 e s'"
      proof (rule send_all_result [OF sa lp(1) distinct_map_filter [OF lp(2)]])
        show "\<forall>p \<in> set (filter is_pending ps). p_tenant_id p = j_tenant_id job \<and>
            p_broadcast_id p = j_id job \<and> lookup s3 (j_tenant_id job, j_id job) (p_phone p) \<noteq> None"
          using lp(4) by (simp flip: lp(3))
      qed
      with l ps sa show ?thesis by blast
    qed
  qed
qed

text \<open>A nil result means that every recipient of the job is settled, and that there is one.\<close>

lemma run_complete:
  assumes "Process d job s = (None, s')" "inv s"
  shows "dom (lookup s' (j_tenant_id job, j_id job)) \<noteq> {} \<and>
    (\<forall>ph q. lookup s' (j_tenant_id job, j_id job) ph = Some q \<longrightarrow> \<not> is_pending q)"
proof -
  let ?k = "(j_tenant_id job, j_id job)"
  from Process_cases [OF assms] obtain s1 ps where ps: "loaded job s (Inr ps) s1" "ps \<noteq> []"
    and run: "run_result job (filter is_pending ps) s1 None s'" by auto
  from ps have m: "distinct (map p_phone ps)" "rows_map ps = lookup s1 ?k"
    unfolding loaded_def Let_def by auto
  from run have d: "dom (lookup s' ?k) = dom (lookup s1 ?k)"
    and out: "\<And>ph. ph \<notin> p_phone ` set (filter is_pending ps) \<Longrightarrow> lookup s' ?k ph = lookup s1 ?k ph"
    and fin: "\<And>p. p \<in> set (filter is_pending ps) \<Longrightarrow> \<exists>q. lookup s' ?k (p_phone p) = Some q \<and> \<not> is_pending q"
    unfolding run_result_def Let_def by auto
  obtain p where "p \<in> set ps" using ps(2) by (meson hd_in_set)
  then have "lookup s1 ?k (p_phone p) = Some p" using rows_map_Some [OF m(1)] m(2) by simp
  then have "dom (lookup s' ?k) \<noteq> {}" unfolding d by blast
  moreover have "\<not> is_pending q" if q: "lookup s' ?k ph = Some q" for ph q
  proof (cases "ph \<in> p_phone ` set (filter is_pending ps)")
    case True
    with fin q show ?thesis by fastforce
  next
    case False
    with out q m(2) have "rows_map ps ph = Some q" by simp
    then have "q \<in> set ps" "p_phone q = ph" by (auto dest: rows_map_SomeD)
    with False show ?thesis by auto
  qed
  ultimately show ?thesis by blast
qed

text \<open>
  What is sent: each phone at most once, never to a settled recipient; every send is counted as
  an attempt, and only the last one can leave its recipient pending.
\<close>

lemma run_sends:
  assumes "Process d job s = (e, s')" "inv s"
  shows "\<exists>phones. sends s' = sends s @ map (\<lambda>ph. (ph, j_message job)) phones \<and> distinct phones \<and>
    (\<forall>ph \<in> set phones.
       (\<forall>q. lookup s (j_tenant_id job, j_id job) ph = Some q \<longrightarrow> is_pending q) \<and>
       (\<exists>q. lookup s' (j_tenant_id job, j_id job) ph = Some q \<and>
          p_attempt_count q =
            (case lookup s (j_tenant_id job, j_id job) ph of None \<Rightarrow> 0 | Some q0 \<Rightarrow> p_attempt_count q0) + 1 \<and>
          (is_pending q \<longrightarrow> e \<noteq> None \<and> ph = last phones)))"
proof -
  let ?k = "(j_tenant_id job, j_id job)"
  obtain r s1 where l: "loaded job s r s1"
    and c: "e \<noteq> None \<and> inv s' \<and> lookup s' = lookup s1 \<and> sends s' = sends s1 \<or>
     (\<exists>ps. r = Inr ps \<and> ps \<noteq> [] \<and> (\<exists>i. send_all d job i True (filter is_pending ps) s1 = (e, s')) \<and>
        run_result job (filter is_pending ps) s1 e s')"
    using Process_cases [OF assms] by (elim exE conjE)
  from l have s1: "sends s1 = sends s" by (simp add: loaded_def Let_def)
  from c show ?thesis
  proof (elim disjE exE conjE)
    assume "e \<noteq> None" "sends s' = sends s1"
    with s1 show ?thesis by (intro exI [of _ "[]"]) simp
  next
    fix ps i
    assume ps: "r = Inr ps" "ps \<noteq> []" "run_result job (filter is_pending ps) s1 e s'"
    let ?pend = "filter is_pending ps"
    from l ps have m: "distinct (map p_phone ps)" "rows_map ps = lookup s1 ?k"
      by (simp_all add: loaded_def Let_def)
    have old: "lookup s1 ?k ph = lookup s ?k ph" if "lookup s ?k ph \<noteq> None" for ph
      using loaded_frame [OF l] that by metis
    have fresh: "p_attempt_count q = 0" if "lookup s ?k ph = None" "lookup s1 ?k ph = Some q" for ph q
      using l that by (simp add: loaded_def Let_def)
    from ps(3) obtain n where n: "n \<le> length ?pend"
      "sends s' = sends s1 @ map (\<lambda>p. (p_phone p, j_message job)) (take n ?pend)" "e = None \<Longrightarrow> n = length ?pend"
      and cnt: "\<And>p. p \<in> set (take n ?pend) \<Longrightarrow>
        \<exists>q. lookup s' ?k (p_phone p) = Some q \<and> p_attempt_count q = p_attempt_count p + 1"
      and settled: "\<And>p. p \<in> set (take (if e = None then n else n - 1) ?pend) \<Longrightarrow>
        \<exists>q. lookup s' ?k (p_phone p) = Some q \<and> \<not> is_pending q"
      unfolding run_result_def Let_def by blast
    let ?phones = "map p_phone (take n ?pend)"
    have dist: "distinct (map p_phone ?pend)" by (rule distinct_map_filter [OF m(1)])
    then have dp: "distinct ?phones" by (simp flip: take_map)
    have ok: "(\<forall>q. lookup s ?k (p_phone p) = Some q \<longrightarrow> is_pending q) \<and>
       (\<exists>q. lookup s' ?k (p_phone p) = Some q \<and>
          p_attempt_count q =
            (case lookup s ?k (p_phone p) of None \<Rightarrow> 0 | Some q0 \<Rightarrow> p_attempt_count q0) + 1 \<and>
          (is_pending q \<longrightarrow> e \<noteq> None \<and> p_phone p = last ?phones))"
      if p: "p \<in> set (take n ?pend)" for p
    proof -
      from p have pp: "p \<in> set ps" "is_pending p" by (auto dest: in_set_takeD)
      then have lp: "lookup s1 ?k (p_phone p) = Some p" using rows_map_Some [OF m(1)] m(2) by simp
      have 1: "is_pending q" if "lookup s ?k (p_phone p) = Some q" for q
        using old [of "p_phone p"] that lp pp(2) by simp
      have 2: "p_attempt_count p =
          (case lookup s ?k (p_phone p) of None \<Rightarrow> 0 | Some q0 \<Rightarrow> p_attempt_count q0)"
        using old [of "p_phone p"] fresh [of "p_phone p" p] lp by (auto split: option.splits)
      have 3: "e \<noteq> None \<and> p_phone p = last ?phones" if "lookup s' ?k (p_phone p) = Some q" "is_pending q" for q
      proof -
        from settled that have "p \<notin> set (take (if e = None then n else n - 1) ?pend)" by fastforce
        with p have e: "e \<noteq> None" "p \<notin> set (take (n - 1) ?pend)" by (auto split: if_splits)
        have "take n ?pend \<noteq> []" using p by (metis empty_iff empty_set)
        with n(1) have "take n ?pend = take (n - 1) ?pend @ [last (take n ?pend)]"
          by (cases n) (simp_all add: take_Suc_conv_app_nth)
        then have "set (take n ?pend) = insert (last (take n ?pend)) (set (take (n - 1) ?pend))"
          by (metis list.set(1,2) set_append Un_insert_right sup_bot_right)
        with e p have "p = last (take n ?pend)" by blast
        with e \<open>take n ?pend \<noteq> []\<close> show ?thesis by (simp add: last_map)
      qed
      obtain q where q: "lookup s' ?k (p_phone p) = Some q" "p_attempt_count q = p_attempt_count p + 1"
        using cnt [OF p] by (elim exE conjE)
      have att: "p_attempt_count q =
          (case lookup s ?k (p_phone p) of None \<Rightarrow> 0 | Some q0 \<Rightarrow> p_attempt_count q0) + 1"
        unfolding q(2) 2 [symmetric] by (rule refl)
      show ?thesis
        by (intro conjI allI impI exI [of _ q], erule 1, rule q(1), rule att)
          (drule 3 [OF q(1)], elim conjE, assumption)+
    qed
    have "sends s' = sends s @ map (\<lambda>ph. (ph, j_message job)) ?phones" using n(2) s1 by (simp add: comp_def)
    then show ?thesis
    proof (intro exI [of _ ?phones] conjI dp ballI)
      fix ph assume "ph \<in> set ?phones"
      then obtain p where p: "p \<in> set (take n ?pend)" and ph: "ph = p_phone p" by auto
      from ok [OF p, folded ph] show "\<forall>q. lookup s ?k ph = Some q \<longrightarrow> is_pending q" by (rule conjunct1)
      from ok [OF p, folded ph] show "\<exists>q. lookup s' ?k ph = Some q \<and>
          p_attempt_count q = (case lookup s ?k ph of None \<Rightarrow> 0 | Some q0 \<Rightarrow> p_attempt_count q0) + 1 \<and>
          (is_pending q \<longrightarrow> e \<noteq> None \<and> ph = last ?phones)" by (rule conjunct2)
    qed
  qed
qed

text \<open>Settled recipients and the recipients of other jobs are not touched.\<close>

lemma run_frame:
  assumes "Process d job s = (e, s')" "inv s"
    and "k \<noteq> (j_tenant_id job, j_id job) \<or> (\<exists>q. lookup s k ph = Some q \<and> \<not> is_pending q)"
  shows "lookup s' k ph = lookup s k ph"
proof -
  let ?k = "(j_tenant_id job, j_id job)"
  obtain r s1 where l: "loaded job s r s1"
    and c: "e \<noteq> None \<and> inv s' \<and> lookup s' = lookup s1 \<and> sends s' = sends s1 \<or>
     (\<exists>ps. r = Inr ps \<and> ps \<noteq> [] \<and> (\<exists>i. send_all d job i True (filter is_pending ps) s1 = (e, s')) \<and>
        run_result job (filter is_pending ps) s1 e s')"
    using Process_cases [OF assms(1,2)] by (elim exE conjE)
  from assms(3) have "lookup s k ph \<noteq> None \<or> k \<noteq> ?k" by auto
  with l have 1: "lookup s1 k ph = lookup s k ph" by (rule loaded_frame)
  from c show ?thesis
  proof (elim disjE exE conjE)
    assume "lookup s' = lookup s1"
    with 1 show ?thesis by simp
  next
    fix ps i
    assume ps: "r = Inr ps" "ps \<noteq> []" "run_result job (filter is_pending ps) s1 e s'"
    with l have m: "distinct (map p_phone ps)" "rows_map ps = lookup s1 ?k"
      by (simp_all add: loaded_def Let_def)
    have "k \<noteq> ?k \<or> ph \<notin> p_phone ` set (filter is_pending ps)"
    proof (rule ccontr)
      assume "\<not> ?thesis"
      then obtain p where p: "k = ?k" "ph = p_phone p" "p \<in> set ps" "is_pending p" by auto
      then have "lookup s1 k ph = Some p" using rows_map_Some [OF m(1)] m(2) by simp
      with 1 assms(3) p show False by auto
    qed
    with ps(3) [unfolded run_result_def Let_def, THEN conjunct2, THEN conjunct1] 1
    show ?thesis by metis
  qed
qed

text \<open>A permanent error means that nothing was sent.\<close>

lemma run_permanent:
  assumes "Process d job s = (Some e, s')" "inv s" "\<not> isRetryableProcessorError e"
  shows "sends s' = sends s"
proof -
  obtain r s1 where l: "loaded job s r s1"
    and c: "Some e \<noteq> None \<and> inv s' \<and> lookup s' = lookup s1 \<and> sends s' = sends s1 \<or>
     (\<exists>ps. r = Inr ps \<and> ps \<noteq> [] \<and> (\<exists>i. send_all d job i True (filter is_pending ps) s1 = (Some e, s')) \<and>
        run_result job (filter is_pending ps) s1 (Some e) s')"
    using Process_cases [OF assms(1,2)] by (elim exE conjE)
  from c show ?thesis
  proof (elim disjE exE conjE)
    assume "sends s' = sends s1"
    with l show ?thesis by (simp add: loaded_def Let_def)
  next
    fix ps i assume "send_all d job i True (filter is_pending ps) s1 = (Some e, s')"
    from send_all_retryable [OF this] assms(3) show ?thesis by simp
  qed
qed

lemma run_inv:
  assumes "Process d job s = (e, s')" "inv s"
  shows "inv s'"
proof -
  obtain r s1 where "loaded job s r s1" and c: "e \<noteq> None \<and> inv s' \<and> lookup s' = lookup s1 \<and> sends s' = sends s1 \<or>
     (\<exists>ps. r = Inr ps \<and> ps \<noteq> [] \<and> (\<exists>i. send_all d job i True (filter is_pending ps) s1 = (e, s')) \<and>
        run_result job (filter is_pending ps) s1 e s')"
    using Process_cases [OF assms] by (elim exE conjE)
  from c show ?thesis by (elim disjE exE conjE) (simp_all add: run_result_def Let_def)
qed

end

end
