(* ===== verification/Broadcast_World.thy ===== *)
theory Broadcast_World
  imports Broadcast_Processor
begin

text \<open>
  The processor on the tables of \<open>Broadcast_Store\<close>. A \<open>world\<close> holds the tables, the
  clock, the contacts and instances of the tenants, the texts handed to WhatsApp so far, and a
  script of what the environment does at each call: it goes on, time passes, the context is
  cancelled, a statement fails (with or without having taken effect), or a send has the given
  outcome. The script is arbitrary, so a property of every world holds whatever goes wrong and
  whenever. \<open>delivery_env\<close> is interpreted on the world, and the properties of the processor
  are stated over it.
\<close>

section \<open>Worlds\<close>

datatype answer =
    Goes
  | Passes nat
  | Cancels go_error
  | Fails go_error bool
  | Sends "go_error + SendTextResult option"

record world =
  w_db :: broadcast_db
  w_now :: time
  w_answers :: "answer list"
  w_instances :: "(string \<times> string) list"
  w_contacts :: "Contact list"
  w_sent :: "(string \<times> string) list"
  w_ids :: nat

definition next_answer :: "world \<Rightarrow> answer \<times> world" where
  "next_answer w = (case w_answers w of [] \<Rightarrow> (Goes, w) | a # as \<Rightarrow> (a, w\<lparr>w_answers := as\<rparr>))"

definition world_uuid :: "nat \<Rightarrow> string" where
  "world_uuid n = ''uuid-'' @ show_nat n"

definition world_ctx_err :: "world \<Rightarrow> go_error option \<times> world" where
  "world_ctx_err w = (case next_answer w of (Cancels e, w) \<Rightarrow> (Some e, w) | (_, w) \<Rightarrow> (None, w))"

definition world_now :: "world \<Rightarrow> time \<times> world" where
  "world_now w =
     (case next_answer w of
        (Passes n, w) \<Rightarrow> (w_now w + int n, w\<lparr>w_now := w_now w + int n\<rparr>)
      | (_, w) \<Rightarrow> (w_now w, w))"

definition world_pace :: "duration \<Rightarrow> world \<Rightarrow> go_error option \<times> world" where
  "world_pace dur w =
     (case next_answer w of
        (Cancels e, w) \<Rightarrow> (Some e, w)
      | (_, w) \<Rightarrow> (None, w\<lparr>w_now := w_now w + max 0 dur\<rparr>))"

text \<open>A statement on the tables.\<close>

definition world_statement ::
  "(world \<Rightarrow> 'a \<times> broadcast_db) \<Rightarrow> world \<Rightarrow> (go_error + 'a) \<times> world" where
  "world_statement f w =
     (case next_answer w of
        (Fails e applied, w) \<Rightarrow>
          (Inl e, if applied then w\<lparr>w_db := snd (f w), w_ids := w_ids w + 1\<rparr> else w)
      | (Cancels e, w) \<Rightarrow> (Inl e, w)
      | (_, w) \<Rightarrow> (Inr (fst (f w)), w\<lparr>w_db := snd (f w), w_ids := w_ids w + 1\<rparr>))"

definition error_of :: "(go_error + 'a) \<times> world \<Rightarrow> go_error option \<times> world" where
  "error_of x = (case x of (Inl e, w) \<Rightarrow> (Some e, w) | (Inr _, w) \<Rightarrow> (None, w))"

definition world_query :: "(world \<Rightarrow> 'a) \<Rightarrow> world \<Rightarrow> (go_error + 'a) \<times> world" where
  "world_query f = world_statement (\<lambda>w. (f w, w_db w))"

definition world_instance :: "string \<Rightarrow> string \<Rightarrow> world \<Rightarrow> (go_error + string option) \<times> world" where
  "world_instance t i w =
     (case world_query (\<lambda>w. (t, i) \<in> set (w_instances w)) w of
        (Inl e, w) \<Rightarrow> (Inl e, w)
      | (Inr True, w) \<Rightarrow> (Inr (Some i), w)
      | (Inr False, w) \<Rightarrow> (Inl not_found_error, w))"

definition world_contacts :: "string \<Rightarrow> world \<Rightarrow> (go_error + Contact list) \<times> world" where
  "world_contacts t = world_query (\<lambda>w. filter (\<lambda>c. c_tenant_id c = t) (w_contacts w))"

definition world_list ::
  "string \<Rightarrow> string \<Rightarrow> world \<Rightarrow> (go_error + BroadcastRecipientProgress list) \<times> world" where
  "world_list t j = world_query (\<lambda>w. repo_ListRecipientProgress t j (w_db w))"

definition world_seed :: "BroadcastRecipientProgress list \<Rightarrow> world \<Rightarrow> go_error option \<times> world" where
  "world_seed ps w =
     error_of (world_statement
       (\<lambda>w. ((), repo_SeedRecipientProgress (\<lambda>i. world_uuid (w_ids w) @ ''-'' @ show_nat i)
               (w_now w) ps (w_db w))) w)"

definition world_save :: "BroadcastRecipientProgress \<Rightarrow> world \<Rightarrow> go_error option \<times> world" where
  "world_save p w =
     error_of (world_statement
       (\<lambda>w. ((), repo_SaveRecipientProgress (world_uuid (w_ids w)) (w_now w) p (w_db w))) w)"

definition world_send ::
  "string \<Rightarrow> string \<Rightarrow> string \<Rightarrow> string \<Rightarrow> world \<Rightarrow> (go_error + SendTextResult option) \<times> world" where
  "world_send t i number text w =
     (case next_answer w of (a, w) \<Rightarrow>
        (case a of
           Sends r \<Rightarrow> r
         | Cancels e \<Rightarrow> Inl e
         | Fails e _ \<Rightarrow> Inl e
         | _ \<Rightarrow> Inr (Some \<lparr>sr_message_id = ''id-'' @ show_nat (length (w_sent w)), sr_server_id = 1,
                         sr_chat = number, sr_from_me = True, sr_timestamp = w_now w\<rparr>),
         w\<lparr>w_sent := w_sent w @ [(number, text)]\<rparr>))"

definition world_deps :: "world delivery_deps" where
  "world_deps =
     \<lparr>dd_available = True, dd_ctx_err = world_ctx_err, dd_now = world_now, dd_pace = world_pace,
      dd_instance = world_instance, dd_contacts = world_contacts, dd_list = world_list,
      dd_seed = world_seed, dd_save = world_save, dd_send = world_send\<rparr>"

section \<open>The tables as recipients by job and phone\<close>

definition keys_ok :: "broadcast_db \<Rightarrow> bool" where
  "keys_ok db \<longleftrightarrow> distinct (map recipient_key (db_progress db))"

definition db_lookup :: "broadcast_db \<Rightarrow> recipients" where
  "db_lookup db = (\<lambda>(t, j). rows_map (filter (of_job t j) (db_progress db)))"

lemma of_job_key: "of_job t j p \<longleftrightarrow> p_tenant_id p = t \<and> fst (recipient_key p) = j"
  by (simp add: of_job_def recipient_key_def)

lemma distinct_phones_of_job:
  "distinct (map recipient_key rows) \<Longrightarrow> distinct (map p_phone (filter (of_job t j) rows))"
  by (induction rows) (auto simp: of_job_def recipient_key_def image_iff)

text \<open>With distinct keys a lookup is membership.\<close>

lemma db_lookup_Some:
  assumes "keys_ok db"
  shows "db_lookup db (t, j) ph = Some p \<longleftrightarrow> p \<in> set (db_progress db) \<and> of_job t j p \<and> p_phone p = ph"
proof
  assume "db_lookup db (t, j) ph = Some p"
  then show "p \<in> set (db_progress db) \<and> of_job t j p \<and> p_phone p = ph"
    by (auto simp: db_lookup_def dest!: rows_map_SomeD)
next
  assume "p \<in> set (db_progress db) \<and> of_job t j p \<and> p_phone p = ph"
  with rows_map_Some [OF distinct_phones_of_job [OF assms [unfolded keys_ok_def]], of p t j]
  show "db_lookup db (t, j) ph = Some p" by (simp add: db_lookup_def)
qed

lemma recipients_eqI:
  fixes f g :: recipients
  assumes "\<And>t j ph p. f (t, j) ph = Some p \<longleftrightarrow> g (t, j) ph = Some p"
  shows "f = g"
proof (intro ext)
  fix k ph
  show "f k ph = g k ph"
    by (cases k; cases "f k ph"; cases "g k ph") (use assms in \<open>force+\<close>)
qed

lemma keys_ok_upsert: "keys_ok db \<Longrightarrow> keys_ok (repo_SaveRecipientProgress uuid now p db)"
  by (simp add: keys_ok_def repo_SaveRecipientProgress_def upsert_distinct)

lemma keys_ok_seed: "keys_ok db \<Longrightarrow> keys_ok (repo_SeedRecipientProgress gen now ps db)"
  by (simp add: keys_ok_def repo_SeedRecipientProgress_def insert_new_distinct)

lemma same_key_eq: "keys_ok db \<Longrightarrow> p \<in> set (db_progress db) \<Longrightarrow> q \<in> set (db_progress db) \<Longrightarrow>
    same_recipient p q \<Longrightarrow> p = q"
  by (auto simp: keys_ok_def same_recipient_key distinct_map dest: inj_onD)

lemma db_lookup_save:
  assumes "keys_ok db" "p_delivery_status p \<noteq> []"
    and "db_lookup db (p_tenant_id p, p_broadcast_id p) (p_phone p) = Some q"
  shows "db_lookup (repo_SaveRecipientProgress uuid now p db) = set_recipient p q (db_lookup db)"
proof (rule recipients_eqI)
  fix t j ph x
  from assms(3) have q: "q \<in> set (db_progress db)" "same_recipient q p" "p_tenant_id q = p_tenant_id p"
    by (auto simp: db_lookup_Some [OF assms(1)] of_job_def same_recipient_def)
  have rows: "set (db_progress (repo_SaveRecipientProgress uuid now p db)) =
      insert (assign_columns p q) (set (db_progress db) - {q})"
  proof -
    have "same_recipient y p \<longleftrightarrow> y = q" if "y \<in> set (db_progress db)" for y
      using same_key_eq [OF assms(1) that q(1)] q(2) by (auto simp: same_recipient_key)
    then show ?thesis using q assms(2)
      by (auto simp: repo_SaveRecipientProgress_def upsert_def)
  qed
  have "db_lookup (repo_SaveRecipientProgress uuid now p db) (t, j) ph = Some x \<longleftrightarrow>
      (x = assign_columns p q \<or> x \<in> set (db_progress db) \<and> x \<noteq> q) \<and> of_job t j x \<and> p_phone x = ph"
    unfolding db_lookup_Some [OF keys_ok_upsert [OF assms(1)]] rows by blast
  moreover have "p_phone (assign_columns p q) = p_phone p" "of_job t j (assign_columns p q) \<longleftrightarrow>
      t = p_tenant_id p \<and> j = p_broadcast_id p"
    using q(2) by (auto simp: of_job_def same_recipient_def)
  moreover have "x = q" if "x \<in> set (db_progress db)" "of_job (p_tenant_id p) (p_broadcast_id p) x"
      "p_phone x = p_phone p"
    using same_key_eq [OF assms(1) that(1) q(1)] that q(2) by (simp add: of_job_def same_recipient_def)
  moreover have "of_job t j q \<longleftrightarrow> t = p_tenant_id p \<and> j = p_broadcast_id p" "p_phone q = p_phone p"
    using q by (auto simp: of_job_def same_recipient_def)
  ultimately show "db_lookup (repo_SaveRecipientProgress uuid now p db) (t, j) ph = Some x \<longleftrightarrow>
      set_recipient p q (db_lookup db) (t, j) ph = Some x"
    using db_lookup_Some [OF assms(1), of t j ph x]
    by (cases "t = p_tenant_id p \<and> j = p_broadcast_id p"; cases "ph = p_phone p")
      (auto simp: set_recipient_def)
qed

lemma db_lookup_seed:
  assumes "keys_ok db" "\<forall>p \<in> set ps. p_tenant_id p = t \<and> p_broadcast_id p = j"
  shows "(\<forall>k ph. db_lookup db k ph \<noteq> None \<or> k \<noteq> (t, j) \<longrightarrow>
       db_lookup (repo_SeedRecipientProgress gen now ps db) k ph = db_lookup db k ph) \<and>
    (\<forall>ph q. db_lookup db (t, j) ph = None \<longrightarrow>
       db_lookup (repo_SeedRecipientProgress gen now ps db) (t, j) ph = Some q \<longrightarrow>
       (\<exists>p \<in> set ps. \<exists>uuid now. q = new_row uuid now p))"
proof -
  let ?db = "repo_SeedRecipientProgress gen now ps db"
  have progress: "db_progress ?db = insert_new gen now 0 ps (db_progress db)"
    by (simp add: repo_SeedRecipientProgress_def)
  obtain new where new: "db_progress ?db = db_progress db @ new"
    "\<forall>q \<in> set new. \<exists>p \<in> set ps. \<exists>k. q = new_row (gen k) now p"
    using insert_new_prefix [of gen now 0 ps "db_progress db"] progress by auto
  note iff = db_lookup_Some [OF assms(1)] and iff' = db_lookup_Some [OF keys_ok_seed [OF assms(1)]]
  have keep: "db_lookup ?db (t', j') ph = Some q" if "db_lookup db (t', j') ph = Some q" for t' j' ph q
    using that unfolding iff iff' new(1) by simp
  have grow: "db_lookup db (t', j') ph = Some q \<or> (t', j') = (t, j) \<and>
      (\<exists>p \<in> set ps. \<exists>uuid now. q = new_row uuid now p)"
    if a: "db_lookup ?db (t', j') ph = Some q" for t' j' ph q
  proof (cases "q \<in> set (db_progress db)")
    case True
    with a show ?thesis unfolding iff iff' by simp
  next
    case False
    with a new obtain p k where p: "p \<in> set ps" "q = new_row (gen k) now p" unfolding iff' by auto
    moreover have "of_job t' j' q" using a unfolding iff' by simp
    ultimately show ?thesis using assms(2) by (auto simp: of_job_def)
  qed
  have "db_lookup ?db k ph = db_lookup db k ph" if "db_lookup db k ph \<noteq> None \<or> k \<noteq> (t, j)" for k ph
  proof (cases "db_lookup ?db k ph")
    case None
    with keep [of "fst k" "snd k" ph] show ?thesis by (cases "db_lookup db k ph") auto
  next
    case (Some q)
    obtain t' j' where k: "k = (t', j')" by (cases k)
    from grow [OF Some [unfolded k]] that keep Some show ?thesis unfolding k by fastforce
  qed
  moreover have "\<exists>p \<in> set ps. \<exists>uuid now. q = new_row uuid now p"
    if "db_lookup db (t, j) ph = None" "db_lookup ?db (t, j) ph = Some q" for ph q
    using grow [OF that(2)] that(1) by auto
  ultimately show ?thesis by blast
qed

section \<open>The world meets the contract\<close>

lemma next_answer_simps:
  "next_answer w = (a, w') \<Longrightarrow> w_db w' = w_db w \<and> w_sent w' = w_sent w"
  by (auto simp: next_answer_def split: list.splits)

lemma world_statement_cases:
  assumes "world_statement f w = (r, w')"
  obtains w0 where "w_db w0 = w_db w" "w_sent w' = w_sent w"
    "r = Inr (fst (f w0)) \<and> w_db w' = snd (f w0) \<or> (\<exists>e. r = Inl e) \<and> w_db w' \<in> {w_db w, snd (f w0)}"
proof -
  obtain a w0 where n: "next_answer w = (a, w0)" by (cases "next_answer w")
  with next_answer_simps [OF n] assms that [of w0] show ?thesis
    by (auto simp: world_statement_def split: answer.splits if_splits)
qed

lemma error_of_cases:
  "error_of x = (e, w) \<Longrightarrow> (\<exists>r. x = (r, w) \<and> (e = None \<longleftrightarrow> (\<exists>a. r = Inr a)))"
  by (auto simp: error_of_def split: prod.splits sum.splits)

lemma world_query_cases:
  assumes "world_query f w = (r, w')"
  obtains w0 where "w_db w' = w_db w" "w_sent w' = w_sent w" "w_db w0 = w_db w"
    "\<And>a. r = Inr a \<Longrightarrow> a = f w0"
proof -
  from assms [unfolded world_query_def] obtain w0 where "w_db w0 = w_db w" "w_sent w' = w_sent w"
    "r = Inr (f w0) \<and> w_db w' = w_db w0 \<or> (\<exists>e. r = Inl e) \<and> w_db w' \<in> {w_db w, w_db w0}"
    by (rule world_statement_cases) auto
  with that [of w0] show ?thesis by auto
qed

lemma world_query_same: "world_query f w = (r, w') \<Longrightarrow> w_db w' = w_db w \<and> w_sent w' = w_sent w"
  by (elim world_query_cases) simp

definition world_lookup :: "world \<Rightarrow> recipients" where
  "world_lookup w = db_lookup (w_db w)"

definition world_ok :: "world \<Rightarrow> bool" where
  "world_ok w \<longleftrightarrow> keys_ok (w_db w)"

text \<open>The processor does not write the table of jobs.\<close>

definition world_inv :: "BroadcastJob list \<Rightarrow> world \<Rightarrow> bool" where
  "world_inv jobs w \<longleftrightarrow> world_ok w \<and> db_jobs (w_db w) = jobs"

lemma world_invI: "world_ok w \<Longrightarrow> world_inv (db_jobs (w_db w)) w"
  by (simp add: world_inv_def)

lemma same_db: "w_db w' = w_db w \<Longrightarrow> w_sent w' = w_sent w \<Longrightarrow> world_inv J w \<Longrightarrow>
    world_inv J w' \<and> world_lookup w' = world_lookup w \<and> w_sent w' = w_sent w"
  by (simp add: world_inv_def world_ok_def world_lookup_def)

lemma repo_jobs [simp]:
  "db_jobs (repo_SaveRecipientProgress uuid now p db) = db_jobs db"
  "db_jobs (repo_SeedRecipientProgress gen now ps db) = db_jobs db"
  by (simp_all add: repo_SaveRecipientProgress_def repo_SeedRecipientProgress_def)

lemma world_list_result:
  assumes "world_list t j w = (r, w')" "world_inv J w"
  shows "world_inv J w' \<and> world_lookup w' = world_lookup w \<and> w_sent w' = w_sent w \<and>
    (\<forall>ps. r = Inr ps \<longrightarrow> distinct (map p_phone ps) \<and> rows_map ps = world_lookup w (t, j) \<and>
       (\<forall>p \<in> set ps. p_tenant_id p = t \<and> p_broadcast_id p = j))"
proof -
  have w0: "w_db w' = w_db w" "w_sent w' = w_sent w"
    "\<And>ps. r = Inr ps \<Longrightarrow> ps = repo_ListRecipientProgress t j (w_db w)"
    using assms(1) [unfolded world_list_def] by (auto elim!: world_query_cases)
  let ?rows = "filter (of_job t j) (db_progress (w_db w))"
  have d: "distinct (map p_phone ?rows)"
    using assms(2) by (simp add: world_inv_def world_ok_def keys_ok_def distinct_phones_of_job)
  have "rows_map (progress_order ?rows) = rows_map ?rows"
  proof
    fix ph
    show "rows_map (progress_order ?rows) ph = rows_map ?rows ph"
    proof (cases "rows_map ?rows ph")
      case None
      then have "rows_map (progress_order ?rows) ph = None" by (simp del: not_None_eq)
      from trans [OF this None [symmetric]] show ?thesis .
    next
      case (Some p)
      then have "p \<in> set ?rows" "p_phone p = ph" by (auto dest: rows_map_SomeD)
      with Some d rows_map_Some [of "progress_order ?rows" p] show ?thesis by simp
    qed
  qed
  then have m: "rows_map (repo_ListRecipientProgress t j (w_db w)) = world_lookup w (t, j)"
    by (simp add: repo_ListRecipientProgress_def world_lookup_def db_lookup_def)
  have "distinct (map p_phone ps) \<and> rows_map ps = world_lookup w (t, j) \<and>
       (\<forall>p \<in> set ps. p_tenant_id p = t \<and> p_broadcast_id p = j)" if "r = Inr ps" for ps
    unfolding w0(3) [OF that] m using d by (simp add: repo_ListRecipientProgress_def of_job_def)
  with same_db [OF w0(1,2) assms(2)] show ?thesis by blast
qed

interpretation env: delivery_env world_deps "world_inv J" world_lookup w_sent for J
proof unfold_locales
  fix s s' r
  assume "dd_ctx_err world_deps s = (r, s')" "world_inv J s"
  then show "world_inv J s' \<and> world_lookup s' = world_lookup s \<and> w_sent s' = w_sent s"
    by (intro same_db)
      (auto simp: world_deps_def world_ctx_err_def split: prod.splits answer.splits dest: next_answer_simps)
next
  fix s s' now
  assume "dd_now world_deps s = (now, s')" "world_inv J s"
  then show "world_inv J s' \<and> world_lookup s' = world_lookup s \<and> w_sent s' = w_sent s"
    by (intro same_db)
      (auto simp: world_deps_def world_now_def split: prod.splits answer.splits dest: next_answer_simps)
next
  fix w s s' r
  assume "dd_pace world_deps w s = (r, s')" "world_inv J s"
  then show "world_inv J s' \<and> world_lookup s' = world_lookup s \<and> w_sent s' = w_sent s"
    by (intro same_db)
      (auto simp: world_deps_def world_pace_def split: prod.splits answer.splits dest: next_answer_simps)
next
  fix t i s ri s'
  assume a: "dd_instance world_deps t i s = (ri, s')" "world_inv J s"
  obtain r w where q: "world_query (\<lambda>w. (t, i) \<in> set (w_instances w)) s = (r, w)" by (rule prod.exhaust)
  with a(1) have "s' = w"
    by (auto simp: world_deps_def world_instance_def split: sum.splits bool.splits)
  with world_query_same [OF q] same_db [of s' s] a(2)
  show "world_inv J s' \<and> world_lookup s' = world_lookup s \<and> w_sent s' = w_sent s" by simp
next
  fix t s rc s'
  assume "dd_contacts world_deps t s = (rc, s')" "world_inv J s"
  then show "world_inv J s' \<and> world_lookup s' = world_lookup s \<and> w_sent s' = w_sent s"
    by (intro same_db) (auto simp: world_deps_def world_contacts_def dest: world_query_same)
next
  fix t j s rl s'
  assume "dd_list world_deps t j s = (rl, s')" "world_inv J s"
  then show "world_inv J s' \<and> world_lookup s' = world_lookup s \<and> w_sent s' = w_sent s \<and>
    (\<forall>ps. rl = Inr ps \<longrightarrow> distinct (map p_phone ps) \<and> rows_map ps = world_lookup s (t, j) \<and>
       (\<forall>p \<in> set ps. p_tenant_id p = t \<and> p_broadcast_id p = j))"
    by (intro world_list_result) (simp_all add: world_deps_def)
next
  fix p s r s' q
  assume a: "dd_save world_deps p s = (r, s')" "world_inv J s" "p_delivery_status p \<noteq> []"
    "world_lookup s (p_tenant_id p, p_broadcast_id p) (p_phone p) = Some q"
  from a(1) obtain rs where "world_statement
       (\<lambda>w. ((), repo_SaveRecipientProgress (world_uuid (w_ids w)) (w_now w) p (w_db w))) s = (rs, s')"
    "r = None \<longleftrightarrow> (\<exists>a. rs = Inr a)"
    by (auto simp: world_deps_def world_save_def dest!: error_of_cases)
  then obtain uuid now where sv: "w_sent s' = w_sent s"
    "w_db s' = repo_SaveRecipientProgress uuid now p (w_db s) \<or> r \<noteq> None \<and> w_db s' = w_db s"
    by (elim world_statement_cases) auto
  from sv(2) show "world_inv J s' \<and> w_sent s' = w_sent s \<and>
      (world_lookup s' = set_recipient p q (world_lookup s) \<or> r \<noteq> None \<and> world_lookup s' = world_lookup s)"
    using a(2-4) sv(1)
    by (auto simp: world_inv_def world_ok_def world_lookup_def keys_ok_upsert db_lookup_save)
next
  fix ps s r s' t j
  assume a: "dd_seed world_deps ps s = (r, s')" "world_inv J s"
    "\<forall>p \<in> set ps. p_tenant_id p = t \<and> p_broadcast_id p = j \<and> p_delivery_status p \<noteq> []"
  from a(1) obtain rs where "world_statement (\<lambda>w. ((), repo_SeedRecipientProgress
      (\<lambda>i. world_uuid (w_ids w) @ ''-'' @ show_nat i) (w_now w) ps (w_db w))) s = (rs, s')"
    by (auto simp: world_deps_def world_seed_def dest!: error_of_cases)
  then obtain gen now where sv: "w_sent s' = w_sent s"
    "w_db s' = repo_SeedRecipientProgress gen now ps (w_db s) \<or> w_db s' = w_db s"
    by (elim world_statement_cases) auto
  have ps: "\<forall>p \<in> set ps. p_tenant_id p = t \<and> p_broadcast_id p = j" using a(3) by blast
  from sv(2) show "world_inv J s' \<and> w_sent s' = w_sent s \<and>
      (\<forall>k ph. world_lookup s k ph \<noteq> None \<or> k \<noteq> (t, j) \<longrightarrow> world_lookup s' k ph = world_lookup s k ph) \<and>
      (\<forall>ph q. world_lookup s (t, j) ph = None \<longrightarrow> world_lookup s' (t, j) ph = Some q \<longrightarrow>
         (\<exists>p \<in> set ps. \<exists>uuid now. q = new_row uuid now p))"
  proof
    assume db: "w_db s' = repo_SeedRecipientProgress gen now ps (w_db s)"
    have ok: "keys_ok (w_db s)" "db_jobs (w_db s) = J" using a(2) by (simp_all add: world_inv_def world_ok_def)
    have "world_inv J s'" using ok keys_ok_seed [OF ok(1), of gen now ps]
      by (simp add: world_inv_def world_ok_def db)
    with db_lookup_seed [OF ok(1) ps, of gen now] sv(1)
    show ?thesis unfolding world_lookup_def db by (intro conjI) (elim conjE, assumption)+
  next
    assume "w_db s' = w_db s"
    with a(2) sv(1) show ?thesis by (auto simp: world_inv_def world_ok_def world_lookup_def)
  qed
next
  fix t i number msg s rs s'
  assume "dd_send world_deps t i number msg s = (rs, s')" "world_inv J s"
  then show "world_inv J s' \<and> world_lookup s' = world_lookup s \<and> w_sent s' = w_sent s @ [(number, msg)]"
    by (auto simp: world_deps_def world_send_def world_inv_def world_ok_def world_lookup_def
        split: prod.splits dest!: next_answer_simps)
qed

section \<open>A calm environment\<close>

text \<open>With an empty script nothing fails, and every send is confirmed.\<close>

lemma calm_simps:
  assumes "w_answers w = []"
  shows "world_ctx_err w = (None, w)"
    "world_now w = (w_now w, w)"
    "world_pace dur w = (None, w\<lparr>w_now := w_now w + max 0 dur\<rparr>)"
    "world_statement f w = (Inr (fst (f w)), w\<lparr>w_db := snd (f w), w_ids := w_ids w + 1\<rparr>)"
  using assms
  by (simp_all add: next_answer_def world_ctx_err_def world_now_def world_pace_def world_statement_def)

lemma calm_save:
  "w_answers w = [] \<Longrightarrow> \<exists>w'. world_save p w = (None, w') \<and> w_answers w' = [] \<and> w_sent w' = w_sent w"
  by (simp add: world_save_def calm_simps error_of_def)

lemma calm_send_one:
  assumes "w_answers w = []"
  shows "\<exists>w'. send_one world_deps job i r w = (None, w') \<and> w_answers w' = [] \<and>
    w_sent w' = w_sent w @ [(p_phone r, j_message job)]"
proof -
  let ?r = "attempted (w_now w) r"
  obtain w1 where w1: "world_save ?r w = (None, w1)" "w_answers w1 = []" "w_sent w1 = w_sent w"
    using calm_save [OF assms] by blast
  obtain res where res: "world_send (j_tenant_id job) i (p_phone ?r) (j_message job) w1 =
      (Inr (Some res), w1\<lparr>w_sent := w_sent w1 @ [(p_phone ?r, j_message job)]\<rparr>)" "sr_server_id res = 1"
    using w1(2) by (simp add: world_send_def next_answer_def)
  then have "isConfirmedSendAttempt (Some res)" by (simp add: isConfirmedSendAttempt_def)
  moreover obtain w2 where "world_save (confirmed (w_now w) res ?r)
      (w1\<lparr>w_sent := w_sent w1 @ [(p_phone ?r, j_message job)]\<rparr>) = (None, w2)"
      "w_answers w2 = []" "w_sent w2 = w_sent w1 @ [(p_phone ?r, j_message job)]"
    using calm_save [of "w1\<lparr>w_sent := w_sent w1 @ [(p_phone ?r, j_message job)]\<rparr>"] w1(2) by auto
  moreover have "p_phone ?r = p_phone r" by (simp add: attempted_def)
  ultimately show ?thesis using w1 res
    by (simp add: send_one_def settle_def world_deps_def calm_simps assms Let_def)
qed

lemma calm_send_all:
  assumes "w_answers w = []"
  shows "\<exists>w'. send_all world_deps job i first pend w = (None, w') \<and>
    w_sent w' = w_sent w @ map (\<lambda>p. (p_phone p, j_message job)) pend"
  using assms
proof (induction pend arbitrary: first w)
  case (Cons p ps)
  obtain w1 where w1: "pace_before world_deps job first p w = (None, w1)" "w_answers w1 = []"
      "w_sent w1 = w_sent w"
    using Cons.prems
    by (cases first) (simp_all add: pace_before_def waitForRecipientPacing_def world_deps_def calm_simps)
  obtain w2 where w2: "send_one world_deps job i p w1 = (None, w2)" "w_answers w2 = []"
      "w_sent w2 = w_sent w1 @ [(p_phone p, j_message job)]"
    using calm_send_one [OF w1(2)] by blast
  from Cons.IH [OF w2(2), of False] w1 w2 show ?case by auto
qed simp

lemma calm_Process:
  assumes "w_answers w = []" "trim_space (j_tenant_id job) \<noteq> []" "trim_space (j_instance_id job) \<noteq> []"
    and "trim_space (j_message job) \<noteq> []" "(j_tenant_id job, j_instance_id job) \<in> set (w_instances w)"
    and "repo_ListRecipientProgress (j_tenant_id job) (j_id job) (w_db w) \<noteq> []"
  shows "\<exists>w'. Process world_deps job w = (None, w') \<and>
    w_sent w' = w_sent w @ map (\<lambda>p. (p_phone p, j_message job))
      (filter is_pending (repo_ListRecipientProgress (j_tenant_id job) (j_id job) (w_db w)))"
proof -
  let ?ps = "repo_ListRecipientProgress (j_tenant_id job) (j_id job) (w_db w)"
  obtain w1 where w1: "world_instance (j_tenant_id job) (j_instance_id job) w =
      (Inr (Some (j_instance_id job)), w1)" "w_answers w1 = []" "w_db w1 = w_db w" "w_sent w1 = w_sent w"
    using assms(1,5) by (simp add: world_instance_def world_query_def calm_simps)
  obtain w2 where w2: "loadOrSeedRecipientProgress world_deps job w1 = (Inr ?ps, w2)"
      "w_answers w2 = []" "w_sent w2 = w_sent w"
    using w1 assms(6)
    by (simp add: loadOrSeedRecipientProgress_def world_deps_def world_list_def world_query_def calm_simps)
  obtain w3 where "send_all world_deps job (j_instance_id job) True (filter is_pending ?ps) w2 = (None, w3)"
      "w_sent w3 = w_sent w2 @ map (\<lambda>p. (p_phone p, j_message job)) (filter is_pending ?ps)"
    using calm_send_all [OF w2(2)] by blast
  moreover have "dd_ctx_err world_deps w = (None, w)" "dd_available world_deps"
    "dd_instance world_deps = world_instance"
    using assms(1) by (simp_all add: world_deps_def calm_simps)
  ultimately show ?thesis using assms(2-4,6) w1 w2
    by (simp add: Process_def pendingRecipientProgress_def)
qed

section \<open>A sample world\<close>

definition sample_job :: BroadcastJob where
  "sample_job =
     \<lparr>j_id = ''b1'', j_tenant_id = ''t1'', j_instance_id = ''i1'', j_status = ''processing'',
      j_message = ''hello'', j_rate_per_hour = 60, j_delay_sec = 0, j_attempts = 1, j_max_attempts = 3,
      j_worker_id = ''dispatcher'', j_last_error = [], j_scheduled_at = None, j_available_at = 5,
      j_started_at = Some 6, j_completed_at = None, j_failed_at = None, j_created_at = 1\<rparr>"

definition sample_row :: "string \<Rightarrow> string \<Rightarrow> BroadcastRecipientProgress" where
  "sample_row phone status =
     (seed_record sample_job \<lparr>br_contact_id = None, br_phone = phone\<rparr>)
       \<lparr>p_id := phone, p_delivery_status := status, p_created_at := 2\<rparr>"

definition sample_world :: "answer list \<Rightarrow> world" where
  "sample_world script =
     \<lparr>w_db = \<lparr>db_jobs = [sample_job],
              db_progress = [sample_row ''111'' ''pending'', sample_row ''222'' ''sent'']\<rparr>,
      w_now = 10, w_answers = script, w_instances = [(''t1'', ''i1'')], w_contacts = [],
      w_sent = [], w_ids = 7\<rparr>"

lemma sample_world_ok [simp]: "world_ok (sample_world script)"
  by (simp add: world_ok_def keys_ok_def sample_world_def sample_row_def seed_record_def recipient_key_def)

lemma sample_simps: "w_sent (sample_world script) = []" "j_message sample_job = ''hello''"
  by (simp_all add: sample_world_def sample_job_def)

lemma sample_calm: "\<exists>w'. Process world_deps sample_job (sample_world []) = (None, w')"
proof -
  have "trim_space (j_tenant_id sample_job) \<noteq> []" "trim_space (j_instance_id sample_job) \<noteq> []"
    "trim_space (j_message sample_job) \<noteq> []"
    "repo_ListRecipientProgress (j_tenant_id sample_job) (j_id sample_job) (w_db (sample_world [])) \<noteq> []"
    by code_simp+
  then show ?thesis
    using calm_Process [of "sample_world []" sample_job] by (auto simp: sample_world_def sample_job_def)
qed

section \<open>Properties\<close>

text \<open>The recipients of a job as the tables of a world hold them.\<close>

definition job_recipient :: "world \<Rightarrow> BroadcastJob \<Rightarrow> string \<Rightarrow> BroadcastRecipientProgress option" where
  "job_recipient w job ph = world_lookup w (j_tenant_id job, j_id job) ph"

text \<open>
  C1: whatever goes wrong and whenever, \<open>Process\<close> sends the message of the job to each phone
  at most once per run, and never to a recipient that was already sent to, delivered, read or
  failed; each send is counted as one attempt of its recipient; and after the run every
  recipient sent to is settled, except possibly the last one, when the run ends in an error. (So
  a retried job repeats at most the send that was interrupted.)
\<close>

theorem Process_sends_once:
  assumes "Process world_deps job w = (e, w')" and "world_ok w"
  shows "\<exists>phones. w_sent w' = w_sent w @ map (\<lambda>ph. (ph, j_message job)) phones \<and> distinct phones \<and>
    (\<forall>ph \<in> set phones.
       (\<forall>q. job_recipient w job ph = Some q \<longrightarrow> is_pending q) \<and>
       (\<exists>q. job_recipient w' job ph = Some q \<and>
          p_attempt_count q =
            (case job_recipient w job ph of None \<Rightarrow> 0 | Some q0 \<Rightarrow> p_attempt_count q0) + 1 \<and>
          (is_pending q \<longrightarrow> e \<noteq> None \<and> ph = last phones)))"
  unfolding job_recipient_def by (rule env.run_sends [OF assms(1) world_invI [OF assms(2)]])

theorem Process_sends_once_witness:
  "\<exists>phones. w_sent (snd (Process world_deps sample_job (sample_world [Goes, Goes, Passes 5]))) =
     map (\<lambda>ph. (ph, ''hello'')) phones \<and> distinct phones"
  using Process_sends_once [OF prod.collapse [symmetric] sample_world_ok, of sample_job]
  unfolding sample_simps append_Nil by blast

text \<open>
  \<open>Process\<close> returns nil only when the job has recipients and none of them is pending.
\<close>

theorem Process_nil_complete:
  assumes "Process world_deps job w = (None, w')" and "world_ok w"
  shows "(\<exists>ph. job_recipient w' job ph \<noteq> None) \<and>
    (\<forall>ph q. job_recipient w' job ph = Some q \<longrightarrow> \<not> is_pending q)"
  unfolding job_recipient_def using env.run_complete [OF assms(1) world_invI [OF assms(2)]] by (auto simp: dom_def)

theorem Process_nil_complete_witness:
  "\<exists>w'. Process world_deps sample_job (sample_world []) = (None, w') \<and>
     (\<exists>ph. job_recipient w' sample_job ph \<noteq> None)"
  using sample_calm Process_nil_complete [OF _ sample_world_ok] by blast

text \<open>
  A run leaves the recipients of other jobs alone, and those of its own job that are no
  longer pending: outcomes recorded by earlier runs and by receipts are never overwritten.
\<close>

theorem Process_frame:
  assumes "Process world_deps job w = (e, w')" and "world_ok w"
    and "k \<noteq> (j_tenant_id job, j_id job) \<or> (\<exists>q. world_lookup w k ph = Some q \<and> \<not> is_pending q)"
  shows "world_lookup w' k ph = world_lookup w k ph"
  by (rule env.run_frame [OF assms(1) world_invI [OF assms(2)] assms(3)])

theorem Process_frame_witness:
  "world_lookup (snd (Process world_deps sample_job (sample_world [Goes, Cancels (plain_error ''stop'')])))
     (''t1'', ''b1'') ''222'' = Some (sample_row ''222'' ''sent'')"
proof -
  have "world_lookup (sample_world script) (''t1'', ''b1'') ''222'' = Some (sample_row ''222'' ''sent'')
      \<and> \<not> is_pending (sample_row ''222'' ''sent'')" for script
    by (auto simp: world_lookup_def sample_world_def db_lookup_def rows_map_def sample_row_def sample_job_def
        seed_record_def of_job_def is_pending_status recipientStatusSent_def)
  then show ?thesis
    by (subst Process_frame [OF prod.collapse [symmetric] sample_world_ok]) auto
qed

text \<open>
  An error that \<open>Process\<close> marks permanent, after which the job is not tried again, comes
  before anything was sent.
\<close>

theorem Process_permanent_nothing_sent:
  assumes "Process world_deps job w = (Some e, w')" and "world_ok w" and "\<not> isRetryableProcessorError e"
  shows "w_sent w' = w_sent w"
  by (rule env.run_permanent [OF assms(1) world_invI [OF assms(2)] assms(3)])

theorem Process_permanent_nothing_sent_witness:
  "w_sent (snd (Process world_deps (sample_job\<lparr>j_message := []\<rparr>) (sample_world []))) = []"
proof -
  let ?e = "permanentProcessorError
      (wrap ErrValidation ''broadcast job is missing tenant_id, instance_id, or message'')"
  have "dd_ctx_err world_deps (sample_world []) = (None, sample_world [])" "dd_available world_deps"
    by (simp_all add: world_deps_def calm_simps sample_world_def)
  then have run: "Process world_deps (sample_job\<lparr>j_message := []\<rparr>) (sample_world []) =
      (Some ?e, sample_world [])"
    by (simp add: Process_def)
  from Process_permanent_nothing_sent [OF run sample_world_ok] show ?thesis
    unfolding run by (simp add: sample_simps)
qed

text \<open>
  C5: when nothing fails and every send is confirmed, \<open>Process\<close> of a job with recipients
  returns nil and has sent the message to exactly its pending recipients, in list order.
\<close>

theorem Process_succeeds_when_calm:
  assumes "w_answers w = []" and "trim_space (j_tenant_id job) \<noteq> []"
    and "trim_space (j_instance_id job) \<noteq> []" and "trim_space (j_message job) \<noteq> []"
    and "(j_tenant_id job, j_instance_id job) \<in> set (w_instances w)"
    and "repo_ListRecipientProgress (j_tenant_id job) (j_id job) (w_db w) \<noteq> []"
  shows "\<exists>w'. Process world_deps job w = (None, w') \<and>
    w_sent w' = w_sent w @ map (\<lambda>p. (p_phone p, j_message job))
      (filter is_pending (repo_ListRecipientProgress (j_tenant_id job) (j_id job) (w_db w)))"
  using assms by (rule calm_Process)

theorem Process_succeeds_when_calm_witness:
  "\<exists>w'. Process world_deps sample_job (sample_world []) = (None, w')"
proof -
  have "trim_space (j_tenant_id sample_job) \<noteq> []" "trim_space (j_instance_id sample_job) \<noteq> []"
    "trim_space (j_message sample_job) \<noteq> []"
    "repo_ListRecipientProgress (j_tenant_id sample_job) (j_id sample_job) (w_db (sample_world [])) \<noteq> []"
    by code_simp+
  then show ?thesis
    using Process_succeeds_when_calm [of "sample_world []" sample_job]
    by (auto simp: sample_world_def sample_job_def)
qed

end
