(* ===== verification/Broadcast_Service.thy ===== *)
theory Broadcast_Service
  imports Broadcast_World
begin

text \<open>
  The broadcast service, \<open>internal/broadcast/service.go\<close>, on the worlds of
  \<open>Broadcast_World\<close>: the API operations, the dispatcher, the workers and the receipts. The
  buffered channel is a list with a capacity, the limiter a map from instances to instants. Each
  definition is the whole operation, failing statements included; the interleaving of the
  goroutines is in \<open>Broadcast_System\<close>.
\<close>

section \<open>Service, inputs, results\<close>

text \<open>The fixed part of a service: the fields set by \<open>NewService\<close>.\<close>

record broadcast_service =
  bs_workers :: int
  bs_claim_batch_size :: int
  bs_dispatch_every :: duration
  bs_queue_cap :: int
  bs_has_contacts :: bool

definition NewService :: "int \<Rightarrow> int \<Rightarrow> bool \<Rightarrow> broadcast_service" where
  "NewService workers claimBatchSize has_contacts =
     (let workers = (if workers \<le> 0 then 1 else workers);
          claimBatchSize = (if claimBatchSize \<le> 0 then workers else claimBatchSize)
      in \<lparr>bs_workers = workers, bs_claim_batch_size = claimBatchSize, bs_dispatch_every = 2 * second,
          bs_queue_cap = workers * 4, bs_has_contacts = has_contacts\<rparr>)"

record CreateInput =
  ci_instance_id :: string
  ci_message :: string
  ci_rate_per_hour :: int
  ci_delay_sec :: int
  ci_max_attempts :: int
  ci_scheduled_at :: "time option"

record ListRecipientsInput =
  li_page :: int
  li_limit :: int
  li_status :: string
  li_query :: string

text \<open>A job as the API returns it: the row and the fields that are not stored.\<close>

record BroadcastJobView =
  v_job :: BroadcastJob
  v_recipient_total :: int
  v_recipient_attempted :: int
  v_recipient_sent :: int
  v_recipient_failed :: int
  v_recipient_pending :: int
  v_recipient_partial :: bool
  v_recipient_analytics :: BroadcastRecipientAnalytics
  v_recipients :: "BroadcastRecipientProgress list"

record RecipientListResult =
  rr_broadcast_id :: string
  rr_page :: int
  rr_limit :: int
  rr_total :: int
  rr_total_pages :: int
  rr_status :: string
  rr_query :: string
  rr_summary :: BroadcastRecipientAnalytics
  rr_partial :: bool
  rr_items :: "BroadcastRecipientProgress list"

definition and_then ::
  "(go_error + 'a) \<times> 's \<Rightarrow> ('a \<Rightarrow> 's \<Rightarrow> (go_error + 'b) \<times> 's) \<Rightarrow> (go_error + 'b) \<times> 's" where
  "and_then x f = (case x of (Inl e, s) \<Rightarrow> (Inl e, s) | (Inr a, s) \<Rightarrow> f a s)"

text \<open>Statements of the repository.\<close>

definition st_create :: "string \<Rightarrow> BroadcastJob \<Rightarrow> world \<Rightarrow> (go_error + BroadcastJob) \<times> world" where
  "st_create uuid job = world_statement (\<lambda>w. repo_Create uuid (w_now w) job (w_db w))"

definition st_get :: "string \<Rightarrow> string \<Rightarrow> world \<Rightarrow> (go_error + BroadcastJob) \<times> world" where
  "st_get tenantID jobID w =
     and_then (world_query (\<lambda>w. repo_GetByID tenantID jobID (w_db w)) w) (\<lambda>r w. (r, w))"

definition st_summary :: "string \<Rightarrow> string \<Rightarrow> world \<Rightarrow> (go_error + BroadcastRecipientAnalytics) \<times> world" where
  "st_summary tenantID jobID = world_query (\<lambda>w. repo_SummarizeRecipientProgress tenantID jobID (w_db w))"

definition st_claim :: "string \<Rightarrow> int \<Rightarrow> time \<Rightarrow> world \<Rightarrow> (go_error + BroadcastJob list) \<times> world" where
  "st_claim workerID limit now = world_statement (\<lambda>w. repo_ClaimNext workerID limit now (w_db w))"

text \<open>An update that may also report that no row was affected.\<close>

definition st_mark ::
  "(broadcast_db \<Rightarrow> go_error option \<times> broadcast_db) \<Rightarrow> world \<Rightarrow> go_error option \<times> world" where
  "st_mark f w =
     (case world_statement (\<lambda>w. f (w_db w)) w of
        (Inl e, w) \<Rightarrow> (Some e, w)
      | (Inr r, w) \<Rightarrow> (r, w))"

section \<open>Reading\<close>

definition enrichJob ::
  "bool \<Rightarrow> BroadcastJob \<Rightarrow> world \<Rightarrow> (go_error + BroadcastJobView) \<times> world" where
  "enrichJob includeRecipients job w =
     and_then (st_summary (j_tenant_id job) (j_id job) w) (\<lambda>summary w.
       let summary = summary\<lparr>an_partial := (an_total_recipients summary = 0 \<and> 0 < j_attempts job)\<rparr>;
           view = \<lparr>v_job = job, v_recipient_total = an_total_recipients summary,
                   v_recipient_attempted = an_attempted summary, v_recipient_sent = an_sent summary,
                   v_recipient_failed = an_failed summary, v_recipient_pending = an_pending summary,
                   v_recipient_partial = an_partial summary, v_recipient_analytics = summary,
                   v_recipients = []\<rparr>
       in if includeRecipients then
            and_then (world_list (j_tenant_id job) (j_id job) w)
              (\<lambda>recipients w. (Inr (view\<lparr>v_recipients := recipients\<rparr>), w))
          else (Inr view, w))"

definition broadcast_Get :: "string \<Rightarrow> string \<Rightarrow> world \<Rightarrow> (go_error + BroadcastJobView) \<times> world" where
  "broadcast_Get tenantID jobID w =
     (case st_get tenantID jobID w of
        (Inl _, w) \<Rightarrow> (Inl (wrap ErrNotFound ''broadcast job not found''), w)
      | (Inr job, w) \<Rightarrow> enrichJob True job w)"

fun enrich_all :: "BroadcastJob list \<Rightarrow> world \<Rightarrow> (go_error + BroadcastJobView list) \<times> world" where
  "enrich_all [] w = (Inr [], w)"
| "enrich_all (job # jobs) w =
     and_then (enrichJob False job w) (\<lambda>v w. and_then (enrich_all jobs w) (\<lambda>vs w. (Inr (v # vs), w)))"

definition list_limit :: "int \<Rightarrow> int" where
  "list_limit limit = (let limit = (if limit \<le> 0 then 50 else limit) in if 200 < limit then 200 else limit)"

definition broadcast_List :: "string \<Rightarrow> int \<Rightarrow> world \<Rightarrow> (go_error + BroadcastJobView list) \<times> world" where
  "broadcast_List tenantID limit w =
     and_then (world_query (\<lambda>w. repo_ListByTenant tenantID (list_limit limit) (w_db w)) w) enrich_all"

definition normalizeRecipientListFilter ::
  "ListRecipientsInput \<Rightarrow> go_error + BroadcastRecipientProgressFilter" where
  "normalizeRecipientListFilter inp =
     (if li_page inp < 0 then Inl (wrap ErrValidation ''page must be greater than zero'')
      else let page = (if li_page inp = 0 then 1 else li_page inp) in
      if 1000 < page then Inl (wrap ErrValidation ''page cannot exceed 1000'')
      else if li_limit inp < 0 then Inl (wrap ErrValidation ''limit must be greater than zero'')
      else let limit = (if li_limit inp = 0 then 50 else li_limit inp);
               limit = (if 200 < limit then 200 else limit);
               status = lower_trim (li_status inp);
               query = trim_space (li_query inp)
      in if status \<notin> {[], recipientStatusPending, recipientStatusSent, recipientStatusDelivered,
            recipientStatusRead, recipientStatusFailed}
         then Inl (wrap ErrValidation ''unsupported recipient status filter'')
         else if 100 < length query then Inl (wrap ErrValidation ''query cannot exceed 100 characters'')
         else Inr \<lparr>f_status = status, f_query = query, f_page = page, f_limit = limit\<rparr>)"

text \<open>Go divides towards zero; totals and limits are not negative here.\<close>

definition totalPages :: "int \<Rightarrow> int \<Rightarrow> int" where
  "totalPages items limit =
     (if items = 0 \<or> limit \<le> 0 then 0
      else let pages = items div limit in if items mod limit \<noteq> 0 then pages + 1 else pages)"

definition ListRecipients ::
  "string \<Rightarrow> string \<Rightarrow> ListRecipientsInput \<Rightarrow> world \<Rightarrow> (go_error + RecipientListResult) \<times> world" where
  "ListRecipients tenantID jobID inp w =
     (case st_get tenantID jobID w of
        (Inl _, w) \<Rightarrow> (Inl (wrap ErrNotFound ''broadcast job not found''), w)
      | (Inr _, w) \<Rightarrow>
     (case normalizeRecipientListFilter inp of
        Inl e \<Rightarrow> (Inl e, w)
      | Inr flt \<Rightarrow>
          and_then (world_query (\<lambda>w. repo_ListRecipientProgressPage tenantID jobID flt (w_db w)) w)
            (\<lambda>(items, n) w.
          and_then (st_summary tenantID jobID w) (\<lambda>summary w.
            let summary = summary\<lparr>an_partial := (an_total_recipients summary = 0)\<rparr> in
            (Inr \<lparr>rr_broadcast_id = jobID, rr_page = f_page flt, rr_limit = f_limit flt,
                  rr_total = n, rr_total_pages = totalPages n (f_limit flt),
                  rr_status = f_status flt, rr_query = f_query flt, rr_summary = summary,
                  rr_partial = an_partial summary, rr_items = items\<rparr>, w)))))"

section \<open>Creating\<close>

definition seedRecipientSnapshot ::
  "broadcast_service \<Rightarrow> BroadcastJob \<Rightarrow> world \<Rightarrow> (go_error + unit) \<times> world" where
  "seedRecipientSnapshot s job w =
     (if \<not> bs_has_contacts s then (Inr (), w)
      else and_then (world_contacts (j_tenant_id job) w) (\<lambda>contacts w.
        let recipients = eligibleBroadcastRecipients contacts (j_instance_id job) in
        if recipients = [] then (Inr (), w)
        else case world_seed (map (seed_record job) recipients) w of
          (Some e, w) \<Rightarrow> (Inl e, w)
        | (None, w) \<Rightarrow> (Inr (), w)))"

definition validate_create :: "CreateInput \<Rightarrow> go_error option" where
  "validate_create inp =
     (if ci_instance_id inp = [] \<or> ci_message inp = [] then
        Some (wrap ErrValidation ''instance_id and message are required'')
      else if ci_delay_sec inp < 0 then Some (wrap ErrValidation ''delay_sec cannot be negative'')
      else if ci_rate_per_hour inp < 0 then Some (wrap ErrValidation ''rate_per_hour cannot be negative'')
      else if ci_max_attempts inp < 0 then Some (wrap ErrValidation ''max_attempts cannot be negative'')
      else None)"

text \<open>\<open>time.Duration(input.DelaySec) * time.Second\<close> wraps around in 64 bits.\<close>

definition available_at :: "time \<Rightarrow> CreateInput \<Rightarrow> time" where
  "available_at now inp =
     (let at = (if 0 < ci_delay_sec inp then now + int64 (ci_delay_sec inp * second) else now) in
      case ci_scheduled_at inp of
        Some t \<Rightarrow> if at < t then t else at
      | None \<Rightarrow> at)"

definition new_job :: "string \<Rightarrow> time \<Rightarrow> CreateInput \<Rightarrow> BroadcastJob" where
  "new_job tenantID now inp =
     \<lparr>j_id = [], j_tenant_id = tenantID, j_instance_id = ci_instance_id inp, j_status = statusQueued,
      j_message = ci_message inp, j_rate_per_hour = ci_rate_per_hour inp, j_delay_sec = ci_delay_sec inp,
      j_attempts = 0, j_max_attempts = (if ci_max_attempts inp \<le> 0 then 3 else ci_max_attempts inp),
      j_worker_id = [], j_last_error = [], j_scheduled_at = ci_scheduled_at inp,
      j_available_at = available_at now inp, j_started_at = None, j_completed_at = None,
      j_failed_at = None, j_created_at = 0\<rparr>"

definition broadcast_Create ::
  "broadcast_service \<Rightarrow> string \<Rightarrow> string \<Rightarrow> CreateInput \<Rightarrow> world \<Rightarrow>
   (go_error + BroadcastJobView) \<times> world" where
  "broadcast_Create s uuid tenantID inp w =
     (let inp = inp\<lparr>ci_instance_id := trim_space (ci_instance_id inp),
                   ci_message := trim_space (ci_message inp)\<rparr> in
      case validate_create inp of
        Some e \<Rightarrow> (Inl e, w)
      | None \<Rightarrow>
     (case world_instance tenantID (ci_instance_id inp) w of
        (Inl _, w) \<Rightarrow> (Inl (wrap ErrForbidden ''instance not found for tenant''), w)
      | (Inr None, w) \<Rightarrow> (Inl (wrap ErrForbidden ''instance not found for tenant''), w)
      | (Inr (Some _), w) \<Rightarrow>
     (case world_now w of (now, w) \<Rightarrow>
      if (case ci_scheduled_at inp of None \<Rightarrow> False | Some t \<Rightarrow> t < now) then
        (Inl (wrap ErrValidation ''scheduled_at must be in the future''), w)
      else
        and_then (st_create uuid (new_job tenantID now inp) w) (\<lambda>job w.
        and_then (seedRecipientSnapshot s job w) (\<lambda>_ w.
        enrichJob False job w)))))"

section \<open>Dispatching\<close>

definition tryEnqueue :: "broadcast_service \<Rightarrow> BroadcastJob \<Rightarrow> BroadcastJob list \<Rightarrow> BroadcastJob list" where
  "tryEnqueue s job queue = (if int (length queue) < bs_queue_cap s then queue @ [job] else queue)"

definition claimAndEnqueue ::
  "broadcast_service \<Rightarrow> BroadcastJob list \<Rightarrow> world \<Rightarrow> BroadcastJob list \<times> world" where
  "claimAndEnqueue s queue w =
     (let freeSlots = bs_queue_cap s - int (length queue) in
      if freeSlots \<le> 0 then (queue, w)
      else let limit = (if freeSlots < bs_claim_batch_size s then freeSlots else bs_claim_batch_size s) in
        case world_now w of (now, w) \<Rightarrow>
        (case st_claim ''dispatcher'' limit now w of
           (Inl _, w) \<Rightarrow> (queue, w)
         | (Inr jobs, w) \<Rightarrow> (fold (tryEnqueue s) jobs queue, w)))"

section \<open>Working\<close>

text \<open>
  The critical section of \<open>waitForInstanceSlot\<close>: the slot is taken (\<open>None\<close>) or there is a
  time to wait. The loop re-tries after the timer; an observation is the error of the context, the
  clock and the end of the wait.
\<close>

definition take_slot ::
  "time \<Rightarrow> string \<Rightarrow> int \<Rightarrow> (string \<rightharpoonup> time) \<Rightarrow> duration option \<times> (string \<rightharpoonup> time)" where
  "take_slot now instanceID ratePerHour nextAt =
     (let next = (case nextAt instanceID of None \<Rightarrow> 0 | Some t \<Rightarrow> t) in
      if next = 0 \<or> \<not> now < next then (None, nextAt(instanceID \<mapsto> now + intervalForRate ratePerHour))
      else (Some (next - now), nextAt))"

fun waitForInstanceSlot ::
  "(go_error option \<times> time \<times> go_error option) list \<Rightarrow> string \<Rightarrow> int \<Rightarrow> (string \<rightharpoonup> time) \<Rightarrow>
   (go_error option \<times> (string \<rightharpoonup> time)) option" where
  "waitForInstanceSlot [] instanceID ratePerHour nextAt = None"
| "waitForInstanceSlot ((ctxErr, now, waitErr) # obs) instanceID ratePerHour nextAt =
     (case ctxErr of
        Some e \<Rightarrow> Some (Some e, nextAt)
      | None \<Rightarrow>
     (case take_slot now instanceID ratePerHour nextAt of
        (None, nextAt) \<Rightarrow> Some (None, nextAt)
      | (Some wait, nextAt) \<Rightarrow>
     (case waitErr of
        Some e \<Rightarrow> Some (Some e, nextAt)
      | None \<Rightarrow> waitForInstanceSlot obs instanceID ratePerHour nextAt)))"

definition backoffForAttempt :: "int \<Rightarrow> duration" where
  "backoffForAttempt attempt =
     (if attempt \<le> 1 then 15 * second else if attempt = 2 then minute else 5 * minute)"

definition retry_at :: "BroadcastJob \<Rightarrow> processor_error \<Rightarrow> time \<Rightarrow> time option" where
  "retry_at job e now =
     (if j_attempts job < j_max_attempts job \<and> isRetryableProcessorError e
      then Some (now + backoffForAttempt (j_attempts job)) else None)"

definition handleFailure :: "BroadcastJob \<Rightarrow> processor_error \<Rightarrow> world \<Rightarrow> world" where
  "handleFailure job e w =
     (case world_now w of (now, w) \<Rightarrow>
      snd (st_mark (repo_MarkFailed (j_tenant_id job) (j_id job) (err_text (pe_error e)) now
             (retry_at job e now)) w))"

definition completion_message :: "BroadcastRecipientAnalytics \<Rightarrow> string" where
  "completion_message summary =
     ''broadcast completed with '' @ show_int (an_sent summary) @ '' sent and '' @
     show_int (an_failed summary) @ '' failed recipients''"

text \<open>\<open>handleJob\<close> once the slot is taken; the deadline of 15 minutes is a cancelled context.\<close>

definition run_job :: "BroadcastJob \<Rightarrow> world \<Rightarrow> world" where
  "run_job job w =
     (case Process world_deps job w of
        (Some e, w) \<Rightarrow> handleFailure job e w
      | (None, w) \<Rightarrow>
     (case world_now w of (completedAt, w) \<Rightarrow>
     (case st_summary (j_tenant_id job) (j_id job) w of
        (Inl _, w) \<Rightarrow> w
      | (Inr summary, w) \<Rightarrow>
          if 0 < an_failed summary then
            snd (st_mark (repo_MarkCompletedWithFailures (j_tenant_id job) (j_id job)
                   (completion_message summary) completedAt) w)
          else snd (st_mark (repo_MarkCompleted (j_tenant_id job) (j_id job) completedAt) w))))"

text \<open>The whole handler, \<open>None\<close> while the observations leave it waiting for its slot.\<close>

definition handleJob ::
  "(go_error option \<times> time \<times> go_error option) list \<Rightarrow> BroadcastJob \<Rightarrow> (string \<rightharpoonup> time) \<Rightarrow> world \<Rightarrow>
   ((string \<rightharpoonup> time) \<times> world) option" where
  "handleJob obs job nextAt w =
     (case waitForInstanceSlot obs (j_instance_id job) (j_rate_per_hour job) nextAt of
        None \<Rightarrow> None
      | Some (Some _, nextAt) \<Rightarrow> Some (nextAt, w)
      | Some (None, nextAt) \<Rightarrow> Some (nextAt, run_job job w))"

section \<open>Receipts\<close>

definition instance_by_global_id ::
  "string \<Rightarrow> world \<Rightarrow> (go_error + (string \<times> string) option) \<times> world" where
  "instance_by_global_id instanceID w =
     and_then (world_query (\<lambda>w. find (\<lambda>(t, i). i = instanceID) (w_instances w)) w)
       (\<lambda>r w. (case r of None \<Rightarrow> Inl not_found_error | Some x \<Rightarrow> Inr (Some x), w))"

definition HandleReceipt ::
  "string \<Rightarrow> string \<Rightarrow> string \<Rightarrow> time \<Rightarrow> world \<Rightarrow> go_error option \<times> world" where
  "HandleReceipt instanceID messageID state at w =
     (case instance_by_global_id (trim_space instanceID) w of
        (Inl e, w) \<Rightarrow> (Some e, w)
      | (Inr None, w) \<Rightarrow> (None, w)
      | (Inr (Some (tenant, inst)), w) \<Rightarrow>
          error_of (world_statement (\<lambda>w. repo_MarkRecipientReceipt tenant inst messageID state at (w_db w)) w))"

section \<open>Pages\<close>

lemma concat_slices:
  "0 < l \<Longrightarrow> concat (map (\<lambda>i. take l (drop (i * l) xs)) [0..<n]) = take (n * l) xs"
proof (induction n)
  case (Suc n)
  have "take (n * l) xs @ take l (drop (n * l) xs) = take (n * l + l) xs" by (metis take_add)
  with Suc show ?case by (simp add: add.commute)
qed simp

lemma totalPages_covers:
  assumes "0 \<le> n" "0 < l"
  shows "n \<le> totalPages n l * l \<and> 0 \<le> totalPages n l"
proof (cases "n mod l = 0")
  case True
  then have "n = n div l * l" by (metis add.right_neutral div_mult_mod_eq)
  with True assms show ?thesis by (auto simp: totalPages_def Let_def pos_imp_zdiv_nonneg_iff)
next
  case False
  have "n mod l < l" using assms by simp
  then have "n \<le> n div l * l + l" using div_mult_mod_eq [of n l] by linarith
  also have "\<dots> = (n div l + 1) * l" by (simp add: distrib_right)
  finally have "n \<le> (n div l + 1) * l" .
  moreover have "0 \<le> n div l + 1" using assms by (simp add: pos_imp_zdiv_nonneg_iff add_nonneg_nonneg)
  moreover have "n \<noteq> 0" using False by auto
  ultimately show ?thesis using False assms by (simp add: totalPages_def)
qed

section \<open>Slots\<close>

text \<open>The slots granted to a sequence of attempts, whoever makes them.\<close>

fun slots ::
  "(time \<times> string \<times> int) list \<Rightarrow> (string \<rightharpoonup> time) \<Rightarrow> (time \<times> string \<times> int) list" where
  "slots [] nextAt = []"
| "slots ((now, instanceID, rate) # rest) nextAt =
     (case take_slot now instanceID rate nextAt of
        (None, nextAt) \<Rightarrow> (now, instanceID, rate) # slots rest nextAt
      | (Some _, nextAt) \<Rightarrow> slots rest nextAt)"

lemma intervalForRate_pos: "0 < intervalForRate r"
  by (simp add: intervalForRate_def Let_def)

lemma slots_times: "(t, i, r) \<in> set (slots cs m) \<Longrightarrow> (t, i, r) \<in> set cs"
proof (induction cs arbitrary: m)
  case (Cons c cs)
  then show ?case by (cases c) (auto split: prod.splits option.splits)
qed simp

lemma slots_after:
  assumes "sorted (map fst cs)" "\<forall>c \<in> set cs. 0 < fst c" "m i = Some n" "0 < n"
    and "(t, i, r) \<in> set (slots cs m)"
  shows "n \<le> t"
  using assms
proof (induction cs m arbitrary: n rule: slots.induct)
  case (2 now i' rate rest m)
  show ?case
  proof (cases "i' = i")
    case False
    with 2 show ?thesis
      by (auto simp: take_slot_def Let_def split: if_splits option.splits)
  next
    case True
    show ?thesis
    proof (cases "now < n")
      case True
      with 2 \<open>i' = i\<close> show ?thesis by (auto simp: take_slot_def Let_def)
    next
      case False
      moreover have "now \<le> t" using "2.prems"(1,5) slots_times [of t i r "(now, i', rate) # rest" m] by auto
      ultimately show ?thesis by simp
    qed
  qed
qed simp

section \<open>Properties\<close>

text \<open>
  The pages of a recipient list fit together: for any filter and page size the pages 1 to
  \<open>totalPages\<close> contain every matching recipient of the job exactly once, in order of creation.
\<close>

theorem pages_complete:
  assumes "0 < limit"
  shows "concat (map (\<lambda>i. fst (repo_ListRecipientProgressPage tenantID jobID
         \<lparr>f_status = status, f_query = query, f_page = int (Suc i), f_limit = limit\<rparr> db))
       [0..<nat (totalPages (snd (repo_ListRecipientProgressPage tenantID jobID
         \<lparr>f_status = status, f_query = query, f_page = 1, f_limit = limit\<rparr> db)) limit)]) =
    progress_order (filter (\<lambda>p. of_job tenantID jobID p \<and>
      matches_filter \<lparr>f_status = status, f_query = query, f_page = 1, f_limit = limit\<rparr> p) (db_progress db))"
    (is "concat (map ?page [0..<?n]) = ?all")
proof -
  let ?l = "nat limit"
  have "?page i = take ?l (drop (i * ?l) ?all)" for i
    using assms by (simp add: repo_ListRecipientProgressPage_def matches_filter_def Let_def nat_mult_distrib)
  then have "concat (map ?page [0..<?n]) = take (?n * ?l) ?all"
    using assms concat_slices [of ?l ?all ?n] by simp
  moreover have "length ?all \<le> ?n * ?l"
  proof -
    have "int (length ?all) \<le> totalPages (int (length ?all)) limit * limit"
      "0 \<le> totalPages (int (length ?all)) limit"
      using totalPages_covers [of "int (length ?all)" limit] assms by auto
    then have "length ?all \<le> nat (totalPages (int (length ?all)) limit * limit)" by linarith
    also have "\<dots> = nat (totalPages (int (length ?all)) limit) * ?l"
      using \<open>0 \<le> totalPages (int (length ?all)) limit\<close> by (simp add: nat_mult_distrib)
    finally show ?thesis by (simp add: repo_ListRecipientProgressPage_def Let_def)
  qed
  ultimately show ?thesis by simp
qed

theorem pages_complete_witness:
  "concat (map (\<lambda>i. fst (repo_ListRecipientProgressPage ''t1'' ''b1''
         \<lparr>f_status = [], f_query = [], f_page = int (Suc i), f_limit = 1\<rparr> (w_db (sample_world []))))
       [0..<nat (totalPages (snd (repo_ListRecipientProgressPage ''t1'' ''b1''
         \<lparr>f_status = [], f_query = [], f_page = 1, f_limit = 1\<rparr> (w_db (sample_world [])))) 1)]) =
    progress_order (filter (\<lambda>p. of_job ''t1'' ''b1'' p \<and>
      matches_filter \<lparr>f_status = [], f_query = [], f_page = 1, f_limit = 1\<rparr> p)
      (db_progress (w_db (sample_world []))))"
  by (rule pages_complete) simp

text \<open>
  C7: jobs of one WhatsApp instance start at a pace: among the slots granted to any workers in
  any order, a later one for the same instance comes at least the interval of the earlier job's
  rate after it.
\<close>

theorem slots_spaced:
  assumes "sorted (map fst attempts)" and "\<forall>c \<in> set attempts. 0 < fst c"
  shows "sorted_wrt (\<lambda>(t, i, r) (t', i', r'). i = i' \<longrightarrow> t + intervalForRate r \<le> t') (slots attempts nextAt)"
  using assms
proof (induction attempts nextAt rule: slots.induct)
  case (2 now i rate rest m)
  have IH: "sorted_wrt (\<lambda>(t, i, r) (t', i', r'). i = i' \<longrightarrow> t + intervalForRate r \<le> t') (slots rest m')"
    if "take_slot now i rate m = (x, m')" for x m'
    using 2 that by (cases x) auto
  show ?case
  proof (cases "take_slot now i rate m")
    case (Pair x m')
    show ?thesis
    proof (cases x)
      case (Some w)
      with Pair IH [OF Pair] show ?thesis by simp
    next
      case None
      with Pair have "m' i = Some (now + intervalForRate rate)"
        by (auto simp: take_slot_def Let_def split: if_splits)
      moreover have "0 < now + intervalForRate rate"
        using "2.prems"(2) intervalForRate_pos [of rate] by auto
      ultimately have "now + intervalForRate rate \<le> t" if "(t, i, r) \<in> set (slots rest m')" for t r
        using slots_after [of rest m' i _ t r] "2.prems" that by auto
      with IH [OF Pair] Pair None show ?thesis by auto
    qed
  qed
qed simp

theorem slots_spaced_witness:
  "sorted_wrt (\<lambda>(t, i, r) (t', i', r'). i = i' \<longrightarrow> t + intervalForRate r \<le> t')
     (slots [(1, ''i'', 60), (2, ''i'', 60), (3, ''j'', 0), (60000000001, ''i'', 60)] Map.empty)"
  by (rule slots_spaced) auto

text \<open>
  A delay of 9223372037 seconds passes the validation of \<open>Create\<close>, but the conversion to
  nanoseconds wraps around: the job is available at once, in the past of its creation.
\<close>

theorem delay_overflow:
  "let inp = \<lparr>ci_instance_id = ''i'', ci_message = ''m'', ci_rate_per_hour = 0, ci_delay_sec = 9223372037,
              ci_max_attempts = 0, ci_scheduled_at = None\<rparr>
   in validate_create inp = None \<and> claimable now (new_job tenantID now inp)"
proof -
  have "int64 (9223372037 * second) = - 9223372036709551616" by code_simp
  then show ?thesis
    by (simp add: validate_create_def claimable_def new_job_def available_at_def Let_def)
qed

text \<open>
  \<open>Create\<close> is not atomic: when seeding the recipients fails, the caller gets an error, but
  the job stays queued in the table and will be sent.
\<close>

theorem Create_error_leaves_job:
  "let w = (sample_world [Goes, Goes, Goes, Fails (plain_error ''lost'') False])
         \<lparr>w_db := \<lparr>db_jobs = [], db_progress = []\<rparr>\<rparr>;
       (r, w') = broadcast_Create (NewService 1 1 True) ''b2'' ''t1''
         \<lparr>ci_instance_id = ''i1'', ci_message = ''m'', ci_rate_per_hour = 0, ci_delay_sec = 0,
          ci_max_attempts = 0, ci_scheduled_at = None\<rparr> w
   in r = Inl (plain_error ''lost'') \<and>
      map (\<lambda>j. (j_id j, j_status j)) (db_jobs (w_db w')) = [(''b2'', ''queued'')]"
  by code_simp

end
