(* ===== verification/Broadcast_System.thy ===== *)
theory Broadcast_System
  imports Broadcast_Service
begin

text \<open>
  The broadcast service at work: the dispatcher, the workers, the API and the receipts of one
  process as a step relation. A state is the world, the buffered channel, the jobs the workers
  hold and the limiter. The work on one job is one step; receipts for its recipients come before
  or after it, which loses nothing since a run never writes a recipient that a receipt may write
  (\<open>Process_frame\<close>). The environment may do anything but write the tables, and the process
  may stop at any point and start again with an empty channel.
\<close>

section \<open>States and steps\<close>

record broadcast_system =
  sy_world :: world
  sy_queue :: "BroadcastJob list"
  sy_running :: "BroadcastJob list"
  sy_next :: "string \<rightharpoonup> time"

definition sy_db :: "broadcast_system \<Rightarrow> broadcast_db" where
  "sy_db y = w_db (sy_world y)"

definition sy_jobs :: "broadcast_system \<Rightarrow> BroadcastJob list" where
  "sy_jobs y = db_jobs (sy_db y)"

definition sy_held :: "broadcast_system \<Rightarrow> BroadcastJob list" where
  "sy_held y = sy_queue y @ sy_running y"

definition initial_system :: "world \<Rightarrow> broadcast_system" where
  "initial_system w =
     \<lparr>sy_world = w\<lparr>w_db := \<lparr>db_jobs = [], db_progress = []\<rparr>\<rparr>, sy_queue = [], sy_running = [],
      sy_next = Map.empty\<rparr>"

text \<open>
  New job ids are random UUIDs: a fresh id is the documented behaviour of \<open>uuid.NewString\<close>.
\<close>

inductive bstep :: "broadcast_service \<Rightarrow> broadcast_system \<Rightarrow> broadcast_system \<Rightarrow> bool"
  for s :: broadcast_service
where
  api_create: "uuid \<noteq> [] \<Longrightarrow> uuid \<notin> j_id ` set (sy_jobs y) \<Longrightarrow>
    bstep s y (y\<lparr>sy_world := snd (broadcast_Create s uuid tenantID inp (sy_world y))\<rparr>)"
| dispatch: "claimAndEnqueue s (sy_queue y) (sy_world y) = (queue, w) \<Longrightarrow>
    bstep s y (y\<lparr>sy_queue := queue, sy_world := w\<rparr>)"
| receive: "sy_queue y = job # queue \<Longrightarrow> int (length (sy_running y)) < bs_workers s \<Longrightarrow>
    bstep s y (y\<lparr>sy_queue := queue, sy_running := sy_running y @ [job]\<rparr>)"
| handle: "job \<in> set (sy_running y) \<Longrightarrow>
    handleJob obs job (sy_next y) (sy_world y) = Some (nextAt, w) \<Longrightarrow>
    bstep s y (y\<lparr>sy_running := remove1 job (sy_running y), sy_next := nextAt, sy_world := w\<rparr>)"
| receipt: "bstep s y (y\<lparr>sy_world := snd (HandleReceipt instanceID messageID state at (sy_world y))\<rparr>)"
| environment: "w_db w = w_db (sy_world y) \<Longrightarrow> w_sent w = w_sent (sy_world y) \<Longrightarrow>
    bstep s y (y\<lparr>sy_world := w\<rparr>)"
| restart: "bstep s y (y\<lparr>sy_queue := [], sy_running := [], sy_next := Map.empty\<rparr>)"

inductive_cases bstepE: "bstep s y y'"

definition reachable :: "broadcast_service \<Rightarrow> broadcast_system \<Rightarrow> bool" where
  "reachable s y \<longleftrightarrow> (\<exists>w. (bstep s)\<^sup>*\<^sup>* (initial_system w) y)"

section \<open>What the operations do to the tables\<close>

lemma world_now_db [simp]: "world_now w = (t, w') \<Longrightarrow> w_db w' = w_db w"
  by (auto simp: world_now_def split: prod.splits answer.splits dest!: next_answer_simps)

lemma st_summary_db:
  "st_summary t j w = (r, w') \<Longrightarrow> w_db w' = w_db w \<and>
     (\<forall>a. r = Inr a \<longrightarrow> a = repo_SummarizeRecipientProgress t j (w_db w))"
  by (auto simp: st_summary_def elim!: world_query_cases)

lemma st_mark_db: "w_db (snd (st_mark f w)) \<in> {w_db w, snd (f (w_db w))}"
proof -
  obtain r w' where "world_statement (\<lambda>w. f (w_db w)) w = (r, w')" by (rule prod.exhaust)
  then show ?thesis
    by (cases r) (auto simp: st_mark_def elim!: world_statement_cases)
qed

text \<open>How a job ends a run.\<close>

definition ended :: "BroadcastJob \<Rightarrow> processor_error option \<Rightarrow> broadcast_db \<Rightarrow> broadcast_db \<Rightarrow> bool" where
  "ended job e db db' \<longleftrightarrow>
     db' = db \<or>
     (\<exists>x now msg. e = Some x \<and>
        db' = snd (repo_MarkFailed (j_tenant_id job) (j_id job) msg now (retry_at job x now) db)) \<or>
     (\<exists>now msg. e = None \<and>
        db' = snd (repo_MarkCompletedWithFailures (j_tenant_id job) (j_id job) msg now db)) \<or>
     (\<exists>now. e = None \<and> an_failed (repo_SummarizeRecipientProgress (j_tenant_id job) (j_id job) db) \<le> 0 \<and>
        db' = snd (repo_MarkCompleted (j_tenant_id job) (j_id job) now db))"

lemma run_job_ended:
  assumes "Process world_deps job w = (e, w1)"
  shows "ended job e (w_db w1) (w_db (run_job job w))"
proof (cases e)
  case (Some x)
  obtain now w2 where now: "world_now w1 = (now, w2)" by (rule prod.exhaust)
  then have "w_db w2 = w_db w1" by simp
  with st_mark_db [of "repo_MarkFailed (j_tenant_id job) (j_id job) (err_text (pe_error x)) now
      (retry_at job x now)" w2] assms Some now show ?thesis
    by (auto simp: run_job_def handleFailure_def ended_def)
next
  case None
  obtain now w2 where now: "world_now w1 = (now, w2)" by (rule prod.exhaust)
  then have d2: "w_db w2 = w_db w1" by simp
  obtain r w3 where sm: "st_summary (j_tenant_id job) (j_id job) w2 = (r, w3)" by (rule prod.exhaust)
  from st_summary_db [OF sm] d2 have d3: "w_db w3 = w_db w1"
    "\<And>a. r = Inr a \<Longrightarrow> a = repo_SummarizeRecipientProgress (j_tenant_id job) (j_id job) (w_db w1)" by auto
  show ?thesis
  proof (cases r)
    case (Inl x)
    with assms None now sm d3 show ?thesis by (simp add: run_job_def ended_def)
  next
    case (Inr a)
    with assms None now sm d3 st_mark_db [of "repo_MarkCompletedWithFailures (j_tenant_id job) (j_id job)
        (completion_message a) now" w3] st_mark_db [of "repo_MarkCompleted (j_tenant_id job) (j_id job) now" w3]
    show ?thesis by (auto simp: run_job_def ended_def not_less)
  qed
qed

lemma ended_progress: "ended job e db db' \<Longrightarrow> db_progress db' = db_progress db"
  by (auto simp: ended_def repo_MarkFailed_def repo_MarkCompletedWithFailures_def repo_MarkCompleted_def
      update_job_def)

lemma claimAndEnqueue_cases:
  assumes "claimAndEnqueue s queue w = (queue', w')"
  obtains "queue' = queue" "w_db w' = w_db w"
  | limit now where "0 < bs_queue_cap s - int (length queue)"
      "limit \<le> bs_queue_cap s - int (length queue)" "limit \<le> bs_claim_batch_size s"
      "0 < bs_claim_batch_size s \<Longrightarrow> 0 < limit"
      "w_db w' = snd (repo_ClaimNext ''dispatcher'' limit now (w_db w))"
      "queue' \<in> {queue, fold (tryEnqueue s) (fst (repo_ClaimNext ''dispatcher'' limit now (w_db w))) queue}"
proof (cases "bs_queue_cap s - int (length queue) \<le> 0")
  case True
  with assms that(1) show ?thesis by (simp add: claimAndEnqueue_def)
next
  case False
  let ?limit = "if bs_queue_cap s - int (length queue) < bs_claim_batch_size s
      then bs_queue_cap s - int (length queue) else bs_claim_batch_size s"
  obtain now w1 where now: "world_now w = (now, w1)" by (rule prod.exhaust)
  then have d1: "w_db w1 = w_db w" by simp
  obtain r w2 where st: "st_claim ''dispatcher'' ?limit now w1 = (r, w2)" by (rule prod.exhaust)
  have run: "(case (r, w2) of (Inl _, w) \<Rightarrow> (queue, w)
      | (Inr jobs, w) \<Rightarrow> (fold (tryEnqueue s) jobs queue, w)) = (queue', w')"
    using assms False now st by (simp add: claimAndEnqueue_def Let_def)
  from st [unfolded st_claim_def] have w0:
    "r = Inr (fst (repo_ClaimNext ''dispatcher'' ?limit now (w_db w1))) \<and>
       w_db w2 = snd (repo_ClaimNext ''dispatcher'' ?limit now (w_db w1)) \<or>
     (\<exists>e. r = Inl e) \<and> w_db w2 \<in> {w_db w1, snd (repo_ClaimNext ''dispatcher'' ?limit now (w_db w1))}"
    by (elim world_statement_cases) auto
  have lim: "?limit \<le> bs_queue_cap s - int (length queue)" "?limit \<le> bs_claim_batch_size s"
    "0 < bs_claim_batch_size s \<Longrightarrow> 0 < ?limit" using False by auto
  from w0 show ?thesis
  proof
    assume a: "r = Inr (fst (repo_ClaimNext ''dispatcher'' ?limit now (w_db w1))) \<and>
       w_db w2 = snd (repo_ClaimNext ''dispatcher'' ?limit now (w_db w1))"
    show ?thesis by (rule that(2) [of ?limit now]) (use False lim a run d1 in auto)
  next
    assume a: "(\<exists>e. r = Inl e) \<and> w_db w2 \<in> {w_db w1, snd (repo_ClaimNext ''dispatcher'' ?limit now (w_db w1))}"
    then have q: "queue' = queue" "w' = w2" using run by auto
    show ?thesis
    proof (cases "w_db w2 = w_db w1")
      case True
      show ?thesis by (rule that(1)) (use True q d1 in auto)
    next
      case False
      show ?thesis by (rule that(2) [of ?limit now])
          (use False a lim \<open>\<not> bs_queue_cap s - int (length queue) \<le> 0\<close> q d1 in auto)
    qed
  qed
qed

text \<open>A claim never exceeds the free slots, so nothing claimed is dropped.\<close>

lemma enqueue_all:
  "int (length queue + length jobs) \<le> bs_queue_cap s \<Longrightarrow> fold (tryEnqueue s) jobs queue = queue @ jobs"
  by (induction jobs arbitrary: queue) (auto simp: tryEnqueue_def)

section \<open>The invariant\<close>

definition terminal :: "BroadcastJob \<Rightarrow> bool" where
  "terminal j \<longleftrightarrow> j_status j \<in> {statusCompleted, statusCompletedWithFailures, statusFailed}"

text \<open>Attempts stay within the maximum, and a queued job has one left.\<close>

definition attempts_ok :: "BroadcastJob \<Rightarrow> bool" where
  "attempts_ok j \<longleftrightarrow> 0 \<le> j_attempts j \<and> j_attempts j \<le> j_max_attempts j \<and>
     (j_status j = statusQueued \<longrightarrow> j_attempts j < j_max_attempts j)"

text \<open>The recipients of a job that was completed.\<close>

definition settled_job :: "broadcast_db \<Rightarrow> BroadcastJob \<Rightarrow> bool" where
  "settled_job db j \<longleftrightarrow>
     (\<exists>p \<in> set (db_progress db). of_job (j_tenant_id j) (j_id j) p) \<and>
     (\<forall>p \<in> set (db_progress db). of_job (j_tenant_id j) (j_id j) p \<longrightarrow>
        \<not> is_pending p \<and> (j_status j = statusCompleted \<longrightarrow> p_delivery_status p \<noteq> recipientStatusFailed))"

definition job_row_ok :: "broadcast_db \<Rightarrow> BroadcastJob \<Rightarrow> bool" where
  "job_row_ok db j \<longleftrightarrow> attempts_ok j \<and>
     (j_status j \<in> {statusCompleted, statusCompletedWithFailures} \<longrightarrow> settled_job db j)"

definition tables_ok :: "broadcast_db \<Rightarrow> bool" where
  "tables_ok db \<longleftrightarrow> db_ok db \<and> (\<forall>j \<in> set (db_jobs db). job_row_ok db j) \<and>
     (\<forall>p \<in> set (db_progress db). p_broadcast_id p \<in> j_id ` set (db_jobs db))"

text \<open>A job held in memory is a copy of a row that is being processed.\<close>

definition backed :: "BroadcastJob list \<Rightarrow> BroadcastJob \<Rightarrow> bool" where
  "backed jobs h \<longleftrightarrow> (\<exists>j \<in> set jobs. j_id j = j_id h \<and> j_tenant_id j = j_tenant_id h \<and>
     j_status j = statusProcessing \<and> j_attempts j = j_attempts h \<and> j_max_attempts j = j_max_attempts h)"

definition system_ok :: "broadcast_service \<Rightarrow> broadcast_system \<Rightarrow> bool" where
  "system_ok s y \<longleftrightarrow> tables_ok (sy_db y) \<and> distinct (map j_id (sy_held y)) \<and>
     (\<forall>h \<in> set (sy_held y). backed (sy_jobs y) h) \<and> int (length (sy_queue y)) \<le> bs_queue_cap s"

lemma tables_keys: "tables_ok db \<Longrightarrow> keys_ok db"
  by (simp add: tables_ok_def db_ok_def keys_ok_def)

lemma tables_ids: "tables_ok db \<Longrightarrow> distinct (map j_id (db_jobs db))"
  by (simp add: tables_ok_def db_ok_def)

lemma same_id: "tables_ok db \<Longrightarrow> j \<in> set (db_jobs db) \<Longrightarrow> j' \<in> set (db_jobs db) \<Longrightarrow> j_id j = j_id j' \<Longrightarrow> j = j'"
  using tables_ids by (auto simp: distinct_map dest: inj_onD)

text \<open>An update of jobs that keeps ids keeps the tables well-formed.\<close>

lemma tables_map:
  assumes "tables_ok db" "db_progress db' = db_progress db" "db_jobs db' = map g (db_jobs db)"
    and "\<And>j. j_id (g j) = j_id j" "\<And>j. j \<in> set (db_jobs db) \<Longrightarrow> g j = j \<or> job_row_ok db (g j)"
  shows "tables_ok db'"
proof -
  have "j_id \<circ> g = j_id" using assms(4) by auto
  then have ids: "map j_id (db_jobs db') = map j_id (db_jobs db)" by (simp add: assms(3))
  then have ids': "j_id ` set (db_jobs db') = j_id ` set (db_jobs db)" by (metis set_map)
  have same: "job_row_ok db' j = job_row_ok db j" for j
    by (simp add: job_row_ok_def settled_job_def assms(2))
  have "\<forall>j \<in> set (db_jobs db'). job_row_ok db' j"
    using assms(1,5) unfolding same assms(3) tables_ok_def by fastforce
  with assms(1,2) ids ids' show ?thesis by (simp add: tables_ok_def db_ok_def)
qed

lemma same_rows:
  assumes "keys_ok db" "keys_ok db'" "\<And>ph. db_lookup db' (t, j) ph = db_lookup db (t, j) ph" "of_job t j p"
  shows "p \<in> set (db_progress db') \<longleftrightarrow> p \<in> set (db_progress db)"
  using db_lookup_Some [OF assms(1), of t j "p_phone p" p] db_lookup_Some [OF assms(2), of t j "p_phone p" p]
    assms(3,4) by simp

text \<open>A run of the processor.\<close>

lemma Process_tables:
  assumes "tables_ok (w_db w)" "backed (db_jobs (w_db w)) job" "Process world_deps job w = (e, w1)"
  shows "tables_ok (w_db w1) \<and> db_jobs (w_db w1) = db_jobs (w_db w)"
proof -
  have ok: "world_ok w" using tables_keys [OF assms(1)] by (simp add: world_ok_def)
  have inv: "world_inv (db_jobs (w_db w)) w1" by (rule env.run_inv [OF assms(3) world_invI [OF ok]])
  then have k: "keys_ok (w_db w1)" "db_jobs (w_db w1) = db_jobs (w_db w)"
    by (simp_all add: world_inv_def world_ok_def)
  obtain j0 where j0: "j0 \<in> set (db_jobs (w_db w))" "j_id j0 = j_id job" "j_tenant_id j0 = j_tenant_id job"
    "j_status j0 = statusProcessing" using assms(2) by (auto simp: backed_def)
  have frame: "p \<in> set (db_progress (w_db w1)) \<longleftrightarrow> p \<in> set (db_progress (w_db w))"
    if "of_job t i p" "i \<noteq> j_id job" for t i p
  proof (rule same_rows [OF tables_keys [OF assms(1)] k(1) _ that(1)])
    fix ph show "db_lookup (w_db w1) (t, i) ph = db_lookup (w_db w) (t, i) ph"
      using env.run_frame [OF assms(3) world_invI [OF ok], of "(t, i)" ph] that(2)
      by (simp add: world_lookup_def)
  qed
  have "job_row_ok (w_db w1) j" if "j \<in> set (db_jobs (w_db w))" for j
  proof (cases "j = j0")
    case True
    with j0 that assms(1) show ?thesis
      by (auto simp: job_row_ok_def tables_ok_def job_status_defs)
  next
    case False
    then have "j_id j \<noteq> j_id job" using same_id [OF assms(1) that j0(1)] j0(2) by auto
    with frame have "settled_job (w_db w1) j = settled_job (w_db w) j"
      unfolding settled_job_def by blast
    with assms(1) that show ?thesis by (simp add: tables_ok_def job_row_ok_def)
  qed
  moreover have "p_broadcast_id p \<in> j_id ` set (db_jobs (w_db w))" if "p \<in> set (db_progress (w_db w1))" for p
  proof (cases "p_broadcast_id p = j_id job")
    case True
    with j0 show ?thesis by (metis image_eqI)
  next
    case False
    with frame [of "p_tenant_id p" "p_broadcast_id p" p] that assms(1) show ?thesis
      by (auto simp: of_job_def tables_ok_def)
  qed
  ultimately show ?thesis using k assms(1) by (simp add: tables_ok_def db_ok_def keys_ok_def)
qed

text \<open>The end of a run: the job of the run gets its next status, all other rows stay.\<close>

lemma ended_update:
  assumes "ended job e db db'"
  obtains f where "db_jobs db' = map (\<lambda>j. if j_tenant_id j = j_tenant_id job \<and> j_id j = j_id job then f j else j)
      (db_jobs db)" "\<And>j. j_id (f j) = j_id j \<and> j_tenant_id (f j) = j_tenant_id j \<and>
      j_attempts (f j) = j_attempts j \<and> j_max_attempts (f j) = j_max_attempts j"
    "\<And>j. f j = j \<or>
      e \<noteq> None \<and> (j_status (f j) = statusFailed \<or>
        j_status (f j) = statusQueued \<and> j_attempts job < j_max_attempts job) \<or>
      e = None \<and> (j_status (f j) = statusCompletedWithFailures \<or> j_status (f j) = statusCompleted \<and>
        an_failed (repo_SummarizeRecipientProgress (j_tenant_id job) (j_id job) db) \<le> 0)"
proof -
  have upd: "db_jobs (snd (update_job t i f db)) =
      map (\<lambda>j. if j_tenant_id j = t \<and> j_id j = i then f j else j) (db_jobs db)" for t i f
    using update_job_simps [of t i f db, OF prod.collapse [symmetric]] by (rule conjunct2)
  from assms show ?thesis unfolding ended_def
  proof (elim disjE exE conjE)
    assume "db' = db"
    show ?thesis by (rule that [of "\<lambda>j. j"]) (simp_all add: \<open>db' = db\<close>)
  next
    fix x now msg
    assume e: "e = Some x"
      and db': "db' = snd (repo_MarkFailed (j_tenant_id job) (j_id job) msg now (retry_at job x now) db)"
    show ?thesis
      by (rule that, unfold db' repo_MarkFailed_def, rule upd)
        (simp_all add: e Let_def retry_at_def split: option.splits)
  next
    fix now msg
    assume e: "e = None"
      and db': "db' = snd (repo_MarkCompletedWithFailures (j_tenant_id job) (j_id job) msg now db)"
    show ?thesis
      by (rule that, unfold db' repo_MarkCompletedWithFailures_def, rule upd) (simp_all add: e)
  next
    fix now
    assume e: "e = None" "an_failed (repo_SummarizeRecipientProgress (j_tenant_id job) (j_id job) db) \<le> 0"
      and db': "db' = snd (repo_MarkCompleted (j_tenant_id job) (j_id job) now db)"
    show ?thesis
      by (rule that, unfold db' repo_MarkCompleted_def, rule upd) (simp_all add: e)
  qed
qed


lemma settled_after_run:
  assumes "tables_ok (w_db w)" "Process world_deps job w = (None, w1)" "keys_ok (w_db w1)"
    and "j_id j = j_id job" "j_tenant_id j = j_tenant_id job"
    and "j_status j = statusCompleted \<longrightarrow>
      an_failed (repo_SummarizeRecipientProgress (j_tenant_id job) (j_id job) (w_db w1)) \<le> 0"
  shows "settled_job (w_db w1) j"
proof -
  have ok: "world_ok w" using tables_keys [OF assms(1)] by (simp add: world_ok_def)
  have fin: "dom (db_lookup (w_db w1) (j_tenant_id job, j_id job)) \<noteq> {}"
    "\<And>ph q. db_lookup (w_db w1) (j_tenant_id job, j_id job) ph = Some q \<Longrightarrow> \<not> is_pending q"
    using env.run_complete [OF assms(2) world_invI [OF ok]] by (auto simp: world_lookup_def)
  note iff = db_lookup_Some [OF assms(3)]
  have "\<exists>p \<in> set (db_progress (w_db w1)). of_job (j_tenant_id job) (j_id job) p"
    using fin(1) by (auto simp: dom_def iff)
  moreover have "\<not> is_pending p" if "p \<in> set (db_progress (w_db w1))" "of_job (j_tenant_id job) (j_id job) p" for p
    using fin(2) [of "p_phone p" p] that by (simp add: iff)
  moreover have "p_delivery_status p \<noteq> recipientStatusFailed"
    if "j_status j = statusCompleted" "p \<in> set (db_progress (w_db w1))" "of_job (j_tenant_id job) (j_id job) p" for p
    using assms(6) that
    by (auto simp: repo_SummarizeRecipientProgress_def summarize_def count_rows_def filter_empty_conv)
  ultimately show ?thesis using assms(4,5) unfolding settled_job_def by simp
qed

lemma run_job_step:
  assumes "tables_ok (w_db w)" "backed (db_jobs (w_db w)) job"
  shows "tables_ok (w_db (run_job job w)) \<and>
    (\<exists>g. db_jobs (w_db (run_job job w)) = map g (db_jobs (w_db w)) \<and> (\<forall>j. j_id (g j) = j_id j) \<and>
       (\<forall>j. j_id j \<noteq> j_id job \<longrightarrow> g j = j))"
proof -
  obtain e w1 where pr: "Process world_deps job w = (e, w1)" by (rule prod.exhaust)
  from Process_tables [OF assms pr] have t1: "tables_ok (w_db w1)" "db_jobs (w_db w1) = db_jobs (w_db w)" by auto
  note en = run_job_ended [OF pr]
  from ended_update [OF en] obtain f where
    f: "db_jobs (w_db (run_job job w)) =
        map (\<lambda>j. if j_tenant_id j = j_tenant_id job \<and> j_id j = j_id job then f j else j) (db_jobs (w_db w1))"
    and id: "\<And>j. j_id (f j) = j_id j \<and> j_tenant_id (f j) = j_tenant_id j \<and>
      j_attempts (f j) = j_attempts j \<and> j_max_attempts (f j) = j_max_attempts j"
    and st: "\<And>j. f j = j \<or>
      e \<noteq> None \<and> (j_status (f j) = statusFailed \<or>
        j_status (f j) = statusQueued \<and> j_attempts job < j_max_attempts job) \<or>
      e = None \<and> (j_status (f j) = statusCompletedWithFailures \<or> j_status (f j) = statusCompleted \<and>
        an_failed (repo_SummarizeRecipientProgress (j_tenant_id job) (j_id job) (w_db w1)) \<le> 0)" by blast
  let ?g = "\<lambda>j. if j_tenant_id j = j_tenant_id job \<and> j_id j = j_id job then f j else j"
  obtain j0 where j0: "j0 \<in> set (db_jobs (w_db w))" "j_id j0 = j_id job" "j_attempts j0 = j_attempts job"
    "j_max_attempts j0 = j_max_attempts job" using assms(2) by (auto simp: backed_def)
  have g: "?g j = j \<or> job_row_ok (w_db w1) (?g j)" if j: "j \<in> set (db_jobs (w_db w1))" for j
  proof (cases "j_tenant_id j = j_tenant_id job \<and> j_id j = j_id job")
    case True
    then have "j = j0" using same_id [OF assms(1)] j j0 t1(2) by simp
    have att: "0 \<le> j_attempts j \<and> j_attempts j \<le> j_max_attempts j"
      using t1(1) j by (auto simp: tables_ok_def job_row_ok_def attempts_ok_def)
    have a: "attempts_ok (f j)" if "f j \<noteq> j"
      using st [of j] that att id [of j] j0 \<open>j = j0\<close> by (auto simp: attempts_ok_def job_status_defs)
    have "settled_job (w_db w1) (f j)"
      if "f j \<noteq> j" "j_status (f j) \<in> {statusCompleted, statusCompletedWithFailures}"
    proof -
      have "e = None" using st [of j] that by (auto simp: job_status_defs)
      with pr have "Process world_deps job w = (None, w1)" by simp
      then show ?thesis using st [of j] that id [of j] True tables_keys [OF t1(1)]
        by (intro settled_after_run [OF assms(1)]) (auto simp: job_status_defs)
    qed
    with a show ?thesis using True by (auto simp: job_row_ok_def)
  qed auto
  have "tables_ok (w_db (run_job job w))"
    by (rule tables_map [OF t1(1) ended_progress [OF en] f]) (use id g in auto)
  with f t1(2) id show ?thesis by (auto intro!: exI [of _ ?g])
qed

text \<open>A claim.\<close>

lemma claim_step:
  assumes "tables_ok db"
  shows "tables_ok (snd (repo_ClaimNext workerID limit now db))"
proof (rule tables_map [OF assms])
  show "db_progress (snd (repo_ClaimNext workerID limit now db)) = db_progress db" by simp
  show "db_jobs (snd (repo_ClaimNext workerID limit now db)) =
     map (\<lambda>j. if j_id j \<in> j_id ` set (claim_order now limit db) then claimed workerID now j else j) (db_jobs db)"
    by simp
next
  fix j assume j: "j \<in> set (db_jobs db)"
  show "(if j_id j \<in> j_id ` set (claim_order now limit db) then claimed workerID now j else j) = j \<or>
    job_row_ok db (if j_id j \<in> j_id ` set (claim_order now limit db) then claimed workerID now j else j)"
  proof (cases "j_id j \<in> j_id ` set (claim_order now limit db)")
    case True
    then have "claimable now j" using claimed_iff [OF tables_ids [OF assms] j] set_claim_order [of now limit db]
      by blast
    with assms j True show ?thesis
      by (auto simp: tables_ok_def job_row_ok_def attempts_ok_def claimable_def job_status_defs)
  qed simp
qed simp

text \<open>A receipt.\<close>

lemma receipt_settled:
  "receipt_step p q \<Longrightarrow> \<not> is_pending p \<Longrightarrow> \<not> is_pending q"
  "receipt_step p q \<Longrightarrow> p_delivery_status p \<noteq> recipientStatusFailed \<Longrightarrow> p_delivery_status q \<noteq> recipientStatusFailed"
  by (auto simp: receipt_step_def status_rank_def is_pending_status split: if_splits)
     (auto simp: recipient_status_defs)

lemma receipt_of_job: "receipt_step p q \<Longrightarrow> of_job t i q = of_job t i p"
  by (auto simp: receipt_step_def of_job_def recipient_key_def)

lemma list_all2_in1: "list_all2 R xs ys \<Longrightarrow> y \<in> set ys \<Longrightarrow> \<exists>x \<in> set xs. R x y"
  by (induction xs ys rule: list_all2_induct) auto

lemma list_all2_in2: "list_all2 R xs ys \<Longrightarrow> x \<in> set xs \<Longrightarrow> \<exists>y \<in> set ys. R x y"
  by (induction xs ys rule: list_all2_induct) auto

lemma receipt_tables:
  assumes "tables_ok db" "db_jobs db' = db_jobs db" "list_all2 receipt_step (db_progress db) (db_progress db')"
  shows "tables_ok db'"
proof -
  have "settled_job db' j" if "settled_job db j" for j
    unfolding settled_job_def
  proof (intro conjI ballI impI)
    from that obtain p where p: "p \<in> set (db_progress db)" "of_job (j_tenant_id j) (j_id j) p"
      by (auto simp: settled_job_def)
    with list_all2_in2 [OF assms(3) p(1)] receipt_of_job
    show "\<exists>p \<in> set (db_progress db'). of_job (j_tenant_id j) (j_id j) p" by blast
  next
    fix q assume q: "q \<in> set (db_progress db')" "of_job (j_tenant_id j) (j_id j) q"
    obtain p where p: "p \<in> set (db_progress db)" "receipt_step p q"
      using list_all2_in1 [OF assms(3) q(1)] by blast
    with q that have s: "\<not> is_pending p"
      "j_status j = statusCompleted \<Longrightarrow> p_delivery_status p \<noteq> recipientStatusFailed"
      by (auto simp: settled_job_def receipt_of_job)
    from receipt_settled(1) [OF p(2) s(1)] show "\<not> is_pending q" .
    show "p_delivery_status q \<noteq> recipientStatusFailed" if "j_status j = statusCompleted"
      by (rule receipt_settled(2) [OF p(2) s(2) [OF that]])
  qed
  then have "\<forall>j \<in> set (db_jobs db'). job_row_ok db' j"
    using assms(1,2) by (simp add: tables_ok_def job_row_ok_def)
  moreover have "\<forall>p \<in> set (db_progress db'). p_broadcast_id p \<in> j_id ` set (db_jobs db')"
  proof
    fix q assume "q \<in> set (db_progress db')"
    from list_all2_in1 [OF assms(3) this] obtain p where "p \<in> set (db_progress db)" "receipt_step p q" by blast
    with receipt_of_job [of p q "p_tenant_id p" "p_broadcast_id p"] assms(1,2)
    show "p_broadcast_id q \<in> j_id ` set (db_jobs db')" by (auto simp: of_job_def tables_ok_def)
  qed
  ultimately show ?thesis using assms receipt_step_keys [OF assms(3)] by (simp add: tables_ok_def db_ok_def)
qed

lemma HandleReceipt_tables:
  "tables_ok (w_db w) \<Longrightarrow> tables_ok (w_db (snd (HandleReceipt i m st at w))) \<and>
     db_jobs (w_db (snd (HandleReceipt i m st at w))) = db_jobs (w_db w)"
proof -
  assume t: "tables_ok (w_db w)"
  obtain r w1 where q: "world_query (\<lambda>w. find (\<lambda>(t, i'). i' = trim_space i) (w_instances w)) w = (r, w1)"
    by (rule prod.exhaust)
  then have d1: "w_db w1 = w_db w" by (simp add: world_query_same)
  have mark: "w_db (snd (error_of (world_statement (\<lambda>w. repo_MarkRecipientReceipt tn inst m st at (w_db w)) w1)))
      \<in> {w_db w, snd (repo_MarkRecipientReceipt tn inst m st at (w_db w))}" for tn inst
  proof -
    obtain r2 w2 where "world_statement (\<lambda>w. repo_MarkRecipientReceipt tn inst m st at (w_db w)) w1 = (r2, w2)"
      by (rule prod.exhaust)
    then show ?thesis using d1 by (cases r2) (auto simp: error_of_def elim!: world_statement_cases)
  qed
  have "\<exists>tn inst. w_db (snd (HandleReceipt i m st at w)) \<in> {w_db w, snd (repo_MarkRecipientReceipt tn inst m st at (w_db w))}"
    using q d1 mark
    by (cases r) (auto simp: HandleReceipt_def instance_by_global_id_def and_then_def split: option.splits)
  with t receipt_tables [OF t MarkRecipientReceipt_jobs MarkRecipientReceipt_step] show ?thesis by auto
qed

text \<open>Creating a job.\<close>

lemma enrichJob_db: "w_db (snd (enrichJob b job w)) = w_db w"
proof -
  obtain r w1 where sm: "st_summary (j_tenant_id job) (j_id job) w = (r, w1)" by (rule prod.exhaust)
  then have d1: "w_db w1 = w_db w" by (simp add: st_summary_db)
  obtain r2 w2 where li: "world_list (j_tenant_id job) (j_id job) w1 = (r2, w2)" by (rule prod.exhaust)
  then have "w_db w2 = w_db w" using d1 by (simp add: world_list_def world_query_same)
  with sm d1 li show ?thesis
    by (cases r; cases r2) (simp_all add: enrichJob_def and_then_def Let_def)
qed

lemma seedRecipientSnapshot_db:
  "w_db (snd (seedRecipientSnapshot s job w)) = w_db w \<or>
   (\<exists>gen now rs. w_db (snd (seedRecipientSnapshot s job w)) =
      repo_SeedRecipientProgress gen now (map (seed_record job) rs) (w_db w))"
proof -
  obtain r w1 where ct: "world_contacts (j_tenant_id job) w = (r, w1)" by (rule prod.exhaust)
  then have d1: "w_db w1 = w_db w" by (simp add: world_contacts_def world_query_same)
  have seed: "w_db (snd (world_seed ps w1)) = w_db w \<or>
      (\<exists>gen now. w_db (snd (world_seed ps w1)) = repo_SeedRecipientProgress gen now ps (w_db w))" for ps
  proof -
    obtain r2 w2 where "world_statement (\<lambda>w. ((), repo_SeedRecipientProgress
        (\<lambda>i. world_uuid (w_ids w) @ ''-'' @ show_nat i) (w_now w) ps (w_db w))) w1 = (r2, w2)"
      by (rule prod.exhaust)
    then show ?thesis using d1
      by (cases r2) (auto simp: world_seed_def error_of_def elim!: world_statement_cases, blast+)
  qed
  show ?thesis
  proof (cases r)
    case (Inl e)
    with ct d1 show ?thesis by (simp add: seedRecipientSnapshot_def and_then_def)
  next
    case (Inr cs)
    let ?rs = "eligibleBroadcastRecipients cs (j_instance_id job)"
    obtain e w2 where w2: "world_seed (map (seed_record job) ?rs) w1 = (e, w2)" by (rule prod.exhaust)
    with ct d1 Inr seed [of "map (seed_record job) ?rs"] show ?thesis
      by (cases e) (auto simp: seedRecipientSnapshot_def and_then_def Let_def)
  qed
qed

definition created ::
  "string \<Rightarrow> broadcast_db \<Rightarrow> broadcast_db \<Rightarrow> bool" where
  "created uuid db db' \<longleftrightarrow>
     (\<exists>job new. j_id job = uuid \<and> j_status job = statusQueued \<and> j_attempts job = 0 \<and> 0 < j_max_attempts job \<and>
        db_jobs db' = db_jobs db @ [job] \<and> db_progress db' = db_progress db @ new \<and>
        (\<forall>q \<in> set new. p_broadcast_id q = uuid) \<and> (keys_ok db \<longrightarrow> keys_ok db'))"

lemma Create_db:
  assumes "uuid \<noteq> []"
  shows "w_db (snd (broadcast_Create s uuid tenantID inp w)) = w_db w \<or>
    created uuid (w_db w) (w_db (snd (broadcast_Create s uuid tenantID inp w)))"
proof -
  let ?inp = "inp\<lparr>ci_instance_id := trim_space (ci_instance_id inp), ci_message := trim_space (ci_message inp)\<rparr>"
  obtain ri w1 where wi: "world_instance tenantID (ci_instance_id ?inp) w = (ri, w1)" by (rule prod.exhaust)
  have d1: "w_db w1 = w_db w"
  proof -
    obtain r0 w0 where "world_query (\<lambda>w. (tenantID, ci_instance_id ?inp) \<in> set (w_instances w)) w = (r0, w0)"
      by (rule prod.exhaust)
    with wi world_query_same [OF this] show ?thesis
      by (auto simp: world_instance_def split: sum.splits bool.splits)
  qed
  obtain now w2 where now: "world_now w1 = (now, w2)" by (rule prod.exhaust)
  then have d2: "w_db w2 = w_db w" using d1 by simp
  let ?new = "new_job tenantID now ?inp"
  obtain rj w3 where cr: "st_create uuid ?new w2 = (rj, w3)" by (rule prod.exhaust)
  from cr [unfolded st_create_def] obtain w0 :: world where w0: "w_db w0 = w_db w2"
    "rj = Inr (fst (repo_Create uuid (w_now w0) ?new (w_db w0))) \<and> w_db w3 = snd (repo_Create uuid (w_now w0) ?new (w_db w0)) \<or>
     (\<exists>e. rj = Inl e) \<and> w_db w3 \<in> {w_db w2, snd (repo_Create uuid (w_now w0) ?new (w_db w0))}"
    by (rule world_statement_cases) (erule that, assumption)
  let ?job = "fst (repo_Create uuid (w_now w0) ?new (w_db w))"
  have job: "j_id ?job = uuid" "j_status ?job = statusQueued" "j_attempts ?job = 0" "0 < j_max_attempts ?job"
    "db_jobs (snd (repo_Create uuid (w_now w0) ?new (w_db w))) = db_jobs (w_db w) @ [?job]"
    "db_progress (snd (repo_Create uuid (w_now w0) ?new (w_db w))) = db_progress (w_db w)"
    using assms by (simp_all add: repo_Create_def new_job_def Let_def)
  have cr0: "created uuid (w_db w) (snd (repo_Create uuid (w_now w0) ?new (w_db w)))"
    unfolding created_def using job by (intro exI [of _ ?job] exI [of _ "[]"]) (simp add: keys_ok_def)
  have seeded: "created uuid (w_db w) (w_db (snd (seedRecipientSnapshot s ?job w3)))"
    if d3: "w_db w3 = snd (repo_Create uuid (w_now w0) ?new (w_db w))"
    using seedRecipientSnapshot_db [of s ?job w3]
  proof (elim disjE exE)
    assume "w_db (snd (seedRecipientSnapshot s ?job w3)) = w_db w3"
    with cr0 d3 show ?thesis by simp
  next
    fix gen now rs
    assume e: "w_db (snd (seedRecipientSnapshot s ?job w3)) =
        repo_SeedRecipientProgress gen now (map (seed_record ?job) rs) (w_db w3)"
    obtain new where new: "insert_new gen now 0 (map (seed_record ?job) rs) (db_progress (w_db w)) =
        db_progress (w_db w) @ new"
      "\<forall>q \<in> set new. \<exists>p \<in> set (map (seed_record ?job) rs). \<exists>k. q = new_row (gen k) now p"
      using insert_new_prefix by blast
    have pr: "db_progress (w_db (snd (seedRecipientSnapshot s ?job w3))) = db_progress (w_db w) @ new"
      using new(1) job(6) by (cases "rs = []") (simp_all add: e d3 repo_SeedRecipientProgress_def)
    have "\<forall>q \<in> set new. p_broadcast_id q = uuid" using new(2) job(1) by auto
    moreover have "keys_ok (w_db w) \<longrightarrow> keys_ok (w_db (snd (seedRecipientSnapshot s ?job w3)))"
      unfolding e d3 using keys_ok_seed job(6) by (simp add: keys_ok_def)
    ultimately show ?thesis unfolding created_def
      using job pr by (intro exI [of _ ?job] exI [of _ new]) (simp add: e d3)
  qed
  show ?thesis
  proof (cases "validate_create ?inp = None \<and> (\<exists>i. ri = Inr (Some i)) \<and>
      \<not> (case ci_scheduled_at ?inp of None \<Rightarrow> False | Some t \<Rightarrow> t < now)")
    case False
    with wi now d1 d2 have "w_db (snd (broadcast_Create s uuid tenantID inp w)) = w_db w"
      unfolding broadcast_Create_def Let_def by (auto split: option.splits sum.splits)
    then show ?thesis by blast
  next
    case True
    then have run: "broadcast_Create s uuid tenantID inp w =
        and_then (rj, w3) (\<lambda>job w. and_then (seedRecipientSnapshot s job w) (\<lambda>_ w. enrichJob False job w))"
      using wi now cr unfolding broadcast_Create_def Let_def by (auto split: option.splits)
    from w0(2) show ?thesis unfolding w0(1) d2
    proof (elim disjE conjE exE)
      assume a: "rj = Inr ?job" "w_db w3 = snd (repo_Create uuid (w_now w0) ?new (w_db w))"
      have "w_db (snd (broadcast_Create s uuid tenantID inp w)) = w_db (snd (seedRecipientSnapshot s ?job w3))"
        unfolding run a(1) and_then_def by (auto simp: enrichJob_db split: prod.splits sum.splits)
      with seeded [OF a(2)] show ?thesis by simp
    next
      fix e assume a: "rj = Inl e" "w_db w3 \<in> {w_db w, snd (repo_Create uuid (w_now w0) ?new (w_db w))}"
      with cr0 show ?thesis unfolding run and_then_def by auto
    qed
  qed
qed

lemma created_tables:
  assumes "tables_ok db" "created uuid db db'" "uuid \<notin> j_id ` set (db_jobs db)"
  shows "tables_ok db'"
proof -
  from assms(2) obtain job new where c: "j_id job = uuid" "j_status job = statusQueued" "j_attempts job = 0"
    "0 < j_max_attempts job" "db_jobs db' = db_jobs db @ [job]" "db_progress db' = db_progress db @ new"
    "\<forall>q \<in> set new. p_broadcast_id q = uuid" "keys_ok db \<longrightarrow> keys_ok db'" unfolding created_def by blast
  have "keys_ok db'" using c(8) tables_keys [OF assms(1)] by simp
  moreover have "distinct (map j_id (db_jobs db'))" using c(1,5) assms(3) tables_ids [OF assms(1)] by auto
  moreover have "job_row_ok db' j" if "j \<in> set (db_jobs db)" for j
  proof -
    have "j_id j \<noteq> uuid" using assms(3) that by auto
    then have "settled_job db' j = settled_job db j"
      using c(6,7) by (auto simp: settled_job_def of_job_def)
    with assms(1) that show ?thesis by (simp add: tables_ok_def job_row_ok_def)
  qed
  moreover have "job_row_ok db' job"
    using c(2-4) by (simp add: job_row_ok_def attempts_ok_def job_status_defs)
  moreover have "\<forall>p \<in> set (db_progress db'). p_broadcast_id p \<in> j_id ` set (db_jobs db')"
    using c(1,5,6,7) assms(1) by (auto simp: tables_ok_def)
  ultimately show ?thesis using c(5) by (auto simp: tables_ok_def db_ok_def keys_ok_def)
qed

section \<open>Every step keeps the invariant\<close>

text \<open>
  What a step may do to the jobs: rows are updated in place or added; only queued jobs and jobs
  held in memory change, and only these are held afterwards.
\<close>

definition jobs_step :: "broadcast_system \<Rightarrow> broadcast_system \<Rightarrow> bool" where
  "jobs_step y y' \<longleftrightarrow>
     (\<exists>g new. sy_jobs y' = map g (sy_jobs y) @ new \<and>
        (\<forall>j \<in> set (sy_jobs y). g j = j \<or> j_status j = statusQueued \<or> j_id j \<in> j_id ` set (sy_held y))) \<and>
     (\<forall>h \<in> set (sy_held y'). j_id h \<in> j_id ` set (sy_held y) \<or>
        (\<exists>j \<in> set (sy_jobs y). j_id j = j_id h \<and> j_status j = statusQueued))"

lemma jobs_step_same:
  "sy_jobs y' = sy_jobs y \<Longrightarrow> set (sy_held y') \<subseteq> set (sy_held y) \<Longrightarrow> jobs_step y y'"
  unfolding jobs_step_def by (auto intro!: exI [of _ "\<lambda>j. j"] exI [of _ "[]"])

lemma backed_map:
  assumes "backed jobs h" "\<And>j. j_id j = j_id h \<Longrightarrow> g j = j"
  shows "backed (map g jobs @ new) h"
proof -
  obtain j where j: "j \<in> set jobs" "j_id j = j_id h" "j_tenant_id j = j_tenant_id h"
    "j_status j = statusProcessing" "j_attempts j = j_attempts h" "j_max_attempts j = j_max_attempts h"
    using assms(1) by (auto simp: backed_def)
  with assms(2) [OF j(2)] have "j \<in> set (map g jobs @ new)" by force
  with j show ?thesis unfolding backed_def by blast
qed

lemma backed_append: "backed jobs h \<Longrightarrow> backed (jobs @ new) h"
  by (auto simp: backed_def)

lemma create_ok:
  assumes "system_ok s y" "uuid \<noteq> []" "uuid \<notin> j_id ` set (sy_jobs y)"
  shows "system_ok s (y\<lparr>sy_world := snd (broadcast_Create s uuid t inp (sy_world y))\<rparr>) \<and>
    jobs_step y (y\<lparr>sy_world := snd (broadcast_Create s uuid t inp (sy_world y))\<rparr>)"
    (is "system_ok s ?y' \<and> _")
  using Create_db [OF assms(2), of s t inp "sy_world y"]
proof
  assume "w_db (snd (broadcast_Create s uuid t inp (sy_world y))) = w_db (sy_world y)"
  with assms(1) show ?thesis by (auto simp: system_ok_def sy_db_def sy_jobs_def sy_held_def intro!: jobs_step_same)
next
  assume c: "created uuid (w_db (sy_world y)) (w_db (snd (broadcast_Create s uuid t inp (sy_world y))))"
  then obtain job where j: "sy_jobs ?y' = sy_jobs y @ [job]"
    by (auto simp: created_def sy_jobs_def sy_db_def)
  have "tables_ok (sy_db ?y')"
    using created_tables [OF _ c] assms(1,3) by (simp add: system_ok_def sy_db_def sy_jobs_def)
  moreover have "sy_held ?y' = sy_held y" by (simp add: sy_held_def)
  ultimately show ?thesis using assms(1) j
    by (auto simp: system_ok_def jobs_step_def intro: backed_append intro!: exI [of _ "\<lambda>j. j"])
qed

lemma distinct_insert_middle:
  "distinct (xs @ zs) \<Longrightarrow> distinct ys \<Longrightarrow> set ys \<inter> (set xs \<union> set zs) = {} \<Longrightarrow> distinct (xs @ ys @ zs)"
  by auto

lemma dispatch_ok:
  assumes "system_ok s y" "0 < bs_claim_batch_size s"
    and "claimAndEnqueue s (sy_queue y) (sy_world y) = (queue, w)"
  shows "system_ok s (y\<lparr>sy_queue := queue, sy_world := w\<rparr>) \<and>
    jobs_step y (y\<lparr>sy_queue := queue, sy_world := w\<rparr>)" (is "system_ok s ?y' \<and> _")
  using assms(3)
proof (cases rule: claimAndEnqueue_cases)
  case 1
  with assms(1) show ?thesis by (auto simp: system_ok_def sy_db_def sy_jobs_def sy_held_def intro!: jobs_step_same)
next
  case (2 limit now)
  let ?db = "w_db (sy_world y)"
  let ?c = "claim_order now limit ?db"
  let ?g = "\<lambda>j. if j_id j \<in> j_id ` set ?c then claimed ''dispatcher'' now j else j"
  have t: "tables_ok ?db" using assms(1) by (simp add: system_ok_def sy_db_def)
  have lim: "0 < limit" using 2(4) assms(2) by simp
  have jobs: "sy_jobs ?y' = map ?g (sy_jobs y)" using 2(5) by (simp add: sy_jobs_def sy_db_def)
  have t': "tables_ok (sy_db ?y')" using claim_step [OF t] 2(5) by (simp add: sy_db_def)
  have qd: "j \<in> set (sy_jobs y) \<and> j_status j = statusQueued" if "j \<in> set ?c" for j
    using set_claim_order that by (auto simp: sy_jobs_def sy_db_def claimable_def)
  have fresh: "j_id h \<notin> j_id ` set ?c" if "h \<in> set (sy_held y)" for h
  proof
    assume "j_id h \<in> j_id ` set ?c"
    then obtain j where j: "j \<in> set ?c" "j_id j = j_id h" by auto
    from assms(1) that obtain j' where "j' \<in> set (sy_jobs y)" "j_id j' = j_id h" "j_status j' = statusProcessing"
      by (auto simp: system_ok_def backed_def)
    with same_id [OF t, of j j'] qd [OF j(1)] j(2) show False
      by (auto simp: sy_jobs_def sy_db_def job_status_defs)
  qed
  have room: "int (length (sy_queue y) + length (map (claimed ''dispatcher'' now) ?c)) \<le> bs_queue_cap s"
    using length_claim_order [OF lim, of now ?db] 2(2) lim by simp
  have q: "queue = sy_queue y \<or> queue = sy_queue y @ map (claimed ''dispatcher'' now) ?c"
    using 2(6) enqueue_all [OF room] by auto
  have old: "backed (sy_jobs ?y') h" if h: "h \<in> set (sy_held y)" for h
  proof -
    from fresh [OF h] have "?g j = j" if "j_id j = j_id h" for j using that by auto
    then show ?thesis unfolding jobs using backed_map [of "sy_jobs y" h ?g "[]"] h assms(1)
      by (simp add: system_ok_def)
  qed
  have new: "backed (sy_jobs ?y') (claimed ''dispatcher'' now j)" if "j \<in> set ?c" for j
    unfolding jobs backed_def using qd [OF that] that
    by (intro bexI [of _ "?g j"]) auto
  have held: "set (sy_held ?y') \<subseteq> set (sy_held y) \<union> claimed ''dispatcher'' now ` set ?c"
    using q by (auto simp: sy_held_def)
  have d: "distinct (map j_id (sy_queue y) @ map j_id (sy_running y))"
    using assms(1) by (simp add: system_ok_def sy_held_def)
  have dc: "distinct (map j_id ?c)" by (rule distinct_claim_order [OF tables_ids [OF t]])
  have fr: "set (map j_id ?c) \<inter> (set (map j_id (sy_queue y)) \<union> set (map j_id (sy_running y))) = {}"
  proof (rule equals0I)
    fix x assume "x \<in> set (map j_id ?c) \<inter> (set (map j_id (sy_queue y)) \<union> set (map j_id (sy_running y)))"
    then have "x \<in> j_id ` set ?c" "x \<in> j_id ` set (sy_held y)"
      unfolding sy_held_def set_append image_Un set_map by blast+
    with fresh show False by (elim imageE) (metis imageI)
  qed
  have "map j_id (sy_held ?y') = map j_id (sy_queue y) @ map j_id (sy_running y) \<or>
      map j_id (sy_held ?y') = map j_id (sy_queue y) @ map j_id ?c @ map j_id (sy_running y)"
    using q by (auto simp: sy_held_def comp_def)
  with d distinct_insert_middle [OF d dc fr] have "distinct (map j_id (sy_held ?y'))" by metis
  moreover have "\<forall>h \<in> set (sy_held ?y'). backed (sy_jobs ?y') h" using held old new by blast
  moreover have "int (length (sy_queue ?y')) \<le> bs_queue_cap s" using q room assms(1)
    by (auto simp: system_ok_def)
  ultimately have "system_ok s ?y'" using t' by (simp add: system_ok_def)
  moreover have "jobs_step y ?y'" unfolding jobs_step_def
  proof (intro conjI exI [of _ ?g] exI [of _ "[]"] ballI)
    show "sy_jobs ?y' = map ?g (sy_jobs y) @ []" using jobs by simp
  next
    fix j assume j: "j \<in> set (sy_jobs y)"
    show "?g j = j \<or> j_status j = statusQueued \<or> j_id j \<in> j_id ` set (sy_held y)"
      using claimed_iff [OF tables_ids [OF t], of j now limit] j qd by (auto simp: sy_jobs_def sy_db_def)
  next
    fix h assume "h \<in> set (sy_held ?y')"
    with held consider "h \<in> set (sy_held y)" | j where "j \<in> set ?c" "h = claimed ''dispatcher'' now j" by auto
    then show "j_id h \<in> j_id ` set (sy_held y) \<or>
        (\<exists>j \<in> set (sy_jobs y). j_id j = j_id h \<and> j_status j = statusQueued)"
    proof cases
      case 1
      then show ?thesis by blast
    next
      case 2
      with qd [OF 2(1)] show ?thesis by (intro disjI2 bexI [of _ j]) auto
    qed
  qed
  ultimately show ?thesis by blast
qed

lemma handle_ok:
  assumes "system_ok s y" "job \<in> set (sy_running y)"
    and "handleJob obs job (sy_next y) (sy_world y) = Some (nextAt, w)"
  shows "system_ok s (y\<lparr>sy_running := remove1 job (sy_running y), sy_next := nextAt, sy_world := w\<rparr>) \<and>
    jobs_step y (y\<lparr>sy_running := remove1 job (sy_running y), sy_next := nextAt, sy_world := w\<rparr>)"
    (is "system_ok s ?y' \<and> _")
proof -
  have d: "distinct (map j_id (sy_queue y @ sy_running y))" using assms(1) by (simp add: system_ok_def sy_held_def)
  then have dr: "distinct (map j_id (sy_running y))" "distinct (sy_running y)" by (simp_all add: distinct_map)
  have sub: "set (sy_held ?y') = set (sy_held y) - {job}"
    using d dr(2) assms(2) by (auto simp: sy_held_def distinct_map)
  have d': "distinct (map j_id (sy_held ?y'))"
  proof -
    have "distinct (sy_held ?y')" using d dr by (auto simp: sy_held_def distinct_map)
    moreover have "inj_on j_id (set (sy_held y))" using d unfolding distinct_map sy_held_def by (rule conjunct2)
    then have "inj_on j_id (set (sy_held ?y'))" unfolding sub by (rule inj_on_diff)
    ultimately show ?thesis by (simp add: distinct_map)
  qed
  have other: "j_id h \<noteq> j_id job" if "h \<in> set (sy_held ?y')" for h
    using that sub d assms(2) by (auto simp: sy_held_def distinct_map inj_on_def)
  have "w = sy_world y \<or> w = run_job job (sy_world y)"
    using assms(3) by (auto simp: handleJob_def split: option.splits prod.splits)
  then show ?thesis
  proof
    assume "w = sy_world y"
    with assms(1) d' sub show ?thesis
      by (auto simp: system_ok_def sy_db_def sy_jobs_def intro!: jobs_step_same)
  next
    assume w: "w = run_job job (sy_world y)"
    have t: "tables_ok (w_db (sy_world y))" "backed (db_jobs (w_db (sy_world y))) job"
      using assms(1,2) by (auto simp: system_ok_def sy_db_def sy_jobs_def sy_held_def)
    from run_job_step [OF t] obtain g where g: "tables_ok (sy_db ?y')" "sy_jobs ?y' = map g (sy_jobs y)"
      "\<And>j. j_id j \<noteq> j_id job \<Longrightarrow> g j = j" by (auto simp: w sy_db_def sy_jobs_def)
    have "backed (sy_jobs ?y') h" if h: "h \<in> set (sy_held ?y')" for h
    proof -
      have "g j = j" if "j_id j = j_id h" for j using g(3) other [OF h] that by simp
      moreover have "backed (sy_jobs y) h" using h sub assms(1) by (auto simp: system_ok_def)
      ultimately show ?thesis unfolding g(2) using backed_map [of "sy_jobs y" h g "[]"] by simp
    qed
    then have "system_ok s ?y'" using g(1) d' assms(1) by (simp add: system_ok_def)
    moreover have "jobs_step y ?y'" unfolding jobs_step_def
    proof (intro conjI exI [of _ g] exI [of _ "[]"] ballI)
      show "sy_jobs ?y' = map g (sy_jobs y) @ []" using g(2) by simp
    next
      fix j assume "j \<in> set (sy_jobs y)"
      have "j_id job \<in> j_id ` set (sy_held y)" using assms(2) by (auto simp: sy_held_def)
      then show "g j = j \<or> j_status j = statusQueued \<or> j_id j \<in> j_id ` set (sy_held y)"
        using g(3) [of j] by metis
    next
      fix h assume "h \<in> set (sy_held ?y')"
      then show "j_id h \<in> j_id ` set (sy_held y) \<or>
          (\<exists>j \<in> set (sy_jobs y). j_id j = j_id h \<and> j_status j = statusQueued)" using sub by blast
    qed
    ultimately show ?thesis by blast
  qed
qed

lemma step_ok:
  assumes "bstep s y y'" "system_ok s y" "0 < bs_claim_batch_size s" "0 \<le> bs_queue_cap s"
  shows "system_ok s y' \<and> jobs_step y y'"
  using assms
proof (cases rule: bstep.cases)
  case (api_create uuid tenantID inp)
  then show ?thesis using create_ok [OF assms(2)] by simp
next
  case (dispatch queue w)
  then show ?thesis using dispatch_ok [OF assms(2,3)] by simp
next
  case (receive job queue)
  have h: "sy_held y' = sy_held (y\<lparr>sy_queue := queue, sy_running := sy_running y @ [job]\<rparr>)" using receive by simp
  then have "mset (sy_held y') = mset (sy_held y)" using receive by (simp add: sy_held_def)
  then have "set (sy_held y') = set (sy_held y)" "distinct (map j_id (sy_held y')) = distinct (map j_id (sy_held y))"
    by (auto dest: mset_eq_setD distinct_map_mset)
  with receive assms(2) show ?thesis
    by (auto simp: system_ok_def sy_db_def sy_jobs_def intro!: jobs_step_same)
next
  case (handle job obs nextAt w)
  then show ?thesis using handle_ok [OF assms(2)] by simp
next
  case (receipt instanceID messageID state at)
  have "sy_held y' = sy_held y" using receipt by (simp add: sy_held_def)
  with receipt assms(2) HandleReceipt_tables [of "sy_world y" instanceID messageID state at] show ?thesis
    by (auto simp: system_ok_def sy_db_def sy_jobs_def intro!: jobs_step_same)
next
  case (environment w)
  have "sy_held y' = sy_held y" using environment by (simp add: sy_held_def)
  with environment assms(2) show ?thesis
    by (auto simp: system_ok_def sy_db_def sy_jobs_def intro!: jobs_step_same)
next
  case restart
  have "sy_held y' = []" using restart by (simp add: sy_held_def)
  with restart assms(2,4) show ?thesis
    by (auto simp: system_ok_def sy_db_def sy_jobs_def intro!: jobs_step_same)
qed

lemma NewService_ok [simp]:
  "0 < bs_claim_batch_size (NewService n b c)" "0 \<le> bs_queue_cap (NewService n b c)"
  by (simp_all add: NewService_def Let_def)

lemma reachable_ok: "reachable (NewService n b c) y \<Longrightarrow> system_ok (NewService n b c) y"
proof -
  assume "reachable (NewService n b c) y"
  then obtain w where "(bstep (NewService n b c))\<^sup>*\<^sup>* (initial_system w) y" by (auto simp: reachable_def)
  then show ?thesis
  proof (induction rule: rtranclp_induct)
    case base
    show ?case by (simp add: system_ok_def initial_system_def sy_db_def sy_held_def tables_ok_def db_ok_def)
  next
    case (step y z)
    with step_ok show ?case by simp
  qed
qed

text \<open>Jobs that are neither queued nor held in memory are out of reach of every step.\<close>

lemma jobs_step_untouched:
  assumes "jobs_step y y'" "j \<in> set (sy_jobs y)" "j_status j \<noteq> statusQueued"
    and "j_id j \<notin> j_id ` set (sy_held y)"
  shows "j \<in> set (sy_jobs y')"
proof -
  obtain g new where g: "sy_jobs y' = map g (sy_jobs y) @ new"
    "\<forall>j \<in> set (sy_jobs y). g j = j \<or> j_status j = statusQueued \<or> j_id j \<in> j_id ` set (sy_held y)"
    using assms(1) unfolding jobs_step_def by blast
  with assms(2-4) have "g j = j" by blast
  with g(1) assms(2) show ?thesis by force
qed

lemma not_held:
  assumes "system_ok s y" "j \<in> set (sy_jobs y)" "j_status j \<noteq> statusProcessing"
  shows "j_id j \<notin> j_id ` set (sy_held y)"
proof
  assume "j_id j \<in> j_id ` set (sy_held y)"
  then obtain h where "h \<in> set (sy_held y)" "j_id h = j_id j" by auto
  with assms(1) obtain j' where "j' \<in> set (sy_jobs y)" "j_id j' = j_id j" "j_status j' = statusProcessing"
    by (auto simp: system_ok_def backed_def)
  with same_id [of "sy_db y" j' j] assms show False by (auto simp: system_ok_def sy_jobs_def)
qed

text \<open>A job that is being processed according to its row but is not held by the process.\<close>

definition stranded :: "broadcast_system \<Rightarrow> BroadcastJob \<Rightarrow> bool" where
  "stranded y j \<longleftrightarrow> j \<in> set (sy_jobs y) \<and> j_status j = statusProcessing \<and> j_id j \<notin> j_id ` set (sy_held y)"

lemma stranded_step:
  assumes "system_ok s y" "jobs_step y y'" "stranded y j"
  shows "stranded y' j"
proof -
  have j: "j \<in> set (sy_jobs y)" "j_status j = statusProcessing" "j_id j \<notin> j_id ` set (sy_held y)"
    using assms(3) by (simp_all add: stranded_def)
  have 1: "j \<in> set (sy_jobs y')"
    by (rule jobs_step_untouched [OF assms(2) j(1) _ j(3)]) (simp add: j(2) job_status_defs)
  have "j_id j \<notin> j_id ` set (sy_held y')"
  proof
    assume "j_id j \<in> j_id ` set (sy_held y')"
    then obtain h where "h \<in> set (sy_held y')" "j_id h = j_id j" by auto
    with assms(2) j(3) obtain j' where "j' \<in> set (sy_jobs y)" "j_id j' = j_id j" "j_status j' = statusQueued"
      unfolding jobs_step_def by metis
    with same_id [of "sy_db y" j' j] assms(1) j show False
      by (auto simp: system_ok_def sy_jobs_def job_status_defs)
  qed
  with 1 j(2) show ?thesis by (simp add: stranded_def)
qed

lemma steps_ok:
  assumes "(bstep s)\<^sup>*\<^sup>* y y'" "system_ok s y" "0 < bs_claim_batch_size s" "0 \<le> bs_queue_cap s"
  shows "system_ok s y'"
  using assms by (induction rule: rtranclp_induct) (auto dest: step_ok)

lemma stranded_steps:
  assumes "(bstep s)\<^sup>*\<^sup>* y y'" "system_ok s y" "0 < bs_claim_batch_size s" "0 \<le> bs_queue_cap s" "stranded y j"
  shows "stranded y' j"
  using assms(1)
proof (induction rule: rtranclp_induct)
  case base
  show ?case by (rule assms(5))
next
  case (step z z')
  from steps_ok [OF step(1) assms(2-4)] have "system_ok s z" .
  with step_ok [OF step(2) this assms(3,4)] step.IH show ?case by (blast intro: stranded_step)
qed

lemma terminal_step:
  assumes "system_ok s y" "jobs_step y y'" "j \<in> set (sy_jobs y)" "terminal j"
  shows "j \<in> set (sy_jobs y')"
proof (rule jobs_step_untouched [OF assms(2,3)])
  show "j_status j \<noteq> statusQueued" using assms(4) by (auto simp: terminal_def job_status_defs)
  show "j_id j \<notin> j_id ` set (sy_held y)"
    using not_held [OF assms(1,3)] assms(4) by (auto simp: terminal_def job_status_defs)
qed

lemma terminal_steps:
  assumes "(bstep s)\<^sup>*\<^sup>* y y'" "system_ok s y" "0 < bs_claim_batch_size s" "0 \<le> bs_queue_cap s"
    and "j \<in> set (sy_jobs y)" "terminal j"
  shows "j \<in> set (sy_jobs y')"
  using assms(1)
proof (induction rule: rtranclp_induct)
  case base
  show ?case by (rule assms(5))
next
  case (step z z')
  from steps_ok [OF step(1) assms(2-4)] have "system_ok s z" .
  with step_ok [OF step(2) this assms(3,4)] step.IH assms(6) show ?case by (blast intro: terminal_step)
qed

section \<open>A sample run\<close>

text \<open>A job is created, claimed and received by a worker; then the process restarts.\<close>

definition sample_input :: CreateInput where
  "sample_input = \<lparr>ci_instance_id = ''i1'', ci_message = ''hello'', ci_rate_per_hour = 60, ci_delay_sec = 0,
     ci_max_attempts = 2, ci_scheduled_at = None\<rparr>"

definition sample_service :: broadcast_service where
  "sample_service = NewService 1 1 True"

definition sample_start :: broadcast_system where
  "sample_start = initial_system ((sample_world [])\<lparr>w_contacts :=
     [\<lparr>c_id = ''c1'', c_tenant_id = ''t1'', c_phone = ''333'', c_name = ''Ann'', c_email = [],
       c_instance_id = [], c_created_at = 1\<rparr>]\<rparr>)"

definition sample_created :: broadcast_system where
  "sample_created = sample_start\<lparr>sy_world :=
     snd (broadcast_Create sample_service ''b9'' ''t1'' sample_input (sy_world sample_start))\<rparr>"

definition sample_claimed :: broadcast_system where
  "sample_claimed =
     (case claimAndEnqueue sample_service (sy_queue sample_created) (sy_world sample_created) of
        (queue, w) \<Rightarrow> sample_created\<lparr>sy_queue := queue, sy_world := w\<rparr>)"

definition sample_received :: broadcast_system where
  "sample_received = sample_claimed\<lparr>sy_queue := tl (sy_queue sample_claimed),
     sy_running := sy_running sample_claimed @ [hd (sy_queue sample_claimed)]\<rparr>"

definition sample_handled :: broadcast_system where
  "sample_handled =
     (case handleJob [(None, 20, None)] (hd (sy_running sample_received)) (sy_next sample_received)
             (sy_world sample_received) of
        None \<Rightarrow> sample_received
      | Some (nextAt, w) \<Rightarrow> sample_received\<lparr>sy_running := remove1 (hd (sy_running sample_received))
           (sy_running sample_received), sy_next := nextAt, sy_world := w\<rparr>)"

definition sample_restarted :: broadcast_system where
  "sample_restarted = sample_claimed\<lparr>sy_queue := [], sy_running := [], sy_next := Map.empty\<rparr>"

lemma reachable_step: "reachable s y \<Longrightarrow> bstep s y y' \<Longrightarrow> reachable s y'"
  unfolding reachable_def by (meson rtranclp.rtrancl_into_rtrancl)

lemma sample_reachable:
  "reachable sample_service sample_created" "reachable sample_service sample_claimed"
  "reachable sample_service sample_restarted" "reachable sample_service sample_handled"
proof -
  have 0: "reachable sample_service sample_start"
    unfolding reachable_def sample_start_def by blast
  have 1: "bstep sample_service sample_start sample_created"
    unfolding sample_created_def
    by (rule bstep.api_create) (simp_all add: sample_start_def initial_system_def sy_jobs_def sy_db_def)
  have 2: "bstep sample_service sample_created sample_claimed"
    unfolding sample_claimed_def by (cases "claimAndEnqueue sample_service (sy_queue sample_created)
      (sy_world sample_created)") (simp add: bstep.dispatch)
  have 3: "bstep sample_service sample_claimed sample_restarted"
    unfolding sample_restarted_def by (rule bstep.restart)
  have "sy_queue sample_claimed \<noteq> []" "sy_running sample_claimed = []" by code_simp+
  then have 4: "bstep sample_service sample_claimed sample_received"
    unfolding sample_received_def
    by (intro bstep.receive) (simp_all add: sample_service_def NewService_def)
  have "sy_running sample_received \<noteq> []" by (simp add: sample_received_def)
  then have "bstep sample_service sample_received sample_handled"
    if "handleJob [(None, 20, None)] (hd (sy_running sample_received)) (sy_next sample_received)
          (sy_world sample_received) = Some (nextAt, w)" for nextAt w
    unfolding sample_handled_def that option.case prod.case
    by (intro bstep.handle [OF _ that]) simp
  then have 5: "reachable sample_service sample_handled" if "reachable sample_service sample_received"
    using that by (cases "handleJob [(None, 20, None)] (hd (sy_running sample_received))
      (sy_next sample_received) (sy_world sample_received)")
      (auto simp: sample_handled_def intro: reachable_step)
  from 0 1 2 3 4 5 show "reachable sample_service sample_created" "reachable sample_service sample_claimed"
    "reachable sample_service sample_restarted" "reachable sample_service sample_handled"
    by (meson reachable_step)+
qed

lemma sample_completed: "\<exists>j \<in> set (sy_jobs sample_handled). j_status j = statusCompleted"
proof -
  have "map j_status (sy_jobs sample_handled) = [statusCompleted]" by code_simp
  then show ?thesis by (auto simp: map_eq_Cons_conv)
qed

lemma sample_stranded: "\<exists>j. stranded sample_restarted j"
proof -
  have "map j_status (sy_jobs sample_restarted) = [statusProcessing] \<and> sy_queue sample_restarted = [] \<and>
      sy_running sample_restarted = []" by code_simp
  then show ?thesis by (auto simp: stranded_def sy_held_def map_eq_Cons_conv)
qed

section \<open>Properties\<close>

text \<open>
  C3: in every reachable state each job has used at most its maximum of attempts, and a queued
  job has one left: no job is ever started more often than allowed.
\<close>

theorem attempts_bounded:
  assumes "reachable (NewService n b c) y" and "j \<in> set (sy_jobs y)"
  shows "0 \<le> j_attempts j \<and> j_attempts j \<le> j_max_attempts j \<and>
    (j_status j = statusQueued \<longrightarrow> j_attempts j < j_max_attempts j)"
  using reachable_ok [OF assms(1)] assms(2)
  by (simp add: system_ok_def tables_ok_def job_row_ok_def attempts_ok_def sy_jobs_def)

theorem attempts_bounded_witness:
  "\<exists>j \<in> set (sy_jobs sample_claimed). j_attempts j \<le> j_max_attempts j"
proof -
  have "sy_jobs sample_claimed \<noteq> []" by code_simp
  then obtain j where "j \<in> set (sy_jobs sample_claimed)" by (meson hd_in_set)
  with attempts_bounded [OF sample_reachable(2) [unfolded sample_service_def] this] show ?thesis by blast
qed

text \<open>
  C2: in every reachable state no job is held twice by the process (two workers, or a worker and
  the channel), and every job held is marked as processing in the table, with the attempts and
  the maximum that the copy in memory has.
\<close>

theorem no_double_processing:
  assumes "reachable (NewService n b c) y"
  shows "distinct (map j_id (sy_queue y @ sy_running y)) \<and>
    (\<forall>h \<in> set (sy_queue y @ sy_running y). \<exists>j \<in> set (sy_jobs y). j_id j = j_id h \<and>
       j_tenant_id j = j_tenant_id h \<and> j_status j = statusProcessing \<and> j_attempts j = j_attempts h \<and>
       j_max_attempts j = j_max_attempts h)"
  using reachable_ok [OF assms] unfolding system_ok_def sy_held_def backed_def by blast

theorem no_double_processing_witness:
  "distinct (map j_id (sy_queue sample_claimed @ sy_running sample_claimed))"
  using no_double_processing [OF sample_reachable(2) [unfolded sample_service_def]] by blast



text \<open>
  The final states are final: the row of a job that is completed, completed with failures or
  failed never changes again, whatever steps follow.
\<close>

theorem terminal_forever:
  assumes "reachable (NewService n b c) y" and "(bstep (NewService n b c))\<^sup>*\<^sup>* y y'"
    and "j \<in> set (sy_jobs y)" and "terminal j"
  shows "j \<in> set (sy_jobs y')"
  by (rule terminal_steps [OF assms(2) reachable_ok [OF assms(1)] _ _ assms(3,4)]) simp_all

theorem terminal_forever_witness:
  "\<exists>j. j \<in> set (sy_jobs sample_handled) \<and> terminal j \<and>
     (\<forall>y'. (bstep (NewService 1 1 True))\<^sup>*\<^sup>* sample_handled y' \<longrightarrow> j \<in> set (sy_jobs y'))"
proof -
  obtain j where j: "j \<in> set (sy_jobs sample_handled)" "terminal j"
    using sample_completed by (auto simp: terminal_def)
  with terminal_forever [OF sample_reachable(4) [unfolded sample_service_def] _ j] show ?thesis by blast
qed

text \<open>
  The dispatcher claims no more jobs than the channel has room for: every claimed job is
  enqueued, and the branch of \<open>tryEnqueue\<close> that drops a job is never taken.
\<close>

theorem dispatcher_drops_nothing:
  assumes "claimAndEnqueue s queue w = (queue', w')" and "0 < bs_claim_batch_size s"
  shows "queue' = queue \<or>
    (\<exists>limit now. 0 < limit \<and> w_db w' = snd (repo_ClaimNext ''dispatcher'' limit now (w_db w)) \<and>
       queue' = queue @ fst (repo_ClaimNext ''dispatcher'' limit now (w_db w)) \<and>
       int (length queue') \<le> bs_queue_cap s)"
  using assms(1)
proof (cases rule: claimAndEnqueue_cases)
  case (2 limit now)
  let ?jobs = "fst (repo_ClaimNext ''dispatcher'' limit now (w_db w))"
  have lim: "0 < limit" using 2(4) assms(2) by simp
  have room: "int (length queue + length ?jobs) \<le> bs_queue_cap s"
    using length_claim_order [OF lim, of now "w_db w"] 2(2) lim by simp
  from enqueue_all [OF room] 2(6) have "queue' = queue \<or> queue' = queue @ ?jobs" by simp
  with 2(5) lim room show ?thesis by (metis length_append)
qed simp

theorem dispatcher_drops_nothing_witness:
  "\<exists>queue' w'. claimAndEnqueue sample_service [] (sy_world sample_created) = (queue', w') \<and>
     (queue' = [] \<or> (\<exists>limit now. 0 < limit \<and>
        queue' = fst (repo_ClaimNext ''dispatcher'' limit now (w_db (sy_world sample_created)))))"
proof -
  obtain queue' w' where r: "claimAndEnqueue sample_service [] (sy_world sample_created) = (queue', w')"
    by (rule prod.exhaust)
  have "0 < bs_claim_batch_size sample_service" by (simp add: sample_service_def)
  from dispatcher_drops_nothing [OF r this] r show ?thesis by fastforce
qed

text \<open>
  Nothing recovers a job whose worker or channel was lost: once a job is marked as processing
  and no longer held (after a restart, or after a worker gave up waiting for its slot), no step
  ever changes it again. It is neither retried nor failed, although it has attempts left.
\<close>

theorem stranded_forever:
  assumes "reachable (NewService n b c) y" and "stranded y j" and "(bstep (NewService n b c))\<^sup>*\<^sup>* y y'"
  shows "stranded y' j"
  by (rule stranded_steps [OF assms(3) reachable_ok [OF assms(1)] _ _ assms(2)]) simp_all

theorem stranded_forever_witness:
  "\<exists>j. stranded sample_restarted j \<and> (\<forall>y'. (bstep (NewService 1 1 True))\<^sup>*\<^sup>* sample_restarted y' \<longrightarrow> stranded y' j)"
  using sample_stranded stranded_forever [OF sample_reachable(3) [unfolded sample_service_def]] by blast

end
