(* ===== verification/Rfc3339.thy ===== *)
theory Rfc3339
  imports Prelude
begin

text \<open>
  \<open>time.Parse(time.RFC3339, s)\<close> of Go's library, as the webhooks use it to read the
  timestamps of their payloads: calendar date, time of day with an hour of one or two digits, an
  optional fraction of a second after a point or a comma, and the zone. The result is the instant,
  \<open>None\<close> an error.
\<close>

section \<open>The calendar\<close>

definition leap_year :: "int \<Rightarrow> bool" where
  "leap_year y \<longleftrightarrow> y mod 4 = 0 \<and> (y mod 100 \<noteq> 0 \<or> y mod 400 = 0)"

definition days_in :: "int \<Rightarrow> int \<Rightarrow> int" where
  "days_in y mo =
     (if mo = 2 then (if leap_year y then 29 else 28)
      else if mo \<in> {4, 6, 9, 11} then 30 else 31)"

text \<open>Days from the first of January of the year 1.\<close>

definition days_before_year :: "int \<Rightarrow> int" where
  "days_before_year y = (let p = y - 1 in 365 * p + p div 4 - p div 100 + p div 400)"

definition day_number :: "int \<Rightarrow> int \<Rightarrow> int \<Rightarrow> int" where
  "day_number y mo d =
     days_before_year y + sum_list (map (days_in y) [1..mo - 1]) + (d - 1)"

section \<open>Parsing\<close>

text \<open>A parser takes a value off the front of the string.\<close>

type_synonym 'a parser = "string \<Rightarrow> ('a \<times> string) option"

definition p_then :: "('a \<times> string) option \<Rightarrow> ('a \<Rightarrow> string \<Rightarrow> 'b option) \<Rightarrow> 'b option" where
  "p_then x f = (case x of None \<Rightarrow> None | Some (a, s) \<Rightarrow> f a s)"

definition p_digits :: "nat \<Rightarrow> int parser" where
  "p_digits n s =
     (if length s < n \<or> \<not> list_all is_digit (take n s) then None
      else Some (digits_value (take n s), drop n s))"

definition p_lit :: "char \<Rightarrow> unit parser" where
  "p_lit c s = (case s of [] \<Rightarrow> None | x # xs \<Rightarrow> if x = c then Some ((), xs) else None)"

text \<open>\<open>getnum(value, false)\<close>: two digits, or one when no second digit follows.\<close>

definition p_hour :: "int parser" where
  "p_hour s = (case p_digits 2 s of Some r \<Rightarrow> Some r | None \<Rightarrow> p_digits 1 s)"

text \<open>At most nine digits of the fraction count.\<close>

definition p_fraction :: "int parser" where
  "p_fraction s =
     (case s of
        c # d # _ \<Rightarrow>
          if c \<in> {CHR ''.'', CHR '',''} \<and> is_digit d then
            (let ds = takeWhile is_digit (drop 1 s); ds9 = take 9 ds
             in Some (digits_value ds9 * 10 ^ (9 - length ds9), drop (1 + length ds) s))
          else Some (0, s)
      | _ \<Rightarrow> Some (0, s))"

text \<open>The offset of the zone in seconds; offsets of 24 hours and of 60 minutes are let through.\<close>

definition p_zone :: "int parser" where
  "p_zone s =
     (case s of
        [] \<Rightarrow> None
      | c # r \<Rightarrow>
          if c = CHR ''Z'' then Some (0, r)
          else if c \<notin> {CHR ''+'', CHR ''-''} then None
          else p_then (p_digits 2 r) (\<lambda>hh r. p_then (p_lit (CHR '':'') r) (\<lambda>_ r.
               p_then (p_digits 2 r) (\<lambda>mm r.
                 if 24 < hh \<or> 60 < mm then None
                 else Some ((if c = CHR ''-'' then -1 else 1) * (hh * 60 + mm) * 60, r)))))"

definition parse_rfc3339 :: "string \<Rightarrow> time option" where
  "parse_rfc3339 s =
     p_then (p_digits 4 s) (\<lambda>y s. p_then (p_lit (CHR ''-'') s) (\<lambda>_ s.
     p_then (p_digits 2 s) (\<lambda>mo s. p_then (p_lit (CHR ''-'') s) (\<lambda>_ s.
     p_then (p_digits 2 s) (\<lambda>d s. p_then (p_lit (CHR ''T'') s) (\<lambda>_ s.
     p_then (p_hour s) (\<lambda>h s. p_then (p_lit (CHR '':'') s) (\<lambda>_ s.
     p_then (p_digits 2 s) (\<lambda>mi s. p_then (p_lit (CHR '':'') s) (\<lambda>_ s.
     p_then (p_digits 2 s) (\<lambda>sec s. p_then (p_fraction s) (\<lambda>ns s.
     p_then (p_zone s) (\<lambda>off s.
       if s = [] \<and> 1 \<le> mo \<and> mo \<le> 12 \<and> 1 \<le> d \<and> d \<le> days_in y mo \<and> h < 24 \<and> mi < 60 \<and> sec < 60
       then Some ((day_number y mo d * 86400 + h * 3600 + mi * 60 + sec - off) * second + ns)
       else None)))))))))))))"

text \<open>The Unix epoch, and the same instant written in another zone.\<close>

lemma parse_epoch: "map_option unix (parse_rfc3339 ''1970-01-01T00:00:00Z'') = Some 0"
  by code_simp

lemma parse_zone: "parse_rfc3339 ''2024-02-29T05:30:00.25+02:00'' = parse_rfc3339 ''2024-02-29T3:30:00,25Z''"
  by code_simp

end
