(* ===== verification/Webhook_Events.thy ===== *)
theory Webhook_Events
  imports Rfc3339
begin

text \<open>
  The contents of webhook events: \<open>internal/webhook/normalize.go\<close> and the helper functions at the
  end of \<open>internal/webhook/service.go\<close>. Event data is a Go \<open>map[string]any\<close>, here an association
  list read with \<open>map_of\<close>; a missing key and the value nil are \<open>None\<close> and \<open>Some JNull\<close>.
\<close>

section \<open>Reading event data\<close>

record DispatchInput =
  di_event_type :: string
  di_instance_id :: string
  di_message_id :: string
  di_data :: json_object

definition anyString :: "json option \<Rightarrow> string" where
  "anyString v = (case v of Some (JStr s) \<Rightarrow> trim_space s | _ \<Rightarrow> [])"

fun firstNonEmptyString :: "string list \<Rightarrow> string" where
  "firstNonEmptyString [] = []"
| "firstNonEmptyString (v # vs) =
     (if trim_space v \<noteq> [] then trim_space v else firstNonEmptyString vs)"

text \<open>The text under the first of several keys.\<close>

definition any_of :: "json_object \<Rightarrow> string list \<Rightarrow> string" where
  "any_of data keys = firstNonEmptyString (map (\<lambda>k. anyString (map_of data k)) keys)"

text \<open>The first key that holds a string decides, even when that string is blank.\<close>

fun text_under :: "json_object \<Rightarrow> string list \<Rightarrow> string" where
  "text_under data [] = []"
| "text_under data (k # ks) =
     (case map_of data k of Some (JStr s) \<Rightarrow> trim_space s | _ \<Rightarrow> text_under data ks)"

definition messageTextFromData :: "json_object \<Rightarrow> string" where
  "messageTextFromData data = text_under data [''message'', ''text'', ''body'', ''content'']"

definition conversationKeyFromData :: "DispatchInput \<Rightarrow> string" where
  "conversationKeyFromData inp =
     (let k = any_of (di_data inp) [''conversation_key'', ''conversationKey'', ''from'', ''contact_id'',
                ''contactId'', ''chat_id'', ''chatId''];
          i = trim_space (di_instance_id inp); m = trim_space (di_message_id inp)
      in if k \<noteq> [] then k
         else if i \<noteq> [] \<and> m \<noteq> [] then i @ '':'' @ m
         else if i \<noteq> [] then i else [])"

definition isInboundConversationEvent :: "string \<Rightarrow> bool" where
  "isInboundConversationEvent eventType \<longleftrightarrow>
     lower_trim eventType \<in> {''message'', ''message.received'', ''messages.upsert'', ''message.upsert''}"

definition normalizedWebhookMessagePayload :: "json_object \<Rightarrow> json_object" where
  "normalizedWebhookMessagePayload data =
     (case map_of data ''Message'' of
        Some (JObj payload) \<Rightarrow> payload
      | _ \<Rightarrow> (case map_of data ''message'' of Some (JObj payload) \<Rightarrow> payload | _ \<Rightarrow> data))"

definition has_value :: "json_object \<Rightarrow> string \<Rightarrow> bool" where
  "has_value data k \<longleftrightarrow> map_of data k \<noteq> None \<and> map_of data k \<noteq> Some JNull"

definition inferredWebhookMessageType :: "json_object \<Rightarrow> string" where
  "inferredWebhookMessageType payload =
     (if has_value payload ''imageMessage'' then ''imageMessage''
      else if has_value payload ''videoMessage'' then ''videoMessage''
      else if has_value payload ''audioMessage'' then ''audioMessage''
      else if has_value payload ''documentMessage'' then ''documentMessage''
      else if has_value payload ''extendedTextMessage'' then ''conversation''
      else if anyString (map_of payload ''conversation'') \<noteq> [] then ''conversation''
      else [])"

definition trimRemoteJID :: "string \<Rightarrow> string" where
  "trimRemoteJID remoteJID = split_first (CHR ''@'') (trim_space remoteJID)"

text \<open>A key whose value does not parse is skipped; without any, the clock.\<close>

fun timestamp_under :: "json_object \<Rightarrow> time \<Rightarrow> string list \<Rightarrow> time" where
  "timestamp_under data now [] = now"
| "timestamp_under data now (k # ks) =
     (case map_of data k of
        Some (JStr s) \<Rightarrow>
          (case parse_rfc3339 (trim_space s) of Some t \<Rightarrow> t | None \<Rightarrow> timestamp_under data now ks)
      | Some (JTime t) \<Rightarrow> t
      | _ \<Rightarrow> timestamp_under data now ks)"

definition timestampFromWebhookInput :: "json_object \<Rightarrow> time \<Rightarrow> time" where
  "timestampFromWebhookInput data now =
     timestamp_under data now [''timestamp'', ''message_timestamp'', ''messageTimestamp'']"

section \<open>Event types\<close>

definition EventMessageReceived :: string where "EventMessageReceived = ''message.received''"
definition EventMessageSent :: string where "EventMessageSent = ''message.sent''"
definition EventMessageDelivered :: string where "EventMessageDelivered = ''message.delivered''"
definition EventMessageRead :: string where "EventMessageRead = ''message.read''"
definition EventMessageFailed :: string where "EventMessageFailed = ''message.failed''"
definition EventInstanceConnected :: string where "EventInstanceConnected = ''instance.connected''"
definition EventInstanceDisconnected :: string where
  "EventInstanceDisconnected = ''instance.disconnected''"
definition EventQRUpdated :: string where "EventQRUpdated = ''qr.updated''"
definition EventAuthFailed :: string where "EventAuthFailed = ''auth.failed''"

lemmas event_names =
  EventMessageReceived_def EventMessageSent_def EventMessageDelivered_def EventMessageRead_def
  EventMessageFailed_def EventInstanceConnected_def EventInstanceDisconnected_def
  EventQRUpdated_def EventAuthFailed_def

definition lower_or :: "json_object \<Rightarrow> string \<Rightarrow> string \<Rightarrow> string" where
  "lower_or data k k' =
     (let s = to_lower (anyString (map_of data k))
      in if s = [] then to_lower (anyString (map_of data k')) else s)"

definition connectionState :: "json_object \<Rightarrow> string" where
  "connectionState data =
     (let state = lower_or data ''state'' ''status'' in
      if state \<in> {''open'', ''connected'', ''online''} then EventInstanceConnected
      else if state \<in> {''close'', ''closed'', ''disconnected'', ''offline''} then EventInstanceDisconnected
      else EventInstanceConnected)"

definition statusFromAck :: "json_object \<Rightarrow> string" where
  "statusFromAck data =
     (let ack = lower_or data ''ack'' ''status'' in
      if ack \<in> {''read'', ''3'', ''4''} then EventMessageRead
      else if ack \<in> {''delivered'', ''delivery.ack'', ''2''} then EventMessageDelivered
      else if ack \<in> {''error'', ''failed'', ''-1''} then EventMessageFailed
      else EventMessageDelivered)"

fun bool_under :: "json_object \<Rightarrow> string list \<Rightarrow> bool" where
  "bool_under data [] = False"
| "bool_under data (k # ks) = (case map_of data k of Some (JBool b) \<Rightarrow> b | _ \<Rightarrow> bool_under data ks)"

definition isFromMe :: "json_object \<Rightarrow> bool" where
  "isFromMe data = bool_under data [''from_me'', ''fromMe'', ''isFromMe'']"

definition event_key :: "string \<Rightarrow> string" where
  "event_key raw = replace_char (CHR ''_'') (CHR ''.'') (replace_char (CHR ''-'') (CHR ''.'') (lower_trim raw))"

definition NormalizeEventType :: "string \<Rightarrow> string \<Rightarrow> json_object \<Rightarrow> string" where
  "NormalizeEventType raw direction data =
     (let key = event_key raw in
      if key \<in> {''message'', ''messages.upsert'', ''message.upsert'', ''message.received'',
               ''messages.received''} then
        (if direction = ''outbound'' \<or> isFromMe data then EventMessageSent else EventMessageReceived)
      else if key \<in> {''message.sent'', ''messages.sent'', ''send.message'', ''message.send''} then
        EventMessageSent
      else if key \<in> {''messages.update'', ''message.update'', ''message.ack'', ''messages.ack''} then
        statusFromAck data
      else if key \<in> {''message.delivered'', ''messages.delivered''} then EventMessageDelivered
      else if key \<in> {''message.read'', ''messages.read'', ''read''} then EventMessageRead
      else if key \<in> {''message.failed'', ''messages.failed'', ''send.failed''} then EventMessageFailed
      else if key \<in> {''connection.update'', ''connection'', ''instance.connected'', ''connected'', ''open''} then
        connectionState data
      else if key \<in> {''instance.disconnected'', ''disconnected'', ''close'', ''logout''} then
        EventInstanceDisconnected
      else if key \<in> {''qr'', ''qr.updated'', ''qrcode.updated'', ''qrcode'', ''qr.code''} then EventQRUpdated
      else if key \<in> {''auth.failure'', ''auth.failed'', ''authentication.failure''} then EventAuthFailed
      else key)"

section \<open>Payloads\<close>

definition media_field :: "json_object \<Rightarrow> json_object \<Rightarrow> string list \<Rightarrow> string" where
  "media_field data payload keys =
     firstNonEmptyString (map (\<lambda>k. anyString (map_of data k)) keys @
                          map (\<lambda>k. anyString (map_of payload k)) keys)"

definition NormalizePayload :: "DispatchInput \<Rightarrow> string \<Rightarrow> string \<Rightarrow> time \<Rightarrow> json_object" where
  "NormalizePayload inp direction eventType now =
     (let data = di_data inp;
          payload = normalizedWebhookMessagePayload data;
          field = (\<lambda>k. anyString (map_of data k));
          mediaURL = media_field data payload [''media_url'', ''mediaUrl'']
      in [(''provider'', JStr ''whatsapp''),
          (''direction'', JStr direction),
          (''instance_id'', JStr (trim_space (di_instance_id inp))),
          (''message_id'', JStr (firstNonEmptyString
              [trim_space (di_message_id inp), field ''message_id'', field ''wamid''])),
          (''wamid'', JStr (firstNonEmptyString [field ''wamid'', trim_space (di_message_id inp)])),
          (''from'', JStr (any_of data [''from'', ''remote_jid'', ''remoteJid''])),
          (''to'', JStr (any_of data [''to'', ''recipient''])),
          (''message_type'', JStr (firstNonEmptyString
              [field ''message_type'', field ''messageType'', inferredWebhookMessageType payload])),
          (''text'', JStr (firstNonEmptyString [messageTextFromData data, messageTextFromData payload])),
          (''timestamp'', JTime (timestampFromWebhookInput data now)),
          (''raw'', JObj data)] @
         (if mediaURL \<noteq> [] then
            [(''media'', JObj
               [(''url'', JStr mediaURL),
                (''mime_type'', JStr (media_field data payload [''mime_type'', ''mimeType''])),
                (''file_name'', JStr (media_field data payload [''file_name'', ''fileName''])),
                (''caption'', JStr (media_field data payload [''caption'']))])]
          else []) @
         (if field ''latitude'' \<noteq> [] then
            [(''location'', JObj
               [(''latitude'', case map_of data ''latitude'' of None \<Rightarrow> JNull | Some v \<Rightarrow> v),
                (''longitude'', case map_of data ''longitude'' of None \<Rightarrow> JNull | Some v \<Rightarrow> v)])]
          else []))"

section \<open>Lemmas\<close>

lemma replace_char_trimmed:
  assumes "trimmed s" and "\<And>w. w \<in> set white_space \<Longrightarrow> c \<notin> set w \<and> d \<notin> set w"
  shows "trimmed (replace_char c d s)"
proof -
  let ?f = "\<lambda>x. if x = c then d else x"
  have eq: "u = w" if "map ?f u = w" "w \<in> set white_space" for u w
  proof -
    have "\<And>x. x \<in> set u \<Longrightarrow> ?f x = x"
      using assms(2) [OF that(2)] that(1) by (auto split: if_splits)
    then have "map ?f u = u" by (simp add: map_idI)
    with that(1) show ?thesis by simp
  qed
  have "\<not> has_prefix (map ?f s) w \<and> \<not> has_suffix (map ?f s) w" if w: "w \<in> set white_space" for w
  proof (intro conjI notI)
    assume "has_prefix (map ?f s) w"
    then obtain u t where u: "s = u @ t" "map ?f u = w" by (auto simp: has_prefix_iff map_eq_append_conv)
    from u(2) w have "u = w" by (rule eq)
    with u(1) have "has_prefix s w" by simp
    with assms(1) w show False by (simp add: trimmed_def)
  next
    assume "has_suffix (map ?f s) w"
    then obtain u t where u: "s = t @ u" "map ?f u = w" by (auto simp: has_suffix_iff map_eq_append_conv)
    from u(2) w have "u = w" by (rule eq)
    with u(1) have "has_suffix s w" by (auto simp: has_suffix_iff)
    with assms(1) w show False by (simp add: trimmed_def)
  qed
  then show ?thesis by (simp add: replace_char_def trimmed_def)
qed

lemma white_space_no_separator:
  "w \<in> set white_space \<Longrightarrow>
     CHR ''-'' \<notin> set w \<and> CHR ''.'' \<notin> set w \<and> CHR ''_'' \<notin> set w"
  by (auto simp: white_space_def)

lemma event_key_trimmed: "trimmed (event_key raw)"
  unfolding event_key_def
  by (intro replace_char_trimmed)
     (use white_space_no_separator in \<open>auto simp: trimmed_iff\<close>)

lemma event_key_lower: "to_lower (event_key raw) = event_key raw"
proof -
  have "lower_char (CHR ''.'') = CHR ''.''" by code_simp
  moreover have "\<And>c. c \<in> set (lower_trim raw) \<Longrightarrow> lower_char c = c"
    by (auto simp: lower_trim_def to_lower_def)
  ultimately show ?thesis by (auto simp: event_key_def replace_char_def to_lower_def)
qed

lemma event_key_idem [simp]: "event_key (event_key raw) = event_key raw"
proof -
  have "lower_trim (event_key raw) = event_key raw"
    using event_key_trimmed event_key_lower by (simp add: lower_trim_def trimmed_iff)
  then have "event_key (event_key raw) =
      replace_char (CHR ''_'') (CHR ''.'') (replace_char (CHR ''-'') (CHR ''.'') (event_key raw))"
    by (simp add: event_key_def)
  then show ?thesis by (simp add: event_key_def replace_char_def)
qed

text \<open>The canonical names are keys, and each is mapped to itself in its own direction.\<close>

lemma event_key_names:
  "event_key EventMessageReceived = EventMessageReceived" "event_key EventMessageSent = EventMessageSent"
  "event_key EventMessageDelivered = EventMessageDelivered" "event_key EventMessageRead = EventMessageRead"
  "event_key EventMessageFailed = EventMessageFailed"
  "event_key EventInstanceConnected = EventInstanceConnected"
  "event_key EventInstanceDisconnected = EventInstanceDisconnected"
  "event_key EventQRUpdated = EventQRUpdated" "event_key EventAuthFailed = EventAuthFailed"
  by code_simp+

definition canonical_for :: "string \<Rightarrow> json_object \<Rightarrow> string \<Rightarrow> bool" where
  "canonical_for direction data t \<longleftrightarrow>
     t \<in> {EventMessageSent, EventMessageDelivered, EventMessageRead, EventMessageFailed,
         EventInstanceDisconnected, EventQRUpdated, EventAuthFailed} \<or>
     (t = EventMessageReceived \<and> \<not> (direction = ''outbound'' \<or> isFromMe data)) \<or>
     (t = EventInstanceConnected \<and> connectionState data = EventInstanceConnected)"

lemma connectionState_range: "connectionState data \<in> {EventInstanceConnected, EventInstanceDisconnected}"
  by (simp add: connectionState_def Let_def)

lemma statusFromAck_range: "statusFromAck data \<in> {EventMessageRead, EventMessageDelivered, EventMessageFailed}"
  by (simp add: statusFromAck_def Let_def)

lemma NormalizeEventType_cases:
  "canonical_for direction data (NormalizeEventType raw direction data) \<or>
   NormalizeEventType raw direction data = event_key raw"
  using connectionState_range [of data] statusFromAck_range [of data]
  by (auto simp: NormalizeEventType_def canonical_for_def Let_def)

lemma NormalizeEventType_key: "NormalizeEventType (event_key raw) direction data = NormalizeEventType raw direction data"
  by (simp add: NormalizeEventType_def)

lemma NormalizeEventType_fixed:
  "NormalizeEventType EventMessageSent direction data = EventMessageSent"
  "NormalizeEventType EventMessageDelivered direction data = EventMessageDelivered"
  "NormalizeEventType EventMessageRead direction data = EventMessageRead"
  "NormalizeEventType EventMessageFailed direction data = EventMessageFailed"
  "NormalizeEventType EventInstanceDisconnected direction data = EventInstanceDisconnected"
  "NormalizeEventType EventQRUpdated direction data = EventQRUpdated"
  "NormalizeEventType EventAuthFailed direction data = EventAuthFailed"
  "NormalizeEventType EventMessageReceived direction data =
     (if direction = ''outbound'' \<or> isFromMe data then EventMessageSent else EventMessageReceived)"
  "NormalizeEventType EventInstanceConnected direction data = connectionState data"
  unfolding NormalizeEventType_def Let_def event_key_names by (simp_all add: event_names)

lemma NormalizeEventType_canonical:
  "canonical_for direction data t \<Longrightarrow> NormalizeEventType t direction data = t"
  unfolding canonical_for_def by (elim disjE insertE conjE emptyE) (simp_all add: NormalizeEventType_fixed)

text \<open>
  Normalising event types is idempotent: an event that is fed back into the service (an outbound
  reply, a relayed event) keeps the type it was given, in either direction and whatever its data.
\<close>

theorem NormalizeEventType_idempotent:
  "NormalizeEventType (NormalizeEventType raw direction data) direction data =
   NormalizeEventType raw direction data"
  using NormalizeEventType_cases [of direction data raw]
  by (auto simp: NormalizeEventType_canonical NormalizeEventType_key)

text \<open>
  Events that are reported as something else than they are. A connection that is being set up
  counts as connected; a numeric acknowledgement, as decoded from JSON, is ignored, so a read receipt
  is reported as delivered; a numeric location is dropped from the payload; and an unknown event is
  renamed, although the comment says that it passes through unchanged.
\<close>

theorem event_divergences:
  "NormalizeEventType ''connection.update'' ''inbound'' [(''state'', JStr ''connecting'')] = ''instance.connected'' \<and>
   NormalizeEventType ''message.ack'' ''inbound'' [(''ack'', JNum ''3'')] = ''message.delivered'' \<and>
   NormalizeEventType ''message.ack'' ''inbound'' [(''ack'', JStr ''3'')] = ''message.read'' \<and>
   NormalizeEventType ''Group_Join'' ''inbound'' [] = ''group.join'' \<and>
   map_of (NormalizePayload \<lparr>di_event_type = ''message'', di_instance_id = ''i'', di_message_id = ''m'',
       di_data = [(''latitude'', JNum ''-34.6''), (''longitude'', JNum ''-58.4'')]\<rparr> ''inbound''
       ''message.received'' 1) ''location'' = None"
  by code_simp

lemma trim_text_under [simp]: "trim_space (text_under data ks) = text_under data ks"
  by (induction ks) (auto split: option.splits json.splits)

lemma trim_messageText [simp]: "trim_space (messageTextFromData data) = messageTextFromData data"
  unfolding messageTextFromData_def by (rule trim_text_under)

lemma timestamp_under_cases:
  "timestamp_under data now ks = now \<or> (\<exists>k \<in> set ks. \<exists>v. map_of data k = Some v \<and>
     (v = JTime (timestamp_under data now ks) \<or>
      (\<exists>s. v = JStr s \<and> parse_rfc3339 (trim_space s) = Some (timestamp_under data now ks))))"
  by (induction ks) (auto split: option.splits json.splits)

text \<open>
  The payload of an event keeps the original data under \<open>raw\<close>, names the direction and the
  instance, takes the text of the message from the data before the nested payload, and uses the time
  of the event only when it can be read, the clock otherwise.
\<close>

theorem NormalizePayload_fields:
  "let p = NormalizePayload inp direction t now; data = di_data inp;
       body = messageTextFromData data; nested = messageTextFromData (normalizedWebhookMessagePayload data)
   in map_of p ''raw'' = Some (JObj data) \<and>
      map_of p ''direction'' = Some (JStr direction) \<and>
      map_of p ''instance_id'' = Some (JStr (trim_space (di_instance_id inp))) \<and>
      map_of p ''text'' = Some (JStr (if body \<noteq> [] then body else nested)) \<and>
      (map_of p ''timestamp'' = Some (JTime now) \<or>
       (\<exists>k \<in> {''timestamp'', ''message_timestamp'', ''messageTimestamp''}. \<exists>v u.
          map_of data k = Some v \<and> map_of p ''timestamp'' = Some (JTime u) \<and>
          (v = JTime u \<or> (\<exists>s. v = JStr s \<and> parse_rfc3339 (trim_space s) = Some u))))"
proof -
  let ?p = "NormalizePayload inp direction t now" and ?data = "di_data inp"
  have raw: "map_of ?p ''raw'' = Some (JObj ?data)"
    and dir: "map_of ?p ''direction'' = Some (JStr direction)"
    and inst: "map_of ?p ''instance_id'' = Some (JStr (trim_space (di_instance_id inp)))"
    and txt': "map_of ?p ''text'' = Some (JStr (firstNonEmptyString
          [messageTextFromData ?data, messageTextFromData (normalizedWebhookMessagePayload ?data)]))"
    and stamp: "map_of ?p ''timestamp'' = Some (JTime (timestampFromWebhookInput ?data now))"
    by (simp_all only: NormalizePayload_def Let_def append.simps map_of.simps fun_upd_apply fst_conv
        snd_conv) simp_all
  show ?thesis
    unfolding Let_def raw dir inst txt' stamp
    using timestamp_under_cases [of ?data now "[''timestamp'', ''message_timestamp'', ''messageTimestamp'']"]
    by (simp del: timestamp_under.simps add: timestampFromWebhookInput_def trim_messageText)
qed

end
