(* ===== verification/Webhook_Store.thy ===== *)
theory Webhook_Store
  imports Prelude
begin

text \<open>
  The tables of the webhooks, \<open>WebhookEndpoint\<close> and \<open>WebhookDelivery\<close> of
  \<open>internal/repository/models.go\<close>, and \<open>gormWebhookRepository\<close> of \<open>internal/repository/gorm.go\<close>.
  A statement is a function of the tables; failing statements are the business of the callers.
  As GORM does with a column that has a default in its tag, creating a row replaces a zero value by that
  default. Rows with equal sort keys come in table order.
\<close>

section \<open>Rows\<close>

record WebhookEndpoint =
  we_id :: string
  we_tenant_id :: string
  we_name :: string
  we_url :: string
  we_inbound_enabled :: bool
  we_outbound_enabled :: bool
  we_signing_secret :: string
  we_created_at :: time

record WebhookDelivery =
  wd_id :: string
  wd_tenant_id :: string
  wd_endpoint_id :: string
  wd_endpoint_url :: string
  wd_direction :: string
  wd_event_type :: string
  wd_event_id :: string
  wd_message_id :: string
  wd_status :: string
  wd_attempts :: int
  wd_max_attempts :: int
  wd_response_status :: int
  wd_request_body :: string
  wd_response_body :: string
  wd_error_message :: string
  wd_next_attempt_at :: "time option"
  wd_delivered_at :: "time option"
  wd_created_at :: time

record WebhookDeliveryFilter =
  wf_endpoint_id :: string
  wf_status :: string
  wf_event_type :: string
  wf_limit :: int
  wf_offset :: int

record webhook_db =
  wb_endpoints :: "WebhookEndpoint list"
  wb_deliveries :: "WebhookDelivery list"

section \<open>Statements\<close>

definition ensureID :: "string \<Rightarrow> string \<Rightarrow> string" where
  "ensureID uuid i = (if i = [] then uuid else i)"

text \<open>Both flags have the default true, which replaces the zero value false.\<close>

definition endpoint_row :: "string \<Rightarrow> time \<Rightarrow> WebhookEndpoint \<Rightarrow> WebhookEndpoint" where
  "endpoint_row uuid now e =
     e\<lparr>we_id := ensureID uuid (we_id e),
       we_inbound_enabled := True, we_outbound_enabled := True,
       we_created_at := (if we_created_at e = 0 then now else we_created_at e)\<rparr>"

definition webhook_repo_Create ::
  "string \<Rightarrow> time \<Rightarrow> WebhookEndpoint \<Rightarrow> webhook_db \<Rightarrow> WebhookEndpoint \<times> webhook_db" where
  "webhook_repo_Create uuid now e db =
     (let row = endpoint_row uuid now e in (row, db\<lparr>wb_endpoints := wb_endpoints db @ [row]\<rparr>))"

definition webhook_repo_GetByID :: "string \<Rightarrow> string \<Rightarrow> webhook_db \<Rightarrow> WebhookEndpoint option" where
  "webhook_repo_GetByID tenantID endpointID db =
     find (\<lambda>e. we_tenant_id e = tenantID \<and> we_id e = endpointID) (wb_endpoints db)"

definition webhook_repo_ListByTenant :: "string \<Rightarrow> webhook_db \<Rightarrow> WebhookEndpoint list" where
  "webhook_repo_ListByTenant tenantID db =
     sort_key (\<lambda>e. - we_created_at e) (filter (\<lambda>e. we_tenant_id e = tenantID) (wb_endpoints db))"

definition delivery_row :: "string \<Rightarrow> time \<Rightarrow> WebhookDelivery \<Rightarrow> WebhookDelivery" where
  "delivery_row uuid now d =
     d\<lparr>wd_id := ensureID uuid (wd_id d),
       wd_max_attempts := (if wd_max_attempts d = 0 then 5 else wd_max_attempts d),
       wd_created_at := (if wd_created_at d = 0 then now else wd_created_at d)\<rparr>"

definition CreateDelivery ::
  "string \<Rightarrow> time \<Rightarrow> WebhookDelivery \<Rightarrow> webhook_db \<Rightarrow> WebhookDelivery \<times> webhook_db" where
  "CreateDelivery uuid now d db =
     (let row = delivery_row uuid now d in (row, db\<lparr>wb_deliveries := wb_deliveries db @ [row]\<rparr>))"

text \<open>\<open>Save\<close> writes every column of the row with this id, and inserts the row when there is none.\<close>

definition UpdateDelivery :: "WebhookDelivery \<Rightarrow> webhook_db \<Rightarrow> webhook_db" where
  "UpdateDelivery d db =
     (if \<exists>r \<in> set (wb_deliveries db). wd_id r = wd_id d
      then db\<lparr>wb_deliveries := map (\<lambda>r. if wd_id r = wd_id d then d else r) (wb_deliveries db)\<rparr>
      else db\<lparr>wb_deliveries := wb_deliveries db @ [d]\<rparr>)"

definition delivery_matches :: "string \<Rightarrow> WebhookDeliveryFilter \<Rightarrow> WebhookDelivery \<Rightarrow> bool" where
  "delivery_matches tenantID flt d \<longleftrightarrow> wd_tenant_id d = tenantID \<and>
     (wf_endpoint_id flt \<noteq> [] \<longrightarrow> wd_endpoint_id d = wf_endpoint_id flt) \<and>
     (wf_status flt \<noteq> [] \<longrightarrow> wd_status d = wf_status flt) \<and>
     (wf_event_type flt \<noteq> [] \<longrightarrow> wd_event_type d = wf_event_type flt)"

definition delivery_limit :: "WebhookDeliveryFilter \<Rightarrow> nat" where
  "delivery_limit flt = (if wf_limit flt \<le> 0 \<or> 500 < wf_limit flt then 100 else nat (wf_limit flt))"

definition ListDeliveries :: "string \<Rightarrow> WebhookDeliveryFilter \<Rightarrow> webhook_db \<Rightarrow> WebhookDelivery list" where
  "ListDeliveries tenantID flt db =
     take (delivery_limit flt) (drop (nat (wf_offset flt))
       (sort_key (\<lambda>d. - wd_created_at d) (filter (delivery_matches tenantID flt) (wb_deliveries db))))"

definition HasRecentDelivery ::
  "string \<Rightarrow> string \<Rightarrow> string \<Rightarrow> string \<Rightarrow> time \<Rightarrow> webhook_db \<Rightarrow> bool" where
  "HasRecentDelivery tenantID direction eventType messageID since db \<longleftrightarrow>
     messageID \<noteq> [] \<and>
     (\<exists>d \<in> set (wb_deliveries db). wd_tenant_id d = tenantID \<and> wd_direction d = direction \<and>
        wd_event_type d = eventType \<and> wd_message_id d = messageID \<and> since \<le> wd_created_at d)"

definition due :: "time \<Rightarrow> WebhookDelivery \<Rightarrow> bool" where
  "due now d \<longleftrightarrow> wd_status d = ''retrying'' \<and>
     (case wd_next_attempt_at d of None \<Rightarrow> False | Some t \<Rightarrow> t \<le> now)"

definition due_time :: "WebhookDelivery \<Rightarrow> time" where
  "due_time d = (case wd_next_attempt_at d of None \<Rightarrow> 0 | Some t \<Rightarrow> t)"

definition ListDueRetries :: "time \<Rightarrow> int \<Rightarrow> webhook_db \<Rightarrow> WebhookDelivery list" where
  "ListDueRetries now limit db =
     take (nat (if limit \<le> 0 then 50 else limit))
       (sort_key due_time (filter (due now) (wb_deliveries db)))"

section \<open>Lemmas\<close>

lemma ListDueRetries_set: "d \<in> set (ListDueRetries now limit db) \<Longrightarrow> d \<in> set (wb_deliveries db) \<and> due now d"
  by (auto simp: ListDueRetries_def dest!: in_set_takeD)

lemma ListDueRetries_distinct:
  assumes "distinct (map wd_id (wb_deliveries db))"
  shows "distinct (map wd_id (ListDueRetries now limit db))"
proof -
  let ?rows = "filter (due now) (wb_deliveries db)"
  have "distinct (map wd_id ?rows)" using assms by (simp add: distinct_map inj_on_def)
  then have "distinct (map wd_id (sort_key due_time ?rows))"
    by (simp add: distinct_map)
  then show ?thesis by (simp add: ListDueRetries_def take_map [symmetric] distinct_take)
qed

lemma UpdateDelivery_rows:
  "wd_id d \<in> wd_id ` set (wb_deliveries db) \<Longrightarrow>
   wb_deliveries (UpdateDelivery d db) = map (\<lambda>r. if wd_id r = wd_id d then d else r) (wb_deliveries db)"
  by (force simp: UpdateDelivery_def)

lemma UpdateDelivery_endpoints [simp]: "wb_endpoints (UpdateDelivery d db) = wb_endpoints db"
  by (simp add: UpdateDelivery_def)

lemma update_ids: "map wd_id (map (\<lambda>r. if wd_id r = wd_id d then d else r) rows) = map wd_id rows"
  by simp

text \<open>
  The retry sweep gets due deliveries only, at most the limit, and leaves a due one behind only when
  the limit is reached and none of those taken was due later: no delivery starves behind newer ones.
\<close>

theorem ListDueRetries_fair:
  assumes "0 < limit" and "ds = ListDueRetries now limit db"
  shows "(\<forall>d \<in> set ds. d \<in> set (wb_deliveries db) \<and> due now d) \<and> int (length ds) \<le> limit \<and>
    (\<forall>d \<in> set (wb_deliveries db). due now d \<longrightarrow> d \<notin> set ds \<longrightarrow>
       int (length ds) = limit \<and> (\<forall>d' \<in> set ds. due_time d' \<le> due_time d))"
proof (intro conjI ballI impI)
  let ?all = "sort_key due_time (filter (due now) (wb_deliveries db))"
  have ds: "ds = take (nat limit) ?all" using assms by (simp add: ListDueRetries_def)
  show "d \<in> set (wb_deliveries db)" "due now d" if "d \<in> set ds" for d
    using that ListDueRetries_set assms(2) by blast+
  show "int (length ds) \<le> limit" using ds assms(1) by simp
  fix d assume d: "d \<in> set (wb_deliveries db)" "due now d" "d \<notin> set ds"
  have "set ?all = set ds \<union> set (drop (nat limit) ?all)"
    unfolding ds set_append [symmetric] append_take_drop_id ..
  moreover from d have "d \<in> set ?all" by simp
  ultimately have dd: "d \<in> set (drop (nat limit) ?all)" using d(3) by blast
  then have "nat limit < length ?all" by (metis drop_all empty_iff list.set(1) not_le)
  then show "int (length ds) = limit" using ds assms(1) by simp
  fix d' assume "d' \<in> set ds"
  with dd ds show "due_time d' \<le> due_time d"
    using sorted_append [of "map due_time (take (nat limit) ?all)" "map due_time (drop (nat limit) ?all)"]
    by (metis append_take_drop_id image_eqI map_append set_map sorted_sort_key)
qed

definition sample_delivery :: "string \<Rightarrow> time \<Rightarrow> WebhookDelivery" where
  "sample_delivery i t =
     \<lparr>wd_id = i, wd_tenant_id = ''t1'', wd_endpoint_id = ''e1'', wd_endpoint_url = ''https://hook'',
      wd_direction = ''inbound'', wd_event_type = ''message.received'', wd_event_id = ''ev1'',
      wd_message_id = ''m1'', wd_status = ''retrying'', wd_attempts = 1, wd_max_attempts = 5,
      wd_response_status = 500, wd_request_body = ''{}'', wd_response_body = [],
      wd_error_message = ''non-2xx response'', wd_next_attempt_at = Some t, wd_delivered_at = None,
      wd_created_at = 1\<rparr>"

lemma ListDueRetries_fair_witness:
  "let db = \<lparr>wb_endpoints = [], wb_deliveries = [sample_delivery ''d1'' 9, sample_delivery ''d2'' 7]\<rparr>;
       ds = ListDueRetries 10 1 db
   in map wd_id ds = [''d2''] \<and> int (length ds) \<le> 1"
proof -
  let ?db = "\<lparr>wb_endpoints = [], wb_deliveries = [sample_delivery ''d1'' 9, sample_delivery ''d2'' 7]\<rparr>"
  have "int (length (ListDueRetries 10 1 ?db)) \<le> 1"
    using ListDueRetries_fair [of 1 "ListDueRetries 10 1 ?db" 10 ?db] by simp
  moreover have "map wd_id (ListDueRetries 10 1 ?db) = [''d2'']" by code_simp
  ultimately show ?thesis by (simp add: Let_def)
qed

end
