(* ===== verification/Chat_History.thy ===== *)
theory Chat_History
  imports Prelude
begin

text \<open>
  The fan-out of inbound messages, \<open>pkg/chathistory/registry.go\<close>: listeners register once, every
  message is queued for each of them, and a pool of workers takes the jobs off the queue. The
  channel is a list of at most \<open>dispatchQueueSize\<close> jobs; a listener is a number, the order of its
  registration. The workers' calls are logged in \<open>ir_handled\<close>, in the order the jobs were taken.
\<close>

section \<open>Messages and the registry\<close>

record InboundMessage =
  im_instance_id :: string
  im_message_id :: string
  im_remote_jid :: string
  im_push_name :: string
  im_message_type :: string
  im_body :: string
  im_source :: string
  im_media_url :: string
  im_mime_type :: string
  im_file_name :: string
  im_caption :: string
  im_message :: json_object
  im_timestamp :: time

type_synonym dispatch_job = "nat \<times> InboundMessage"

record inbound_registry =
  ir_listeners :: "nat list"
  ir_queue :: "dispatch_job list"
  ir_handled :: "dispatch_job list"

definition dispatchQueueSize :: nat where "dispatchQueueSize = 2048"

definition empty_registry :: inbound_registry where
  "empty_registry = \<lparr>ir_listeners = [], ir_queue = [], ir_handled = []\<rparr>"

definition RegisterInboundMessageListener :: "nat option \<Rightarrow> inbound_registry \<Rightarrow> inbound_registry" where
  "RegisterInboundMessageListener listener r =
     (case listener of None \<Rightarrow> r | Some l \<Rightarrow> r\<lparr>ir_listeners := ir_listeners r @ [l]\<rparr>)"

text \<open>The send that never blocks: a full queue drops the job.\<close>

definition enqueue_dispatch :: "dispatch_job \<Rightarrow> inbound_registry \<Rightarrow> inbound_registry" where
  "enqueue_dispatch job r =
     (if length (ir_queue r) < dispatchQueueSize then r\<lparr>ir_queue := ir_queue r @ [job]\<rparr> else r)"

definition NotifyInboundMessage :: "InboundMessage \<Rightarrow> inbound_registry \<Rightarrow> inbound_registry" where
  "NotifyInboundMessage msg r =
     (if trim_space (im_instance_id msg) = [] \<or> trim_space (im_message_id msg) = [] \<or>
         trim_space (im_remote_jid msg) = [] then r
      else fold (\<lambda>l. enqueue_dispatch (l, msg)) (ir_listeners r) r)"

text \<open>A worker takes one job and calls its listener.\<close>

definition dispatch_worker :: "inbound_registry \<Rightarrow> inbound_registry" where
  "dispatch_worker r =
     (case ir_queue r of
        [] \<Rightarrow> r
      | job # jobs \<Rightarrow> r\<lparr>ir_queue := jobs, ir_handled := ir_handled r @ [job]\<rparr>)"

section \<open>Lemmas\<close>

lemma fold_enqueue:
  "fold (\<lambda>l. enqueue_dispatch (l, msg)) ls r =
     r\<lparr>ir_queue := ir_queue r @
        map (\<lambda>l. (l, msg)) (take (dispatchQueueSize - length (ir_queue r)) ls)\<rparr>"
proof (induction ls arbitrary: r)
  case Nil
  then show ?case by simp
next
  case (Cons l ls)
  show ?case
  proof (cases "length (ir_queue r) < dispatchQueueSize")
    case True
    then obtain k where "dispatchQueueSize - length (ir_queue r) = Suc k"
      by (metis Suc_diff_Suc)
    moreover from this have "dispatchQueueSize - Suc (length (ir_queue r)) = k" by simp
    ultimately show ?thesis using Cons True by (simp add: enqueue_dispatch_def)
  next
    case False
    with Cons show ?thesis by (simp add: enqueue_dispatch_def)
  qed
qed

lemma NotifyInboundMessage_frame [simp]:
  "ir_listeners (NotifyInboundMessage msg r) = ir_listeners r"
  "ir_handled (NotifyInboundMessage msg r) = ir_handled r"
  by (simp_all add: NotifyInboundMessage_def fold_enqueue)

text \<open>
  A message with instance, id and chat is queued once for each listener, in the order of
  registration and behind all earlier ones, as long as the queue has room; then the rest is dropped,
  the queue never holds more than 2048 jobs, and nothing that was queued is lost or reordered.
\<close>

theorem NotifyInboundMessage_queues:
  assumes "length (ir_queue r) \<le> dispatchQueueSize"
  shows "\<exists>n. ir_queue (NotifyInboundMessage msg r) =
      ir_queue r @ map (\<lambda>l. (l, msg)) (take n (ir_listeners r)) \<and>
    length (ir_queue (NotifyInboundMessage msg r)) \<le> dispatchQueueSize \<and>
    (trim_space (im_instance_id msg) \<noteq> [] \<and> trim_space (im_message_id msg) \<noteq> [] \<and>
       trim_space (im_remote_jid msg) \<noteq> [] \<longrightarrow>
     n = dispatchQueueSize - length (ir_queue r))"
  using assms
  by (intro exI [of _ "if trim_space (im_instance_id msg) = [] \<or> trim_space (im_message_id msg) = [] \<or>
      trim_space (im_remote_jid msg) = [] then 0 else dispatchQueueSize - length (ir_queue r)"])
     (auto simp: NotifyInboundMessage_def fold_enqueue)

definition sample_message :: InboundMessage where
  "sample_message =
     \<lparr>im_instance_id = ''i1'', im_message_id = ''m1'', im_remote_jid = ''5511@s.whatsapp.net'',
      im_push_name = [], im_message_type = ''conversation'', im_body = ''hello'', im_source = ''5511'',
      im_media_url = [], im_mime_type = [], im_file_name = [], im_caption = [], im_message = [],
      im_timestamp = 1\<rparr>"

lemma NotifyInboundMessage_queues_witness:
  "\<exists>n. ir_queue (NotifyInboundMessage sample_message (empty_registry\<lparr>ir_listeners := [0, 1]\<rparr>)) =
      map (\<lambda>l. (l, sample_message)) (take n [0, 1])"
  using NotifyInboundMessage_queues [of "empty_registry\<lparr>ir_listeners := [0, 1]\<rparr>" sample_message]
  by (auto simp: empty_registry_def)

end
