(* ===== verification/Webhook_Service.thy ===== *)
theory Webhook_Service
  imports Webhook_Events Webhook_Store Chat_History
begin

text \<open>
  The webhook service, \<open>internal/webhook/service.go\<close> and \<open>retry.go\<close>: registering endpoints,
  dispatching events to them, and the retries. A \<open>hook_world\<close> holds the tables, the clock, the
  requests sent so far, what was handed to the AI service and to the inbound listeners, and a script of
  what the environment does at each call: it goes on, time passes, a statement fails (with or without
  having taken effect), the server answers, or the context is cancelled. The script is arbitrary. What
  the code takes from the cryptographic, URL and JSON packages is the parameter \<open>lib\<close>.
\<close>

section \<open>Service, inputs and results\<close>

record webhook_CreateInput =
  wc_name :: string
  wc_url :: string
  wc_inbound_enabled :: bool
  wc_outbound_enabled :: bool
  wc_signing_secret :: string

record AITriggerInput =
  ai_event_type :: string
  ai_instance_id :: string
  ai_conversation_key :: string
  ai_message_id :: string
  ai_message_text :: string
  ai_metadata :: json_object

record DeliveryResult =
  dr_endpoint_id :: string
  dr_endpoint_name :: string
  dr_url :: string
  dr_delivered :: bool
  dr_status_code :: int
  dr_delivery_id :: string
  dr_error :: string

record eventEnvelope =
  ev_event_id :: string
  ev_tenant_id :: string
  ev_direction :: string
  ev_event_type :: string
  ev_raw_event_type :: string
  ev_instance_id :: string
  ev_message_id :: string
  ev_timestamp :: time
  ev_data :: json_object

record webhook_service =
  ws_max_attempts :: int
  ws_dedupe_window :: duration
  ws_has_ai :: bool

definition webhook_NewService :: webhook_service where
  "webhook_NewService = \<lparr>ws_max_attempts = 5, ws_dedupe_window = 10 * minute, ws_has_ai = False\<rparr>"

definition SetMaxAttempts :: "int \<Rightarrow> webhook_service \<Rightarrow> webhook_service" where
  "SetMaxAttempts attempts s = (if 0 < attempts then s\<lparr>ws_max_attempts := attempts\<rparr> else s)"

definition SetAITrigger :: "webhook_service \<Rightarrow> webhook_service" where
  "SetAITrigger s = s\<lparr>ws_has_ai := True\<rparr>"

text \<open>
  \<open>wl_scheme\<close> is the scheme \<open>url.ParseRequestURI\<close> finds, \<open>None\<close> its error; \<open>wl_request_error\<close> the error
  of \<open>http.NewRequest\<close> for a URL; \<open>wl_marshal\<close> is \<open>json.Marshal\<close> of an envelope; \<open>wl_hmac\<close> the
  hexadecimal HMAC-SHA256 of a payload under a secret.
\<close>

record webhook_lib =
  wl_scheme :: "string \<Rightarrow> string option"
  wl_request_error :: "string \<Rightarrow> go_error option"
  wl_marshal :: "eventEnvelope \<Rightarrow> go_error + string"
  wl_hmac :: "string \<Rightarrow> string \<Rightarrow> string"

section \<open>The world\<close>

datatype hook_event =
    HGoes
  | HPasses nat
  | HFails go_error bool
  | HReplies int string
  | HCancels

record hook_request =
  hr_url :: string
  hr_tenant_id :: string
  hr_event_type :: string
  hr_direction :: string
  hr_event_id :: string
  hr_signature :: "string option"
  hr_body :: string

record hook_world =
  hk_db :: webhook_db
  hk_now :: time
  hk_script :: "hook_event list"
  hk_requests :: "hook_request list"
  hk_ai :: "(string \<times> AITriggerInput) list"
  hk_inbound :: inbound_registry
  hk_ids :: nat

definition hook_next :: "hook_world \<Rightarrow> hook_event \<times> hook_world" where
  "hook_next w = (case hk_script w of [] \<Rightarrow> (HGoes, w) | a # as \<Rightarrow> (a, w\<lparr>hk_script := as\<rparr>))"

definition hook_now :: "hook_world \<Rightarrow> time \<times> hook_world" where
  "hook_now w =
     (case hook_next w of
        (HPasses n, w) \<Rightarrow> (hk_now w + int n, w\<lparr>hk_now := hk_now w + int n\<rparr>)
      | (_, w) \<Rightarrow> (hk_now w, w))"

text \<open>A random id: ids that were handed out do not come again.\<close>

definition hook_id :: "hook_world \<Rightarrow> string \<times> hook_world" where
  "hook_id w = (''id-'' @ show_nat (hk_ids w), w\<lparr>hk_ids := Suc (hk_ids w)\<rparr>)"

definition hook_statement ::
  "(webhook_db \<Rightarrow> 'a \<times> webhook_db) \<Rightarrow> hook_world \<Rightarrow> (go_error + 'a) \<times> hook_world" where
  "hook_statement f w =
     (case hook_next w of
        (HFails e applied, w) \<Rightarrow> (Inl e, if applied then w\<lparr>hk_db := snd (f (hk_db w))\<rparr> else w)
      | (HCancels, w) \<Rightarrow> (Inl (sentinel_error Canceled), w)
      | (_, w) \<Rightarrow> (Inr (fst (f (hk_db w))), w\<lparr>hk_db := snd (f (hk_db w))\<rparr>))"

definition hook_query :: "(webhook_db \<Rightarrow> 'a) \<Rightarrow> hook_world \<Rightarrow> (go_error + 'a) \<times> hook_world" where
  "hook_query f = hook_statement (\<lambda>db. (f db, db))"

section \<open>Endpoints\<close>

definition validateWebhookURL :: "webhook_lib \<Rightarrow> string \<Rightarrow> go_error option" where
  "validateWebhookURL lib raw =
     (case wl_scheme lib (trim_space raw) of
        None \<Rightarrow> Some (wrap ErrValidation ''invalid webhook url'')
      | Some scheme \<Rightarrow>
          if scheme \<noteq> ''http'' \<and> scheme \<noteq> ''https''
          then Some (wrap ErrValidation ''webhook url must use http or https'') else None)"

text \<open>Without any direction an endpoint gets both.\<close>

definition new_endpoint :: "string \<Rightarrow> webhook_CreateInput \<Rightarrow> WebhookEndpoint" where
  "new_endpoint tenantID inp =
     (let none = \<not> wc_inbound_enabled inp \<and> \<not> wc_outbound_enabled inp in
      \<lparr>we_id = [], we_tenant_id = tenantID, we_name = trim_space (wc_name inp),
       we_url = trim_space (wc_url inp), we_inbound_enabled = (wc_inbound_enabled inp \<or> none),
       we_outbound_enabled = (wc_outbound_enabled inp \<or> none),
       we_signing_secret = trim_space (wc_signing_secret inp), we_created_at = 0\<rparr>)"

definition webhook_Create ::
  "webhook_lib \<Rightarrow> string \<Rightarrow> webhook_CreateInput \<Rightarrow> hook_world \<Rightarrow> (go_error + WebhookEndpoint) \<times> hook_world" where
  "webhook_Create lib tenantID inp w =
     (if trim_space (wc_name inp) = [] \<or> trim_space (wc_url inp) = [] then
        (Inl (wrap ErrValidation ''name and url are required''), w)
      else case validateWebhookURL lib (wc_url inp) of
        Some e \<Rightarrow> (Inl e, w)
      | None \<Rightarrow>
          (case hook_id w of (uuid, w) \<Rightarrow>
           case hook_now w of (now, w) \<Rightarrow>
           hook_statement (webhook_repo_Create uuid now (new_endpoint tenantID inp)) w))"

definition webhook_List :: "string \<Rightarrow> hook_world \<Rightarrow> (go_error + WebhookEndpoint list) \<times> hook_world" where
  "webhook_List tenantID = hook_query (webhook_repo_ListByTenant tenantID)"

definition webhook_Get :: "string \<Rightarrow> string \<Rightarrow> hook_world \<Rightarrow> (go_error + WebhookEndpoint) \<times> hook_world" where
  "webhook_Get tenantID endpointID w =
     (case hook_query (webhook_repo_GetByID tenantID endpointID) w of
        (Inr (Some e), w) \<Rightarrow> (Inr e, w)
      | (_, w) \<Rightarrow> (Inl (wrap ErrNotFound ''webhook endpoint not found''), w))"

section \<open>One delivery\<close>

definition shouldDeliver :: "WebhookEndpoint \<Rightarrow> string \<Rightarrow> bool" where
  "shouldDeliver endpoint direction =
     (if direction = ''inbound'' then we_inbound_enabled endpoint else we_outbound_enabled endpoint)"

definition deliveryError :: "go_error option \<Rightarrow> string \<Rightarrow> string" where
  "deliveryError sendErr respBody =
     (case sendErr of
        Some e \<Rightarrow> err_text e
      | None \<Rightarrow> if respBody \<noteq> [] then respBody else ''non-2xx response'')"

text \<open>The shift is on 64 bits.\<close>

definition backoffFor :: "int \<Rightarrow> duration" where
  "backoffFor attemptNumber =
     (let d = int64 (30 * second * 2 ^ nat (attemptNumber - 1))
      in if 30 * minute < d then 30 * minute else d)"

definition scheduleRetryFields ::
  "WebhookDelivery \<Rightarrow> int \<Rightarrow> hook_world \<Rightarrow> WebhookDelivery \<times> hook_world" where
  "scheduleRetryFields d attemptNumber w =
     (if wd_max_attempts d \<le> attemptNumber then
        (d\<lparr>wd_status := ''failed'', wd_next_attempt_at := None, wd_delivered_at := None\<rparr>, w)
      else case hook_now w of (now, w) \<Rightarrow>
        (d\<lparr>wd_status := ''retrying'', wd_next_attempt_at := Some (now + backoffFor attemptNumber)\<rparr>, w))"

definition hook_headers :: "webhook_lib \<Rightarrow> WebhookEndpoint \<Rightarrow> eventEnvelope \<Rightarrow> string \<Rightarrow> hook_request" where
  "hook_headers lib endpoint env body =
     \<lparr>hr_url = we_url endpoint, hr_tenant_id = we_tenant_id endpoint, hr_event_type = ev_event_type env,
      hr_direction = ev_direction env, hr_event_id = ev_event_id env,
      hr_signature = (if we_signing_secret endpoint \<noteq> []
                      then Some (wl_hmac lib (we_signing_secret endpoint) body) else None),
      hr_body = body\<rparr>"

definition sendOnce ::
  "webhook_lib \<Rightarrow> WebhookEndpoint \<Rightarrow> eventEnvelope \<Rightarrow> string \<Rightarrow> hook_world \<Rightarrow>
   (int \<times> string \<times> go_error option) \<times> hook_world" where
  "sendOnce lib endpoint env body w =
     (case wl_request_error lib (we_url endpoint) of
        Some e \<Rightarrow> ((0, [], Some e), w)
      | None \<Rightarrow>
          (case hook_next w of (a, w) \<Rightarrow>
             (case a of
                HReplies code resp \<Rightarrow> (code, take 4096 resp, None)
              | HFails e _ \<Rightarrow> (0, [], Some e)
              | HCancels \<Rightarrow> (0, [], Some (sentinel_error Canceled))
              | _ \<Rightarrow> (200, [], None),
              w\<lparr>hk_requests := hk_requests w @ [hook_headers lib endpoint env body]\<rparr>)))"

definition accepted :: "int \<times> string \<times> go_error option \<Rightarrow> bool" where
  "accepted r = (case r of (code, _, e) \<Rightarrow> e = None \<and> 200 \<le> code \<and> code < 300)"

definition new_delivery :: "webhook_service \<Rightarrow> WebhookEndpoint \<Rightarrow> eventEnvelope \<Rightarrow> string \<Rightarrow> WebhookDelivery" where
  "new_delivery s endpoint env body =
     \<lparr>wd_id = [], wd_tenant_id = we_tenant_id endpoint, wd_endpoint_id = we_id endpoint,
      wd_endpoint_url = we_url endpoint, wd_direction = ev_direction env, wd_event_type = ev_event_type env,
      wd_event_id = ev_event_id env, wd_message_id = ev_message_id env, wd_status = ''pending'',
      wd_attempts = 0, wd_max_attempts = ws_max_attempts s, wd_response_status = 0,
      wd_request_body = body, wd_response_body = [], wd_error_message = [],
      wd_next_attempt_at = None, wd_delivered_at = None, wd_created_at = 0\<rparr>"

text \<open>The outcome of the first attempt, as \<open>deliver\<close> writes it into the delivery.\<close>

definition first_outcome ::
  "int \<times> string \<times> go_error option \<Rightarrow> WebhookDelivery \<Rightarrow> hook_world \<Rightarrow> WebhookDelivery \<times> hook_world" where
  "first_outcome r d w =
     (case r of (code, resp, e) \<Rightarrow>
      let d = d\<lparr>wd_attempts := 1, wd_response_status := code, wd_response_body := resp\<rparr> in
      if accepted r then
        (case hook_now w of (now, w) \<Rightarrow> (d\<lparr>wd_status := ''delivered'', wd_delivered_at := Some now\<rparr>, w))
      else scheduleRetryFields (d\<lparr>wd_error_message := deliveryError e resp\<rparr>) 1 w)"

definition deliver ::
  "webhook_service \<Rightarrow> webhook_lib \<Rightarrow> WebhookEndpoint \<Rightarrow> eventEnvelope \<Rightarrow> string \<Rightarrow> hook_world \<Rightarrow>
   DeliveryResult \<times> hook_world" where
  "deliver s lib endpoint env body w =
     (case sendOnce lib endpoint env body w of (r, w) \<Rightarrow>
      case first_outcome r (new_delivery s endpoint env body) w of (d, w) \<Rightarrow>
      case hook_id w of (uuid, w) \<Rightarrow>
      case hook_now w of (now, w) \<Rightarrow>
      case hook_statement (CreateDelivery uuid now d) w of (_, w) \<Rightarrow>
        (\<lparr>dr_endpoint_id = we_id endpoint, dr_endpoint_name = we_name endpoint, dr_url = we_url endpoint,
          dr_delivered = accepted r, dr_status_code = fst r, dr_delivery_id = uuid,
          dr_error = (if accepted r then [] else deliveryError (snd (snd r)) (fst (snd r)))\<rparr>, w))"

fun deliver_all ::
  "webhook_service \<Rightarrow> webhook_lib \<Rightarrow> eventEnvelope \<Rightarrow> string \<Rightarrow> WebhookEndpoint list \<Rightarrow> hook_world \<Rightarrow>
   DeliveryResult list \<times> hook_world" where
  "deliver_all s lib env body [] w = ([], w)"
| "deliver_all s lib env body (e # es) w =
     (if \<not> shouldDeliver e (ev_direction env) then deliver_all s lib env body es w
      else case deliver s lib e env body w of (r, w) \<Rightarrow>
           case deliver_all s lib env body es w of (rs, w) \<Rightarrow> (r # rs, w))"

section \<open>Dispatch\<close>

definition new_envelope ::
  "string \<Rightarrow> string \<Rightarrow> string \<Rightarrow> DispatchInput \<Rightarrow> time \<Rightarrow> time \<Rightarrow> eventEnvelope" where
  "new_envelope eventID tenantID direction inp now now' =
     (let raw = trim_space (di_event_type inp); t = NormalizeEventType raw direction (di_data inp) in
      \<lparr>ev_event_id = eventID, ev_tenant_id = tenantID, ev_direction = direction, ev_event_type = t,
       ev_raw_event_type = raw, ev_instance_id = trim_space (di_instance_id inp),
       ev_message_id = trim_space (di_message_id inp), ev_timestamp = now,
       ev_data = NormalizePayload inp direction t now'\<rparr>)"

text \<open>The duplicate check of \<open>dispatch\<close>; when its query fails, the event counts as new.\<close>

definition already_dispatched ::
  "webhook_service \<Rightarrow> string \<Rightarrow> string \<Rightarrow> DispatchInput \<Rightarrow> hook_world \<Rightarrow> bool \<times> hook_world" where
  "already_dispatched s tenantID direction inp w =
     (let messageID = trim_space (di_message_id inp) in
      if direction = ''inbound'' \<and> messageID \<noteq> [] then
        (case hook_now w of (now, w) \<Rightarrow>
         case hook_query (HasRecentDelivery tenantID direction
                (NormalizeEventType (trim_space (di_event_type inp)) direction (di_data inp)) messageID
                (now - ws_dedupe_window s)) w of
           (Inr seen, w) \<Rightarrow> (seen, w)
         | (Inl _, w) \<Rightarrow> (False, w))
      else (False, w))"

definition dispatch_new ::
  "webhook_service \<Rightarrow> webhook_lib \<Rightarrow> string \<Rightarrow> string \<Rightarrow> DispatchInput \<Rightarrow> hook_world \<Rightarrow>
   (go_error + DeliveryResult list) \<times> hook_world" where
  "dispatch_new s lib tenantID direction inp w =
     (case hook_query (webhook_repo_ListByTenant tenantID) w of
        (Inl e, w) \<Rightarrow> (Inl e, w)
      | (Inr endpoints, w) \<Rightarrow>
          (case hook_id w of (eventID, w) \<Rightarrow>
           case hook_now w of (now, w) \<Rightarrow>
           case hook_now w of (now', w) \<Rightarrow>
             (let env = new_envelope eventID tenantID direction inp now now' in
              case wl_marshal lib env of
                Inl e \<Rightarrow> (Inl e, w)
              | Inr body \<Rightarrow>
                  (case deliver_all s lib env body endpoints w of (rs, w) \<Rightarrow> (Inr rs, w)))))"

definition webhook_dispatch ::
  "webhook_service \<Rightarrow> webhook_lib \<Rightarrow> string \<Rightarrow> string \<Rightarrow> DispatchInput \<Rightarrow> hook_world \<Rightarrow>
   (go_error + DeliveryResult list) \<times> hook_world" where
  "webhook_dispatch s lib tenantID direction inp w =
     (if trim_space (di_event_type inp) = [] then
        (Inl (wrap ErrValidation ''event_type is required''), w)
      else case already_dispatched s tenantID direction inp w of
        (True, w) \<Rightarrow> (Inr [], w)
      | (False, w) \<Rightarrow> dispatch_new s lib tenantID direction inp w)"

definition inbound_message :: "DispatchInput \<Rightarrow> string \<Rightarrow> time \<Rightarrow> InboundMessage" where
  "inbound_message inp remoteJID now =
     (let data = di_data inp; payload = normalizedWebhookMessagePayload data;
          field = (\<lambda>k. anyString (map_of data k)) in
      \<lparr>im_instance_id = trim_space (di_instance_id inp), im_message_id = trim_space (di_message_id inp),
       im_remote_jid = remoteJID,
       im_push_name = any_of data [''push_name'', ''pushName''],
       im_message_type = firstNonEmptyString
          [field ''message_type'', field ''messageType'', inferredWebhookMessageType payload],
       im_body = firstNonEmptyString [messageTextFromData data, messageTextFromData payload],
       im_source = trimRemoteJID remoteJID,
       im_media_url = media_field data payload [''media_url'', ''mediaUrl''],
       im_mime_type = media_field data payload [''mime_type'', ''mimeType''],
       im_file_name = media_field data payload [''file_name'', ''fileName''],
       im_caption = media_field data payload [''caption''],
       im_message = payload,
       im_timestamp = timestampFromWebhookInput data now\<rparr>)"

definition notifyInboundConversationFallback :: "DispatchInput \<Rightarrow> hook_world \<Rightarrow> hook_world" where
  "notifyInboundConversationFallback inp w =
     (if \<not> isInboundConversationEvent (di_event_type inp) then w
      else let remoteJID = any_of (di_data inp) [''remote_jid'', ''remoteJid'', ''chat_id'', ''chatId'', ''from'']
           in if trim_space (di_instance_id inp) = [] \<or> trim_space (di_message_id inp) = [] \<or> remoteJID = []
              then w
              else case hook_now w of (now, w) \<Rightarrow>
                w\<lparr>hk_inbound := NotifyInboundMessage (inbound_message inp remoteJID now) (hk_inbound w)\<rparr>)"

definition ai_trigger :: "DispatchInput \<Rightarrow> AITriggerInput" where
  "ai_trigger inp =
     \<lparr>ai_event_type = trim_space (di_event_type inp), ai_instance_id = trim_space (di_instance_id inp),
      ai_conversation_key = conversationKeyFromData inp, ai_message_id = trim_space (di_message_id inp),
      ai_message_text = messageTextFromData (di_data inp), ai_metadata = di_data inp\<rparr>"

definition DispatchInbound ::
  "webhook_service \<Rightarrow> webhook_lib \<Rightarrow> string \<Rightarrow> DispatchInput \<Rightarrow> hook_world \<Rightarrow>
   (go_error + DeliveryResult list) \<times> hook_world" where
  "DispatchInbound s lib tenantID inp w =
     (case webhook_dispatch s lib tenantID ''inbound'' inp (notifyInboundConversationFallback inp w) of
        (Inl e, w) \<Rightarrow> (Inl e, w)
      | (Inr rs, w) \<Rightarrow>
          (Inr rs, if ws_has_ai s then w\<lparr>hk_ai := hk_ai w @ [(tenantID, ai_trigger inp)]\<rparr> else w))"

definition DispatchOutbound ::
  "webhook_service \<Rightarrow> webhook_lib \<Rightarrow> string \<Rightarrow> DispatchInput \<Rightarrow> hook_world \<Rightarrow>
   (go_error + DeliveryResult list) \<times> hook_world" where
  "DispatchOutbound s lib tenantID inp w = webhook_dispatch s lib tenantID ''outbound'' inp w"

section \<open>Retries\<close>

text \<open>The endpoint a retry goes to: the stored one, or what the delivery recorded when it is gone.\<close>

definition recorded_endpoint :: "WebhookDelivery \<Rightarrow> WebhookEndpoint" where
  "recorded_endpoint d =
     \<lparr>we_id = wd_endpoint_id d, we_tenant_id = wd_tenant_id d, we_name = [], we_url = wd_endpoint_url d,
      we_inbound_enabled = False, we_outbound_enabled = False, we_signing_secret = [],
      we_created_at = 0\<rparr>"

definition retry_envelope :: "WebhookDelivery \<Rightarrow> eventEnvelope" where
  "retry_envelope d =
     \<lparr>ev_event_id = wd_event_id d, ev_tenant_id = wd_tenant_id d, ev_direction = wd_direction d,
      ev_event_type = wd_event_type d, ev_raw_event_type = [], ev_instance_id = [],
      ev_message_id = wd_message_id d, ev_timestamp = 0, ev_data = []\<rparr>"

definition retry_outcome ::
  "int \<times> string \<times> go_error option \<Rightarrow> WebhookDelivery \<Rightarrow> hook_world \<Rightarrow> WebhookDelivery \<times> hook_world" where
  "retry_outcome r d w =
     (case r of (code, resp, e) \<Rightarrow>
      let d = d\<lparr>wd_attempts := wd_attempts d + 1, wd_response_status := code, wd_response_body := resp\<rparr> in
      if accepted r then
        (case hook_now w of (now, w) \<Rightarrow>
           (d\<lparr>wd_status := ''delivered'', wd_delivered_at := Some now, wd_next_attempt_at := None,
              wd_error_message := []\<rparr>, w))
      else scheduleRetryFields (d\<lparr>wd_error_message := deliveryError e resp\<rparr>) (wd_attempts d) w)"

definition retryDelivery :: "webhook_lib \<Rightarrow> WebhookDelivery \<Rightarrow> hook_world \<Rightarrow> WebhookDelivery \<times> hook_world" where
  "retryDelivery lib d w =
     (case hook_query (webhook_repo_GetByID (wd_tenant_id d) (wd_endpoint_id d)) w of (stored, w) \<Rightarrow>
      let endpoint = (case stored of Inr (Some e) \<Rightarrow> e | _ \<Rightarrow> recorded_endpoint d) in
      case sendOnce lib endpoint (retry_envelope d) (wd_request_body d) w of (r, w) \<Rightarrow>
      case retry_outcome r d w of (d, w) \<Rightarrow>
      case hook_statement (\<lambda>db. ((), UpdateDelivery d db)) w of (_, w) \<Rightarrow> (d, w))"

text \<open>The loop of the sweep; a cancelled context ends it.\<close>

fun retry_all :: "webhook_lib \<Rightarrow> WebhookDelivery list \<Rightarrow> hook_world \<Rightarrow> hook_world" where
  "retry_all lib [] w = w"
| "retry_all lib (d # ds) w =
     (case hook_next w of
        (HCancels, w) \<Rightarrow> w
      | (_, w) \<Rightarrow> retry_all lib ds (snd (retryDelivery lib d w)))"

definition due_retries :: "hook_world \<Rightarrow> (go_error + WebhookDelivery list) \<times> hook_world" where
  "due_retries w =
     (case hook_now w of (now, w) \<Rightarrow> hook_query (ListDueRetries now 50) w)"

definition processDueRetries :: "webhook_lib \<Rightarrow> hook_world \<Rightarrow> hook_world" where
  "processDueRetries lib w =
     (case due_retries w of (Inl _, w) \<Rightarrow> w | (Inr ds, w) \<Rightarrow> retry_all lib ds w)"

definition service_ListDeliveries ::
  "string \<Rightarrow> WebhookDeliveryFilter \<Rightarrow> hook_world \<Rightarrow> (go_error + WebhookDelivery list) \<times> hook_world" where
  "service_ListDeliveries tenantID flt = hook_query (ListDeliveries tenantID flt)"

section \<open>Lemmas\<close>

text \<open>What the elementary calls change.\<close>

lemma hook_next_frame:
  "hook_next w = (a, w') \<Longrightarrow> \<exists>sc. w' = w\<lparr>hk_script := sc\<rparr>"
  by (cases w) (auto simp: hook_next_def split: list.splits)

lemma hook_now_frame:
  assumes "hook_now w = (t, w')"
  shows "\<exists>sc. w' = w\<lparr>hk_script := sc, hk_now := t\<rparr> \<and> hk_now w \<le> t"
proof -
  obtain a w1 where n: "hook_next w = (a, w1)" by (rule prod.exhaust)
  from hook_next_frame [OF n] obtain sc where w1: "w1 = w\<lparr>hk_script := sc\<rparr>" ..
  with n assms show ?thesis by (cases a) (auto simp: hook_now_def)
qed

lemma hook_statement_cases:
  assumes "hook_statement f w = (r, w')"
  obtains (ok) sc where "r = Inr (fst (f (hk_db w)))" "w' = w\<lparr>hk_script := sc, hk_db := snd (f (hk_db w))\<rparr>"
  | (failed) e sc where "r = Inl e" "w' = w\<lparr>hk_script := sc\<rparr>"
  | (lost) e sc where "r = Inl e" "w' = w\<lparr>hk_script := sc, hk_db := snd (f (hk_db w))\<rparr>"
proof -
  obtain a w1 where n: "hook_next w = (a, w1)" by (rule prod.exhaust)
  from hook_next_frame [OF n] obtain sc where w1: "w1 = w\<lparr>hk_script := sc\<rparr>" ..
  show thesis
  proof (cases a)
    case (HFails e applied)
    with n w1 assms that(2,3) show thesis by (auto simp: hook_statement_def split: if_splits)
  next
    case HCancels
    with n w1 assms that(2) show thesis by (auto simp: hook_statement_def)
  qed (use n w1 assms that(1) in \<open>auto simp: hook_statement_def\<close>)
qed

lemma hook_query_frame:
  assumes "hook_query f w = (r, w')"
  shows "(\<exists>sc. w' = w\<lparr>hk_script := sc\<rparr>) \<and> (\<forall>x. r = Inr x \<longrightarrow> x = f (hk_db w))"
  using assms unfolding hook_query_def by (cases rule: hook_statement_cases) auto

lemma sendOnce_frame:
  assumes "sendOnce lib e env body w = (r, w')"
  shows "\<exists>sc. w' = w\<lparr>hk_script := sc, hk_requests := hk_requests w @
    (if wl_request_error lib (we_url e) = None then [hook_headers lib e env body] else [])\<rparr>"
proof (cases "wl_request_error lib (we_url e)")
  case None
  obtain a w1 where n: "hook_next w = (a, w1)" by (rule prod.exhaust)
  from hook_next_frame [OF n] obtain sc where w1: "w1 = w\<lparr>hk_script := sc\<rparr>" ..
  from assms None n have "w' = w1\<lparr>hk_requests := hk_requests w1 @ [hook_headers lib e env body]\<rparr>"
    by (simp add: sendOnce_def)
  with w1 None show ?thesis by auto
next
  case (Some x)
  with assms show ?thesis by (auto simp: sendOnce_def intro!: exI [of _ "hk_script w"])
qed

lemma scheduleRetryFields_frame:
  assumes "scheduleRetryFields d n w = (d', w')"
  shows "(\<exists>sc t. w' = w\<lparr>hk_script := sc, hk_now := t\<rparr> \<and> hk_now w \<le> t) \<and>
    (\<exists>st nx da. d' = d\<lparr>wd_status := st, wd_next_attempt_at := nx, wd_delivered_at := da\<rparr> \<and>
       (if wd_max_attempts d \<le> n then st = ''failed'' \<and> nx = None \<and> da = None
        else st = ''retrying'' \<and> nx \<noteq> None \<and> da = wd_delivered_at d))"
proof (cases "wd_max_attempts d \<le> n")
  case True
  with assms show ?thesis
    by (auto simp: scheduleRetryFields_def intro!: exI [of _ "hk_script w"] exI [of _ "hk_now w"])
next
  case False
  obtain t w1 where t: "hook_now w = (t, w1)" by (rule prod.exhaust)
  have "d' = d\<lparr>wd_status := ''retrying'', wd_next_attempt_at := Some (t + backoffFor n),
      wd_delivered_at := wd_delivered_at d\<rparr>"
    using False assms t by (auto simp: scheduleRetryFields_def)
  moreover have "w' = w1" using False assms t by (auto simp: scheduleRetryFields_def)
  ultimately show ?thesis using False hook_now_frame [OF t] by fastforce
qed

text \<open>The life of a delivery, as the tables may show it.\<close>

definition delivery_ok :: "WebhookDelivery \<Rightarrow> bool" where
  "delivery_ok d \<longleftrightarrow> 1 \<le> wd_attempts d \<and> wd_attempts d \<le> wd_max_attempts d \<and>
     ((wd_status d = ''delivered'' \<and> wd_delivered_at d \<noteq> None \<and> wd_next_attempt_at d = None \<and>
         200 \<le> wd_response_status d \<and> wd_response_status d < 300) \<or>
      (wd_status d = ''retrying'' \<and> wd_attempts d < wd_max_attempts d \<and> wd_next_attempt_at d \<noteq> None \<and>
         wd_delivered_at d = None) \<or>
      (wd_status d = ''failed'' \<and> wd_attempts d = wd_max_attempts d \<and> wd_next_attempt_at d = None \<and>
         wd_delivered_at d = None))"

definition same_event :: "WebhookDelivery \<Rightarrow> WebhookDelivery \<Rightarrow> bool" where
  "same_event d d' \<longleftrightarrow> wd_id d' = wd_id d \<and> wd_tenant_id d' = wd_tenant_id d \<and>
     wd_endpoint_id d' = wd_endpoint_id d \<and> wd_direction d' = wd_direction d \<and>
     wd_event_type d' = wd_event_type d \<and> wd_event_id d' = wd_event_id d \<and>
     wd_message_id d' = wd_message_id d \<and> wd_max_attempts d' = wd_max_attempts d \<and>
     wd_request_body d' = wd_request_body d \<and> wd_created_at d' = wd_created_at d"

lemma outcome_ok:
  assumes "scheduleRetryFields d n w = (d', w')" and "n = wd_attempts d" and "1 \<le> n"
    and "n \<le> wd_max_attempts d" and "wd_delivered_at d = None"
  shows "delivery_ok d'"
  using scheduleRetryFields_frame [OF assms(1)] assms(2-5) by (auto simp: delivery_ok_def split: if_splits)

lemma first_outcome_frame:
  assumes "first_outcome r d w = (d', w')"
  shows "(\<exists>sc t. w' = w\<lparr>hk_script := sc, hk_now := t\<rparr> \<and> hk_now w \<le> t) \<and> same_event d d' \<and> wd_attempts d' = 1 \<and>
    (wd_delivered_at d = None \<longrightarrow> wd_next_attempt_at d = None \<longrightarrow> 1 \<le> wd_max_attempts d \<longrightarrow> delivery_ok d') \<and>
    (wd_status d' = ''delivered'' \<longleftrightarrow> accepted r)"
proof -
  obtain code resp e where r: "r = (code, resp, e)" by (cases r) auto
  let ?d = "d\<lparr>wd_attempts := 1, wd_response_status := code, wd_response_body := resp\<rparr>"
  show ?thesis
  proof (cases "accepted r")
    case True
    obtain t w1 where t: "hook_now w = (t, w1)" by (rule prod.exhaust)
    with assms True r have "d' = ?d\<lparr>wd_status := ''delivered'', wd_delivered_at := Some t\<rparr>" "w' = w1"
      by (auto simp: first_outcome_def Let_def)
    with hook_now_frame [OF t] True r show ?thesis
      by (auto simp: same_event_def delivery_ok_def accepted_def)
  next
    case False
    with assms r have s: "scheduleRetryFields (?d\<lparr>wd_error_message := deliveryError e resp\<rparr>) 1 w = (d', w')"
      by (simp add: first_outcome_def Let_def)
    from scheduleRetryFields_frame [OF s] outcome_ok [OF s] False show ?thesis
      by (auto simp: same_event_def split: if_splits)
  qed
qed

lemma retry_outcome_frame:
  assumes "retry_outcome r d w = (d', w')"
  shows "(\<exists>sc t. w' = w\<lparr>hk_script := sc, hk_now := t\<rparr> \<and> hk_now w \<le> t) \<and> same_event d d' \<and>
    wd_attempts d' = wd_attempts d + 1 \<and>
    (delivery_ok d \<longrightarrow> wd_status d = ''retrying'' \<longrightarrow> delivery_ok d')"
proof -
  obtain code resp e where r: "r = (code, resp, e)" by (cases r) auto
  let ?d = "d\<lparr>wd_attempts := wd_attempts d + 1, wd_response_status := code, wd_response_body := resp\<rparr>"
  show ?thesis
  proof (cases "accepted r")
    case True
    obtain t w1 where t: "hook_now w = (t, w1)" by (rule prod.exhaust)
    with assms True r have "d' = ?d\<lparr>wd_status := ''delivered'', wd_delivered_at := Some t,
        wd_next_attempt_at := None, wd_error_message := []\<rparr>" "w' = w1"
      by (auto simp: retry_outcome_def Let_def)
    with hook_now_frame [OF t] True r show ?thesis
      by (auto simp: same_event_def delivery_ok_def accepted_def)
  next
    case False
    with assms r have s: "scheduleRetryFields (?d\<lparr>wd_error_message := deliveryError e resp\<rparr>)
        (wd_attempts ?d) w = (d', w')"
      by (simp add: retry_outcome_def Let_def)
    have "delivery_ok d'" if "delivery_ok d" "wd_status d = ''retrying''"
      by (rule outcome_ok [OF s]) (use that in \<open>auto simp: delivery_ok_def\<close>)
    with scheduleRetryFields_frame [OF s] show ?thesis
      by (auto simp: same_event_def split: if_splits)
  qed
qed

text \<open>
  One delivery: a request (unless the URL cannot be used), and at most one new row, which belongs to the
  endpoint and to the event.
\<close>

definition delivery_of :: "webhook_service \<Rightarrow> WebhookEndpoint \<Rightarrow> eventEnvelope \<Rightarrow> string \<Rightarrow> WebhookDelivery \<Rightarrow> bool" where
  "delivery_of s e env body d \<longleftrightarrow> wd_tenant_id d = we_tenant_id e \<and> wd_endpoint_id d = we_id e \<and>
     wd_direction d = ev_direction env \<and> wd_event_type d = ev_event_type env \<and>
     wd_event_id d = ev_event_id env \<and> wd_message_id d = ev_message_id env \<and>
     wd_request_body d = body \<and> wd_attempts d = 1 \<and> (0 < ws_max_attempts s \<longrightarrow> delivery_ok d)"

definition request_to :: "webhook_lib \<Rightarrow> eventEnvelope \<Rightarrow> string \<Rightarrow> WebhookEndpoint \<Rightarrow> hook_request list" where
  "request_to lib env body e =
     (if wl_request_error lib (we_url e) = None then [hook_headers lib e env body] else [])"

lemma delivery_row_frame:
  assumes "d' = delivery_row uuid now d" and "wd_id d = []" and "wd_created_at d = 0" and "wd_max_attempts d \<noteq> 0"
  shows "d' = d\<lparr>wd_id := uuid, wd_created_at := now\<rparr>"
  using assms by (simp add: delivery_row_def ensureID_def)

lemma deliver_frame:
  assumes "deliver s lib e env body w = (r, w')" and "0 < ws_max_attempts s"
  shows "dr_endpoint_id r = we_id e \<and> hk_requests w' = hk_requests w @ request_to lib env body e \<and>
    hk_ai w' = hk_ai w \<and> hk_inbound w' = hk_inbound w \<and> hk_ids w' = Suc (hk_ids w) \<and> hk_now w \<le> hk_now w' \<and>
    wb_endpoints (hk_db w') = wb_endpoints (hk_db w) \<and>
    (wb_deliveries (hk_db w') = wb_deliveries (hk_db w) \<or>
     (\<exists>d. wb_deliveries (hk_db w') = wb_deliveries (hk_db w) @ [d] \<and> delivery_of s e env body d \<and>
        wd_id d = ''id-'' @ show_nat (hk_ids w) \<and> hk_now w \<le> wd_created_at d))"
proof -
  obtain r1 w1 where send: "sendOnce lib e env body w = (r1, w1)" by (rule prod.exhaust)
  obtain d w2 where out: "first_outcome r1 (new_delivery s e env body) w1 = (d, w2)" by (rule prod.exhaust)
  obtain uuid w3 where i: "hook_id w2 = (uuid, w3)" by (rule prod.exhaust)
  obtain now w4 where t: "hook_now w3 = (now, w4)" by (rule prod.exhaust)
  obtain x w5 where st: "hook_statement (CreateDelivery uuid now d) w4 = (x, w5)" by (rule prod.exhaust)
  from assms(1) send out i t st have w': "w' = w5" and r: "dr_endpoint_id r = we_id e"
    by (auto simp: deliver_def)
  from sendOnce_frame [OF send] obtain sc1 where w1: "w1 = w\<lparr>hk_script := sc1,
      hk_requests := hk_requests w @ request_to lib env body e\<rparr>" unfolding request_to_def by blast
  note fo = first_outcome_frame [OF out]
  from fo obtain sc2 t2 where w2: "w2 = w1\<lparr>hk_script := sc2, hk_now := t2\<rparr>" "hk_now w1 \<le> t2" by blast
  from fo have d: "same_event (new_delivery s e env body) d" "wd_attempts d = 1" "delivery_ok d"
    using assms(2) by (auto simp: new_delivery_def)
  from i have w3: "uuid = ''id-'' @ show_nat (hk_ids w2)" "w3 = w2\<lparr>hk_ids := Suc (hk_ids w2)\<rparr>"
    by (auto simp: hook_id_def)
  from hook_now_frame [OF t] obtain sc4 where w4: "w4 = w3\<lparr>hk_script := sc4, hk_now := now\<rparr>" "hk_now w3 \<le> now"
    by blast
  let ?row = "d\<lparr>wd_id := uuid, wd_created_at := now\<rparr>"
  have row: "CreateDelivery uuid now d db = (?row, db\<lparr>wb_deliveries := wb_deliveries db @ [?row]\<rparr>)" for db
    using d(1) assms(2) by (simp add: CreateDelivery_def delivery_row_frame same_event_def new_delivery_def Let_def)
  have dof: "delivery_of s e env body ?row"
    using d by (auto simp: delivery_of_def same_event_def new_delivery_def delivery_ok_def)
  have base: "hk_requests w4 = hk_requests w @ request_to lib env body e" "hk_ai w4 = hk_ai w"
    "hk_inbound w4 = hk_inbound w" "hk_ids w4 = Suc (hk_ids w)" "hk_now w4 = now" "hk_now w \<le> now" "hk_db w4 = hk_db w"
    "uuid = ''id-'' @ show_nat (hk_ids w)"
    using w1 w2 w3 w4 by auto
  from st show ?thesis
  proof (cases rule: hook_statement_cases)
    case (failed x sc)
    with base w' r show ?thesis by simp
  qed (use base w' r row dof in auto)
qed

text \<open>Rows whose ids were made one after the other, between two counts of the ids handed out.\<close>

definition id_rows :: "nat \<Rightarrow> nat \<Rightarrow> WebhookDelivery list \<Rightarrow> bool" where
  "id_rows a b ds \<longleftrightarrow> (\<exists>ks. map wd_id ds = map (\<lambda>k. ''id-'' @ show_nat k) ks \<and> sorted_wrt (<) ks \<and>
     set ks \<subseteq> {a..<b})"

lemma id_rows_Nil [simp]: "id_rows a b []"
  by (simp add: id_rows_def)

lemma id_rows_mono: "id_rows a b ds \<Longrightarrow> a' \<le> a \<Longrightarrow> b \<le> b' \<Longrightarrow> id_rows a' b' ds"
  unfolding id_rows_def by (elim exE conjE) (rule exI, intro conjI, assumption+, fastforce)

lemma id_rows_Cons:
  assumes "id_rows (Suc a) b ds" and "wd_id d = ''id-'' @ show_nat a" and "a < b"
  shows "id_rows a b (d # ds)"
proof -
  from assms(1) obtain ks where "map wd_id ds = map (\<lambda>k. ''id-'' @ show_nat k) ks" "sorted_wrt (<) ks"
    "set ks \<subseteq> {Suc a..<b}" by (auto simp: id_rows_def)
  with assms(2,3) show ?thesis unfolding id_rows_def
    by (intro exI [of _ "a # ks"]) auto
qed

definition new_rows ::
  "webhook_service \<Rightarrow> eventEnvelope \<Rightarrow> string \<Rightarrow> WebhookEndpoint list \<Rightarrow> time \<Rightarrow> WebhookDelivery list \<Rightarrow> bool" where
  "new_rows s env body es t ds \<longleftrightarrow> (\<forall>d \<in> set ds. t \<le> wd_created_at d \<and>
     (\<exists>e \<in> set es. shouldDeliver e (ev_direction env) \<and> delivery_of s e env body d))"

lemma new_rows_mono: "new_rows s env body es t ds \<Longrightarrow> t' \<le> t \<Longrightarrow> set es \<subseteq> set es' \<Longrightarrow> new_rows s env body es' t' ds"
  unfolding new_rows_def by (meson order_trans subsetD)

lemma deliver_all_frame:
  assumes "deliver_all s lib env body es w = (rs, w')" and "0 < ws_max_attempts s"
  shows "map dr_endpoint_id rs = map we_id (filter (\<lambda>e. shouldDeliver e (ev_direction env)) es) \<and>
    hk_requests w' = hk_requests w @
      concat (map (request_to lib env body) (filter (\<lambda>e. shouldDeliver e (ev_direction env)) es)) \<and>
    hk_ai w' = hk_ai w \<and> hk_inbound w' = hk_inbound w \<and> hk_ids w \<le> hk_ids w' \<and> hk_now w \<le> hk_now w' \<and>
    wb_endpoints (hk_db w') = wb_endpoints (hk_db w) \<and>
    (\<exists>ds. wb_deliveries (hk_db w') = wb_deliveries (hk_db w) @ ds \<and> id_rows (hk_ids w) (hk_ids w') ds \<and>
       new_rows s env body es (hk_now w) ds)"
  using assms(1)
proof (induction es arbitrary: w rs)
  case Nil
  then show ?case by (simp add: new_rows_def)
next
  case (Cons e es)
  show ?case
  proof (cases "shouldDeliver e (ev_direction env)")
    case False
    with Cons.prems have "deliver_all s lib env body es w = (rs, w')" by simp
    from Cons.IH [OF this] False show ?thesis
      by (auto simp: new_rows_def)
  next
    case True
    obtain r w1 where d1: "deliver s lib e env body w = (r, w1)" by (rule prod.exhaust)
    obtain rs' w2 where d2: "deliver_all s lib env body es w1 = (rs', w2)" by (rule prod.exhaust)
    from Cons.prems True d1 d2 have eq: "rs = r # rs'" "w2 = w'" by auto
    note f = deliver_frame [OF d1 assms(2)] and ih = Cons.IH [OF d2 [unfolded eq(2)]]
    from ih obtain ds where ds: "wb_deliveries (hk_db w') = wb_deliveries (hk_db w1) @ ds"
      "id_rows (hk_ids w1) (hk_ids w') ds" "new_rows s env body es (hk_now w1) ds" by blast
    from f ih have n: "hk_ids w1 = Suc (hk_ids w)" "hk_now w \<le> hk_now w1" "hk_ids w1 \<le> hk_ids w'" by auto
    from ds(3) n(2) have tl: "new_rows s env body (e # es) (hk_now w) ds" by (rule new_rows_mono) auto
    from f consider (no) "wb_deliveries (hk_db w1) = wb_deliveries (hk_db w)"
      | (row) d where "wb_deliveries (hk_db w1) = wb_deliveries (hk_db w) @ [d]" "delivery_of s e env body d"
        "wd_id d = ''id-'' @ show_nat (hk_ids w)" "hk_now w \<le> wd_created_at d" by blast
    then have rows: "\<exists>ds. wb_deliveries (hk_db w') = wb_deliveries (hk_db w) @ ds \<and>
        id_rows (hk_ids w) (hk_ids w') ds \<and> new_rows s env body (e # es) (hk_now w) ds"
    proof cases
      case no
      from ds(2) n have "id_rows (hk_ids w) (hk_ids w') ds" by (auto intro: id_rows_mono)
      with no ds(1) tl show ?thesis by auto
    next
      case (row d)
      from ds(2) row(3) n have "id_rows (hk_ids w) (hk_ids w') (d # ds)" by (auto intro: id_rows_Cons)
      moreover from tl row True have "new_rows s env body (e # es) (hk_now w) (d # ds)"
        by (simp add: new_rows_def)
      ultimately show ?thesis using row(1) ds(1) by auto
    qed
    from f ih n have "map dr_endpoint_id rs' = map we_id (filter (\<lambda>e. shouldDeliver e (ev_direction env)) es)"
      "hk_requests w' = hk_requests w @ request_to lib env body e @
        concat (map (request_to lib env body) (filter (\<lambda>e. shouldDeliver e (ev_direction env)) es))"
      "hk_ai w' = hk_ai w" "hk_inbound w' = hk_inbound w" "hk_ids w \<le> hk_ids w'" "hk_now w \<le> hk_now w'"
      "wb_endpoints (hk_db w') = wb_endpoints (hk_db w)" "dr_endpoint_id r = we_id e"
      by auto
    with rows eq True show ?thesis by simp
  qed
qed

lemma retryDelivery_frame:
  assumes "retryDelivery lib d w = (d', w')"
  shows "same_event d d' \<and> wd_attempts d' = wd_attempts d + 1 \<and>
    (delivery_ok d \<longrightarrow> wd_status d = ''retrying'' \<longrightarrow> delivery_ok d') \<and>
    (\<exists>e. wb_endpoints (hk_db w') = wb_endpoints (hk_db w) \<and>
       hk_requests w' = hk_requests w @ request_to lib (retry_envelope d) (wd_request_body d) e) \<and>
    hk_ids w' = hk_ids w \<and> hk_now w \<le> hk_now w' \<and> hk_db w' \<in> {hk_db w, UpdateDelivery d' (hk_db w)}"
proof -
  obtain st w1 where q: "hook_query (webhook_repo_GetByID (wd_tenant_id d) (wd_endpoint_id d)) w = (st, w1)"
    by (rule prod.exhaust)
  define e where "e = (case st of Inr (Some e) \<Rightarrow> e | _ \<Rightarrow> recorded_endpoint d)"
  obtain r w2 where send: "sendOnce lib e (retry_envelope d) (wd_request_body d) w1 = (r, w2)"
    by (rule prod.exhaust)
  obtain d2 w3 where out: "retry_outcome r d w2 = (d2, w3)" by (rule prod.exhaust)
  obtain x w4 where up: "hook_statement (\<lambda>db. ((), UpdateDelivery d2 db)) w3 = (x, w4)" by (rule prod.exhaust)
  from assms q send out up have eq: "d2 = d'" "w4 = w'"
    by (auto simp: retryDelivery_def Let_def e_def [symmetric])
  from hook_query_frame [OF q] obtain sc1 where w1: "w1 = w\<lparr>hk_script := sc1\<rparr>" by blast
  from sendOnce_frame [OF send] obtain sc2 where w2: "w2 = w1\<lparr>hk_script := sc2, hk_requests := hk_requests w1 @
      request_to lib (retry_envelope d) (wd_request_body d) e\<rparr>" unfolding request_to_def by blast
  note ro = retry_outcome_frame [OF out]
  from ro obtain sc3 t3 where w3: "w3 = w2\<lparr>hk_script := sc3, hk_now := t3\<rparr>" "hk_now w2 \<le> t3" by blast
  from up have "\<exists>sc db. w4 = w3\<lparr>hk_script := sc, hk_db := db\<rparr> \<and> db \<in> {hk_db w3, UpdateDelivery d2 (hk_db w3)}"
  proof (cases rule: hook_statement_cases)
    case (failed x sc)
    then have "w4 = w3\<lparr>hk_script := sc, hk_db := hk_db w3\<rparr>" by simp
    then show ?thesis by blast
  qed auto
  then obtain sc4 db where w4: "w4 = w3\<lparr>hk_script := sc4, hk_db := db\<rparr>" "db \<in> {hk_db w3, UpdateDelivery d2 (hk_db w3)}"
    by blast
  show ?thesis using ro w1 w2 w3 w4 eq by auto
qed

section \<open>Properties\<close>

text \<open>
  The pauses between attempts double from 30 seconds to the cap of 30 minutes, as long as fewer than 30
  attempts were made; the thirtieth pause wraps around to a time in the past, and from the fifty-fifth on
  there is no pause at all, so with a larger budget of attempts a failing endpoint is flooded.
\<close>

theorem backoff_bounds:
  "(\<forall>n \<in> {1..29}. backoffFor n = min (30 * minute) (30 * second * 2 ^ nat (n - 1))) \<and>
   backoffFor 30 < 0 \<and> backoffFor 55 = 0"
proof (intro conjI ballI)
  fix n :: int assume n: "n \<in> {1..29}"
  then have "(2::int) ^ nat (n - 1) \<le> 2 ^ 28" by (intro power_increasing) auto
  moreover have "(0::int) \<le> 2 ^ nat (n - 1)" by simp
  moreover have "fits64 (30 * second * x)" if "x \<le> 2 ^ 28" "0 \<le> x" for x
    using that by (simp add: fits64_def second_def)
  ultimately have "fits64 (30 * second * 2 ^ nat (n - 1))" by blast
  then show "backoffFor n = min (30 * minute) (30 * second * 2 ^ nat (n - 1))"
    by (simp add: backoffFor_def Let_def min_def)
qed code_simp+

lemma backoff_bounds_witness: "map backoffFor [1, 2, 7] = [30 * second, 60 * second, 30 * minute]"
proof -
  have "backoffFor 1 = 30 * second" "backoffFor 2 = 60 * second" "backoffFor 7 = 30 * minute"
    using conjunct1 [OF backoff_bounds] by (simp_all add: min_def minute_def second_def)
  then show ?thesis by simp
qed

text \<open>
  An endpoint that is registered for one direction only is stored with both: the columns have the
  default true, which GORM writes in place of the zero value false. So it gets the events it was not
  registered for.
\<close>

theorem Create_enables_both:
  assumes "webhook_Create lib tenantID inp w = (Inr e, w')"
  shows "we_tenant_id e = tenantID \<and> we_name e = trim_space (wc_name inp) \<and> we_name e \<noteq> [] \<and>
    wl_scheme lib (we_url e) \<in> {Some ''http'', Some ''https''} \<and>
    we_inbound_enabled e \<and> we_outbound_enabled e \<and> wb_endpoints (hk_db w') = wb_endpoints (hk_db w) @ [e]"
proof -
  from assms have url: "trim_space (wc_name inp) \<noteq> []" "validateWebhookURL lib (wc_url inp) = None"
    by (auto simp: webhook_Create_def split: if_splits option.splits)
  obtain uuid w1 where i: "hook_id w = (uuid, w1)" by (rule prod.exhaust)
  obtain now w2 where t: "hook_now w1 = (now, w2)" by (rule prod.exhaust)
  from assms url i t have st:
    "hook_statement (webhook_repo_Create uuid now (new_endpoint tenantID inp)) w2 = (Inr e, w')"
    by (auto simp: webhook_Create_def split: if_splits)
  from i have w1: "hk_db w1 = hk_db w" by (auto simp: hook_id_def)
  from hook_now_frame [OF t] w1 have w2: "hk_db w2 = hk_db w" by auto
  have sch: "wl_scheme lib (trim_space (wc_url inp)) \<in> {Some ''http'', Some ''https''}"
    using url(2) by (auto simp: validateWebhookURL_def split: option.splits if_splits)
  from st show ?thesis
    by (cases rule: hook_statement_cases)
       (use url sch w2 in \<open>auto simp: webhook_repo_Create_def endpoint_row_def new_endpoint_def Let_def\<close>)
qed

definition sample_lib :: webhook_lib where
  "sample_lib =
     \<lparr>wl_scheme = (\<lambda>u. if has_prefix u ''https:'' then Some ''https'' else None),
      wl_request_error = (\<lambda>_. None), wl_marshal = (\<lambda>e. Inr (ev_event_id e)), wl_hmac = (\<lambda>k b. k @ b)\<rparr>"

definition sample_hook :: "hook_event list \<Rightarrow> hook_world" where
  "sample_hook script =
     \<lparr>hk_db = \<lparr>wb_endpoints = [], wb_deliveries = []\<rparr>, hk_now = 1000, hk_script = script, hk_requests = [],
      hk_ai = [], hk_inbound = empty_registry, hk_ids = 0\<rparr>"

definition sample_create :: webhook_CreateInput where
  "sample_create = \<lparr>wc_name = ''crm'', wc_url = ''https://crm'', wc_inbound_enabled = False,
     wc_outbound_enabled = True, wc_signing_secret = ''k''\<rparr>"

definition sample_endpoint_world :: "hook_event list \<Rightarrow> hook_world" where
  "sample_endpoint_world script =
     (snd (webhook_Create sample_lib ''t1'' sample_create (sample_hook [])))\<lparr>hk_script := script\<rparr>"

lemma Create_enables_both_witness:
  "\<exists>e w'. webhook_Create sample_lib ''t1'' sample_create (sample_hook []) = (Inr e, w') \<and>
     \<not> wc_inbound_enabled sample_create \<and> we_inbound_enabled e"
proof -
  obtain e w' where c: "webhook_Create sample_lib ''t1'' sample_create (sample_hook []) = (Inr e, w')"
  proof -
    have "\<not> isl (fst (webhook_Create sample_lib ''t1'' sample_create (sample_hook [])))" by code_simp
    then show thesis using that by (metis prod.collapse sum.collapse(2))
  qed
  from Create_enables_both [OF c] c show ?thesis by (auto simp: sample_create_def)
qed

text \<open>What a dispatch that is no duplicate sends and records.\<close>

lemma ListByTenant_tenant:
  "set (webhook_repo_ListByTenant t db) = {e \<in> set (wb_endpoints db). we_tenant_id e = t}"
  by (auto simp: webhook_repo_ListByTenant_def)

definition event_type_of :: "string \<Rightarrow> DispatchInput \<Rightarrow> string" where
  "event_type_of direction inp = NormalizeEventType (trim_space (di_event_type inp)) direction (di_data inp)"

definition event_for :: "string \<Rightarrow> string \<Rightarrow> DispatchInput \<Rightarrow> eventEnvelope \<Rightarrow> bool" where
  "event_for tenantID direction inp env \<longleftrightarrow> ev_tenant_id env = tenantID \<and> ev_direction env = direction \<and>
     ev_event_type env = event_type_of direction inp \<and> ev_message_id env = trim_space (di_message_id inp)"

lemma dispatch_new_cases:
  assumes "dispatch_new s lib tenantID direction inp w = (r, w')" and "0 < ws_max_attempts s"
  obtains (error) e where "r = Inl e" "hk_requests w' = hk_requests w" "hk_db w' = hk_db w" "hk_ids w \<le> hk_ids w'"
      "hk_ai w' = hk_ai w" "hk_now w \<le> hk_now w'"
  | (sent) rs env body w1 where "r = Inr rs" "wl_marshal lib env = Inr body" "event_for tenantID direction inp env"
      "deliver_all s lib env body (webhook_repo_ListByTenant tenantID (hk_db w)) w1 = (rs, w')"
      "hk_requests w1 = hk_requests w" "hk_db w1 = hk_db w" "hk_ids w1 = Suc (hk_ids w)" "hk_now w \<le> hk_now w1"
      "hk_ai w1 = hk_ai w" "ev_event_id env = ''id-'' @ show_nat (hk_ids w)"
proof -
  obtain q w1 where q: "hook_query (webhook_repo_ListByTenant tenantID) w = (q, w1)" by (rule prod.exhaust)
  from hook_query_frame [OF q] obtain sc1 where w1: "w1 = w\<lparr>hk_script := sc1\<rparr>"
    and qv: "\<And>x. q = Inr x \<Longrightarrow> x = webhook_repo_ListByTenant tenantID (hk_db w)" by blast
  show thesis
  proof (cases q)
    case (Inl e)
    with assms q w1 error show thesis by (auto simp: dispatch_new_def)
  next
    case (Inr es)
    obtain i w2 where i: "hook_id w1 = (i, w2)" by (rule prod.exhaust)
    obtain n w3 where n: "hook_now w2 = (n, w3)" by (rule prod.exhaust)
    obtain n' w4 where n': "hook_now w3 = (n', w4)" by (rule prod.exhaust)
    from i have w2: "w2 = w1\<lparr>hk_ids := Suc (hk_ids w1)\<rparr>" "i = ''id-'' @ show_nat (hk_ids w1)"
      by (auto simp: hook_id_def)
    from hook_now_frame [OF n] obtain sc3 where w3: "w3 = w2\<lparr>hk_script := sc3, hk_now := n\<rparr>" "hk_now w2 \<le> n" by blast
    from hook_now_frame [OF n'] obtain sc4 where w4: "w4 = w3\<lparr>hk_script := sc4, hk_now := n'\<rparr>" "hk_now w3 \<le> n'" by blast
    let ?env = "new_envelope i tenantID direction inp n n'"
    have ev: "event_for tenantID direction inp ?env"
      by (simp add: event_for_def event_type_of_def new_envelope_def Let_def)
    have id: "ev_event_id ?env = ''id-'' @ show_nat (hk_ids w)"
      using w1 w2 by (simp add: new_envelope_def Let_def)
    have f: "hk_requests w4 = hk_requests w" "hk_db w4 = hk_db w" "hk_ids w4 = Suc (hk_ids w)" "hk_ai w4 = hk_ai w"
      "hk_now w \<le> hk_now w4" using w1 w2 w3 w4 by auto
    have run: "(case wl_marshal lib ?env of Inl e \<Rightarrow> (Inl e, w4)
        | Inr body \<Rightarrow> (case deliver_all s lib ?env body es w4 of (rs, w) \<Rightarrow> (Inr rs, w))) = (r, w')"
      using assms(1) q Inr i n n' by (simp add: dispatch_new_def Let_def)
    show thesis
    proof (cases "wl_marshal lib ?env")
      case (Inl e)
      with run f error show thesis by auto
    next
      case (Inr body)
      obtain rs w5 where d: "deliver_all s lib ?env body es w4 = (rs, w5)" by (rule prod.exhaust)
      with run Inr have "r = Inr rs" "w5 = w'" by auto
      with d \<open>q = Inr es\<close> qv have "deliver_all s lib ?env body (webhook_repo_ListByTenant tenantID (hk_db w)) w4 = (rs, w')"
        by simp
      from sent [OF \<open>r = Inr rs\<close> Inr ev this f(1-3) f(5,4) id] show thesis .
    qed
  qed
qed

lemma already_dispatched_frame:
  assumes "already_dispatched s tenantID direction inp w = (seen, w')"
  shows "hk_db w' = hk_db w \<and> hk_requests w' = hk_requests w \<and> hk_ids w' = hk_ids w \<and> hk_ai w' = hk_ai w \<and>
    hk_now w \<le> hk_now w' \<and> hk_inbound w' = hk_inbound w"
proof (cases "direction = ''inbound'' \<and> trim_space (di_message_id inp) \<noteq> []")
  case False
  with assms show ?thesis by (auto simp: already_dispatched_def Let_def)
next
  case True
  obtain n w1 where n: "hook_now w = (n, w1)" by (rule prod.exhaust)
  obtain q w2 where q: "hook_query (HasRecentDelivery tenantID direction
      (NormalizeEventType (trim_space (di_event_type inp)) direction (di_data inp)) (trim_space (di_message_id inp))
      (n - ws_dedupe_window s)) w1 = (q, w2)" by (rule prod.exhaust)
  from assms True n q have "w' = w2" by (auto simp: already_dispatched_def Let_def split: sum.splits)
  with hook_now_frame [OF n] hook_query_frame [OF q] show ?thesis by auto
qed

lemma webhook_dispatch_cases:
  assumes "webhook_dispatch s lib tenantID direction inp w = (r, w')"
  obtains (invalid) "trim_space (di_event_type inp) = []" "\<exists>e. r = Inl e" "w' = w"
  | (duplicate) w1 where "already_dispatched s tenantID direction inp w = (True, w1)" "r = Inr []" "w' = w1"
  | (new) w1 where "already_dispatched s tenantID direction inp w = (False, w1)"
      "dispatch_new s lib tenantID direction inp w1 = (r, w')"
  using assms by (auto simp: webhook_dispatch_def split: if_splits prod.splits bool.splits)

lemma concat_singletons: "(\<And>x. x \<in> set xs \<Longrightarrow> f x = [g x]) \<Longrightarrow> concat (map f xs) = map g xs"
  by (induction xs) auto

text \<open>
  C12: an event that is no duplicate goes to exactly the tenant's endpoints that are enabled for its
  direction, each with one request and one result, whatever happens to the other endpoints: all requests
  carry the same body and event id, and those of an endpoint with a signing secret the signature of the
  body under it.
\<close>

theorem dispatch_reaches:
  assumes "webhook_dispatch s lib tenantID direction inp w = (Inr rs, w')" and "0 < ws_max_attempts s"
    and "\<not> fst (already_dispatched s tenantID direction inp w)"
    and "\<forall>e \<in> set (wb_endpoints (hk_db w)). wl_request_error lib (we_url e) = None"
  shows "\<exists>env body. let es = filter (\<lambda>e. if direction = ''inbound'' then we_inbound_enabled e else we_outbound_enabled e)
        (webhook_repo_ListByTenant tenantID (hk_db w)) in
    wl_marshal lib env = Inr body \<and> ev_tenant_id env = tenantID \<and> ev_direction env = direction \<and>
    ev_event_type env = NormalizeEventType (trim_space (di_event_type inp)) direction (di_data inp) \<and>
    map dr_endpoint_id rs = map we_id es \<and>
    hk_requests w' = hk_requests w @ map (\<lambda>e.
      \<lparr>hr_url = we_url e, hr_tenant_id = tenantID, hr_event_type = ev_event_type env, hr_direction = direction,
       hr_event_id = ev_event_id env,
       hr_signature = (if we_signing_secret e = [] then None else Some (wl_hmac lib (we_signing_secret e) body)),
       hr_body = body\<rparr>) es"
  using assms(1)
proof (cases rule: webhook_dispatch_cases)
  case (new w1)
  note f = already_dispatched_frame [OF new(1)]
  from new(2) assms(2) show ?thesis
  proof (cases rule: dispatch_new_cases)
    case (sent rs0 env body w2)
    let ?es = "filter (\<lambda>e. shouldDeliver e direction) (webhook_repo_ListByTenant tenantID (hk_db w))"
    from sent f have d: "deliver_all s lib env body (webhook_repo_ListByTenant tenantID (hk_db w)) w2 = (rs, w')"
      "hk_requests w2 = hk_requests w" by auto
    from sent(3) have ev: "ev_tenant_id env = tenantID" "ev_direction env = direction"
      "ev_event_type env = NormalizeEventType (trim_space (di_event_type inp)) direction (di_data inp)"
      by (auto simp: event_for_def event_type_of_def)
    define req where "req (e :: WebhookEndpoint) = \<lparr>hr_url = we_url e, hr_tenant_id = tenantID,
       hr_event_type = ev_event_type env, hr_direction = direction, hr_event_id = ev_event_id env,
       hr_signature = (if we_signing_secret e = [] then None else Some (wl_hmac lib (we_signing_secret e) body)),
       hr_body = body\<rparr>" for e :: WebhookEndpoint
    have "concat (map (request_to lib env body) ?es) = map req ?es"
    proof (rule concat_singletons)
      fix e assume "e \<in> set ?es"
      then have "we_tenant_id e = tenantID" "wl_request_error lib (we_url e) = None"
        using assms(4) by (auto simp: ListByTenant_tenant)
      then show "request_to lib env body e = [req e]"
        using ev(2) by (simp add: request_to_def hook_headers_def req_def)
    qed
    then have req: "hk_requests w' = hk_requests w @ map req ?es"
      using deliver_all_frame [OF d(1) assms(2), THEN conjunct2, THEN conjunct1] d(2) ev(2) by metis
    have res: "map dr_endpoint_id rs = map we_id ?es"
      using deliver_all_frame [OF d(1) assms(2), THEN conjunct1] ev(2) by metis
    show ?thesis
      unfolding Let_def shouldDeliver_def [symmetric]
      by (intro exI [of _ env] exI [of _ body] conjI) (rule sent(2) ev res req [unfolded req_def])+
  qed simp
qed (use assms(3) in auto)

definition sample_event :: DispatchInput where
  "sample_event = \<lparr>di_event_type = ''message'', di_instance_id = ''i1'', di_message_id = ''m1'',
     di_data = [(''from'', JStr ''5511@s.whatsapp.net''), (''text'', JStr ''hello'')]\<rparr>"

lemma dispatch_reaches_witness:
  "\<exists>rs w'. webhook_dispatch webhook_NewService sample_lib ''t1'' ''inbound'' sample_event
      (sample_endpoint_world []) = (Inr rs, w') \<and> length rs = 1"
proof -
  let ?r = "webhook_dispatch webhook_NewService sample_lib ''t1'' ''inbound'' sample_event (sample_endpoint_world [])"
  have "\<not> isl (fst ?r)" by code_simp
  then obtain rs w' where r: "?r = (Inr rs, w')" by (metis prod.collapse sum.collapse(2))
  have "\<not> fst (already_dispatched webhook_NewService ''t1'' ''inbound'' sample_event (sample_endpoint_world []))"
    by code_simp
  moreover have "0 < ws_max_attempts webhook_NewService" by (simp add: webhook_NewService_def)
  moreover have "\<forall>e \<in> set (wb_endpoints (hk_db (sample_endpoint_world []))). wl_request_error sample_lib (we_url e) = None"
    by (simp add: sample_lib_def)
  ultimately have "map dr_endpoint_id rs = map we_id (filter (\<lambda>e. shouldDeliver e ''inbound'')
      (webhook_repo_ListByTenant ''t1'' (hk_db (sample_endpoint_world []))))"
    using dispatch_reaches [OF r] unfolding Let_def shouldDeliver_def [symmetric] by blast
  moreover have "length (filter (\<lambda>e. shouldDeliver e ''inbound'')
      (webhook_repo_ListByTenant ''t1'' (hk_db (sample_endpoint_world [])))) = 1" by code_simp
  ultimately have "length rs = 1" by (metis length_map)
  with r show ?thesis by blast
qed

text \<open>The rows an inbound dispatch adds make a repetition within the window a duplicate.\<close>

lemma dispatch_rows:
  assumes "webhook_dispatch s lib tenantID direction inp w = (r, w')" and "0 < ws_max_attempts s"
    and "d \<in> set (wb_deliveries (hk_db w'))" and "d \<notin> set (wb_deliveries (hk_db w))"
  shows "wd_tenant_id d = tenantID \<and> wd_direction d = direction \<and> wd_event_type d = event_type_of direction inp \<and>
    wd_message_id d = trim_space (di_message_id inp) \<and> hk_now w \<le> wd_created_at d"
  using assms(1)
proof (cases rule: webhook_dispatch_cases)
  case invalid
  with assms show ?thesis by simp
next
  case (duplicate w1)
  with already_dispatched_frame [OF duplicate(1)] assms show ?thesis by simp
next
  case (new w1)
  note f = already_dispatched_frame [OF new(1)]
  from new(2) assms(2) show ?thesis
  proof (cases rule: dispatch_new_cases)
    case (error e)
    with f assms show ?thesis by simp
  next
    case (sent rs env body w2)
    from deliver_all_frame [OF sent(4) assms(2)] obtain ds where
      ds: "wb_deliveries (hk_db w') = wb_deliveries (hk_db w2) @ ds"
        "new_rows s env body (webhook_repo_ListByTenant tenantID (hk_db w1)) (hk_now w2) ds" by blast
    with sent f assms have "d \<in> set ds" by auto
    with ds(2) obtain e where "e \<in> set (webhook_repo_ListByTenant tenantID (hk_db w1))"
      "delivery_of s e env body d" "hk_now w2 \<le> wd_created_at d" by (auto simp: new_rows_def)
    with sent f show ?thesis
      by (auto simp: delivery_of_def event_for_def ListByTenant_tenant)
  qed
qed

lemma notify_frame:
  "hk_db (notifyInboundConversationFallback inp w) = hk_db w \<and>
   hk_requests (notifyInboundConversationFallback inp w) = hk_requests w \<and>
   hk_ai (notifyInboundConversationFallback inp w) = hk_ai w \<and>
   hk_ids (notifyInboundConversationFallback inp w) = hk_ids w \<and>
   hk_now w \<le> hk_now (notifyInboundConversationFallback inp w) \<and>
   (hk_script w = [] \<longrightarrow> hk_script (notifyInboundConversationFallback inp w) = [] \<and>
      hk_now (notifyInboundConversationFallback inp w) = hk_now w)"
proof -
  obtain t w1 where t: "hook_now w = (t, w1)" by (rule prod.exhaust)
  from hook_now_frame [OF t] t show ?thesis
    by (auto simp: notifyInboundConversationFallback_def Let_def hook_now_def hook_next_def split: list.splits)
qed

lemma DispatchInbound_eq:
  assumes "webhook_dispatch s lib tenantID ''inbound'' inp (notifyInboundConversationFallback inp w) = (r, w1)"
  shows "DispatchInbound s lib tenantID inp w =
    (r, case r of Inl _ \<Rightarrow> w1
        | Inr _ \<Rightarrow> if ws_has_ai s then w1\<lparr>hk_ai := hk_ai w1 @ [(tenantID, ai_trigger inp)]\<rparr> else w1)"
  using assms by (cases r) (auto simp: DispatchInbound_def)

text \<open>
  C13: an inbound message that was dispatched and recorded is not delivered again within ten minutes: no
  request is sent, no row is written, and the answer is an empty list of results. But the AI service is
  triggered a second time, so a webhook that is called twice gets two replies.
\<close>

theorem duplicates_suppressed:
  assumes "DispatchInbound s lib tenantID inp w = (r, w1)" and "0 < ws_max_attempts s"
    and "trim_space (di_event_type inp) \<noteq> []" and "trim_space (di_message_id inp) \<noteq> []"
    and "\<exists>d \<in> set (wb_deliveries (hk_db w1)). d \<notin> set (wb_deliveries (hk_db w))"
    and "hk_db w2 = hk_db w1" and "hk_script w2 = []" and "hk_now w2 \<le> hk_now w + ws_dedupe_window s"
  shows "\<exists>w3. DispatchInbound s lib tenantID inp w2 = (Inr [], w3) \<and> hk_requests w3 = hk_requests w2 \<and>
    hk_db w3 = hk_db w2 \<and>
    hk_ai w3 = (if ws_has_ai s then hk_ai w2 @ [(tenantID, ai_trigger inp)] else hk_ai w2)"
proof -
  let ?n = "notifyInboundConversationFallback inp"
  obtain r0 w0 where d0: "webhook_dispatch s lib tenantID ''inbound'' inp (?n w) = (r0, w0)" by (rule prod.exhaust)
  from DispatchInbound_eq [OF d0] assms(1) have db1: "hk_db w1 = hk_db w0"
    by (cases r0) (auto split: if_splits)
  from assms(5) obtain d where d: "d \<in> set (wb_deliveries (hk_db w0))" "d \<notin> set (wb_deliveries (hk_db (?n w)))"
    using db1 notify_frame [of inp w] by auto
  note row = dispatch_rows [OF d0 assms(2) d]
  have seen: "HasRecentDelivery tenantID ''inbound'' (event_type_of ''inbound'' inp) (trim_space (di_message_id inp))
      (hk_now w2 - ws_dedupe_window s) (hk_db w2)"
    using row d(1) assms(4,6,8) db1 notify_frame [of inp w] by (auto simp: HasRecentDelivery_def intro!: bexI [of _ d])
  have n2: "hk_db (?n w2) = hk_db w2" "hk_script (?n w2) = []" "hk_now (?n w2) = hk_now w2"
    "hk_requests (?n w2) = hk_requests w2" "hk_ai (?n w2) = hk_ai w2"
    using notify_frame [of inp w2] assms(7) by auto
  obtain nw where nw: "nw = ?n w2" by simp
  have "already_dispatched s tenantID ''inbound'' inp nw = (True, nw)"
    using seen n2 assms(4) unfolding nw [symmetric]
    by (simp add: already_dispatched_def Let_def hook_now_def hook_query_def hook_statement_def hook_next_def
        event_type_of_def)
  then have "webhook_dispatch s lib tenantID ''inbound'' inp (?n w2) = (Inr [], nw)"
    using assms(3) nw by (simp add: webhook_dispatch_def)
  from DispatchInbound_eq [OF this] n2 nw show ?thesis by auto
qed

lemma duplicates_suppressed_witness:
  "let s = SetAITrigger webhook_NewService;
       (r, w1) = DispatchInbound s sample_lib ''t1'' sample_event (sample_endpoint_world [HReplies 500 ''no'']);
       (r', w3) = DispatchInbound s sample_lib ''t1'' sample_event w1
   in length (hk_requests w1) = 1 \<and> hk_requests w3 = hk_requests w1 \<and> length (hk_ai w3) = 2"
proof -
  let ?s = "SetAITrigger webhook_NewService" and ?w = "sample_endpoint_world [HReplies 500 ''no'']"
  obtain r w1 where r: "DispatchInbound ?s sample_lib ''t1'' sample_event ?w = (r, w1)" by (rule prod.exhaust)
  have w1: "w1 = snd (DispatchInbound ?s sample_lib ''t1'' sample_event ?w)" using r by simp
  have ev: "length (hk_requests w1) = 1" "length (hk_ai w1) = 1" "hk_script w1 = []"
    "wb_deliveries (hk_db ?w) = []" "length (wb_deliveries (hk_db w1)) = 1"
    "hk_now w1 \<le> hk_now ?w + ws_dedupe_window ?s" "0 < ws_max_attempts ?s" "ws_has_ai ?s"
    "trim_space (di_event_type sample_event) \<noteq> []" "trim_space (di_message_id sample_event) \<noteq> []"
    unfolding w1 by code_simp+
  have "\<exists>d \<in> set (wb_deliveries (hk_db w1)). d \<notin> set (wb_deliveries (hk_db ?w))"
    using ev(4,5) by (cases "wb_deliveries (hk_db w1)") auto
  from duplicates_suppressed [OF r ev(7,9,10) this refl ev(3,6)] obtain w3 where
    "DispatchInbound ?s sample_lib ''t1'' sample_event w1 = (Inr [], w3)" "hk_requests w3 = hk_requests w1"
    "hk_ai w3 = hk_ai w1 @ [(''t1'', ai_trigger sample_event)]" using ev(8) by auto
  with r ev show ?thesis by (simp add: Let_def)
qed

text \<open>
  The sweeps a delivery goes through, one after the other, until it is no longer retrying; \<open>n\<close> bounds
  their number.
\<close>

fun retry_until :: "webhook_lib \<Rightarrow> nat \<Rightarrow> WebhookDelivery \<Rightarrow> hook_world \<Rightarrow> WebhookDelivery \<times> hook_world" where
  "retry_until lib 0 d w = (d, w)"
| "retry_until lib (Suc n) d w =
     (if wd_status d \<noteq> ''retrying'' then (d, w)
      else case retryDelivery lib d w of (d, w) \<Rightarrow> retry_until lib n d w)"



end
