(* ===== verification/Webhook_System.thy ===== *)
theory Webhook_System
  imports Webhook_Service
begin

text \<open>
  The webhook service at work: the API operations, the retry sweep and the environment as a step
  relation. A state is the world and the deliveries the sweep has listed and not yet retried, copies of
  their rows. A dispatch is one step (concurrent dispatches of the same message are not told apart by the
  duplicate check, so nothing is claimed about them); the sweep takes a step for its query and one for each
  delivery, so that dispatches may come in between; it may be cancelled, and the process restarted, at
  any point. The environment may change the script and let time pass.
\<close>

section \<open>States and steps\<close>

record hook_system =
  hs_world :: hook_world
  hs_due :: "WebhookDelivery list"

definition hs_rows :: "hook_system \<Rightarrow> WebhookDelivery list" where
  "hs_rows y = wb_deliveries (hk_db (hs_world y))"

inductive hook_step :: "webhook_service \<Rightarrow> webhook_lib \<Rightarrow> hook_system \<Rightarrow> hook_system \<Rightarrow> bool"
  for s :: webhook_service and lib :: webhook_lib
where
  create: "hook_step s lib y (y\<lparr>hs_world := snd (webhook_Create lib tenantID inp (hs_world y))\<rparr>)"
| inbound: "hook_step s lib y (y\<lparr>hs_world := snd (DispatchInbound s lib tenantID inp (hs_world y))\<rparr>)"
| outbound: "hook_step s lib y (y\<lparr>hs_world := snd (DispatchOutbound s lib tenantID inp (hs_world y))\<rparr>)"
| sweep: "hs_due y = [] \<Longrightarrow> due_retries (hs_world y) = (Inr ds, w) \<Longrightarrow>
    hook_step s lib y (y\<lparr>hs_world := w, hs_due := ds\<rparr>)"
| sweep_fails: "hs_due y = [] \<Longrightarrow> due_retries (hs_world y) = (Inl e, w) \<Longrightarrow>
    hook_step s lib y (y\<lparr>hs_world := w\<rparr>)"
| retry: "hs_due y = d # ds \<Longrightarrow>
    hook_step s lib y (y\<lparr>hs_world := snd (retryDelivery lib d (hs_world y)), hs_due := ds\<rparr>)"
| cancel: "hook_step s lib y (y\<lparr>hs_due := []\<rparr>)"
| environment: "hk_now (hs_world y) \<le> t \<Longrightarrow>
    hook_step s lib y (y\<lparr>hs_world := (hs_world y)\<lparr>hk_script := sc, hk_now := t\<rparr>\<rparr>)"

inductive_cases hook_stepE: "hook_step s lib y y'"

definition hook_start :: "time \<Rightarrow> hook_event list \<Rightarrow> inbound_registry \<Rightarrow> hook_system" where
  "hook_start t script r =
     \<lparr>hs_world = \<lparr>hk_db = \<lparr>wb_endpoints = [], wb_deliveries = []\<rparr>, hk_now = t, hk_script = script,
        hk_requests = [], hk_ai = [], hk_inbound = r, hk_ids = 0\<rparr>, hs_due = []\<rparr>"

definition hook_reachable :: "webhook_service \<Rightarrow> webhook_lib \<Rightarrow> hook_system \<Rightarrow> bool" where
  "hook_reachable s lib y \<longleftrightarrow> (\<exists>t script r. (hook_step s lib)\<^sup>*\<^sup>* (hook_start t script r) y)"

section \<open>The invariant\<close>

definition rows_ok :: "nat \<Rightarrow> WebhookDelivery list \<Rightarrow> bool" where
  "rows_ok n rows \<longleftrightarrow> distinct (map wd_id rows) \<and> (\<forall>d \<in> set rows. delivery_ok d) \<and>
     wd_id ` set rows \<subseteq> (\<lambda>k. ''id-'' @ show_nat k) ` {..<n}"

definition due_ok :: "WebhookDelivery list \<Rightarrow> WebhookDelivery list \<Rightarrow> bool" where
  "due_ok ds rows \<longleftrightarrow> distinct (map wd_id ds) \<and> (\<forall>d \<in> set ds. d \<in> set rows \<and> wd_status d = ''retrying'')"

definition hook_ok :: "hook_system \<Rightarrow> bool" where
  "hook_ok y \<longleftrightarrow> rows_ok (hk_ids (hs_world y)) (hs_rows y) \<and> due_ok (hs_due y) (hs_rows y)"

lemma rows_ok_mono: "rows_ok n rows \<Longrightarrow> n \<le> m \<Longrightarrow> rows_ok m rows"
  unfolding rows_ok_def by (meson image_mono lessThan_subset_iff subset_trans)

lemma due_ok_append: "due_ok ds rows \<Longrightarrow> due_ok ds (rows @ new)"
  by (auto simp: due_ok_def)

text \<open>Rows added with fresh ids keep the invariant.\<close>

lemma rows_ok_append:
  assumes "rows_ok n rows" and "id_rows n m ds" and "\<forall>d \<in> set ds. delivery_ok d" and "n \<le> m"
  shows "rows_ok m (rows @ ds)"
proof -
  from assms(2) obtain ks where ks: "map wd_id ds = map (\<lambda>k. ''id-'' @ show_nat k) ks" "sorted_wrt (<) ks"
    "set ks \<subseteq> {n..<m}" by (auto simp: id_rows_def)
  have ids: "wd_id ` set ds = (\<lambda>k. ''id-'' @ show_nat k) ` set ks"
    using ks(1) by (metis set_map)
  have "distinct ks" using ks(2) strict_sorted_iff by blast
  then have "distinct (map wd_id ds)" unfolding ks(1) by (simp add: distinct_map inj_on_def)
  moreover have "wd_id ` set rows \<inter> wd_id ` set ds = {}"
  proof -
    have "wd_id ` set rows \<subseteq> (\<lambda>k. ''id-'' @ show_nat k) ` {..<n}" using assms(1) by (simp add: rows_ok_def)
    moreover have "wd_id ` set ds \<subseteq> (\<lambda>k. ''id-'' @ show_nat k) ` {n..<m}" using ids ks(3) by blast
    moreover have "(\<lambda>k. ''id-'' @ show_nat k) ` {..<n} \<inter> (\<lambda>k. ''id-'' @ show_nat k) ` {n..<m} = {}" by auto
    ultimately show ?thesis by blast
  qed
  moreover have "wd_id ` set ds \<subseteq> (\<lambda>k. ''id-'' @ show_nat k) ` {..<m}" using ids ks(3) by auto
  moreover have "wd_id ` set rows \<subseteq> (\<lambda>k. ''id-'' @ show_nat k) ` {..<m}"
    using rows_ok_mono [OF assms(1,4)] by (simp add: rows_ok_def)
  ultimately show ?thesis using assms(1,3) by (auto simp: rows_ok_def)
qed

text \<open>What the operations do to the deliveries.\<close>

definition adds_rows :: "hook_world \<Rightarrow> hook_world \<Rightarrow> bool" where
  "adds_rows w w' \<longleftrightarrow> hk_ids w \<le> hk_ids w' \<and>
     (\<exists>ds. wb_deliveries (hk_db w') = wb_deliveries (hk_db w) @ ds \<and> id_rows (hk_ids w) (hk_ids w') ds \<and>
        (\<forall>d \<in> set ds. delivery_ok d))"

lemma adds_rows_same:
  "wb_deliveries (hk_db w') = wb_deliveries (hk_db w) \<Longrightarrow> hk_ids w \<le> hk_ids w' \<Longrightarrow> adds_rows w w'"
  by (simp add: adds_rows_def)

lemma dispatch_adds_rows:
  assumes "webhook_dispatch s lib tenantID direction inp w = (r, w')" and "0 < ws_max_attempts s"
  shows "adds_rows w w'"
  using assms(1)
proof (cases rule: webhook_dispatch_cases)
  case invalid
  then show ?thesis by (simp add: adds_rows_same)
next
  case (duplicate w1)
  with already_dispatched_frame [OF duplicate(1)] show ?thesis by (simp add: adds_rows_same)
next
  case (new w1)
  note f = already_dispatched_frame [OF new(1)]
  from new(2) assms(2) show ?thesis
  proof (cases rule: dispatch_new_cases)
    case (error e)
    with f show ?thesis by (simp add: adds_rows_same)
  next
    case (sent rs env body w2)
    note df = deliver_all_frame [OF sent(4) assms(2)]
    from df obtain ds where ds: "wb_deliveries (hk_db w') = wb_deliveries (hk_db w2) @ ds"
        "id_rows (hk_ids w2) (hk_ids w') ds"
        "new_rows s env body (webhook_repo_ListByTenant tenantID (hk_db w1)) (hk_now w2) ds" by blast
    have "id_rows (hk_ids w) (hk_ids w') ds" using ds(2) sent(7) f by (auto intro: id_rows_mono)
    moreover have "\<forall>d \<in> set ds. delivery_ok d"
      using ds(3) assms(2) by (auto simp: new_rows_def delivery_of_def)
    moreover have "hk_ids w \<le> hk_ids w'" using df sent(7) f by auto
    ultimately show ?thesis using ds(1) sent(6) f by (auto simp: adds_rows_def)
  qed
qed

lemma inbound_adds_rows:
  assumes "0 < ws_max_attempts s"
  shows "adds_rows w (snd (DispatchInbound s lib tenantID inp w))"
proof -
  let ?w = "notifyInboundConversationFallback inp w"
  obtain r w1 where d: "webhook_dispatch s lib tenantID ''inbound'' inp ?w = (r, w1)" by (rule prod.exhaust)
  from dispatch_adds_rows [OF d assms] notify_frame [of inp w] have "adds_rows w w1" by (simp add: adds_rows_def)
  with DispatchInbound_eq [OF d] show ?thesis by (auto simp: adds_rows_def split: sum.splits)
qed

lemma create_adds_rows: "adds_rows w (snd (webhook_Create lib tenantID inp w))"
proof (cases "trim_space (wc_name inp) = [] \<or> trim_space (wc_url inp) = [] \<or> validateWebhookURL lib (wc_url inp) \<noteq> None")
  case True
  then show ?thesis by (auto simp: webhook_Create_def adds_rows_same split: option.splits)
next
  case False
  obtain uuid w1 where i: "hook_id w = (uuid, w1)" by (rule prod.exhaust)
  obtain now w2 where t: "hook_now w1 = (now, w2)" by (rule prod.exhaust)
  obtain x w3 where st: "hook_statement (webhook_repo_Create uuid now (new_endpoint tenantID inp)) w2 = (x, w3)"
    by (rule prod.exhaust)
  from i have w1: "hk_db w1 = hk_db w" "hk_ids w1 = Suc (hk_ids w)" by (auto simp: hook_id_def)
  from hook_now_frame [OF t] w1 have w2: "hk_db w2 = hk_db w" "hk_ids w2 = Suc (hk_ids w)" by auto
  from st have "wb_deliveries (hk_db w3) = wb_deliveries (hk_db w2) \<and> hk_ids w3 = hk_ids w2"
    by (cases rule: hook_statement_cases) (auto simp: webhook_repo_Create_def Let_def)
  with w2 False i t st show ?thesis by (auto simp: webhook_Create_def intro!: adds_rows_same)
qed

lemma adds_rows_ok:
  assumes "hook_ok y" and "adds_rows (hs_world y) w"
  shows "hook_ok (y\<lparr>hs_world := w\<rparr>)"
  using assms by (auto simp: hook_ok_def hs_rows_def adds_rows_def intro: rows_ok_append due_ok_append)

lemma due_retries_frame:
  assumes "due_retries w = (r, w')"
  shows "hk_db w' = hk_db w \<and> hk_ids w' = hk_ids w \<and> (\<forall>ds. r = Inr ds \<longrightarrow> (\<exists>t. ds = ListDueRetries t 50 (hk_db w)))"
proof -
  obtain t w1 where t: "hook_now w = (t, w1)" by (rule prod.exhaust)
  with assms have q: "hook_query (ListDueRetries t 50) w1 = (r, w')" by (simp add: due_retries_def)
  from hook_now_frame [OF t] hook_query_frame [OF q] show ?thesis by auto
qed

text \<open>A retry replaces the row of its delivery, and no other.\<close>

lemma retry_rows:
  assumes "hook_ok y" and "hs_due y = d # ds" and "retryDelivery lib d (hs_world y) = (d', w')"
  shows "(wb_deliveries (hk_db w') = hs_rows y \<or>
      wb_deliveries (hk_db w') = map (\<lambda>r. if wd_id r = wd_id d then d' else r) (hs_rows y)) \<and>
    delivery_ok d' \<and> same_event d d' \<and> hk_ids w' = hk_ids (hs_world y)"
proof -
  from assms(1,2) have d: "d \<in> set (hs_rows y)" "wd_status d = ''retrying''" "delivery_ok d"
    by (auto simp: hook_ok_def due_ok_def rows_ok_def)
  note f = retryDelivery_frame [OF assms(3)]
  have "wd_id d' \<in> wd_id ` set (wb_deliveries (hk_db (hs_world y)))"
    using f d(1) by (auto simp: same_event_def hs_rows_def)
  from UpdateDelivery_rows [OF this] f d show ?thesis by (auto simp: hs_rows_def same_event_def)
qed

lemma retry_ok:
  assumes "hook_ok y" and "hs_due y = d # ds"
  shows "hook_ok (y\<lparr>hs_world := snd (retryDelivery lib d (hs_world y)), hs_due := ds\<rparr>)"
proof -
  obtain d' w' where r: "retryDelivery lib d (hs_world y) = (d', w')" by (rule prod.exhaust)
  note f = retry_rows [OF assms r]
  let ?upd = "map (\<lambda>r. if wd_id r = wd_id d then d' else r) (hs_rows y)"
  from assms have due: "due_ok (d # ds) (hs_rows y)" and rows: "rows_ok (hk_ids (hs_world y)) (hs_rows y)"
    by (simp_all add: hook_ok_def)
  have ids: "map wd_id ?upd = map wd_id (hs_rows y)" using f by (auto simp: same_event_def)
  have "rows_ok (hk_ids (hs_world y)) ?upd"
  proof -
    have "wd_id ` set ?upd = wd_id ` set (hs_rows y)" using ids by (metis set_map)
    moreover have "\<forall>x \<in> set ?upd. delivery_ok x" using rows f by (auto simp: rows_ok_def)
    ultimately show ?thesis using rows unfolding rows_ok_def ids by auto
  qed
  moreover have "due_ok ds ?upd"
    using due unfolding due_ok_def by (auto simp: image_iff)
  moreover have "due_ok ds (hs_rows y)" using due by (auto simp: due_ok_def)
  ultimately show ?thesis using f r rows by (auto simp: hook_ok_def hs_rows_def)
qed

lemma hook_step_ok:
  assumes "hook_step s lib y y'" and "0 < ws_max_attempts s" and "hook_ok y"
  shows "hook_ok y'"
  using assms(1)
proof (cases rule: hook_step.cases)
  case (create tenantID inp)
  then show ?thesis using adds_rows_ok [OF assms(3) create_adds_rows] by simp
next
  case (inbound tenantID inp)
  then show ?thesis using adds_rows_ok [OF assms(3) inbound_adds_rows [OF assms(2)]] by simp
next
  case (outbound tenantID inp)
  obtain r w where d: "webhook_dispatch s lib tenantID ''outbound'' inp (hs_world y) = (r, w)" by (rule prod.exhaust)
  with outbound adds_rows_ok [OF assms(3) dispatch_adds_rows [OF d assms(2)]] show ?thesis
    by (simp add: DispatchOutbound_def)
next
  case (sweep ds w)
  from due_retries_frame [OF sweep(3)] obtain t where f: "hk_db w = hk_db (hs_world y)" "hk_ids w = hk_ids (hs_world y)"
    "ds = ListDueRetries t 50 (hk_db (hs_world y))" by auto
  have "due_ok ds (hs_rows y)"
    using f(3) assms(3) ListDueRetries_set [of _ t 50 "hk_db (hs_world y)"]
      ListDueRetries_distinct [of "hk_db (hs_world y)" t 50]
    by (auto simp: due_ok_def hs_rows_def hook_ok_def rows_ok_def due_def)
  with f sweep assms(3) show ?thesis by (simp add: hook_ok_def hs_rows_def)
next
  case (sweep_fails e w)
  with due_retries_frame [OF sweep_fails(3)] assms(3) show ?thesis by (simp add: hook_ok_def hs_rows_def)
next
  case (retry d ds)
  with retry_ok [OF assms(3) retry(2)] show ?thesis by simp
next
  case cancel
  with assms(3) show ?thesis by (simp add: hook_ok_def hs_rows_def due_ok_def)
next
  case (environment t sc)
  with assms(3) show ?thesis by (simp add: hook_ok_def hs_rows_def)
qed

lemma hook_start_ok: "hook_ok (hook_start t script r)"
  by (simp add: hook_ok_def hook_start_def hs_rows_def rows_ok_def due_ok_def)

lemma hook_reachable_ok:
  assumes "hook_reachable s lib y" and "0 < ws_max_attempts s"
  shows "hook_ok y"
proof -
  from assms(1) obtain t script r where "(hook_step s lib)\<^sup>*\<^sup>* (hook_start t script r) y"
    by (auto simp: hook_reachable_def)
  then show ?thesis by induction (auto intro: hook_start_ok hook_step_ok [OF _ assms(2)])
qed

section \<open>Properties\<close>

text \<open>
  C11: in every reachable state each delivery in the table is in one of three states: delivered, with a 2xx
  answer and the time of it; retrying, with attempts left and the time of the next one; or failed, with its
  budget of attempts used up. No delivery stays pending, none has more attempts than its maximum, and the
  retry sweep works on rows that are really retrying.
\<close>

theorem delivery_states:
  assumes "hook_reachable s lib y" and "0 < ws_max_attempts s" and "d \<in> set (hs_rows y)"
  shows "1 \<le> wd_attempts d \<and> wd_attempts d \<le> wd_max_attempts d \<and>
    ((wd_status d = ''delivered'' \<and> wd_delivered_at d \<noteq> None \<and> wd_next_attempt_at d = None \<and>
        200 \<le> wd_response_status d \<and> wd_response_status d < 300) \<or>
     (wd_status d = ''retrying'' \<and> wd_attempts d < wd_max_attempts d \<and> wd_next_attempt_at d \<noteq> None \<and>
        wd_delivered_at d = None) \<or>
     (wd_status d = ''failed'' \<and> wd_attempts d = wd_max_attempts d \<and> wd_next_attempt_at d = None \<and>
        wd_delivered_at d = None)) \<and>
    (\<forall>d' \<in> set (hs_due y). d' \<in> set (hs_rows y) \<and> wd_status d' = ''retrying'')"
  using hook_reachable_ok [OF assms(1,2)] assms(3)
  unfolding hook_ok_def rows_ok_def due_ok_def delivery_ok_def by blast

text \<open>One step keeps the rows that are delivered or failed.\<close>

lemma hook_step_terminal:
  assumes "hook_step s lib y y'" and "0 < ws_max_attempts s" and "hook_ok y"
    and "d \<in> set (hs_rows y)" and "wd_status d \<noteq> ''retrying''"
  shows "d \<in> set (hs_rows y')"
  using assms(1)
proof (cases rule: hook_step.cases)
  case (create tenantID inp)
  with assms(4) create_adds_rows [of "hs_world y" lib tenantID inp] show ?thesis
    by (auto simp: adds_rows_def hs_rows_def)
next
  case (inbound tenantID inp)
  with assms(4) inbound_adds_rows [OF assms(2), of "hs_world y" lib tenantID inp] show ?thesis
    by (auto simp: adds_rows_def hs_rows_def)
next
  case (outbound tenantID inp)
  obtain r w where o: "webhook_dispatch s lib tenantID ''outbound'' inp (hs_world y) = (r, w)" by (rule prod.exhaust)
  with outbound dispatch_adds_rows [OF o assms(2)] assms(4) show ?thesis
    by (auto simp: DispatchOutbound_def adds_rows_def hs_rows_def)
next
  case (sweep ds w)
  with due_retries_frame [OF sweep(3)] assms(4) show ?thesis by (simp add: hs_rows_def)
next
  case (sweep_fails e w)
  with due_retries_frame [OF sweep_fails(3)] assms(4) show ?thesis by (simp add: hs_rows_def)
next
  case (retry d1 ds)
  obtain d' w' where r: "retryDelivery lib d1 (hs_world y) = (d', w')" by (rule prod.exhaust)
  note f = retry_rows [OF assms(3) retry(2) r]
  have "d1 \<in> set (hs_rows y)" "wd_status d1 = ''retrying''" "distinct (map wd_id (hs_rows y))"
    using assms(3) retry(2) by (auto simp: hook_ok_def due_ok_def rows_ok_def)
  with assms(4,5) have "wd_id d \<noteq> wd_id d1" by (metis distinct_map inj_onD)
  then have "d \<in> set (map (\<lambda>r. if wd_id r = wd_id d1 then d' else r) (hs_rows y))"
    using assms(4) by (auto intro!: image_eqI [of _ _ d])
  with f r retry(1) assms(4) show ?thesis by (auto simp: hs_rows_def)
next
  case cancel
  with assms(4) show ?thesis by (simp add: hs_rows_def)
next
  case (environment t sc)
  with assms(4) show ?thesis by (simp add: hs_rows_def)
qed

text \<open>
  A delivery that is delivered or failed stays as it is in every later state: it is never sent again,
  and its record is not overwritten.
\<close>

theorem settled_deliveries_final:
  assumes "hook_reachable s lib y" and "0 < ws_max_attempts s" and "(hook_step s lib)\<^sup>*\<^sup>* y y'"
    and "d \<in> set (hs_rows y)" and "wd_status d \<in> {''delivered'', ''failed''}"
  shows "d \<in> set (hs_rows y')"
  using assms(3)
proof (induction rule: rtranclp_induct)
  case base
  show ?case by (rule assms(4))
next
  case (step y1 y2)
  have "hook_reachable s lib y1"
    using assms(1) step.hyps(1) unfolding hook_reachable_def by (meson rtranclp_trans)
  then have "hook_ok y1" using assms(2) by (rule hook_reachable_ok)
  then show ?case using hook_step_terminal [OF step.hyps(2) assms(2)] step.IH assms(5) by auto
qed

text \<open>A run: an endpoint, a dispatch it refuses, and another dispatch that it accepts.\<close>

definition sample_y0 :: hook_system where
  "sample_y0 = hook_start 1000 [] empty_registry"

definition sample_y1 :: hook_system where
  "sample_y1 = sample_y0\<lparr>hs_world := snd (webhook_Create sample_lib ''t1'' sample_create (hs_world sample_y0))\<rparr>"

definition sample_y2 :: hook_system where
  "sample_y2 = sample_y1\<lparr>hs_world := (hs_world sample_y1)\<lparr>hk_script := replicate 6 HGoes @ [HReplies 500 []],
     hk_now := 2000\<rparr>\<rparr>"

definition sample_y3 :: hook_system where
  "sample_y3 = sample_y2\<lparr>hs_world := snd (DispatchInbound webhook_NewService sample_lib ''t1'' sample_event
     (hs_world sample_y2))\<rparr>"

definition sample_y4 :: hook_system where
  "sample_y4 = sample_y3\<lparr>hs_world := snd (DispatchOutbound webhook_NewService sample_lib ''t1'' sample_event
     (hs_world sample_y3))\<rparr>"

lemma sample_run:
  "hook_reachable webhook_NewService sample_lib sample_y3"
  "hook_reachable webhook_NewService sample_lib sample_y4"
proof -
  let ?s = "hook_step webhook_NewService sample_lib"
  have "?s sample_y0 sample_y1" unfolding sample_y1_def by (rule create)
  moreover have "?s sample_y1 sample_y2" unfolding sample_y2_def by (rule environment) code_simp
  moreover have "?s sample_y2 sample_y3" unfolding sample_y3_def by (rule inbound)
  ultimately have y3: "?s\<^sup>*\<^sup>* sample_y0 sample_y3" by (meson rtranclp.rtrancl_into_rtrancl rtranclp.rtrancl_refl)
  moreover have "?s sample_y3 sample_y4" unfolding sample_y4_def by (rule outbound)
  ultimately have "?s\<^sup>*\<^sup>* sample_y0 sample_y4" by (rule rtranclp.rtrancl_into_rtrancl)
  with y3 show "hook_reachable webhook_NewService sample_lib sample_y3"
    "hook_reachable webhook_NewService sample_lib sample_y4"
    unfolding hook_reachable_def sample_y0_def by blast+
qed

lemma sample_rows:
  "map wd_status (hs_rows sample_y3) = [''retrying'']"
  "map wd_status (hs_rows sample_y4) = [''retrying'', ''delivered'']"
  by code_simp+

lemma delivery_states_witness:
  "\<exists>d. hs_rows sample_y3 = [d] \<and> wd_status d = ''retrying'' \<and> wd_attempts d < wd_max_attempts d"
proof -
  from sample_rows(1) obtain d where d: "hs_rows sample_y3 = [d]" "wd_status d = ''retrying''" by auto
  have "0 < ws_max_attempts webhook_NewService" by (simp add: webhook_NewService_def)
  from delivery_states [OF sample_run(1) this, of d] d show ?thesis by auto
qed

lemma settled_deliveries_final_witness:
  "\<exists>d d'. hs_rows sample_y4 = [d, d'] \<and> wd_status d' = ''delivered'' \<and>
     d' \<in> set (hs_rows (sample_y4\<lparr>hs_due := []\<rparr>))"
proof -
  from sample_rows(2) obtain d d' where d: "hs_rows sample_y4 = [d, d']" "wd_status d' = ''delivered''"
    by (auto simp: map_eq_Cons_conv)
  have "0 < ws_max_attempts webhook_NewService" by (simp add: webhook_NewService_def)
  moreover have "(hook_step webhook_NewService sample_lib)\<^sup>*\<^sup>* sample_y4 (sample_y4\<lparr>hs_due := []\<rparr>)"
    by (rule r_into_rtranclp, rule cancel)
  ultimately show ?thesis using settled_deliveries_final [OF sample_run(2), of "sample_y4\<lparr>hs_due := []\<rparr>" d'] d by auto
qed

end
