(* ===== verification/Base64.thy ===== *)
theory Base64
  imports Prelude
begin

text \<open>
  \<open>base64.RawURLEncoding\<close> of Go's library, which the tokens are written in: the URL alphabet without
  padding. Decoding skips line breaks, ignores the bits left over in the last group, and fails on
  any other byte and on a group of one.
\<close>

section \<open>Encoding and decoding\<close>

definition b64_alphabet :: string where
  "b64_alphabet = ''ABCDEFGHIJKLMNOPQRSTUVWXYZabcdefghijklmnopqrstuvwxyz0123456789-_''"

definition b64_char :: "nat \<Rightarrow> char" where
  "b64_char n = b64_alphabet ! n"

definition b64_value :: "char \<Rightarrow> nat option" where
  "b64_value c =
     (if c \<in> set b64_alphabet then Some (length (takeWhile (\<lambda>x. x \<noteq> c) b64_alphabet)) else None)"

definition byte :: "char \<Rightarrow> nat" where
  "byte c = of_char c"

fun b64_encode :: "string \<Rightarrow> string" where
  "b64_encode [] = []"
| "b64_encode [a] = [b64_char (byte a div 4), b64_char (byte a mod 4 * 16)]"
| "b64_encode [a, b] =
     [b64_char (byte a div 4), b64_char (byte a mod 4 * 16 + byte b div 16), b64_char (byte b mod 16 * 4)]"
| "b64_encode (a # b # c # s) =
     b64_char (byte a div 4) # b64_char (byte a mod 4 * 16 + byte b div 16) #
     b64_char (byte b mod 16 * 4 + byte c div 64) # b64_char (byte c mod 64) # b64_encode s"

fun b64_bytes :: "nat list \<Rightarrow> string option" where
  "b64_bytes [] = Some []"
| "b64_bytes [p] = None"
| "b64_bytes [p, q] = Some [char_of (p * 4 + q div 16)]"
| "b64_bytes [p, q, r] = Some [char_of (p * 4 + q div 16), char_of (q mod 16 * 16 + r div 4)]"
| "b64_bytes (p # q # r # s # vs) =
     (case b64_bytes vs of
        None \<Rightarrow> None
      | Some t \<Rightarrow> Some (char_of (p * 4 + q div 16) # char_of (q mod 16 * 16 + r div 4) #
                        char_of (r mod 4 * 64 + s) # t))"

definition b64_decode :: "string \<Rightarrow> string option" where
  "b64_decode s =
     (let vs = map b64_value (filter (\<lambda>c. c \<noteq> CHR 0x0A \<and> c \<noteq> CHR 0x0D) s)
      in if None \<in> set vs then None else b64_bytes (map the vs))"

section \<open>Lemmas\<close>

lemma length_b64_alphabet: "length b64_alphabet = 64"
  by code_simp

lemma distinct_b64_alphabet: "distinct b64_alphabet"
  by code_simp

lemma takeWhile_nth:
  "distinct xs \<Longrightarrow> n < length xs \<Longrightarrow> length (takeWhile (\<lambda>x. x \<noteq> xs ! n) xs) = n"
proof (induction xs arbitrary: n)
  case Nil
  then show ?case by simp
next
  case (Cons x xs)
  then show ?case by (cases n) (auto simp: nth_mem)
qed

lemma b64_value_char [simp]: "n < 64 \<Longrightarrow> b64_value (b64_char n) = Some n"
  using takeWhile_nth [OF distinct_b64_alphabet] length_b64_alphabet
  by (simp add: b64_value_def b64_char_def)

lemma b64_char_in: "n < 64 \<Longrightarrow> b64_char n \<in> set b64_alphabet"
  using length_b64_alphabet by (simp add: b64_char_def)

lemma byte_less [simp]: "byte c < 256"
  by (simp add: byte_def)

lemma char_of_byte: "n = byte c \<Longrightarrow> char_of n = c"
  by (simp add: byte_def)

lemma byte_small: "byte b div 4 < 64" "byte b div 16 < 16" "byte b div 64 < 4"
  using byte_less [of b] by linarith+

lemma two_digits: "x < (m::nat) \<Longrightarrow> y < n \<Longrightarrow> x * n + y < m * n"
  by (metis add.commute add_mult_distrib add_strict_left_mono le_simps(3) mult_le_mono1 order_less_le_trans
      plus_1_eq_Suc mult_1)

lemma byte_parts:
  "byte a div 4 < 64" "byte a mod 4 * 16 + byte b div 16 < 64" "byte b mod 16 * 4 + byte c div 64 < 64"
  "byte a mod 4 * 16 < 64" "byte b mod 16 * 4 < 64" "byte c mod 64 < 64"
  using byte_small [of a] byte_small [of b] byte_small [of c] two_digits [of "byte a mod 4" 4 "byte b div 16" 16]
    two_digits [of "byte b mod 16" 16 "byte c div 64" 4]
  by simp_all

lemma byte_rest:
  "byte b div 16 div 16 = 0" "byte b div 16 mod 16 = byte b div 16" "byte c div 64 div 4 = 0"
  "byte c div 64 mod 4 = byte c div 64"
  using byte_small [of b] byte_small [of c] by simp_all

lemma set_b64_encode: "set (b64_encode s) \<subseteq> set b64_alphabet"
  by (induction s rule: b64_encode.induct) (auto intro: b64_char_in simp: byte_parts)

lemma b64_alphabet_no: "CHR ''.'' \<notin> set b64_alphabet" "CHR 0x0A \<notin> set b64_alphabet" "CHR 0x0D \<notin> set b64_alphabet"
  by code_simp+

lemma b64_no_dot: "CHR ''.'' \<notin> set (b64_encode s)"
  using set_b64_encode [of s] b64_alphabet_no(1) by blast

lemma b64_values:
  "map b64_value (b64_encode s) = map Some (map (the \<circ> b64_value) (b64_encode s)) \<and>
   b64_bytes (map (the \<circ> b64_value) (b64_encode s)) = Some s"
  by (induction s rule: b64_encode.induct)
     (simp_all add: byte_parts byte_rest char_of_byte)

lemma b64_decode_encode: "b64_decode (b64_encode s) = Some s"
proof -
  have keep: "filter (\<lambda>c. c \<noteq> CHR 0x0A \<and> c \<noteq> CHR 0x0D) (b64_encode s) = b64_encode s"
    using set_b64_encode [of s] b64_alphabet_no by (intro filter_True) blast
  have vs: "map b64_value (b64_encode s) = map Some (map (the \<circ> b64_value) (b64_encode s))"
    and bs: "b64_bytes (map (the \<circ> b64_value) (b64_encode s)) = Some s" using b64_values [of s] by auto
  have "None \<notin> set (map b64_value (b64_encode s))" unfolding vs by auto
  moreover have "map the (map b64_value (b64_encode s)) = map (the \<circ> b64_value) (b64_encode s)" by simp
  ultimately show ?thesis unfolding b64_decode_def Let_def keep using bs by simp
qed

end
