(* ===== verification/Auth_Tokens.thy ===== *)
theory Auth_Tokens
  imports Base64
begin

text \<open>
  The signed tokens of \<open>internal/auth/jwt.go\<close>: header and claims as JSON in Base64, and the MAC of
  both. The JSON package and HMAC-SHA256 are the parameter \<open>lib\<close>; that decoding printed claims gives
  them back is a hypothesis where it is needed (\<open>json.Marshal\<close> and \<open>Unmarshal\<close> of a flat struct
  of valid UTF-8 strings and integers). The texts of the errors do not leave the service, and those of
  the Base64 package are shortened.
\<close>

section \<open>Claims, identities, managers\<close>

record Claims =
  cl_subject :: string
  cl_tenant_id :: string
  cl_email :: string
  cl_role :: string
  cl_type :: string
  cl_expiry :: int
  cl_issued_at :: int

record Identity =
  id_user_id :: string
  id_tenant_id :: string
  id_email :: string
  id_role :: string
  id_api_key :: bool

record TokenPair =
  tp_access_token :: string
  tp_refresh_token :: string
  tp_expires_in :: int

record TokenManager =
  tm_secret :: string
  tm_ttl :: duration
  tm_refresh_ttl :: duration

record token_lib =
  tl_mac :: "string \<Rightarrow> string \<Rightarrow> string"
  tl_marshal :: "Claims \<Rightarrow> go_error + string"
  tl_unmarshal :: "string \<Rightarrow> go_error + Claims"

definition tokenTypeAccess :: string where "tokenTypeAccess = ''access''"
definition tokenTypeRefresh :: string where "tokenTypeRefresh = ''refresh''"

definition NewTokenManager :: "string \<Rightarrow> duration \<Rightarrow> duration \<Rightarrow> TokenManager" where
  "NewTokenManager secret ttl refreshTTL =
     \<lparr>tm_secret = secret, tm_ttl = ttl, tm_refresh_ttl = refreshTTL\<rparr>"

section \<open>Signing\<close>

text \<open>The header as \<open>json.Marshal\<close> prints it.\<close>

definition jwt_header :: string where
  "jwt_header =
     (let q = [CHR 0x22] in
      ''{'' @ q @ ''alg'' @ q @ '':'' @ q @ ''HS256'' @ q @ '','' @ q @ ''typ'' @ q @ '':'' @ q @ ''JWT'' @ q @ ''}'')"

definition signing_input :: "string \<Rightarrow> string" where
  "signing_input claimsJSON = b64_encode jwt_header @ ''.'' @ b64_encode claimsJSON"

definition signToken :: "token_lib \<Rightarrow> Claims \<Rightarrow> string \<Rightarrow> go_error + string" where
  "signToken lib claims secret =
     (case tl_marshal lib claims of
        Inl e \<Rightarrow> Inl e
      | Inr claimsJSON \<Rightarrow>
          (let inp = signing_input claimsJSON in
           Inr (inp @ ''.'' @ b64_encode (tl_mac lib secret inp))))"

definition token_claims :: "time \<Rightarrow> Identity \<Rightarrow> string \<Rightarrow> duration \<Rightarrow> Claims" where
  "token_claims now identity tokenType ttl =
     \<lparr>cl_subject = id_user_id identity, cl_tenant_id = id_tenant_id identity, cl_email = id_email identity,
      cl_role = id_role identity, cl_type = tokenType, cl_expiry = unix (now + ttl), cl_issued_at = unix now\<rparr>"

definition generate :: "TokenManager \<Rightarrow> token_lib \<Rightarrow> time \<Rightarrow> Identity \<Rightarrow> string \<Rightarrow> duration \<Rightarrow> go_error + string" where
  "generate m lib now identity tokenType ttl = signToken lib (token_claims now identity tokenType ttl) (tm_secret m)"

text \<open>\<open>int64(ttl.Seconds())\<close>, exact for the whole seconds the configuration gives.\<close>

definition whole_seconds :: "duration \<Rightarrow> int" where
  "whole_seconds d = (if d < 0 then - ((- d) div second) else d div second)"

text \<open>The two clock readings of a pair.\<close>

definition GeneratePair :: "TokenManager \<Rightarrow> token_lib \<Rightarrow> time \<Rightarrow> time \<Rightarrow> Identity \<Rightarrow> go_error + TokenPair" where
  "GeneratePair m lib now now' identity =
     (case generate m lib now identity tokenTypeAccess (tm_ttl m) of
        Inl e \<Rightarrow> Inl e
      | Inr access \<Rightarrow>
          (case (if 0 < tm_refresh_ttl m then generate m lib now' identity tokenTypeRefresh (tm_refresh_ttl m)
                 else Inr []) of
             Inl e \<Rightarrow> Inl e
           | Inr refresh \<Rightarrow>
               Inr \<lparr>tp_access_token = access, tp_refresh_token = refresh,
                    tp_expires_in = whole_seconds (tm_ttl m)\<rparr>))"

definition Generate :: "TokenManager \<Rightarrow> token_lib \<Rightarrow> time \<Rightarrow> time \<Rightarrow> Identity \<Rightarrow> go_error + string" where
  "Generate m lib now now' identity =
     (case GeneratePair m lib now now' identity of Inl e \<Rightarrow> Inl e | Inr pair \<Rightarrow> Inr (tp_access_token pair))"

section \<open>Parsing\<close>

definition parseClaims :: "TokenManager \<Rightarrow> token_lib \<Rightarrow> time \<Rightarrow> string \<Rightarrow> go_error + Claims" where
  "parseClaims m lib now token =
     (case split_on (CHR ''.'') token of
        [header, payload, sig] \<Rightarrow>
          (case b64_decode sig of
             None \<Rightarrow> Inl (plain_error ''decode signature: illegal base64 data'')
           | Some signature \<Rightarrow>
               if signature \<noteq> tl_mac lib (tm_secret m) (header @ ''.'' @ payload) then
                 Inl (plain_error ''invalid token signature'')
               else case b64_decode payload of
                 None \<Rightarrow> Inl (plain_error ''decode payload: illegal base64 data'')
               | Some payloadBytes \<Rightarrow>
                   (case tl_unmarshal lib payloadBytes of
                      Inl e \<Rightarrow> Inl (wrap_error ''unmarshal claims'' e)
                    | Inr claims \<Rightarrow>
                        if cl_expiry claims < unix now then Inl (plain_error ''token expired'')
                        else Inr claims))
      | _ \<Rightarrow> Inl (plain_error ''invalid token format''))"

definition claims_identity :: "Claims \<Rightarrow> Identity" where
  "claims_identity c =
     \<lparr>id_user_id = cl_subject c, id_tenant_id = cl_tenant_id c, id_email = cl_email c,
      id_role = cl_role c, id_api_key = False\<rparr>"

definition Parse :: "TokenManager \<Rightarrow> token_lib \<Rightarrow> time \<Rightarrow> string \<Rightarrow> go_error + Identity" where
  "Parse m lib now token =
     (case parseClaims m lib now token of
        Inl e \<Rightarrow> Inl e
      | Inr claims \<Rightarrow>
          if cl_type claims \<noteq> tokenTypeAccess then Inl (plain_error ''invalid token type'')
          else Inr (claims_identity claims))"

definition ParseRefresh :: "TokenManager \<Rightarrow> token_lib \<Rightarrow> time \<Rightarrow> string \<Rightarrow> go_error + Identity" where
  "ParseRefresh m lib now token =
     (case parseClaims m lib now token of
        Inl e \<Rightarrow> Inl e
      | Inr claims \<Rightarrow>
          if cl_type claims \<noteq> tokenTypeRefresh then Inl (plain_error ''invalid refresh token type'')
          else Inr (claims_identity claims))"

section \<open>Lemmas\<close>

lemma split_on_concat: "CHR ''.'' \<notin> set a \<Longrightarrow> CHR ''.'' \<notin> set b \<Longrightarrow> CHR ''.'' \<notin> set c \<Longrightarrow>
    split_on (CHR ''.'') (a @ ''.'' @ b @ ''.'' @ c) = [a, b, c]"
  by (simp add: split_on_append split_on_single)

lemma split_on_parts: "split_on d s = [a, b, c] \<Longrightarrow> s = a @ d # b @ d # c \<and> d \<notin> set a \<and> d \<notin> set b \<and> d \<notin> set c"
proof -
  have one: "split_on d s = [a] \<Longrightarrow> s = a \<and> d \<notin> set a" for s a
    by (induction s arbitrary: a) (auto split: if_splits list.splits)
  have two: "split_on d s = [a, b] \<Longrightarrow> s = a @ d # b \<and> d \<notin> set a \<and> d \<notin> set b" for s a b
    by (induction s arbitrary: a) (auto split: if_splits list.splits dest: one)
  show "split_on d s = [a, b, c] \<Longrightarrow> ?thesis"
    by (induction s arbitrary: a) (auto split: if_splits list.splits dest: two)
qed

lemma parse_generated:
  assumes "generate m lib now identity ty ttl = Inr token"
    and "\<And>json. tl_marshal lib (token_claims now identity ty ttl) = Inr json \<Longrightarrow>
      tl_unmarshal lib json = Inr (token_claims now identity ty ttl)"
  shows "parseClaims m lib t token =
    (if unix (now + ttl) < unix t then Inl (plain_error ''token expired'')
     else Inr (token_claims now identity ty ttl))"
proof -
  let ?c = "token_claims now identity ty ttl"
  from assms(1) obtain json where j: "tl_marshal lib ?c = Inr json"
    and tok: "token = signing_input json @ ''.'' @ b64_encode (tl_mac lib (tm_secret m) (signing_input json))"
    by (auto simp: generate_def signToken_def Let_def split: sum.splits)
  have "split_on (CHR ''.'') token = [b64_encode jwt_header, b64_encode json,
      b64_encode (tl_mac lib (tm_secret m) (signing_input json))]"
    unfolding tok signing_input_def using split_on_concat b64_no_dot by simp
  then show ?thesis
    using assms(2) [OF j] by (simp add: parseClaims_def b64_decode_encode signing_input_def token_claims_def)
qed

text \<open>An access token gives the identity back until it expires.\<close>

lemma parse_pair_access:
  assumes "GeneratePair m lib now now' identity = Inr pair"
    and "\<forall>c json. tl_marshal lib c = Inr json \<longrightarrow> tl_unmarshal lib json = Inr c"
  shows "Parse m lib t (tp_access_token pair) =
      (if unix t \<le> unix (now + tm_ttl m) then Inr (identity\<lparr>id_api_key := False\<rparr>)
       else Inl (plain_error ''token expired''))"
proof -
  from assms(1) have acc: "generate m lib now identity tokenTypeAccess (tm_ttl m) = Inr (tp_access_token pair)"
    by (auto simp: GeneratePair_def split: sum.splits)
  have "parseClaims m lib t (tp_access_token pair) =
      (if unix (now + tm_ttl m) < unix t then Inl (plain_error ''token expired'')
       else Inr (token_claims now identity tokenTypeAccess (tm_ttl m)))"
    by (rule parse_generated [OF acc]) (use assms(2) in blast)
  then show ?thesis by (simp add: Parse_def token_claims_def claims_identity_def)
qed

section \<open>Properties\<close>

text \<open>
  C17: a token this manager issued gives the identity it was issued for back, at any time until its expiry
  and never later; and the two kinds of tokens are not exchanged: a refresh token does not
  authenticate a request, and an access token cannot be used to get new tokens.
\<close>

theorem tokens_roundtrip:
  assumes "GeneratePair m lib now now' identity = Inr pair" and "\<forall>c json. tl_marshal lib c = Inr json \<longrightarrow> tl_unmarshal lib json = Inr c"
  shows "Parse m lib t (tp_access_token pair) =
      (if unix t \<le> unix (now + tm_ttl m) then Inr (identity\<lparr>id_api_key := False\<rparr>)
       else Inl (plain_error ''token expired'')) \<and>
    (\<exists>e. ParseRefresh m lib t (tp_access_token pair) = Inl e) \<and>
    (0 < tm_refresh_ttl m \<longrightarrow>
       ParseRefresh m lib t (tp_refresh_token pair) =
         (if unix t \<le> unix (now' + tm_refresh_ttl m) then Inr (identity\<lparr>id_api_key := False\<rparr>)
          else Inl (plain_error ''token expired'')) \<and>
       (\<exists>e. Parse m lib t (tp_refresh_token pair) = Inl e))"
proof -
  from assms(1) obtain refresh where acc: "generate m lib now identity tokenTypeAccess (tm_ttl m) = Inr (tp_access_token pair)"
    and ref: "(if 0 < tm_refresh_ttl m then generate m lib now' identity tokenTypeRefresh (tm_refresh_ttl m)
         else Inr []) = Inr refresh" "tp_refresh_token pair = refresh"
    by (auto simp: GeneratePair_def split: sum.splits)
  have a: "parseClaims m lib t (tp_access_token pair) =
      (if unix (now + tm_ttl m) < unix t then Inl (plain_error ''token expired'')
       else Inr (token_claims now identity tokenTypeAccess (tm_ttl m)))"
    by (rule parse_generated [OF acc]) (use assms(2) in blast)
  have r: "parseClaims m lib t (tp_refresh_token pair) =
      (if unix (now' + tm_refresh_ttl m) < unix t then Inl (plain_error ''token expired'')
       else Inr (token_claims now' identity tokenTypeRefresh (tm_refresh_ttl m)))" if "0 < tm_refresh_ttl m"
  proof -
    have "generate m lib now' identity tokenTypeRefresh (tm_refresh_ttl m) = Inr (tp_refresh_token pair)"
      using ref that by simp
    then show ?thesis by (rule parse_generated) (use assms(2) in blast)
  qed
  have i: "claims_identity (token_claims n identity ty ttl) = identity\<lparr>id_api_key := False\<rparr>" for n ty ttl
    by (simp add: claims_identity_def token_claims_def)
  show ?thesis
    using a r i by (auto simp: Parse_def ParseRefresh_def token_claims_def tokenTypeAccess_def tokenTypeRefresh_def)
qed

definition sample_identity :: Identity where
  "sample_identity = \<lparr>id_user_id = ''u1'', id_tenant_id = ''t1'', id_email = ''a@b'', id_role = ''agent'', id_api_key = False\<rparr>"

definition sample_manager :: TokenManager where
  "sample_manager = NewTokenManager ''secret'' (15 * minute) hour"

text \<open>For the witness, JSON that prints the claims of one user's tokens, issued at the time 0.\<close>

definition sample_claims :: "string \<Rightarrow> Claims" where
  "sample_claims t = token_claims 0 sample_identity t
     (if t = tokenTypeAccess then tm_ttl sample_manager else tm_refresh_ttl sample_manager)"

definition sample_tokens :: token_lib where
  "sample_tokens =
     \<lparr>tl_mac = (\<lambda>k s. k @ show_nat (length s)),
      tl_marshal = (\<lambda>c. if c = sample_claims (cl_type c) then Inr (cl_type c) else Inl (plain_error ''unsupported'')),
      tl_unmarshal = (\<lambda>s. Inr (sample_claims s))\<rparr>"

lemma sample_tokens_law: "\<forall>c json. tl_marshal sample_tokens c = Inr json \<longrightarrow> tl_unmarshal sample_tokens json = Inr c"
  by (auto simp: sample_tokens_def split: if_splits)

lemma sample_pair: "\<exists>pair. GeneratePair sample_manager sample_tokens 0 0 sample_identity = Inr pair"
  by (simp add: GeneratePair_def generate_def signToken_def Let_def sample_tokens_def sample_claims_def
      token_claims_def sample_manager_def NewTokenManager_def tokenTypeAccess_def tokenTypeRefresh_def)

lemma tokens_roundtrip_witness:
  "\<exists>pair. GeneratePair sample_manager sample_tokens 0 0 sample_identity = Inr pair \<and>
     Parse sample_manager sample_tokens (14 * minute) (tp_access_token pair) = Inr sample_identity"
proof -
  obtain pair where p: "GeneratePair sample_manager sample_tokens 0 0 sample_identity = Inr pair"
    using sample_pair by blast
  have "unix (14 * minute) \<le> unix (0 + tm_ttl sample_manager)"
    by (intro unix_mono) (simp add: sample_manager_def NewTokenManager_def)
  moreover have "sample_identity\<lparr>id_api_key := False\<rparr> = sample_identity" by (simp add: sample_identity_def)
  ultimately show ?thesis using tokens_roundtrip [OF p sample_tokens_law, of "14 * minute"] p by auto
qed

text \<open>
  C18: a token is accepted only with the MAC of exactly its header and payload under the secret of the
  manager, and only until the expiry its payload names.
\<close>

theorem accepted_tokens_signed:
  "Parse m lib t token = Inr identity \<longleftrightarrow>
     (\<exists>header payload sig json claims. token = header @ ''.'' @ payload @ ''.'' @ sig \<and>
        CHR ''.'' \<notin> set (header @ payload @ sig) \<and>
        b64_decode sig = Some (tl_mac lib (tm_secret m) (header @ ''.'' @ payload)) \<and>
        b64_decode payload = Some json \<and> tl_unmarshal lib json = Inr claims \<and>
        unix t \<le> cl_expiry claims \<and> cl_type claims = tokenTypeAccess \<and> identity = claims_identity claims)"
    (is "?L \<longleftrightarrow> ?R")
proof
  assume ?L
  then obtain claims where c: "parseClaims m lib t token = Inr claims" "cl_type claims = tokenTypeAccess"
    "identity = claims_identity claims" by (auto simp: Parse_def split: sum.splits if_splits)
  from c(1) obtain header payload sig where sp: "split_on (CHR ''.'') token = [header, payload, sig]"
    by (auto simp: parseClaims_def split: list.splits)
  with c(1) obtain json where "b64_decode sig = Some (tl_mac lib (tm_secret m) (header @ ''.'' @ payload))"
    "b64_decode payload = Some json" "tl_unmarshal lib json = Inr claims" "unix t \<le> cl_expiry claims"
    by (auto simp: parseClaims_def not_less split: option.splits sum.splits if_splits)
  with c split_on_parts [OF sp] show ?R by (intro exI [of _ header] exI [of _ payload] exI [of _ sig] exI [of _ json] exI [of _ claims]) auto
next
  assume ?R
  then obtain header payload sig json claims where tok: "token = header @ ''.'' @ payload @ ''.'' @ sig"
    and nd: "CHR ''.'' \<notin> set (header @ payload @ sig)"
    and r: "b64_decode sig = Some (tl_mac lib (tm_secret m) (header @ ''.'' @ payload))"
        "b64_decode payload = Some json" "tl_unmarshal lib json = Inr claims"
        "unix t \<le> cl_expiry claims" "cl_type claims = tokenTypeAccess" "identity = claims_identity claims" by blast
  have "split_on (CHR ''.'') token = [header, payload, sig]" unfolding tok using nd by (intro split_on_concat) auto
  with r show ?L by (simp add: Parse_def parseClaims_def)
qed

end
