(* ===== verification/Auth_Store.thy ===== *)
theory Auth_Store
  imports Auth_Tokens "HOL-Library.List_Lexorder"
begin

text \<open>
  The tables authentication reads, of \<open>internal/repository/models.go\<close>: tenants, users and instances, the
  table of the instances of the engine, and their repositories of \<open>internal/repository/gorm.go\<close>. GORM's
  \<open>First\<close> takes the matching row with the smallest primary key. The tables may be out of reach: then every
  statement on one fails. The interface the services use is the record \<open>auth_finders\<close>; the locale
  \<open>identity_store\<close> states what a provider of it promises.
\<close>

section \<open>Rows\<close>

record Tenant =
  tn_id :: string
  tn_name :: string
  tn_slug :: string
  tn_api_key_prefix :: string
  tn_api_key_hash :: string
  tn_ai_enabled :: bool

record User =
  us_id :: string
  us_tenant_id :: string
  us_email :: string
  us_password_hash :: string
  us_name :: string
  us_role :: string

record Instance =
  in_id :: string
  in_tenant_id :: string
  in_name :: string
  in_status :: string
  in_engine_instance_id :: string
  in_webhook_url :: string
  in_webhook_events :: string
  in_webhook_base64 :: bool
  in_webhook_by_events :: bool
  in_ai_enabled :: bool
  in_ai_auto_reply :: bool
  in_created_at :: time

text \<open>Of the engine's own instance rows, the columns authentication reads.\<close>

record legacy_instance =
  le_id :: string
  le_name :: string
  le_token :: string

record auth_db =
  ad_tenants :: "Tenant list"
  ad_users :: "User list"
  ad_instances :: "Instance list"
  ad_legacy :: "legacy_instance list"
  ad_outage :: "string \<Rightarrow> go_error option"

definition APIKeyPrefix :: "string \<Rightarrow> string" where
  "APIKeyPrefix apiKey = (if length apiKey \<le> 12 then apiKey else take 12 apiKey)"

section \<open>Queries\<close>

definition gorm_first ::
  "go_error option \<Rightarrow> ('a \<Rightarrow> string) \<Rightarrow> ('a \<Rightarrow> bool) \<Rightarrow> 'a list \<Rightarrow> go_error + 'a" where
  "gorm_first outage key P rows =
     (case outage of
        Some e \<Rightarrow> Inl e
      | None \<Rightarrow>
          (case find P (sort_key key rows) of
             None \<Rightarrow> Inl (wrap_error ''record not found'' (sentinel_error ErrRecordNotFound))
           | Some x \<Rightarrow> Inr x))"

definition tenant_GetByID :: "auth_db \<Rightarrow> string \<Rightarrow> go_error + Tenant" where
  "tenant_GetByID db tenantID = gorm_first (ad_outage db ''tenants'') tn_id (\<lambda>t. tn_id t = tenantID) (ad_tenants db)"

definition tenant_GetBySlug :: "auth_db \<Rightarrow> string \<Rightarrow> go_error + Tenant" where
  "tenant_GetBySlug db slug = gorm_first (ad_outage db ''tenants'') tn_id (\<lambda>t. tn_slug t = slug) (ad_tenants db)"

definition tenant_GetByAPIKeyPrefix :: "auth_db \<Rightarrow> string \<Rightarrow> go_error + Tenant" where
  "tenant_GetByAPIKeyPrefix db pre =
     gorm_first (ad_outage db ''tenants'') tn_id (\<lambda>t. tn_api_key_prefix t = pre) (ad_tenants db)"

definition user_GetByEmail :: "auth_db \<Rightarrow> string \<Rightarrow> string \<Rightarrow> go_error + User" where
  "user_GetByEmail db tenantID email =
     gorm_first (ad_outage db ''users'') us_id (\<lambda>u. us_tenant_id u = tenantID \<and> us_email u = email) (ad_users db)"

definition user_GetByID :: "auth_db \<Rightarrow> string \<Rightarrow> string \<Rightarrow> go_error + User" where
  "user_GetByID db tenantID userID =
     gorm_first (ad_outage db ''users'') us_id (\<lambda>u. us_tenant_id u = tenantID \<and> us_id u = userID) (ad_users db)"

definition FindByEngineInstanceID :: "auth_db \<Rightarrow> string \<Rightarrow> go_error + Instance" where
  "FindByEngineInstanceID db engineID =
     gorm_first (ad_outage db ''instances'') in_id (\<lambda>i. in_engine_instance_id i = engineID) (ad_instances db)"

text \<open>\<open>lower(name) = lower(?)\<close>, in no particular tenant.\<close>

definition FindByName :: "auth_db \<Rightarrow> string \<Rightarrow> go_error + Instance" where
  "FindByName db name =
     gorm_first (ad_outage db ''instances'') in_id (\<lambda>i. to_lower (in_name i) = to_lower name) (ad_instances db)"

definition GetInstanceByToken :: "auth_db \<Rightarrow> string \<Rightarrow> go_error + legacy_instance" where
  "GetInstanceByToken db token =
     gorm_first (ad_outage db ''legacy'') le_id (\<lambda>i. le_token i = token) (ad_legacy db)"

section \<open>Inserts\<close>

text \<open>The unique indexes refuse a second row with the slug, the key prefix or the address.\<close>

definition duplicate_key :: go_error where
  "duplicate_key = plain_error ''duplicate key value violates unique constraint''"

definition insert_tenant :: "Tenant \<Rightarrow> auth_db \<Rightarrow> go_error option \<times> auth_db" where
  "insert_tenant t db =
     (case ad_outage db ''tenants'' of
        Some e \<Rightarrow> (Some e, db)
      | None \<Rightarrow>
          if \<exists>x \<in> set (ad_tenants db). tn_id x = tn_id t \<or> tn_slug x = tn_slug t \<or> tn_api_key_prefix x = tn_api_key_prefix t
          then (Some duplicate_key, db) else (None, db\<lparr>ad_tenants := ad_tenants db @ [t]\<rparr>))"

definition insert_user :: "User \<Rightarrow> auth_db \<Rightarrow> go_error option \<times> auth_db" where
  "insert_user u db =
     (case ad_outage db ''users'' of
        Some e \<Rightarrow> (Some e, db)
      | None \<Rightarrow>
          if \<exists>x \<in> set (ad_users db). us_id x = us_id u \<or> (us_tenant_id x = us_tenant_id u \<and> us_email x = us_email u)
          then (Some duplicate_key, db) else (None, db\<lparr>ad_users := ad_users db @ [u]\<rparr>))"

section \<open>The interface\<close>

record auth_finders =
  af_tenant_by_id :: "string \<Rightarrow> go_error + Tenant"
  af_tenant_by_slug :: "string \<Rightarrow> go_error + Tenant"
  af_tenant_by_key_prefix :: "string \<Rightarrow> go_error + Tenant"
  af_user_by_email :: "string \<Rightarrow> string \<Rightarrow> go_error + User"
  af_user_by_id :: "string \<Rightarrow> string \<Rightarrow> go_error + User"

definition gorm_finders :: "auth_db \<Rightarrow> auth_finders" where
  "gorm_finders db =
     \<lparr>af_tenant_by_id = tenant_GetByID db, af_tenant_by_slug = tenant_GetBySlug db,
      af_tenant_by_key_prefix = tenant_GetByAPIKeyPrefix db, af_user_by_email = user_GetByEmail db,
      af_user_by_id = user_GetByID db\<rparr>"

text \<open>What is found is a row of the store, and the one that was asked for.\<close>

locale identity_store =
  fixes f :: auth_finders
    and tenants :: "Tenant set"
    and users :: "User set"
  assumes tenant_by_id: "af_tenant_by_id f i = Inr t \<Longrightarrow> t \<in> tenants \<and> tn_id t = i"
    and tenant_by_slug: "af_tenant_by_slug f s = Inr t \<Longrightarrow> t \<in> tenants \<and> tn_slug t = s"
    and tenant_by_key_prefix: "af_tenant_by_key_prefix f k = Inr t \<Longrightarrow> t \<in> tenants \<and> tn_api_key_prefix t = k"
    and user_by_email: "af_user_by_email f i e = Inr u \<Longrightarrow> u \<in> users \<and> us_tenant_id u = i \<and> us_email u = e"
    and user_by_id: "af_user_by_id f i n = Inr u \<Longrightarrow> u \<in> users \<and> us_tenant_id u = i \<and> us_id u = n"

lemma find_Some_mem: "find P xs = Some x \<Longrightarrow> x \<in> set xs \<and> P x"
  by (induction xs) (auto split: if_splits)

lemma gorm_first_Inr: "gorm_first outage key P rows = Inr x \<Longrightarrow> x \<in> set rows \<and> P x"
  by (auto simp: gorm_first_def split: option.splits dest: find_Some_mem)

interpretation gorm: identity_store "gorm_finders db" "set (ad_tenants db)" "set (ad_users db)" for db
  by unfold_locales
     (auto simp: gorm_finders_def tenant_GetByID_def tenant_GetBySlug_def tenant_GetByAPIKeyPrefix_def
        user_GetByEmail_def user_GetByID_def dest!: gorm_first_Inr)

text \<open>With a unique key, a row of a table in reach is found.\<close>

lemma gorm_first_found:
  assumes "x \<in> set rows" and "P x" and "\<And>y. y \<in> set rows \<Longrightarrow> P y \<Longrightarrow> y = x" and "outage = None"
  shows "gorm_first outage key P rows = Inr x"
proof (cases "find P (sort_key key rows)")
  case None
  with assms(1,2) show ?thesis by (simp add: find_None_iff)
next
  case (Some y)
  then have "y \<in> set rows" "P y" by (auto dest: find_Some_mem)
  with Some assms(3,4) show ?thesis by (auto simp: gorm_first_def)
qed

end
