(* ===== verification/Auth_Service.thy ===== *)
theory Auth_Service
  imports Auth_Store
begin

text \<open>
  Login, token refresh, authentication of requests and API keys (\<open>internal/auth/service.go\<close>), the tokens of
  the engine's instances (\<open>instance_tokens.go\<close>), the decoding of login requests (\<open>handler.go\<close>), and the
  creation of tenants (\<open>internal/tenant/service.go\<close>). Comparing and making bcrypt hashes is the parameter
  \<open>crypt\<close>.
\<close>

section \<open>Inputs and results\<close>

record LoginInput =
  lg_tenant_slug :: string
  lg_tenant_slug_camel :: string
  lg_tenant :: string
  lg_email :: string
  lg_password :: string

record RefreshInput =
  rf_refresh_token :: string
  rf_refresh_token_camel :: string

record LoginOutput =
  lo_access_token :: string
  lo_refresh_token :: string
  lo_tenant_id :: string
  lo_user_id :: string
  lo_role :: string
  lo_expires_in :: int

text \<open>\<open>cr_check hash secret\<close> compares; \<open>cr_hash\<close> makes a hash, or fails.\<close>

record auth_crypt =
  cr_check :: "string \<Rightarrow> string \<Rightarrow> bool"
  cr_hash :: "string \<Rightarrow> go_error + string"

record auth_service =
  as_tokens :: TokenManager
  as_lib :: token_lib
  as_crypt :: auth_crypt
  as_finders :: auth_finders
  as_instance_tokens :: "(string \<Rightarrow> go_error + Identity) option"

definition RoleOwner :: string where "RoleOwner = ''owner''"
definition RoleAdmin :: string where "RoleAdmin = ''admin''"
definition RoleAgent :: string where "RoleAgent = ''agent''"
definition RoleOperator :: string where "RoleOperator = ''operator''"
definition RoleViewer :: string where "RoleViewer = ''viewer''"

definition login_Normalize :: "LoginInput \<Rightarrow> LoginInput" where
  "login_Normalize i =
     (let slug = (if trim_space (lg_tenant_slug i) = [] then
                    (if trim_space (lg_tenant_slug_camel i) \<noteq> [] then lg_tenant_slug_camel i
                     else if trim_space (lg_tenant i) \<noteq> [] then lg_tenant i else lg_tenant_slug i)
                  else lg_tenant_slug i)
      in i\<lparr>lg_tenant_slug := lower_trim slug, lg_email := lower_trim (lg_email i),
           lg_password := trim_space (lg_password i)\<rparr>)"

definition refresh_Normalize :: "RefreshInput \<Rightarrow> RefreshInput" where
  "refresh_Normalize i =
     (let t = (if trim_space (rf_refresh_token i) = [] \<and> trim_space (rf_refresh_token_camel i) \<noteq> []
               then rf_refresh_token_camel i else rf_refresh_token i)
      in i\<lparr>rf_refresh_token := trim_space t\<rparr>)"

section \<open>Login and refresh\<close>

definition issueTokens ::
  "auth_service \<Rightarrow> time \<Rightarrow> time \<Rightarrow> Tenant \<Rightarrow> User \<Rightarrow> go_error + LoginOutput" where
  "issueTokens s now now' tenant user =
     (case GeneratePair (as_tokens s) (as_lib s) now now'
             \<lparr>id_user_id = us_id user, id_tenant_id = tn_id tenant, id_email = us_email user,
              id_role = us_role user, id_api_key = False\<rparr> of
        Inl e \<Rightarrow> Inl (wrap_error ''generate tokens'' e)
      | Inr pair \<Rightarrow>
          Inr \<lparr>lo_access_token = tp_access_token pair, lo_refresh_token = tp_refresh_token pair,
               lo_tenant_id = tn_id tenant, lo_user_id = us_id user, lo_role = us_role user,
               lo_expires_in = tp_expires_in pair\<rparr>)"

definition Login :: "auth_service \<Rightarrow> time \<Rightarrow> time \<Rightarrow> LoginInput \<Rightarrow> go_error + LoginOutput" where
  "Login s now now' inp =
     (let inp = login_Normalize inp in
      if lg_tenant_slug inp = [] \<or> lg_email inp = [] \<or> lg_password inp = [] then
        Inl (wrap ErrValidation ''tenant_slug, email and password are required'')
      else case af_tenant_by_slug (as_finders s) (lower_trim (lg_tenant_slug inp)) of
        Inl _ \<Rightarrow> Inl (wrap ErrUnauthorized ''tenant not found'')
      | Inr tenant \<Rightarrow>
          (case af_user_by_email (as_finders s) (tn_id tenant) (lower_trim (lg_email inp)) of
             Inl _ \<Rightarrow> Inl (wrap ErrUnauthorized ''invalid credentials'')
           | Inr user \<Rightarrow>
               if \<not> cr_check (as_crypt s) (us_password_hash user) (lg_password inp) then
                 Inl (wrap ErrUnauthorized ''invalid credentials'')
               else issueTokens s now now' tenant user))"

definition Refresh :: "auth_service \<Rightarrow> time \<Rightarrow> time \<Rightarrow> time \<Rightarrow> RefreshInput \<Rightarrow> go_error + LoginOutput" where
  "Refresh s t now now' inp =
     (let inp = refresh_Normalize inp in
      if trim_space (rf_refresh_token inp) = [] then Inl (wrap ErrValidation ''refresh_token is required'')
      else case ParseRefresh (as_tokens s) (as_lib s) t (rf_refresh_token inp) of
        Inl _ \<Rightarrow> Inl (wrap ErrUnauthorized ''invalid refresh token'')
      | Inr identity \<Rightarrow>
          (case af_tenant_by_id (as_finders s) (id_tenant_id identity) of
             Inl _ \<Rightarrow> Inl (wrap ErrUnauthorized ''tenant not found'')
           | Inr tenant \<Rightarrow>
               (case af_user_by_id (as_finders s) (id_tenant_id identity) (id_user_id identity) of
                  Inl _ \<Rightarrow> Inl (wrap ErrUnauthorized ''user not found'')
                | Inr user \<Rightarrow> issueTokens s now now' tenant user)))"

section \<open>Authentication\<close>

definition admin_key_identity :: "string \<Rightarrow> Identity" where
  "admin_key_identity tenantID =
     \<lparr>id_user_id = [], id_tenant_id = tenantID, id_email = [], id_role = RoleAdmin, id_api_key = True\<rparr>"

definition tenant_of_key :: "auth_service \<Rightarrow> string \<Rightarrow> Tenant option" where
  "tenant_of_key s apiKey =
     (case af_tenant_by_key_prefix (as_finders s) (APIKeyPrefix (trim_space apiKey)) of
        Inl _ \<Rightarrow> None
      | Inr tenant \<Rightarrow> if cr_check (as_crypt s) (tn_api_key_hash tenant) apiKey then Some tenant else None)"

definition authenticateAPIKey :: "auth_service \<Rightarrow> string \<Rightarrow> go_error + Identity" where
  "authenticateAPIKey s apiKey =
     (case tenant_of_key s apiKey of
        Some tenant \<Rightarrow> Inr (admin_key_identity (tn_id tenant))
      | None \<Rightarrow>
          (case as_instance_tokens s of
             None \<Rightarrow> Inl (wrap ErrUnauthorized ''invalid api key'')
           | Some resolve \<Rightarrow>
               (case resolve apiKey of
                  Inr identity \<Rightarrow> Inr identity
                | Inl _ \<Rightarrow> Inl (wrap ErrUnauthorized ''invalid api key''))))"

definition Authenticate :: "auth_service \<Rightarrow> time \<Rightarrow> string \<Rightarrow> string \<Rightarrow> go_error + Identity" where
  "Authenticate s now bearerToken apiKey =
     (if apiKey \<noteq> [] then authenticateAPIKey s apiKey
      else if bearerToken = [] then Inl (wrap ErrUnauthorized ''missing credentials'')
      else case Parse (as_tokens s) (as_lib s) now bearerToken of
        Inl _ \<Rightarrow> Inl (wrap ErrUnauthorized ''invalid bearer token'')
      | Inr identity \<Rightarrow>
          (case af_user_by_id (as_finders s) (id_tenant_id identity) (id_user_id identity) of
             Inl _ \<Rightarrow> Inl (wrap ErrUnauthorized ''user not found'')
           | Inr user \<Rightarrow> Inr (identity\<lparr>id_role := us_role user, id_email := us_email user\<rparr>)))"

section \<open>Instance tokens\<close>

definition minInstanceTokenLength :: nat where "minInstanceTokenLength = 16"

text \<open>
  The instance of a token: by the engine's id, and when that finds nothing by name. The error of a search
  that was skipped is that of the search before, none.
\<close>

definition linked_instance :: "auth_db \<Rightarrow> legacy_instance \<Rightarrow> Instance option" where
  "linked_instance db legacy =
     (case (if trim_space (le_id legacy) \<noteq> [] then FindByEngineInstanceID db (trim_space (le_id legacy))
            else Inl (sentinel_error ErrRecordNotFound)) of
        Inr i \<Rightarrow> Some i
      | Inl _ \<Rightarrow>
          if trim_space (le_name legacy) \<noteq> [] then
            (case FindByName db (le_name legacy) of Inr i \<Rightarrow> Some i | Inl _ \<Rightarrow> None)
          else None)"

definition ResolveInstanceToken :: "auth_db \<Rightarrow> string \<Rightarrow> string \<Rightarrow> go_error + Identity" where
  "ResolveInstanceToken db platformKey token =
     (let token = trim_space token in
      if length token < minInstanceTokenLength then
        Inl (wrap ErrUnauthorized ''missing or malformed instance token'')
      else if platformKey \<noteq> [] \<and> token = platformKey then
        Inl (wrap ErrUnauthorized ''platform key is not a valid instance token'')
      else case GetInstanceByToken db token of
        Inl _ \<Rightarrow> Inl (wrap ErrUnauthorized ''invalid instance token'')
      | Inr legacy \<Rightarrow>
          (case linked_instance db legacy of
             None \<Rightarrow> Inl (wrap ErrUnauthorized ''instance not linked to tenant'')
           | Some i \<Rightarrow> Inr (admin_key_identity (in_tenant_id i))))"

section \<open>Decoding requests\<close>

text \<open>
  A request by what its parts read as; \<open>lq_body\<close> is the object the body decodes to, \<open>None\<close> for an empty
  body or other data.
\<close>

record login_request =
  lq_form :: "string \<Rightarrow> string"
  lq_query :: "string \<Rightarrow> string"
  lq_header :: "string \<Rightarrow> string"
  lq_read_error :: "go_error option"
  lq_body :: "json_object option"

fun first_nonempty :: "string list \<Rightarrow> string" where
  "first_nonempty [] = []"
| "first_nonempty (v # vs) = (if v \<noteq> [] then v else first_nonempty vs)"

fun payload_text :: "json_object \<Rightarrow> string list \<Rightarrow> string option" where
  "payload_text payload [] = None"
| "payload_text payload (k # ks) =
     (case map_of payload k of
        Some (JStr t) \<Rightarrow> if trim_space t \<noteq> [] then Some t else payload_text payload ks
      | _ \<Rightarrow> payload_text payload ks)"

definition set_if_empty :: "string \<Rightarrow> json_object \<Rightarrow> string list \<Rightarrow> string" where
  "set_if_empty target payload keys =
     (if trim_space target \<noteq> [] then target
      else case payload_text payload keys of None \<Rightarrow> target | Some t \<Rightarrow> t)"

definition mergeLoginPayload :: "LoginInput \<Rightarrow> json_object \<Rightarrow> LoginInput" where
  "mergeLoginPayload i payload =
     i\<lparr>lg_tenant_slug := set_if_empty (lg_tenant_slug i) payload [''tenant_slug'', ''tenantSlug'', ''tenant'', ''slug''],
       lg_email := set_if_empty (lg_email i) payload [''email'', ''username'', ''user''],
       lg_password := set_if_empty (lg_password i) payload [''password'', ''pass'']\<rparr>"

definition decodeLoginInput :: "login_request \<Rightarrow> go_error + LoginInput" where
  "decodeLoginInput r =
     (case lq_read_error r of
        Some e \<Rightarrow> Inl e
      | None \<Rightarrow>
          (let i = \<lparr>lg_tenant_slug = first_nonempty [lq_form r ''tenant_slug'', lq_form r ''tenant'',
                       lq_query r ''tenant_slug'', lq_query r ''tenant'', lq_header r ''X-Tenant-Slug''],
                    lg_tenant_slug_camel = [], lg_tenant = [],
                    lg_email = first_nonempty [lq_form r ''email'', lq_query r ''email''],
                    lg_password = first_nonempty [lq_form r ''password'', lq_query r ''password'']\<rparr>
           in Inr (login_Normalize (case lq_body r of None \<Rightarrow> i | Some p \<Rightarrow> mergeLoginPayload i p))))"

definition mergeRefreshPayload :: "RefreshInput \<Rightarrow> json_object \<Rightarrow> RefreshInput" where
  "mergeRefreshPayload i payload =
     i\<lparr>rf_refresh_token := set_if_empty (rf_refresh_token i) payload [''refresh_token'', ''refreshToken'', ''token'']\<rparr>"

definition decodeRefreshInput :: "login_request \<Rightarrow> go_error + RefreshInput" where
  "decodeRefreshInput r =
     (case lq_read_error r of
        Some e \<Rightarrow> Inl e
      | None \<Rightarrow>
          (let i = \<lparr>rf_refresh_token = first_nonempty [lq_form r ''refresh_token'', lq_form r ''refreshToken'',
                       lq_query r ''refresh_token'', lq_query r ''refreshToken''],
                    rf_refresh_token_camel = []\<rparr>
           in Inr (refresh_Normalize (case lq_body r of None \<Rightarrow> i | Some p \<Rightarrow> mergeRefreshPayload i p))))"

section \<open>Tenants\<close>

record tenant_CreateInput =
  tc_name :: string
  tc_slug :: string
  tc_admin_name :: string
  tc_admin_email :: string
  tc_admin_password :: string

text \<open>
  The random parts of a creation: the ids of the two rows and the 24 bytes of the API key, or the error of
  the random source.
\<close>

record tenant_random =
  tr_tenant_id :: string
  tr_user_id :: string
  tr_key_bytes :: "go_error + string"

definition hex_digit :: "nat \<Rightarrow> char" where
  "hex_digit n = ''0123456789ABCDEF'' ! n"

text \<open>The upper case of \<open>hex.EncodeToString\<close>.\<close>

definition hex_upper :: "string \<Rightarrow> string" where
  "hex_upper s = concat (map (\<lambda>c. [hex_digit (of_char c div 16), hex_digit (of_char c mod 16)]) s)"

definition GenerateTenantAPIKey :: "go_error + string \<Rightarrow> go_error + string" where
  "GenerateTenantAPIKey random =
     (case random of Inl e \<Rightarrow> Inl e | Inr buf \<Rightarrow> Inr (''evo_tk_'' @ hex_upper buf))"

definition tenant_normalize :: "tenant_CreateInput \<Rightarrow> tenant_CreateInput" where
  "tenant_normalize i =
     \<lparr>tc_name = trim_space (tc_name i), tc_slug = trim_space (tc_slug i), tc_admin_name = trim_space (tc_admin_name i),
      tc_admin_email = lower_trim (tc_admin_email i), tc_admin_password = trim_space (tc_admin_password i)\<rparr>"

definition tenant_invalid :: "tenant_CreateInput \<Rightarrow> go_error option" where
  "tenant_invalid i =
     (if tc_name i = [] \<or> tc_slug i = [] \<or> tc_admin_email i = [] \<or> tc_admin_password i = [] then
        Some (wrap ErrValidation ''missing tenant fields'')
      else if length (tc_admin_password i) < 8 then
        Some (wrap ErrValidation ''admin_password must be at least 8 characters'')
      else None)"

text \<open>The rows of a creation.\<close>

definition created_tenant :: "tenant_random \<Rightarrow> tenant_CreateInput \<Rightarrow> string \<Rightarrow> string \<Rightarrow> Tenant" where
  "created_tenant rnd i rawAPIKey apiKeyHash =
     \<lparr>tn_id = tr_tenant_id rnd, tn_name = trim_space (tc_name i), tn_slug = to_lower (tc_slug i),
      tn_api_key_prefix = APIKeyPrefix rawAPIKey, tn_api_key_hash = apiKeyHash, tn_ai_enabled = False\<rparr>"

definition created_user :: "tenant_random \<Rightarrow> tenant_CreateInput \<Rightarrow> Tenant \<Rightarrow> string \<Rightarrow> User" where
  "created_user rnd i tenant passwordHash =
     \<lparr>us_id = tr_user_id rnd, us_tenant_id = tn_id tenant, us_email = tc_admin_email i,
      us_password_hash = passwordHash,
      us_name = (if tc_admin_name i = [] then tn_name tenant @ '' Admin'' else tc_admin_name i),
      us_role = RoleAdmin\<rparr>"

definition tenant_store ::
  "Tenant \<Rightarrow> User \<Rightarrow> string \<Rightarrow> auth_db \<Rightarrow> (go_error + Tenant \<times> User \<times> string) \<times> auth_db" where
  "tenant_store tenant user rawAPIKey db =
     (case insert_tenant tenant db of
        (Some e, db) \<Rightarrow> (Inl e, db)
      | (None, db) \<Rightarrow>
          (case insert_user user db of
             (Some e, db) \<Rightarrow> (Inl e, db)
           | (None, db) \<Rightarrow> (Inr (tenant, user, rawAPIKey), db)))"

definition tenant_Create ::
  "auth_crypt \<Rightarrow> tenant_random \<Rightarrow> tenant_CreateInput \<Rightarrow> auth_db \<Rightarrow> (go_error + Tenant \<times> User \<times> string) \<times> auth_db" where
  "tenant_Create crypt rnd inp db =
     (let i = tenant_normalize inp in
      case tenant_invalid i of
        Some e \<Rightarrow> (Inl e, db)
      | None \<Rightarrow>
      case tenant_GetBySlug db (to_lower (tc_slug i)) of
        Inr _ \<Rightarrow> (Inl (wrap ErrConflict ''tenant slug already exists''), db)
      | Inl _ \<Rightarrow>
      case cr_hash crypt (tc_admin_password i) of
        Inl e \<Rightarrow> (Inl (wrap_error ''hash password'' e), db)
      | Inr passwordHash \<Rightarrow>
      case GenerateTenantAPIKey (tr_key_bytes rnd) of
        Inl e \<Rightarrow> (Inl (wrap_error ''generate api key'' e), db)
      | Inr rawAPIKey \<Rightarrow>
      case cr_hash crypt rawAPIKey of
        Inl e \<Rightarrow> (Inl (wrap_error ''hash api key'' e), db)
      | Inr apiKeyHash \<Rightarrow>
          (let tenant = created_tenant rnd i rawAPIKey apiKeyHash
           in tenant_store tenant (created_user rnd i tenant passwordHash) rawAPIKey db))"

definition tenant_Get :: "auth_finders \<Rightarrow> string \<Rightarrow> go_error + Tenant" where
  "tenant_Get f tenantID =
     (if tenantID = [] then Inl (wrap ErrUnauthorized ''tenant missing from context'')
      else case af_tenant_by_id f tenantID of
        Inl _ \<Rightarrow> Inl (wrap ErrNotFound ''tenant not found'')
      | Inr t \<Rightarrow> Inr t)"

end
