(* ===== verification/Auth_Middleware.thy ===== *)
theory Auth_Middleware
  imports Auth_Service
begin

text \<open>
  What a protected request passes before its handler: the guard (\<open>internal/middleware/auth.go\<close>), the tenant
  (\<open>tenant.go\<close>), the roles, and for platform routes the platform key (\<open>platform.go\<close>); with the answers of
  \<open>internal/handler/http.go\<close>, the audit trail (\<open>audit.go\<close>), the CORS headers (\<open>cors.go\<close>) and the chains in
  which \<open>internal/server/server.go\<close> composes them; and the guards of the engine's own API
  (\<open>pkg/middleware/auth_middleware.go\<close>). A step hands a value on or ends the request with a status, a
  message and a code.
\<close>

section \<open>Answers\<close>

datatype 'a step = Pass 'a | Halt int string string

definition error_status :: "go_error \<Rightarrow> int \<times> string" where
  "error_status e =
     (case err_is e of
        Some ErrUnauthorized \<Rightarrow> (401, ''unauthorized'')
      | Some ErrForbidden \<Rightarrow> (403, ''forbidden'')
      | Some ErrNotFound \<Rightarrow> (404, ''not_found'')
      | Some ErrConflict \<Rightarrow> (409, ''conflict'')
      | Some ErrValidation \<Rightarrow> (400, ''validation_failed'')
      | Some ErrRateLimited \<Rightarrow> (429, ''rate_limited'')
      | Some ErrTimeout \<Rightarrow> (504, ''timeout'')
      | Some DeadlineExceeded \<Rightarrow> (504, ''timeout'')
      | Some Canceled \<Rightarrow> (408, ''request_cancelled'')
      | _ \<Rightarrow> (500, ''internal_error''))"

definition WriteError :: "go_error \<Rightarrow> 'a step" where
  "WriteError e = (case error_status e of (status, code) \<Rightarrow> Halt status (err_text e) code)"

fun and_pass :: "'a step \<Rightarrow> ('a \<Rightarrow> 'b step) \<Rightarrow> 'b step" where
  "and_pass (Pass a) f = f a"
| "and_pass (Halt n msg code) f = Halt n msg code"

section \<open>The guard\<close>

text \<open>The headers of a request by name, empty when absent.\<close>

type_synonym headers = "string \<Rightarrow> string"

definition sanitizeCredentialValue :: "string \<Rightarrow> string" where
  "sanitizeCredentialValue value =
     (let v = trim_space value in if to_lower v \<in> {[], ''undefined'', ''null''} then [] else v)"

definition bearer_of :: "headers \<Rightarrow> string" where
  "bearer_of h =
     (let a = h ''Authorization'' in
      sanitizeCredentialValue (if has_prefix (to_lower a) ''bearer '' then trim_space (drop 7 a) else a))"

definition api_key_of :: "headers \<Rightarrow> string" where
  "api_key_of h = sanitizeCredentialValue (if h ''X-API-Key'' = [] then h ''apikey'' else h ''X-API-Key'')"

definition Guard :: "auth_service \<Rightarrow> time \<Rightarrow> headers \<Rightarrow> Identity step" where
  "Guard s now h =
     (case Authenticate s now (bearer_of h) (api_key_of h) of Inl e \<Rightarrow> WriteError e | Inr i \<Rightarrow> Pass i)"

definition RequireRoles :: "string list \<Rightarrow> Identity \<Rightarrow> Identity step" where
  "RequireRoles roles identity =
     (if lower_trim (id_role identity) \<in> set (map lower_trim roles) then Pass identity
      else WriteError (wrap ErrForbidden ''insufficient role''))"

section \<open>The tenant\<close>

definition ensureTenantRequestMatches :: "headers \<Rightarrow> string \<Rightarrow> string \<Rightarrow> go_error option" where
  "ensureTenantRequestMatches h tenantID tenantSlug =
     (let i = trim_space (h ''X-Tenant-ID''); slug = lower_trim (h ''X-Tenant-Slug'') in
      if i \<noteq> [] \<and> i \<noteq> tenantID then
        Some (wrap ErrForbidden ''tenant id does not match authenticated tenant'')
      else if slug \<noteq> [] \<and> slug \<noteq> to_lower tenantSlug then
        Some (wrap ErrForbidden ''tenant slug does not match authenticated tenant'')
      else None)"

definition tenant_Resolve :: "auth_finders \<Rightarrow> headers \<Rightarrow> Identity \<Rightarrow> Tenant step" where
  "tenant_Resolve f h identity =
     (if id_tenant_id identity = [] then WriteError (sentinel_error ErrUnauthorized)
      else case tenant_Get f (id_tenant_id identity) of
        Inl _ \<Rightarrow> WriteError (wrap ErrUnauthorized ''tenant not found'')
      | Inr tenant \<Rightarrow>
          (case ensureTenantRequestMatches h (id_tenant_id identity) (tn_slug tenant) of
             Some e \<Rightarrow> WriteError e
           | None \<Rightarrow> Pass tenant))"

section \<open>Platform routes\<close>

definition platform_key_of :: "headers \<Rightarrow> string" where
  "platform_key_of h =
     first_nonempty [sanitizeCredentialValue (h ''X-Platform-Key''), sanitizeCredentialValue (h ''X-API-Key''),
                     sanitizeCredentialValue (h ''apikey'')]"

definition PlatformGuard :: "string \<Rightarrow> headers \<Rightarrow> unit step" where
  "PlatformGuard platformKey h =
     (let expected = trim_space platformKey; provided = platform_key_of h in
      if expected = [] then WriteError (wrap ErrForbidden ''platform operations are disabled'')
      else if provided = [] \<or> provided \<noteq> expected then
        WriteError (wrap ErrUnauthorized ''invalid platform key'')
      else Pass ())"

section \<open>Routes\<close>

definition readRoles :: "string list" where
  "readRoles = [RoleOwner, RoleAdmin, RoleAgent, RoleOperator, RoleViewer]"

definition opRoles :: "string list" where
  "opRoles = [RoleOwner, RoleAdmin, RoleAgent, RoleOperator]"

definition adminRoles :: "string list" where
  "adminRoles = [RoleOwner, RoleAdmin]"

text \<open>The chain of the protected group, up to the handler.\<close>

definition protected_route :: "auth_service \<Rightarrow> string list \<Rightarrow> time \<Rightarrow> headers \<Rightarrow> (Identity \<times> Tenant) step" where
  "protected_route s roles now h =
     and_pass (Guard s now h) (\<lambda>identity.
     and_pass (tenant_Resolve (as_finders s) h identity) (\<lambda>tenant.
     and_pass (RequireRoles roles identity) (\<lambda>identity. Pass (identity, tenant))))"

definition tenant_creation_route ::
  "string \<Rightarrow> auth_crypt \<Rightarrow> tenant_random \<Rightarrow> headers \<Rightarrow> tenant_CreateInput \<Rightarrow> auth_db \<Rightarrow>
   (Tenant \<times> User \<times> string) step \<times> auth_db" where
  "tenant_creation_route platformKey crypt rnd h inp db =
     (case PlatformGuard platformKey h of
        Halt n msg code \<Rightarrow> (Halt n msg code, db)
      | Pass _ \<Rightarrow>
          (case tenant_Create crypt rnd inp db of
             (Inl e, db) \<Rightarrow> (WriteError e, db)
           | (Inr out, db) \<Rightarrow> (Pass out, db)))"

section \<open>The audit trail\<close>

record AuditLog =
  au_tenant_id :: string
  au_actor_type :: string
  au_actor_id :: string
  au_actor_email :: string
  au_action :: string
  au_method :: string
  au_path :: string
  au_resource_id :: string
  au_status :: int
  au_request_id :: string
  au_client_ip :: string

definition contains_any :: "string \<Rightarrow> string list \<Rightarrow> bool" where
  "contains_any p ks = list_ex (contains p) ks"

definition auditAction :: "string \<Rightarrow> string \<Rightarrow> string" where
  "auditAction meth path =
     (let p = to_lower path in
      if contains_any p [''/messages/text'', ''/messages/media'', ''/messages/audio'', ''/message/sendtext'',
           ''/message/sendmedia'', ''/message/sendwhatsappaudio''] then ''message.send''
      else if contains p ''/message/markread'' then ''message.markread''
      else if contains_any p [''/message/presence'', ''/setpresence''] then ''instance.presence''
      else if has_suffix p ''/connect'' then ''instance.connect''
      else if has_suffix p ''/disconnect'' then ''instance.disconnect''
      else if has_suffix p ''/reconnect'' then ''instance.reconnect''
      else if has_suffix p ''/pair'' then ''instance.pair''
      else if has_suffix p ''/logout'' \<and> contains p ''/instance'' then ''instance.logout''
      else if has_suffix p ''/history/backfill'' then ''instance.backfill''
      else if meth = ''DELETE'' \<and> contains p ''/instance'' then ''instance.delete''
      else if meth = ''POST'' \<and> p = ''/instance'' then ''instance.create''
      else if contains p ''/instance'' \<and> (meth = ''PUT'' \<or> meth = ''PATCH'') then ''instance.config_change''
      else if p = ''/webhook'' \<and> meth = ''POST'' then ''webhook.create''
      else if contains_any p [''/webhook/inbound'', ''/webhook/outbound''] then ''webhook.dispatch''
      else if has_prefix p ''/broadcast'' then ''broadcast.create''
      else if has_prefix p ''/contacts'' then ''contact.write''
      else if has_prefix p ''/ai/'' then ''ai.config_change''
      else if p = ''/auth/logout'' then ''auth.logout''
      else if contains_any p [''/chats/search'', ''/messages/search'', ''/chat/findchats'', ''/chat/findmessages'']
        then []
      else ''http.'' @ to_lower meth)"

record audited_request =
  ar_method :: string
  ar_full_path :: string
  ar_url_path :: string
  ar_param :: "string \<Rightarrow> string"
  ar_request_id :: string
  ar_client_ip :: string

definition auditResourceID :: "(string \<Rightarrow> string) \<Rightarrow> string" where
  "auditResourceID param =
     first_nonempty (map (\<lambda>k. trim_space (param k)) [''id'', ''instanceID'', ''instanceName'', ''resourceId''])"

text \<open>What is recorded once the handler has answered with \<open>status\<close>.\<close>

definition Audit :: "audited_request \<Rightarrow> Identity \<Rightarrow> int \<Rightarrow> AuditLog option" where
  "Audit r identity status =
     (if ar_method r \<in> {''GET'', ''HEAD'', ''OPTIONS''} then None
      else if id_tenant_id identity = [] then None
      else let path = (if ar_full_path r = [] then ar_url_path r else ar_full_path r);
               action = auditAction (ar_method r) path
           in if action = [] then None
              else Some \<lparr>au_tenant_id = id_tenant_id identity,
                         au_actor_type = (if id_api_key identity then ''api_key'' else ''user''),
                         au_actor_id = (if id_api_key identity then [] else id_user_id identity),
                         au_actor_email = id_email identity, au_action = action, au_method = ar_method r,
                         au_path = path, au_resource_id = auditResourceID (ar_param r), au_status = status,
                         au_request_id = ar_request_id r, au_client_ip = ar_client_ip r\<rparr>)"

section \<open>Cross-origin requests\<close>

record cors_answer =
  co_allow_origin :: "string option"
  co_credentials :: bool
  co_vary :: bool
  co_continues :: bool

definition CORS :: "string list \<Rightarrow> string \<Rightarrow> string \<Rightarrow> cors_answer" where
  "CORS allowedOrigins meth originHeader =
     (let entries = filter (\<lambda>x. x \<noteq> []) (map trim_space allowedOrigins);
          allowAll = (''*'' \<in> set entries);
          allow = set (map to_lower (filter (\<lambda>x. x \<noteq> ''*'') entries));
          origin = trim_space originHeader;
          listed = (\<not> allowAll \<and> to_lower origin \<in> allow)
      in \<lparr>co_allow_origin = (if origin = [] then None else if allowAll then Some ''*''
                            else if listed then Some origin else None),
          co_credentials = (origin \<noteq> [] \<and> listed), co_vary = (origin \<noteq> []),
          co_continues = (meth \<noteq> ''OPTIONS'')\<rparr>)"

section \<open>The engine's API\<close>

definition legacy_Auth :: "auth_db \<Rightarrow> headers \<Rightarrow> legacy_instance step" where
  "legacy_Auth db h =
     (if h ''apikey'' = [] then Halt 401 ''not authorized'' []
      else case GetInstanceByToken db (h ''apikey'') of
        Inl _ \<Rightarrow> Halt 401 ''not authorized'' []
      | Inr i \<Rightarrow> Pass i)"

definition AuthAdmin :: "string \<Rightarrow> headers \<Rightarrow> unit step" where
  "AuthAdmin globalApiKey h =
     (if h ''apikey'' = [] then Halt 401 ''not authorized'' []
      else if h ''apikey'' \<noteq> globalApiKey then Halt 401 ''not authorized'' []
      else Pass ())"

section \<open>Lemmas\<close>

lemma and_pass_Pass: "and_pass x f = Pass b \<longleftrightarrow> (\<exists>a. x = Pass a \<and> f a = Pass b)"
  by (cases x) auto

lemma and_pass_Halt: "and_pass x f = Halt n msg code \<longleftrightarrow> x = Halt n msg code \<or> (\<exists>a. x = Pass a \<and> f a = Halt n msg code)"
  by (cases x) auto

lemma WriteError_not_Pass [simp]: "WriteError e \<noteq> Pass a"
  by (simp add: WriteError_def split: prod.splits)

lemma WriteError_wrap [simp]:
  "WriteError (wrap ErrUnauthorized msg) = Halt 401 (''unauthorized: '' @ msg) ''unauthorized''"
  "WriteError (wrap ErrForbidden msg) = Halt 403 (''forbidden: '' @ msg) ''forbidden''"
  "WriteError (sentinel_error ErrUnauthorized) = Halt 401 ''unauthorized'' ''unauthorized''"
  by (simp_all add: WriteError_def error_status_def wrap_def sentinel_error_def)

lemma trimmed_no_space:
  assumes "\<And>w. w \<in> set white_space \<Longrightarrow> \<not> set w \<subseteq> set s"
  shows "trimmed s"
  using assms unfolding trimmed_def has_prefix_iff has_suffix_iff by (metis Un_upper1 Un_upper2 set_append)

lemma white_space_not_alphabet: "w \<in> set white_space \<Longrightarrow> \<not> set w \<subseteq> insert (CHR ''.'') (set b64_alphabet)"
proof -
  have "list_all (\<lambda>w. \<not> set w \<subseteq> insert (CHR ''.'') (set b64_alphabet)) white_space" by code_simp
  then show "w \<in> set white_space \<Longrightarrow> \<not> set w \<subseteq> insert (CHR ''.'') (set b64_alphabet)"
    by (simp add: list_all_iff)
qed

text \<open>A token survives the cleaning of the header.\<close>

lemma generate_chars:
  assumes "generate m lib now identity ty ttl = Inr token"
  shows "set token \<subseteq> insert (CHR ''.'') (set b64_alphabet)" and "CHR ''.'' \<in> set token"
proof -
  obtain json where tok: "token = signing_input json @ ''.'' @ b64_encode (tl_mac lib (tm_secret m) (signing_input json))"
    using assms by (auto simp: generate_def signToken_def Let_def split: sum.splits)
  show "set token \<subseteq> insert (CHR ''.'') (set b64_alphabet)"
    unfolding tok signing_input_def using set_b64_encode by auto
  show "CHR ''.'' \<in> set token" unfolding tok by simp
qed

lemma sanitize_token:
  assumes "set token \<subseteq> insert (CHR ''.'') (set b64_alphabet)" and "CHR ''.'' \<in> set token"
  shows "trim_space token = token" and "sanitizeCredentialValue token = token" and "token \<noteq> []"
proof -
  have "trimmed token" using white_space_not_alphabet assms(1) by (intro trimmed_no_space) blast
  then show t: "trim_space token = token" by (rule trimmed_trim_space)
  show "token \<noteq> []" using assms(2) by auto
  have "lower_char (CHR ''.'') = CHR ''.''" by code_simp
  then have "CHR ''.'' \<in> set (to_lower token)" using assms(2) by (force simp: to_lower_def)
  then have "to_lower token \<notin> {[], ''undefined'', ''null''}" by auto
  with t show "sanitizeCredentialValue token = token" by (simp add: sanitizeCredentialValue_def Let_def)
qed

lemma bearer_of_token:
  assumes "h ''Authorization'' = ''Bearer '' @ token" and "trim_space token = token" and "sanitizeCredentialValue token = token"
  shows "bearer_of h = token"
proof -
  have "to_lower (''Bearer '' @ token) = ''bearer '' @ to_lower token"
  proof -
    have "to_lower ''Bearer '' = ''bearer ''" by code_simp
    then show ?thesis by (metis to_lower_append)
  qed
  then have "has_prefix (to_lower (h ''Authorization'')) ''bearer ''" unfolding assms(1) by (metis has_prefix_append)
  with assms show ?thesis by (simp add: bearer_of_def Let_def)
qed

lemma sanitize_Nil [simp]: "sanitizeCredentialValue [] = []"
  by (simp add: sanitizeCredentialValue_def)

text \<open>The holder of a key: a tenant, or an instance of the engine that is linked to one.\<close>

lemma tenant_of_key_sound:
  "tenant_of_key s k = Some t \<Longrightarrow> as_finders s = gorm_finders db \<Longrightarrow>
     t \<in> set (ad_tenants db) \<and> tn_api_key_prefix t = APIKeyPrefix (trim_space k) \<and> cr_check (as_crypt s) (tn_api_key_hash t) k"
  using gorm.tenant_by_key_prefix [of db "APIKeyPrefix (trim_space k)" t]
  by (auto simp: tenant_of_key_def split: sum.splits if_splits)

lemma linked_instance_sound:
  assumes "linked_instance db legacy = Some i"
  shows "i \<in> set (ad_instances db) \<and> (in_engine_instance_id i = trim_space (le_id legacy) \<or>
    to_lower (in_name i) = to_lower (le_name legacy) \<and> trim_space (le_name legacy) \<noteq> [])"
  using assms by (auto simp: linked_instance_def FindByEngineInstanceID_def FindByName_def
      split: sum.splits if_splits dest: gorm_first_Inr)

lemma authenticateAPIKey_Inr:
  assumes "authenticateAPIKey s k = Inr identity" and "as_finders s = gorm_finders db"
    and "as_instance_tokens s \<in> {None, Some (ResolveInstanceToken db pk)}"
  shows "identity = admin_key_identity (id_tenant_id identity) \<and>
    ((\<exists>t. tenant_of_key s k = Some t \<and> tn_id t = id_tenant_id identity) \<or>
     ResolveInstanceToken db pk k = Inr identity)"
  using assms by (auto simp: authenticateAPIKey_def admin_key_identity_def ResolveInstanceToken_def Let_def
      split: option.splits sum.splits if_splits)

text \<open>Tokens that were issued for a user of the store pass the guard with the user's present role.\<close>

lemma issued_token_passes:
  assumes "issueTokens s now now' tn u = Inr out" and "as_finders s = gorm_finders db"
    and "u \<in> set (ad_users db)" and "us_tenant_id u = tn_id tn"
    and "\<And>v. v \<in> set (ad_users db) \<Longrightarrow> us_id v = us_id u \<Longrightarrow> v = u" and "ad_outage db ''users'' = None"
    and "\<forall>c json. tl_marshal (as_lib s) c = Inr json \<longrightarrow> tl_unmarshal (as_lib s) json = Inr c"
    and "unix t \<le> unix (now + tm_ttl (as_tokens s))"
    and "h ''Authorization'' = ''Bearer '' @ lo_access_token out" and "h ''X-API-Key'' = []" and "h ''apikey'' = []"
  shows "Guard s t h = Pass \<lparr>id_user_id = us_id u, id_tenant_id = tn_id tn, id_email = us_email u,
      id_role = us_role u, id_api_key = False\<rparr>"
proof -
  define i where "i = \<lparr>id_user_id = us_id u, id_tenant_id = tn_id tn, id_email = us_email u,
      id_role = us_role u, id_api_key = False\<rparr>"
  from assms(1) obtain pair where pair: "GeneratePair (as_tokens s) (as_lib s) now now' i = Inr pair"
    and tok: "lo_access_token out = tp_access_token pair"
    by (auto simp: issueTokens_def i_def split: sum.splits)
  have p: "Parse (as_tokens s) (as_lib s) t (lo_access_token out) = Inr i"
    using parse_pair_access [OF pair assms(7)] assms(8) tok by (simp add: i_def)
  obtain acc where acc: "generate (as_tokens s) (as_lib s) now i tokenTypeAccess (tm_ttl (as_tokens s)) = Inr (lo_access_token out)"
    using pair tok by (auto simp: GeneratePair_def split: sum.splits)
  note st = sanitize_token [OF generate_chars [OF acc]]
  have b: "bearer_of h = lo_access_token out" by (rule bearer_of_token) (use assms(9) st in auto)
  have k: "api_key_of h = []" using assms(10,11) by (simp add: api_key_of_def)
  have "user_GetByID db (tn_id tn) (us_id u) = Inr u"
    unfolding user_GetByID_def by (rule gorm_first_found) (use assms(3-6) in auto)
  then show ?thesis
    using p b k st(3) assms(2) by (simp add: Guard_def Authenticate_def gorm_finders_def i_def)
qed

section \<open>Sample data\<close>

text \<open>
  Two tenants that both have an instance named Support; the engine's instance of that name has an id that
  neither of them has recorded.
\<close>

definition sample_user :: User where
  "sample_user = \<lparr>us_id = ''u1'', us_tenant_id = ''t1'', us_email = ''a@b'', us_password_hash = ''#pw'', us_name = ''A'',
     us_role = ''agent''\<rparr>"

definition sample_tenant :: "string \<Rightarrow> string \<Rightarrow> Tenant" where
  "sample_tenant i slug = \<lparr>tn_id = i, tn_name = slug, tn_slug = slug, tn_api_key_prefix = ''evo_tk_'' @ i,
     tn_api_key_hash = ''#evo_tk_'' @ i, tn_ai_enabled = False\<rparr>"

definition sample_instance :: "string \<Rightarrow> string \<Rightarrow> Instance" where
  "sample_instance i tenantID = \<lparr>in_id = i, in_tenant_id = tenantID, in_name = ''support'', in_status = ''open'',
     in_engine_instance_id = [], in_webhook_url = [], in_webhook_events = [], in_webhook_base64 = False,
     in_webhook_by_events = False, in_ai_enabled = False, in_ai_auto_reply = False, in_created_at = 0\<rparr>"

definition sample_db :: auth_db where
  "sample_db = \<lparr>ad_tenants = [sample_tenant ''t1'' ''acme'', sample_tenant ''t2'' ''globex''], ad_users = [sample_user],
     ad_instances = [sample_instance ''i2'' ''t2'', sample_instance ''i1'' ''t1''],
     ad_legacy = [\<lparr>le_id = ''e7'', le_name = ''Support'', le_token = ''0123456789abcdef''\<rparr>], ad_outage = (\<lambda>_. None)\<rparr>"

definition sample_crypt :: auth_crypt where
  "sample_crypt = \<lparr>cr_check = (\<lambda>hash secret. hash = CHR ''#'' # secret), cr_hash = (\<lambda>secret. Inr (CHR ''#'' # secret))\<rparr>"

definition sample_service :: auth_service where
  "sample_service = \<lparr>as_tokens = sample_manager, as_lib = sample_tokens, as_crypt = sample_crypt,
     as_finders = gorm_finders sample_db, as_instance_tokens = Some (ResolveInstanceToken sample_db [])\<rparr>"

definition one_header :: "string \<Rightarrow> string \<Rightarrow> headers" where
  "one_header k v = (\<lambda>_. [])(k := v)"

lemma sample_service_fields:
  "as_finders sample_service = gorm_finders sample_db"
  "as_instance_tokens sample_service = Some (ResolveInstanceToken sample_db [])"
  "as_tokens sample_service = sample_manager" "as_lib sample_service = sample_tokens" "as_crypt sample_service = sample_crypt"
  by (simp_all add: sample_service_def)

section \<open>Properties\<close>

text \<open>
  C15: a request reaches the handler of a protected route only with an identity that has one of the
  roles of the route, in a tenant that exists and that is the one the tenant headers name, if any;
  and either it showed a key, that of the tenant or the token of an engine's instance that is linked to
  an instance of the tenant (by the engine's id, or only by its name), or the identity is that of a user
  of the tenant, with the role the user has now, and not the one at the time the token was issued.
\<close>

theorem protected_route_safe:
  assumes "protected_route s roles now h = Pass (identity, tenant)" and "as_finders s = gorm_finders db"
    and "as_instance_tokens s \<in> {None, Some (ResolveInstanceToken db pk)}"
  shows "tenant \<in> set (ad_tenants db) \<and> tn_id tenant = id_tenant_id identity \<and>
    trim_space (h ''X-Tenant-ID'') \<in> {[], tn_id tenant} \<and>
    lower_trim (h ''X-Tenant-Slug'') \<in> {[], to_lower (tn_slug tenant)} \<and>
    lower_trim (id_role identity) \<in> lower_trim ` set roles \<and>
    (if api_key_of h = [] then
       \<exists>u \<in> set (ad_users db). us_id u = id_user_id identity \<and> us_tenant_id u = tn_id tenant \<and>
          us_role u = id_role identity \<and> us_email u = id_email identity
     else identity = admin_key_identity (tn_id tenant) \<and>
       ((\<exists>t \<in> set (ad_tenants db). tn_id t = tn_id tenant \<and> cr_check (as_crypt s) (tn_api_key_hash t) (api_key_of h)) \<or>
        (\<exists>le \<in> set (ad_legacy db). \<exists>i \<in> set (ad_instances db). le_token le = trim_space (api_key_of h) \<and>
           in_tenant_id i = tn_id tenant \<and>
           (in_engine_instance_id i = trim_space (le_id le) \<or> to_lower (in_name i) = to_lower (le_name le)))))"
proof -
  from assms(1) have g: "Guard s now h = Pass identity" and r: "tenant_Resolve (as_finders s) h identity = Pass tenant"
    and q: "RequireRoles roles identity = Pass identity"
    by (auto simp: protected_route_def and_pass_Pass RequireRoles_def split: if_splits)
  from g have a: "Authenticate s now (bearer_of h) (api_key_of h) = Inr identity"
    by (auto simp: Guard_def split: sum.splits)
  from r have t: "af_tenant_by_id (gorm_finders db) (id_tenant_id identity) = Inr tenant"
    and m: "ensureTenantRequestMatches h (id_tenant_id identity) (tn_slug tenant) = None"
    using assms(2) by (auto simp: tenant_Resolve_def tenant_Get_def split: if_splits sum.splits option.splits)
  note tn = gorm.tenant_by_id [OF t]
  have hd: "trim_space (h ''X-Tenant-ID'') \<in> {[], tn_id tenant}"
    "lower_trim (h ''X-Tenant-Slug'') \<in> {[], to_lower (tn_slug tenant)}"
    using m tn by (auto simp: ensureTenantRequestMatches_def Let_def split: if_splits)
  have rl: "lower_trim (id_role identity) \<in> lower_trim ` set roles"
    using q by (auto simp: RequireRoles_def split: if_splits)
  show ?thesis
  proof (cases "api_key_of h = []")
    case True
    with a obtain i u where "af_user_by_id (gorm_finders db) (id_tenant_id i) (id_user_id i) = Inr u"
      "identity = i\<lparr>id_role := us_role u, id_email := us_email u\<rparr>"
      using assms(2) by (auto simp: Authenticate_def split: if_splits sum.splits)
    with gorm.user_by_id True tn hd rl show ?thesis by fastforce
  next
    case False
    with a have k: "authenticateAPIKey s (api_key_of h) = Inr identity" by (simp add: Authenticate_def)
    note key = authenticateAPIKey_Inr [OF k assms(2,3)]
    from key consider (tenant) t' where "tenant_of_key s (api_key_of h) = Some t'" "tn_id t' = id_tenant_id identity"
      | (inst) "ResolveInstanceToken db pk (api_key_of h) = Inr identity" by blast
    then show ?thesis
    proof cases
      case tenant
      with tenant_of_key_sound [OF tenant(1) assms(2)] key tn hd rl False show ?thesis by auto
    next
      case inst
      then obtain le i where "GetInstanceByToken db (trim_space (api_key_of h)) = Inr le"
        "linked_instance db le = Some i" "identity = admin_key_identity (in_tenant_id i)"
        by (auto simp: ResolveInstanceToken_def Let_def split: if_splits sum.splits option.splits)
      then have "le \<in> set (ad_legacy db)" "le_token le = trim_space (api_key_of h)" "i \<in> set (ad_instances db)"
        "in_engine_instance_id i = trim_space (le_id le) \<or> to_lower (in_name i) = to_lower (le_name le)"
        "in_tenant_id i = id_tenant_id identity"
        by (auto simp: GetInstanceByToken_def admin_key_identity_def dest: gorm_first_Inr linked_instance_sound)
      with key tn hd rl False show ?thesis by auto
    qed
  qed
qed

text \<open>The token of the engine's instance opens the routes of the first tenant with an instance of that name.\<close>

definition sample_key_result :: "(Identity \<times> Tenant) step" where
  "sample_key_result = Pass (admin_key_identity ''t1'', sample_tenant ''t1'' ''acme'')"

lemma sample_key_request:
  "protected_route sample_service adminRoles 0 (one_header ''apikey'' ''0123456789abcdef'') = sample_key_result"
  by code_simp

lemma protected_route_safe_witness:
  "\<exists>i \<in> set (ad_instances sample_db). in_tenant_id i = ''t1'' \<and> in_engine_instance_id i \<noteq> ''e7'' \<and>
     protected_route sample_service adminRoles 0 (one_header ''apikey'' ''0123456789abcdef'') = sample_key_result"
proof -
  have k: "api_key_of (one_header ''apikey'' ''0123456789abcdef'') = ''0123456789abcdef''" by code_simp
  have n: "\<forall>t \<in> set (ad_tenants sample_db). \<not> cr_check (as_crypt sample_service) (tn_api_key_hash t) ''0123456789abcdef''"
    by (simp add: sample_db_def sample_tenant_def sample_service_def sample_crypt_def)
  have e: "\<forall>i \<in> set (ad_instances sample_db). in_engine_instance_id i \<noteq> ''e7''"
    by (simp add: sample_db_def sample_instance_def)
  from protected_route_safe [OF sample_key_request [unfolded sample_key_result_def] sample_service_fields(1), of "[]"]
  show ?thesis using sample_key_request k n e
    by (auto simp: sample_service_fields(2) sample_tenant_def)
qed

text \<open>
  C16: who logs in can make requests. The access token of a login, sent in the \<open>Authorization\<close> header before
  it expires, passes the guard with the identity of the user whose password was given: a user of the tenant
  whose slug was given, with its present role.
\<close>

theorem login_authenticates:
  assumes "Login s now now' inp = Inr out" and "as_finders s = gorm_finders db" and "distinct (map us_id (ad_users db))"
    and "\<forall>c json. tl_marshal (as_lib s) c = Inr json \<longrightarrow> tl_unmarshal (as_lib s) json = Inr c"
    and "unix t \<le> unix (now + tm_ttl (as_tokens s))"
    and "h ''Authorization'' = ''Bearer '' @ lo_access_token out" and "h ''X-API-Key'' = []" and "h ''apikey'' = []"
  shows "\<exists>u tn. u \<in> set (ad_users db) \<and> tn \<in> set (ad_tenants db) \<and> us_tenant_id u = tn_id tn \<and>
    tn_slug tn = lg_tenant_slug (login_Normalize inp) \<and> us_email u = lg_email (login_Normalize inp) \<and>
    cr_check (as_crypt s) (us_password_hash u) (lg_password (login_Normalize inp)) \<and>
    Guard s t h = Pass \<lparr>id_user_id = us_id u, id_tenant_id = tn_id tn, id_email = us_email u,
      id_role = us_role u, id_api_key = False\<rparr>"
proof -
  let ?i = "login_Normalize inp"
  have n: "lower_trim (lg_tenant_slug ?i) = lg_tenant_slug ?i" "lower_trim (lg_email ?i) = lg_email ?i"
    by (simp_all add: login_Normalize_def Let_def)
  from assms(1,2) n obtain tn u where
    tn: "af_tenant_by_slug (gorm_finders db) (lg_tenant_slug ?i) = Inr tn"
    and u: "af_user_by_email (gorm_finders db) (tn_id tn) (lg_email ?i) = Inr u"
    and pw: "cr_check (as_crypt s) (us_password_hash u) (lg_password ?i)"
    and out: "issueTokens s now now' tn u = Inr out"
    by (auto simp: Login_def Let_def split: if_splits sum.splits)
  note tn' = gorm.tenant_by_slug [OF tn] and u' = gorm.user_by_email [OF u]
  have "ad_outage db ''users'' = None"
    using u by (auto simp: gorm_finders_def user_GetByEmail_def gorm_first_def split: option.splits)
  then have "Guard s t h = Pass \<lparr>id_user_id = us_id u, id_tenant_id = tn_id tn, id_email = us_email u,
      id_role = us_role u, id_api_key = False\<rparr>"
    by (intro issued_token_passes [OF out assms(2)] assms) (use u' assms(3) in \<open>auto simp: distinct_map dest: inj_onD\<close>)
  with tn' u' pw show ?thesis by blast
qed

definition sample_login :: LoginInput where
  "sample_login = \<lparr>lg_tenant_slug = ''Acme'', lg_tenant_slug_camel = [], lg_tenant = [], lg_email = '' A@B '', lg_password = ''pw''\<rparr>"

lemma login_authenticates_witness:
  "\<exists>out. Login sample_service 0 0 sample_login = Inr out \<and>
     Guard sample_service (14 * minute) (one_header ''Authorization'' (''Bearer '' @ lo_access_token out)) = Pass sample_identity"
proof -
  have "Login sample_service 0 0 sample_login = issueTokens sample_service 0 0 (sample_tenant ''t1'' ''acme'') sample_user"
    (is "_ = ?issued")
  proof -
    have "af_tenant_by_slug (gorm_finders sample_db) ''acme'' = Inr (sample_tenant ''t1'' ''acme'')" by code_simp
    moreover have "af_user_by_email (gorm_finders sample_db) ''t1'' ''a@b'' = Inr sample_user" by code_simp
    moreover have "login_Normalize sample_login = sample_login\<lparr>lg_tenant_slug := ''acme'', lg_email := ''a@b''\<rparr>" by code_simp
    moreover have "lower_trim ''acme'' = ''acme''" "lower_trim ''a@b'' = ''a@b''" by code_simp+
    ultimately show ?thesis
      by (simp add: Login_def sample_service_fields sample_login_def sample_tenant_def sample_user_def sample_crypt_def)
  qed
  moreover have "\<lparr>id_user_id = us_id sample_user, id_tenant_id = tn_id (sample_tenant ''t1'' ''acme''),
      id_email = us_email sample_user, id_role = us_role sample_user, id_api_key = False\<rparr> = sample_identity"
    by (simp add: sample_user_def sample_tenant_def sample_identity_def)
  ultimately obtain out where out: "Login sample_service 0 0 sample_login = Inr out"
    using sample_pair by (auto simp: issueTokens_def sample_service_fields)
  have "unix (14 * minute) \<le> unix (0 + tm_ttl sample_manager)"
    by (intro unix_mono) (simp add: sample_manager_def NewTokenManager_def)
  then have t: "unix (14 * minute) \<le> unix (0 + tm_ttl (as_tokens sample_service))" by (simp add: sample_service_fields)
  have d: "distinct (map us_id (ad_users sample_db))" by (simp add: sample_db_def)
  have l: "\<forall>c json. tl_marshal (as_lib sample_service) c = Inr json \<longrightarrow> tl_unmarshal (as_lib sample_service) json = Inr c"
    using sample_tokens_law by (simp add: sample_service_fields)
  from login_authenticates [OF out sample_service_fields(1) d l t, of "one_header ''Authorization'' (''Bearer '' @ lo_access_token out)"] out
  show ?thesis by (auto simp: one_header_def sample_db_def sample_user_def sample_tenant_def sample_identity_def)
qed

end
