(* ===== verification/Auth_System.thy ===== *)
theory Auth_System
  imports Auth_Middleware
begin

text \<open>
  What the parts of authentication give together: a tenant that was created can be used, by the key that was
  returned and by the login of its administrator; a creation that fails; refreshed tokens; and what opens
  the creation of tenants.
\<close>

section \<open>API keys\<close>

lemma hex_digit_mem: "n < 16 \<Longrightarrow> hex_digit n \<in> set ''0123456789ABCDEF''"
  unfolding hex_digit_def by (intro nth_mem) simp

lemma set_hex_upper: "set (hex_upper s) \<subseteq> set ''0123456789ABCDEF''"
proof -
  have "hex_digit (of_char c div 16) \<in> set ''0123456789ABCDEF''" "hex_digit (of_char c mod 16) \<in> set ''0123456789ABCDEF''"
    for c :: char
    by (rule hex_digit_mem; use nat_of_char_less_256 [of c] in linarith)+
  then show ?thesis unfolding hex_upper_def by (simp add: subset_iff del: list.set) auto
qed

lemma length_hex_upper [simp]: "length (hex_upper s) = 2 * length s"
  by (induction s) (simp_all add: hex_upper_def)

lemma key_form: "GenerateTenantAPIKey random = Inr key \<Longrightarrow> \<exists>buf. random = Inr buf \<and> key = ''evo_tk_'' @ hex_upper buf"
  by (auto simp: GenerateTenantAPIKey_def split: sum.splits)

text \<open>The cleaning of the headers keeps a key.\<close>

lemma sanitize_key:
  assumes "GenerateTenantAPIKey random = Inr key"
  shows "trim_space key = key" and "sanitizeCredentialValue key = key" and "key \<noteq> []"
proof -
  from key_form [OF assms] obtain buf where key: "key = ''evo_tk_'' @ hex_upper buf" by blast
  have "set ''evo_tk_'' \<subseteq> set b64_alphabet" "set ''0123456789ABCDEF'' \<subseteq> set b64_alphabet" by code_simp+
  with set_hex_upper [of buf] have "set key \<subseteq> insert (CHR ''.'') (set b64_alphabet)" unfolding key set_append by blast
  then have "trimmed key" using white_space_not_alphabet by (intro trimmed_no_space) blast
  then show t: "trim_space key = key" by (rule trimmed_trim_space)
  show "key \<noteq> []" by (simp add: key)
  have "to_lower key = ''evo_tk_'' @ to_lower (hex_upper buf)"
  proof -
    have "to_lower ''evo_tk_'' = ''evo_tk_''" by code_simp
    then show ?thesis by (metis key to_lower_append)
  qed
  then have "to_lower key \<notin> {[], ''undefined'', ''null''}" by auto
  with t show "sanitizeCredentialValue key = key" by (simp add: sanitizeCredentialValue_def Let_def)
qed

section \<open>A creation\<close>

lemma insert_tenant_None:
  "insert_tenant t db = (None, db') \<Longrightarrow>
     db' = db\<lparr>ad_tenants := ad_tenants db @ [t]\<rparr> \<and> ad_outage db ''tenants'' = None \<and>
     (\<forall>x \<in> set (ad_tenants db). tn_id x \<noteq> tn_id t \<and> tn_slug x \<noteq> tn_slug t \<and> tn_api_key_prefix x \<noteq> tn_api_key_prefix t)"
  by (auto simp: insert_tenant_def split: option.splits if_splits)

lemma insert_tenant_Some: "insert_tenant t db = (Some e, db') \<Longrightarrow> db' = db"
  by (auto simp: insert_tenant_def split: option.splits if_splits)

lemma insert_user_None:
  "insert_user u db = (None, db') \<Longrightarrow>
     db' = db\<lparr>ad_users := ad_users db @ [u]\<rparr> \<and> ad_outage db ''users'' = None \<and>
     (\<forall>x \<in> set (ad_users db). us_id x \<noteq> us_id u \<and> (us_tenant_id x \<noteq> us_tenant_id u \<or> us_email x \<noteq> us_email u))"
  by (auto simp: insert_user_def split: option.splits if_splits)

lemma insert_user_Some: "insert_user u db = (Some e, db') \<Longrightarrow> db' = db"
  by (auto simp: insert_user_def split: option.splits if_splits)

lemma tenant_store_cases:
  assumes "tenant_store t u key db = (r, db')"
  obtains (refused) e where "r = Inl e" "db' = db"
  | (half) e where "r = Inl e" "insert_tenant t db = (None, db')" "insert_user u db' = (Some e, db')"
  | (created) db1 where "r = Inr (t, u, key)" "insert_tenant t db = (None, db1)" "insert_user u db1 = (None, db')"
proof -
  obtain o1 db1 where t: "insert_tenant t db = (o1, db1)" by (rule prod.exhaust)
  obtain o2 db2 where u: "insert_user u db1 = (o2, db2)" by (rule prod.exhaust)
  show thesis
  proof (cases o1)
    case (Some e)
    with assms t insert_tenant_Some show ?thesis by (intro refused) (auto simp: tenant_store_def)
  next
    case n: None
    show ?thesis
    proof (cases o2)
      case (Some e)
      with assms t u n insert_user_Some show ?thesis by (intro half) (auto simp: tenant_store_def)
    next
      case None
      with assms t u n show ?thesis by (intro created) (auto simp: tenant_store_def)
    qed
  qed
qed

lemma tenant_store_Inr: "tenant_store t u key db = (Inr x, db') \<Longrightarrow> x = (t, u, key)"
  by (auto elim: tenant_store_cases)

lemma tenant_Create_cases:
  assumes "tenant_Create crypt rnd inp db = (r, db')"
  obtains (refused) e where "r = Inl e" "db' = db"
  | (stored) pw key kh tn where
      "tn = created_tenant rnd (tenant_normalize inp) key kh"
      "tenant_store tn (created_user rnd (tenant_normalize inp) tn pw) key db = (r, db')"
      "tenant_invalid (tenant_normalize inp) = None" "GenerateTenantAPIKey (tr_key_bytes rnd) = Inr key"
      "cr_hash crypt (tc_admin_password (tenant_normalize inp)) = Inr pw" "cr_hash crypt key = Inr kh"
  using assms by (auto simp: tenant_Create_def Let_def split: option.splits sum.splits)

lemma tenant_Create_Inr:
  assumes "tenant_Create crypt rnd inp db = (Inr (tn, u, key), db')"
  obtains pw kh where "tenant_store tn u key db = (Inr (tn, u, key), db')"
    and "tn = created_tenant rnd (tenant_normalize inp) key kh" and "u = created_user rnd (tenant_normalize inp) tn pw"
    and "tenant_invalid (tenant_normalize inp) = None" and "GenerateTenantAPIKey (tr_key_bytes rnd) = Inr key"
    and "cr_hash crypt (tc_admin_password (tenant_normalize inp)) = Inr pw" and "cr_hash crypt key = Inr kh"
  using assms
proof (cases rule: tenant_Create_cases)
  case (stored pw key' kh tn')
  from tenant_store_Inr [OF stored(2)] have "tn' = tn" "key' = key" "u = created_user rnd (tenant_normalize inp) tn pw"
    by simp_all
  with stored show ?thesis by (intro that) simp_all
qed simp

section \<open>Properties\<close>

text \<open>
  A tenant that was created can be used. The key the creation returns passes the guard with the
  administrator's rights in the new tenant and in no other, and who logs in with the slug, the
  address and the password of the request, spelled as there, gets tokens as its administrator.
\<close>

theorem tenant_Create_usable:
  assumes "tenant_Create crypt rnd inp db = (Inr (tn, u, key), db')"
    and "\<forall>x y. cr_hash crypt x = Inr y \<longrightarrow> cr_check crypt y x"
    and "as_crypt s = crypt" and "as_finders s = gorm_finders db'" and "\<forall>c. \<exists>json. tl_marshal (as_lib s) c = Inr json"
  shows "Guard s now (one_header ''X-API-Key'' key) = Pass (admin_key_identity (tn_id tn)) \<and>
    (\<exists>out. Login s now now' \<lparr>lg_tenant_slug = tc_slug inp, lg_tenant_slug_camel = [], lg_tenant = [],
       lg_email = tc_admin_email inp, lg_password = tc_admin_password inp\<rparr> = Inr out \<and>
       lo_tenant_id out = tn_id tn \<and> lo_user_id out = us_id u \<and> lo_role out = RoleAdmin) \<and>
    tn \<notin> set (ad_tenants db) \<and> tn \<in> set (ad_tenants db') \<and> us_tenant_id u = tn_id tn"
proof -
  let ?i = "tenant_normalize inp"
  from assms(1) obtain pw kh where
    st: "tenant_store tn u key db = (Inr (tn, u, key), db')"
    and tn: "tn = created_tenant rnd ?i key kh" and u: "u = created_user rnd ?i tn pw"
    and ok: "tenant_invalid ?i = None" and key: "GenerateTenantAPIKey (tr_key_bytes rnd) = Inr key"
    and h: "cr_hash crypt (tc_admin_password ?i) = Inr pw" "cr_hash crypt key = Inr kh"
    by (rule tenant_Create_Inr)
  from st obtain db1 where t: "insert_tenant tn db = (None, db1)" and us: "insert_user u db1 = (None, db')"
    by (elim tenant_store_cases) auto
  note t' = insert_tenant_None [OF t] and us' = insert_user_None [OF us]
  note clean = sanitize_key [OF key]
  have n: "tc_slug ?i = trim_space (tc_slug inp)" "tc_admin_email ?i = lower_trim (tc_admin_email inp)"
    "tc_admin_password ?i = trim_space (tc_admin_password inp)"
    by (simp_all add: tenant_normalize_def)
  have prefix: "tenant_GetByAPIKeyPrefix db' (APIKeyPrefix key) = Inr tn"
    unfolding tenant_GetByAPIKeyPrefix_def by (rule gorm_first_found) (use t' us' in \<open>auto simp: tn created_tenant_def\<close>)
  have slug: "tenant_GetBySlug db' (lower_trim (tc_slug inp)) = Inr tn"
    unfolding tenant_GetBySlug_def
    by (rule gorm_first_found) (use t' us' n in \<open>auto simp: tn created_tenant_def lower_trim_def\<close>)
  have user: "user_GetByEmail db' (tn_id tn) (lower_trim (tc_admin_email inp)) = Inr u"
    unfolding user_GetByEmail_def
    by (rule gorm_first_found) (use t' us' n in \<open>auto simp: u created_user_def\<close>)
  have "tenant_of_key s key = Some tn"
    using prefix clean(1) h(2) assms(2-4) by (simp add: tenant_of_key_def gorm_finders_def tn created_tenant_def)
  then have g: "Guard s now (one_header ''X-API-Key'' key) = Pass (admin_key_identity (tn_id tn))"
    using clean(2,3)
    by (simp add: Guard_def api_key_of_def one_header_def bearer_of_def has_prefix_def Authenticate_def authenticateAPIKey_def Let_def)
  have v: "trim_space (tc_slug inp) \<noteq> []" "lower_trim (tc_admin_email inp) \<noteq> []" "trim_space (tc_admin_password inp) \<noteq> []"
    using ok n by (auto simp: tenant_invalid_def split: if_splits)
  have "Login s now now' \<lparr>lg_tenant_slug = tc_slug inp, lg_tenant_slug_camel = [], lg_tenant = [],
       lg_email = tc_admin_email inp, lg_password = tc_admin_password inp\<rparr> = issueTokens s now now' tn u"
  proof -
    have "lower_trim (tc_slug inp) \<noteq> []" using v(1) by (simp add: lower_trim_def)
    moreover have "cr_check (as_crypt s) (us_password_hash u) (trim_space (tc_admin_password inp))"
      using h(1) n assms(2,3) by (simp add: u created_user_def)
    ultimately show ?thesis
      using v slug user assms(4) by (simp add: Login_def login_Normalize_def gorm_finders_def Let_def)
  qed
  moreover obtain out where "issueTokens s now now' tn u = Inr out" "lo_tenant_id out = tn_id tn" "lo_user_id out = us_id u"
    "lo_role out = us_role u"
  proof -
    have "\<exists>token. generate m (as_lib s) n' i ty ttl = Inr token" for m n' i ty ttl
      using assms(5) by (auto simp: generate_def signToken_def Let_def split: sum.splits) (metis sum.simps(4))
    then have "\<exists>pair. GeneratePair m (as_lib s) now now' i = Inr pair" for m i
      unfolding GeneratePair_def by (auto split: sum.splits) (metis Inl_Inr_False)+
    then obtain pair where "GeneratePair (as_tokens s) (as_lib s) now now' \<lparr>id_user_id = us_id u, id_tenant_id = tn_id tn,
        id_email = us_email u, id_role = us_role u, id_api_key = False\<rparr> = Inr pair" by blast
    then have "issueTokens s now now' tn u = Inr \<lparr>lo_access_token = tp_access_token pair,
        lo_refresh_token = tp_refresh_token pair, lo_tenant_id = tn_id tn, lo_user_id = us_id u, lo_role = us_role u,
        lo_expires_in = tp_expires_in pair\<rparr>" by (simp add: issueTokens_def)
    from that [OF this] show ?thesis by simp
  qed
  ultimately show ?thesis using g t' us' by (auto simp: u created_user_def)
qed

definition sample_creation :: tenant_CreateInput where
  "sample_creation = \<lparr>tc_name = ''New'', tc_slug = '' Initech '', tc_admin_name = [], tc_admin_email = '' C@D'',
     tc_admin_password = ''longpass ''\<rparr>"

definition sample_random :: tenant_random where
  "sample_random = \<lparr>tr_tenant_id = ''t9'', tr_user_id = ''u9'', tr_key_bytes = Inr (replicate 24 (CHR ''A''))\<rparr>"

lemma sample_out_created:
  "\<exists>tn u key db'. tenant_Create sample_crypt sample_random sample_creation sample_db = (Inr (tn, u, key), db') \<and>
     tn_id tn = ''t9'' \<and> us_id u = ''u9''"
proof -
  have "(case tenant_Create sample_crypt sample_random sample_creation sample_db of
      (Inl _, _) \<Rightarrow> False | (Inr (tn, u, key), _) \<Rightarrow> tn_id tn = ''t9'' \<and> us_id u = ''u9'')" by code_simp
  then show ?thesis by (auto split: prod.splits sum.splits)
qed

lemma tenant_Create_usable_witness:
  "\<exists>tn u key db' s. tenant_Create sample_crypt sample_random sample_creation sample_db = (Inr (tn, u, key), db') \<and>
     as_finders s = gorm_finders db' \<and>
     Guard s 0 (one_header ''X-API-Key'' key) = Pass (admin_key_identity ''t9'') \<and>
     (\<exists>out. Login s 0 0 \<lparr>lg_tenant_slug = '' Initech '', lg_tenant_slug_camel = [], lg_tenant = [],
       lg_email = '' C@D'', lg_password = ''longpass ''\<rparr> = Inr out \<and> lo_user_id out = ''u9'')"
proof -
  from sample_out_created obtain tn u key db' where
    c: "tenant_Create sample_crypt sample_random sample_creation sample_db = (Inr (tn, u, key), db')"
    and ids: "tn_id tn = ''t9''" "us_id u = ''u9''" by blast
  define s where "s = sample_service\<lparr>as_finders := gorm_finders db',
      as_lib := sample_tokens\<lparr>tl_marshal := \<lambda>c. Inr (cl_type c)\<rparr>\<rparr>"
  have law: "\<forall>x y. cr_hash sample_crypt x = Inr y \<longrightarrow> cr_check sample_crypt y x" by (simp add: sample_crypt_def)
  have f: "as_crypt s = sample_crypt" "as_finders s = gorm_finders db'" "\<forall>c. \<exists>json. tl_marshal (as_lib s) c = Inr json"
    by (simp_all add: s_def sample_service_def)
  from tenant_Create_usable [OF c law f(1,2,3), of 0 0] c ids f(2) show ?thesis
    by (auto simp: sample_creation_def)
qed

text \<open>
  A creation that fails after its first insert leaves a tenant without a user: its slug is taken,
  so that the same request is refused as a conflict from then on, whatever keys and ids are drawn for it.
  Every other creation that fails leaves the tables as they were.
\<close>

theorem tenant_Create_errors:
  assumes "tenant_Create crypt rnd inp db = (Inl e, db')"
  shows "db' = db \<or>
    (\<exists>tn. db' = db\<lparr>ad_tenants := ad_tenants db @ [tn]\<rparr> \<and> tn_slug tn = lower_trim (tc_slug inp) \<and> tn_id tn = tr_tenant_id rnd \<and>
      (\<forall>crypt' rnd'. tenant_Create crypt' rnd' inp db' =
        (Inl (wrap ErrConflict ''tenant slug already exists''), db')))"
  using assms
proof (cases rule: tenant_Create_cases)
  case (stored pw key kh tn)
  from stored(2) show ?thesis
  proof (cases rule: tenant_store_cases)
    case (half e')
    note t = insert_tenant_None [OF half(2)]
    have slug: "tn_slug tn = to_lower (tc_slug (tenant_normalize inp))" by (simp add: stored(1) created_tenant_def)
    have "tenant_GetBySlug db' (to_lower (tc_slug (tenant_normalize inp))) = Inr tn"
      unfolding tenant_GetBySlug_def by (rule gorm_first_found) (use t slug in auto)
    then have "tenant_Create crypt' rnd' inp db' = (Inl (wrap ErrConflict ''tenant slug already exists''), db')"
      for crypt' rnd' using stored(3) by (simp add: tenant_Create_def Let_def)
    with t slug show ?thesis
      by (auto simp: stored(1) created_tenant_def tenant_normalize_def lower_trim_def)
  qed simp_all
qed simp

definition sample_users_out :: auth_db where
  "sample_users_out = sample_db\<lparr>ad_outage := (\<lambda>_. None)(''users'' := Some (plain_error ''timeout''))\<rparr>"

lemma tenant_Create_errors_witness:
  "\<exists>db' tn. tenant_Create sample_crypt sample_random sample_creation sample_users_out = (Inl (plain_error ''timeout''), db') \<and>
     db' = sample_users_out\<lparr>ad_tenants := ad_tenants sample_users_out @ [tn]\<rparr> \<and> tn_slug tn = ''initech''"
proof -
  have "(case tenant_Create sample_crypt sample_random sample_creation sample_users_out of
      (Inl e, db) \<Rightarrow> e = plain_error ''timeout'' \<and> length (ad_tenants db) = 3 | _ \<Rightarrow> False)" by code_simp
  then obtain db' where c: "tenant_Create sample_crypt sample_random sample_creation sample_users_out = (Inl (plain_error ''timeout''), db')"
    and n: "length (ad_tenants db') = 3" by (auto split: prod.splits sum.splits)
  have "lower_trim (tc_slug sample_creation) = ''initech''" by code_simp
  moreover have "length (ad_tenants sample_users_out) = 2" by code_simp
  ultimately show ?thesis using tenant_Create_errors [OF c] c n by auto
qed

text \<open>
  Nobody creates a tenant without the platform key: when it is not configured, or the request shows
  another one, the request ends with 403 or 401 and the tables are as before.
\<close>

theorem tenant_creation_needs_key:
  "tenant_creation_route platformKey crypt rnd h inp db =
     (if trim_space platformKey \<noteq> [] \<and> platform_key_of h = trim_space platformKey then
        (case tenant_Create crypt rnd inp db of (Inl e, db') \<Rightarrow> (WriteError e, db') | (Inr out, db') \<Rightarrow> (Pass out, db'))
      else if trim_space platformKey = [] then (Halt 403 ''forbidden: platform operations are disabled'' ''forbidden'', db)
      else (Halt 401 ''unauthorized: invalid platform key'' ''unauthorized'', db))"
  by (auto simp: tenant_creation_route_def PlatformGuard_def Let_def)

text \<open>
  C19: new tokens are for the user the refresh token names, if that user is still in the tenant, and carry the
  role the user has now. The new access token passes the guard until it expires.
\<close>

theorem refreshed_tokens_current:
  assumes "Refresh s t0 now now' inp = Inr out" and "as_finders s = gorm_finders db" and "distinct (map us_id (ad_users db))"
    and "\<forall>c json. tl_marshal (as_lib s) c = Inr json \<longrightarrow> tl_unmarshal (as_lib s) json = Inr c"
    and "unix t \<le> unix (now + tm_ttl (as_tokens s))"
    and "h ''Authorization'' = ''Bearer '' @ lo_access_token out" and "h ''X-API-Key'' = []" and "h ''apikey'' = []"
  shows "\<exists>old u. ParseRefresh (as_tokens s) (as_lib s) t0 (rf_refresh_token (refresh_Normalize inp)) = Inr old \<and>
    u \<in> set (ad_users db) \<and> us_id u = id_user_id old \<and> us_tenant_id u = id_tenant_id old \<and>
    lo_role out = us_role u \<and>
    Guard s t h = Pass \<lparr>id_user_id = us_id u, id_tenant_id = us_tenant_id u, id_email = us_email u,
      id_role = us_role u, id_api_key = False\<rparr>"
proof -
  from assms(1,2) obtain old tn u where
    old: "ParseRefresh (as_tokens s) (as_lib s) t0 (rf_refresh_token (refresh_Normalize inp)) = Inr old"
    and tn: "af_tenant_by_id (gorm_finders db) (id_tenant_id old) = Inr tn"
    and u: "af_user_by_id (gorm_finders db) (id_tenant_id old) (id_user_id old) = Inr u"
    and out: "issueTokens s now now' tn u = Inr out"
    by (auto simp: Refresh_def Let_def split: if_splits sum.splits)
  note tn' = gorm.tenant_by_id [OF tn] and u' = gorm.user_by_id [OF u]
  have "ad_outage db ''users'' = None"
    using u by (auto simp: gorm_finders_def user_GetByID_def gorm_first_def split: option.splits)
  then have "Guard s t h = Pass \<lparr>id_user_id = us_id u, id_tenant_id = tn_id tn, id_email = us_email u,
      id_role = us_role u, id_api_key = False\<rparr>"
    using u' tn' assms(3) inj_onD [of us_id "set (ad_users db)" _ u]
    by (intro issued_token_passes [OF out assms(2)] assms) (auto simp: distinct_map)
  moreover have "lo_role out = us_role u" using out by (auto simp: issueTokens_def split: sum.splits)
  ultimately show ?thesis using old u' tn' by auto
qed

lemma refreshed_tokens_current_witness:
  "\<exists>pair out. GeneratePair sample_manager sample_tokens 0 0 sample_identity = Inr pair \<and>
     Refresh sample_service (14 * minute) 0 0 \<lparr>rf_refresh_token = tp_refresh_token pair, rf_refresh_token_camel = []\<rparr> = Inr out \<and>
     Guard sample_service (14 * minute) (one_header ''Authorization'' (''Bearer '' @ lo_access_token out)) = Pass sample_identity"
proof -
  obtain pair where p: "GeneratePair sample_manager sample_tokens 0 0 sample_identity = Inr pair"
    using sample_pair by blast
  have late: "unix (14 * minute) \<le> unix (0 + tm_ttl sample_manager)" "unix (14 * minute) \<le> unix (0 + tm_refresh_ttl sample_manager)"
    by (intro unix_mono, simp add: sample_manager_def NewTokenManager_def hour_def minute_def)+
  have pos: "0 < tm_refresh_ttl sample_manager" by (simp add: sample_manager_def NewTokenManager_def)
  then obtain refresh where g: "generate sample_manager sample_tokens 0 sample_identity tokenTypeRefresh (tm_refresh_ttl sample_manager) =
      Inr (tp_refresh_token pair)" using p by (auto simp: GeneratePair_def split: sum.splits)
  have r: "ParseRefresh sample_manager sample_tokens (14 * minute) (tp_refresh_token pair) = Inr sample_identity"
    using parse_generated [OF g, of "14 * minute"] sample_tokens_law late(2)
    by (auto simp: ParseRefresh_def token_claims_def claims_identity_def sample_identity_def not_less)
  let ?inp = "\<lparr>rf_refresh_token = tp_refresh_token pair, rf_refresh_token_camel = []\<rparr>"
  note st = sanitize_token [OF generate_chars [OF g]]
  then have n: "rf_refresh_token (refresh_Normalize ?inp) = tp_refresh_token pair"
    by (simp add: refresh_Normalize_def)
  have "Refresh sample_service (14 * minute) 0 0 ?inp = issueTokens sample_service 0 0 (sample_tenant ''t1'' ''acme'') sample_user"
  proof -
    have "af_tenant_by_id (gorm_finders sample_db) ''t1'' = Inr (sample_tenant ''t1'' ''acme'')" by code_simp
    moreover have "af_user_by_id (gorm_finders sample_db) ''t1'' ''u1'' = Inr sample_user" by code_simp
    ultimately show ?thesis using st r n
      by (simp add: Refresh_def Let_def sample_service_fields sample_identity_def)
  qed
  moreover have "\<lparr>id_user_id = us_id sample_user, id_tenant_id = tn_id (sample_tenant ''t1'' ''acme''),
      id_email = us_email sample_user, id_role = us_role sample_user, id_api_key = False\<rparr> = sample_identity"
    by (simp add: sample_user_def sample_tenant_def sample_identity_def)
  ultimately obtain out where out: "Refresh sample_service (14 * minute) 0 0 ?inp = Inr out"
    using p by (auto simp: issueTokens_def sample_service_fields)
  have d: "distinct (map us_id (ad_users sample_db))" by (simp add: sample_db_def)
  have l: "\<forall>c json. tl_marshal (as_lib sample_service) c = Inr json \<longrightarrow> tl_unmarshal (as_lib sample_service) json = Inr c"
    using sample_tokens_law by (simp add: sample_service_fields)
  have t: "unix (14 * minute) \<le> unix (0 + tm_ttl (as_tokens sample_service))" using late by (simp add: sample_service_fields)
  from refreshed_tokens_current [OF out sample_service_fields(1) d l t,
      of "one_header ''Authorization'' (''Bearer '' @ lo_access_token out)"] p out
  show ?thesis by (auto simp: one_header_def sample_db_def sample_user_def sample_identity_def)
qed

text \<open>
  The unique key prefix of a tenant has five random hexadecimal digits: there is room for
  1048576 tenants, and keys whose first five digits agree exclude each other.
\<close>

theorem key_prefixes_bounded:
  assumes "distinct (map tn_api_key_prefix tenants)"
    and "\<forall>t \<in> set tenants. \<exists>buf key. length buf = 24 \<and> GenerateTenantAPIKey (Inr buf) = Inr key \<and> tn_api_key_prefix t = APIKeyPrefix key"
  shows "length tenants \<le> 1048576"
proof -
  let ?W = "{w. set w \<subseteq> set ''0123456789ABCDEF'' \<and> length w = 5}"
  have "tn_api_key_prefix t \<in> (\<lambda>w. ''evo_tk_'' @ w) ` ?W" if t: "t \<in> set tenants" for t
  proof -
    from assms(2) t obtain buf where "length buf = 24" "tn_api_key_prefix t = ''evo_tk_'' @ take 5 (hex_upper buf)"
      by (fastforce simp: GenerateTenantAPIKey_def APIKeyPrefix_def)
    moreover have "set (take 5 (hex_upper buf)) \<subseteq> set ''0123456789ABCDEF''"
      using set_hex_upper set_take_subset by (rule subset_trans [rotated])
    ultimately show ?thesis by (intro image_eqI [of _ _ "take 5 (hex_upper buf)"]) auto
  qed
  then have "set (map tn_api_key_prefix tenants) \<subseteq> (\<lambda>w. ''evo_tk_'' @ w) ` ?W" by auto
  moreover have "finite ?W" by (rule finite_lists_length_eq) simp
  ultimately have "card (set (map tn_api_key_prefix tenants)) \<le> card ?W"
    by (meson card_image_le card_mono finite_imageI order_trans)
  also have "card ?W = card (set ''0123456789ABCDEF'') ^ 5" by (rule card_lists_length_eq) simp
  also have "card (set ''0123456789ABCDEF'') = 16" by code_simp
  finally show ?thesis using distinct_card [OF assms(1)] by simp
qed

lemma key_prefixes_bounded_witness: "length [sample_tenant ''t9'' ''x''\<lparr>tn_api_key_prefix := ''evo_tk_41414''\<rparr>] \<le> 1048576"
proof (rule key_prefixes_bounded)
  have "length (replicate 24 (CHR ''A'')) = 24 \<and>
      GenerateTenantAPIKey (Inr (replicate 24 (CHR ''A''))) = Inr (''evo_tk_'' @ hex_upper (replicate 24 (CHR ''A''))) \<and>
      ''evo_tk_41414'' = APIKeyPrefix (''evo_tk_'' @ hex_upper (replicate 24 (CHR ''A'')))" by code_simp
  then have k: "\<exists>buf key. length buf = 24 \<and> GenerateTenantAPIKey (Inr buf) = Inr key \<and> ''evo_tk_41414'' = APIKeyPrefix key"
    by blast
  have "t \<in> set [sample_tenant ''t9'' ''x''\<lparr>tn_api_key_prefix := ''evo_tk_41414''\<rparr>] \<Longrightarrow> tn_api_key_prefix t = ''evo_tk_41414''"
    for t by simp
  with k show "\<forall>t \<in> set [sample_tenant ''t9'' ''x''\<lparr>tn_api_key_prefix := ''evo_tk_41414''\<rparr>]. \<exists>buf key. length buf = 24 \<and>
      GenerateTenantAPIKey (Inr buf) = Inr key \<and> tn_api_key_prefix t = APIKeyPrefix key"
    by metis
qed simp

end
