(* ===== verification/Instance_Store.thy ===== *)
theory Instance_Store
  imports Auth_Store
begin

text \<open>
  The table of the instances of the SaaS layer, with every statement of \<open>gormInstanceRepository\<close>
  (\<open>internal/repository/gorm.go\<close>), and the look-up of an instance by the reference a request gives
  (\<open>resolve\<close> of \<open>internal/instance/service.go\<close>).
\<close>

section \<open>The repository\<close>

definition instance_Create :: "Instance \<Rightarrow> auth_db \<Rightarrow> go_error option \<times> auth_db" where
  "instance_Create i db =
     (case ad_outage db ''instances'' of
        Some e \<Rightarrow> (Some e, db)
      | None \<Rightarrow>
          if \<exists>x \<in> set (ad_instances db). in_id x = in_id i then (Some duplicate_key, db)
          else (None, db\<lparr>ad_instances := ad_instances db @ [i]\<rparr>))"

text \<open>The newest come first.\<close>

definition instance_ListByTenant :: "auth_db \<Rightarrow> string \<Rightarrow> go_error + Instance list" where
  "instance_ListByTenant db tenantID =
     (case ad_outage db ''instances'' of
        Some e \<Rightarrow> Inl e
      | None \<Rightarrow> Inr (sort_key (\<lambda>i. - in_created_at i) (filter (\<lambda>i. in_tenant_id i = tenantID) (ad_instances db))))"

definition instance_ListByStatus :: "auth_db \<Rightarrow> string \<Rightarrow> go_error + Instance list" where
  "instance_ListByStatus db status =
     (case ad_outage db ''instances'' of
        Some e \<Rightarrow> Inl e
      | None \<Rightarrow> Inr (sort_key in_created_at (filter (\<lambda>i. in_status i = status) (ad_instances db))))"

definition instance_GetByID :: "auth_db \<Rightarrow> string \<Rightarrow> string \<Rightarrow> go_error + Instance" where
  "instance_GetByID db tenantID instanceID =
     gorm_first (ad_outage db ''instances'') in_id (\<lambda>i. in_tenant_id i = tenantID \<and> in_id i = instanceID) (ad_instances db)"

definition instance_GetByGlobalID :: "auth_db \<Rightarrow> string \<Rightarrow> go_error + Instance" where
  "instance_GetByGlobalID db instanceID =
     gorm_first (ad_outage db ''instances'') in_id (\<lambda>i. in_id i = instanceID) (ad_instances db)"

text \<open>\<open>Save\<close> writes every column of the row with the primary key, and inserts when there is none.\<close>

definition instance_Update :: "Instance \<Rightarrow> auth_db \<Rightarrow> go_error option \<times> auth_db" where
  "instance_Update i db =
     (case ad_outage db ''instances'' of
        Some e \<Rightarrow> (Some e, db)
      | None \<Rightarrow>
          if \<exists>x \<in> set (ad_instances db). in_id x = in_id i
          then (None, db\<lparr>ad_instances := map (\<lambda>x. if in_id x = in_id i then i else x) (ad_instances db)\<rparr>)
          else (None, db\<lparr>ad_instances := ad_instances db @ [i]\<rparr>))"

definition instance_Delete :: "string \<Rightarrow> string \<Rightarrow> auth_db \<Rightarrow> go_error option \<times> auth_db" where
  "instance_Delete tenantID instanceID db =
     (case ad_outage db ''instances'' of
        Some e \<Rightarrow> (Some e, db)
      | None \<Rightarrow>
          if \<exists>x \<in> set (ad_instances db). in_tenant_id x = tenantID \<and> in_id x = instanceID
          then (None, db\<lparr>ad_instances := filter (\<lambda>x. \<not> (in_tenant_id x = tenantID \<and> in_id x = instanceID)) (ad_instances db)\<rparr>)
          else (Some (wrap_error ''record not found'' (sentinel_error ErrRecordNotFound)), db))"

section \<open>References\<close>

definition resolve :: "auth_db \<Rightarrow> string \<Rightarrow> string \<Rightarrow> go_error + Instance" where
  "resolve db tenantID reference =
     (let reference = trim_space reference in
      if reference = [] then Inl (wrap ErrValidation ''instance reference is required'')
      else case instance_GetByID db tenantID reference of
        Inr i \<Rightarrow> Inr i
      | Inl _ \<Rightarrow>
          (case instance_ListByTenant db tenantID of
             Inl e \<Rightarrow> Inl e
           | Inr instances \<Rightarrow>
               (case find (\<lambda>i. to_lower (trim_space (in_name i)) = to_lower reference) instances of
                  Some i \<Rightarrow> Inr i
                | None \<Rightarrow> Inl (wrap ErrNotFound ''instance not found''))))"

section \<open>Lemmas\<close>

lemma resolve_sound:
  assumes "resolve db tenantID reference = Inr i"
  shows "i \<in> set (ad_instances db) \<and> in_tenant_id i = tenantID \<and>
    (in_id i = trim_space reference \<or> lower_trim (in_name i) = lower_trim reference)"
  using assms
  by (auto simp: resolve_def Let_def instance_GetByID_def instance_ListByTenant_def lower_trim_def
      split: if_splits sum.splits option.splits dest!: gorm_first_Inr find_Some_mem)

text \<open>The id of an instance, with or without white space around it, is a reference to it.\<close>

lemma resolve_own_id:
  assumes "i \<in> set (ad_instances db)" and "distinct (map in_id (ad_instances db))" and "ad_outage db ''instances'' = None"
    and "trim_space reference = in_id i" and "in_id i \<noteq> []"
  shows "resolve db (in_tenant_id i) reference = Inr i"
proof -
  have "instance_GetByID db (in_tenant_id i) (in_id i) = Inr i"
    unfolding instance_GetByID_def
    by (rule gorm_first_found) (use assms in \<open>auto simp: distinct_map dest: inj_onD\<close>)
  then show ?thesis using assms(4,5) by (simp add: resolve_def Let_def)
qed

end
