(* ===== verification/Send_Status.thy ===== *)
theory Send_Status
  imports Instance_Store
begin

text \<open>
  The states of text messages that were queued for sending, \<open>pkg/sendstatus/registry.go\<close>, the queue itself,
  \<open>QueueSendText\<close> and \<open>GetSendTextJob\<close> of \<open>internal/instance/service.go\<close>, and the receipts that come back
  for them. The registry is two maps; a receipt for a message it knows is handed to the listeners, which
  store it in the message history and in the progress of broadcasts.
\<close>

section \<open>Jobs and the registry\<close>

record JobStatus =
  js_job_id :: string
  js_instance_id :: string
  js_instance_name :: string
  js_reference :: string
  js_number :: string
  js_text :: string
  js_status :: string
  js_error :: string
  js_message_id :: string
  js_server_id :: int
  js_queued_at :: "time option"
  js_started_at :: "time option"
  js_finished_at :: "time option"
  js_delivered_at :: "time option"
  js_read_at :: "time option"
  js_delivery_confirmed :: bool

record ReceiptUpdate =
  ru_instance_id :: string
  ru_message_id :: string
  ru_state :: string
  ru_at :: time

definition DeliveryStatus :: "JobStatus \<Rightarrow> string" where
  "DeliveryStatus j =
     (if js_read_at j \<noteq> None then ''read'' else if js_delivered_at j \<noteq> None then ''delivered'' else js_status j)"

definition Sent :: "JobStatus \<Rightarrow> bool" where
  "Sent j \<longleftrightarrow> DeliveryStatus j \<in> {''sent'', ''delivered'', ''read''}"

record status_registry =
  sr_jobs :: "string \<rightharpoonup> string \<times> JobStatus"
  sr_message_index :: "string \<rightharpoonup> string"

definition empty_status_registry :: status_registry where
  "empty_status_registry = \<lparr>sr_jobs = Map.empty, sr_message_index = Map.empty\<rparr>"

definition tenantJobKey :: "string \<Rightarrow> string \<Rightarrow> string" where
  "tenantJobKey tenantID jobID = tenantID @ ''|'' @ jobID"

definition instanceMessageKey :: "string \<Rightarrow> string \<Rightarrow> string" where
  "instanceMessageKey instanceID messageID = instanceID @ ''|'' @ messageID"

section \<open>Operations\<close>

definition or_else :: "'a option \<Rightarrow> 'a option \<Rightarrow> 'a option" where
  "or_else x y = (if x = None then y else x)"

text \<open>A zero time is \<open>None\<close>. What is not merged, the status and the error among it, is that of the new state.\<close>

definition mergeStatus :: "JobStatus \<Rightarrow> JobStatus \<Rightarrow> JobStatus" where
  "mergeStatus existing incoming =
     incoming\<lparr>js_reference := (if js_reference incoming = [] then js_reference existing else js_reference incoming),
       js_number := (if js_number incoming = [] then js_number existing else js_number incoming),
       js_text := (if js_text incoming = [] then js_text existing else js_text incoming),
       js_message_id := (if js_message_id incoming = [] then js_message_id existing else js_message_id incoming),
       js_server_id := (if js_server_id incoming = 0 then js_server_id existing else js_server_id incoming),
       js_queued_at := or_else (js_queued_at incoming) (js_queued_at existing),
       js_started_at := or_else (js_started_at incoming) (js_started_at existing),
       js_finished_at := or_else (js_finished_at incoming) (js_finished_at existing),
       js_delivered_at := or_else (js_delivered_at incoming) (js_delivered_at existing),
       js_read_at := or_else (js_read_at incoming) (js_read_at existing),
       js_delivery_confirmed := (js_delivery_confirmed incoming \<or> js_delivery_confirmed existing)\<rparr>"

definition status_Store :: "string \<Rightarrow> JobStatus \<Rightarrow> status_registry \<Rightarrow> status_registry" where
  "status_Store tenantID status r =
     (let jobKey = tenantJobKey tenantID (js_job_id status);
          status = (case sr_jobs r jobKey of None \<Rightarrow> status | Some (_, existing) \<Rightarrow> mergeStatus existing status);
          r = r\<lparr>sr_jobs := (sr_jobs r)(jobKey \<mapsto> (tenantID, status))\<rparr>
      in if js_instance_id status \<noteq> [] \<and> js_message_id status \<noteq> []
         then r\<lparr>sr_message_index := (sr_message_index r)
                  (instanceMessageKey (js_instance_id status) (js_message_id status) \<mapsto> jobKey)\<rparr>
         else r)"

definition status_Load :: "string \<Rightarrow> string \<Rightarrow> status_registry \<Rightarrow> JobStatus option" where
  "status_Load tenantID jobID r = map_option snd (sr_jobs r (tenantJobKey tenantID jobID))"

definition later :: "time \<Rightarrow> time option \<Rightarrow> time option" where
  "later at old = (case old of None \<Rightarrow> Some at | Some t \<Rightarrow> if t < at then Some at else Some t)"

text \<open>The job after a receipt; \<open>None\<close> for a state that is no receipt.\<close>

definition receipt_status :: "string \<Rightarrow> time \<Rightarrow> JobStatus \<Rightarrow> JobStatus option" where
  "receipt_status state at j =
     (if lower_trim state = ''delivered'' then
        Some (j\<lparr>js_delivered_at := later at (js_delivered_at j), js_delivery_confirmed := True\<rparr>)
      else if lower_trim state = ''read'' then
        Some (j\<lparr>js_delivered_at := later at (js_delivered_at j), js_read_at := later at (js_read_at j),
                js_delivery_confirmed := True\<rparr>)
      else None)"

text \<open>The update the listeners get, if any.\<close>

definition status_MarkReceipt ::
  "string \<Rightarrow> string \<Rightarrow> string \<Rightarrow> time \<Rightarrow> status_registry \<Rightarrow> ReceiptUpdate option \<times> status_registry" where
  "status_MarkReceipt instanceID messageID state at r =
     (case sr_message_index r (instanceMessageKey instanceID messageID) of
        None \<Rightarrow> (None, r)
      | Some jobKey \<Rightarrow>
          (case sr_jobs r jobKey of
             None \<Rightarrow> (None, r)
           | Some (tenantID, status) \<Rightarrow>
               (case receipt_status state at status of
                  None \<Rightarrow> (None, r)
                | Some updated \<Rightarrow>
                    (Some \<lparr>ru_instance_id = instanceID, ru_message_id = messageID, ru_state = lower_trim state, ru_at = at\<rparr>,
                     r\<lparr>sr_jobs := (sr_jobs r)(jobKey \<mapsto> (tenantID, updated))\<rparr>))))"

section \<open>The queue\<close>

text \<open>The states \<open>QueueSendText\<close> and the goroutine it starts store for a job, one after the other.\<close>

definition job_queued :: "Instance \<Rightarrow> string \<Rightarrow> string \<Rightarrow> string \<Rightarrow> string \<Rightarrow> time \<Rightarrow> JobStatus" where
  "job_queued i reference number msg jobID queuedAt =
     \<lparr>js_job_id = jobID, js_instance_id = in_id i, js_instance_name = in_name i, js_reference = reference,
      js_number = number, js_text = msg, js_status = ''queued'', js_error = [], js_message_id = [], js_server_id = 0,
      js_queued_at = Some queuedAt, js_started_at = None, js_finished_at = None, js_delivered_at = None,
      js_read_at = None, js_delivery_confirmed = False\<rparr>"

definition job_running :: "JobStatus \<Rightarrow> time \<Rightarrow> JobStatus" where
  "job_running q startedAt = q\<lparr>js_reference := js_instance_id q, js_status := ''running'', js_started_at := Some startedAt\<rparr>"

definition job_finished :: "JobStatus \<Rightarrow> time \<Rightarrow> go_error + string \<times> int \<Rightarrow> JobStatus" where
  "job_finished q finishedAt result =
     (case result of
        Inl e \<Rightarrow> q\<lparr>js_status := ''failed'', js_error := err_text e, js_finished_at := Some finishedAt\<rparr>
      | Inr (messageID, serverID) \<Rightarrow>
          q\<lparr>js_status := ''sent'', js_message_id := messageID, js_server_id := serverID,
            js_finished_at := Some finishedAt\<rparr>)"

text \<open>The request: an error, or the job that was queued and is to run.\<close>

definition QueueSendText ::
  "auth_db \<Rightarrow> string \<Rightarrow> string \<Rightarrow> string \<Rightarrow> string \<Rightarrow> string \<Rightarrow> time \<Rightarrow> status_registry \<Rightarrow>
   (go_error + JobStatus) \<times> status_registry" where
  "QueueSendText db tenantID reference number msg jobID now r =
     (case resolve db tenantID reference of
        Inl e \<Rightarrow> (Inl e, r)
      | Inr i \<Rightarrow>
          if trim_space number = [] \<or> trim_space msg = [] then
            (Inl (wrap ErrValidation ''number and text are required''), r)
          else (let q = job_queued i reference (trim_space number) (trim_space msg) jobID now
                in (Inr q, status_Store tenantID q r)))"

definition GetSendTextJob :: "auth_db \<Rightarrow> string \<Rightarrow> string \<Rightarrow> string \<Rightarrow> status_registry \<Rightarrow> go_error + JobStatus" where
  "GetSendTextJob db tenantID reference jobID r =
     (case resolve db tenantID reference of
        Inl e \<Rightarrow> Inl e
      | Inr i \<Rightarrow>
          (case status_Load tenantID jobID r of
             None \<Rightarrow> Inl (wrap ErrNotFound ''send job not found'')
           | Some j \<Rightarrow> if js_instance_id j \<noteq> in_id i then Inl (wrap ErrNotFound ''send job not found'') else Inr j))"

end
