(* ===== verification/Send_System.thy ===== *)
theory Send_System
  imports Send_Status Auth_Middleware
begin

text \<open>
  The queue of text messages at work, as a step relation: requests queue jobs, one goroutine per job sends
  the message and stores the outcome, other messages (those of broadcasts and of requests that wait for the
  outcome) are sent without a job, and receipts come in for any of them at any time. Message and job ids are
  drawn afresh. Ids of tenants and instances are UUIDs; all that is used of it is that they have no bar.
\<close>

section \<open>States and steps\<close>

record send_state =
  ss_db :: auth_db
  ss_registry :: status_registry
  ss_waiting :: "(string \<times> JobStatus) list"
  ss_running :: "(string \<times> JobStatus \<times> string) list"
  ss_job_ids :: "string list"
  ss_message_ids :: "string list"
  ss_direct :: "(string \<times> string) list"
  ss_updates :: "ReceiptUpdate list"

definition no_bar :: "string \<Rightarrow> bool" where
  "no_bar s \<longleftrightarrow> CHR ''|'' \<notin> set s"

definition instances_ok :: "auth_db \<Rightarrow> bool" where
  "instances_ok db \<longleftrightarrow> (\<forall>i \<in> set (ad_instances db). no_bar (in_id i))"

definition store_job :: "string \<Rightarrow> JobStatus \<Rightarrow> send_state \<Rightarrow> send_state" where
  "store_job tenantID j s = s\<lparr>ss_registry := status_Store tenantID j (ss_registry s)\<rparr>"

text \<open>
  A goroutine takes two steps: it stores the job as running and draws the id the message goes out with, and it
  stores the outcome.
\<close>

inductive send_step :: "send_state \<Rightarrow> send_state \<Rightarrow> bool" where
  Queue: "QueueSendText (ss_db s) tenantID reference number msg jobID now (ss_registry s) = (Inr q, r) \<Longrightarrow>
    no_bar tenantID \<Longrightarrow> jobID \<notin> set (ss_job_ids s) \<Longrightarrow>
    send_step s (s\<lparr>ss_registry := r, ss_waiting := ss_waiting s @ [(tenantID, q)], ss_job_ids := jobID # ss_job_ids s\<rparr>)"
| Run: "ss_waiting s = xs @ (tenantID, q) # ys \<Longrightarrow> messageID \<notin> set (ss_message_ids s) \<Longrightarrow> messageID \<noteq> [] \<Longrightarrow>
    send_step s (store_job tenantID (job_running q now)
      (s\<lparr>ss_waiting := xs @ ys, ss_running := ss_running s @ [(tenantID, job_running q now, messageID)],
         ss_message_ids := messageID # ss_message_ids s\<rparr>))"
| Finish: "ss_running s = xs @ (tenantID, q, messageID) # ys \<Longrightarrow>
    result = Inr (messageID, serverID) \<or> result = Inl e \<Longrightarrow>
    send_step s (store_job tenantID (job_finished q now result) (s\<lparr>ss_running := xs @ ys\<rparr>))"
| Direct: "messageID \<notin> set (ss_message_ids s) \<Longrightarrow> messageID \<noteq> [] \<Longrightarrow>
    send_step s (s\<lparr>ss_message_ids := messageID # ss_message_ids s, ss_direct := (instanceID, messageID) # ss_direct s\<rparr>)"
| Receipt: "status_MarkReceipt instanceID messageID state at (ss_registry s) = (u, r) \<Longrightarrow> no_bar instanceID \<Longrightarrow>
    send_step s (s\<lparr>ss_registry := r, ss_updates := ss_updates s @ (case u of None \<Rightarrow> [] | Some x \<Rightarrow> [x])\<rparr>)"
| Tables: "instances_ok db \<Longrightarrow> send_step s (s\<lparr>ss_db := db\<rparr>)"

definition send_start :: "auth_db \<Rightarrow> send_state" where
  "send_start db =
     \<lparr>ss_db = db, ss_registry = empty_status_registry, ss_waiting = [], ss_running = [], ss_job_ids = [],
      ss_message_ids = [], ss_direct = [], ss_updates = []\<rparr>"

definition send_reachable :: "send_state \<Rightarrow> bool" where
  "send_reachable s \<longleftrightarrow> (\<exists>db. instances_ok db \<and> send_step\<^sup>*\<^sup>* (send_start db) s)"

section \<open>Keys\<close>

lemma bar_split:
  assumes "a @ ''|'' @ b = c @ ''|'' @ d" and "no_bar a" and "no_bar c"
  shows "a = c \<and> b = d"
  using assms unfolding no_bar_def
proof (induction a arbitrary: c)
  case Nil
  then show ?case by (cases c) auto
next
  case (Cons x a)
  then show ?case by (cases c) auto
qed

lemma tenantJobKey_inject:
  "no_bar t \<Longrightarrow> no_bar t' \<Longrightarrow> tenantJobKey t j = tenantJobKey t' j' \<longleftrightarrow> t = t' \<and> j = j'"
  unfolding tenantJobKey_def using bar_split by blast

lemma instanceMessageKey_inject:
  "no_bar i \<Longrightarrow> no_bar i' \<Longrightarrow> instanceMessageKey i m = instanceMessageKey i' m' \<longleftrightarrow> i = i' \<and> m = m'"
  unfolding instanceMessageKey_def using bar_split by blast

section \<open>The invariant\<close>

text \<open>What holds of each job of the registry.\<close>

definition job_ok :: "send_state \<Rightarrow> string \<Rightarrow> string \<Rightarrow> JobStatus \<Rightarrow> bool" where
  "job_ok s k t j \<longleftrightarrow>
     k = tenantJobKey t (js_job_id j) \<and> no_bar t \<and> no_bar (js_instance_id j) \<and> js_job_id j \<in> set (ss_job_ids s) \<and>
     js_status j \<in> {''queued'', ''running'', ''sent'', ''failed''} \<and>
     (js_message_id j \<noteq> [] \<longleftrightarrow> js_status j = ''sent'') \<and>
     (js_message_id j \<noteq> [] \<longrightarrow> js_message_id j \<in> set (ss_message_ids s) - snd ` set (ss_direct s) -
        (snd \<circ> snd) ` set (ss_running s)) \<and>
     (js_delivered_at j \<noteq> None \<longrightarrow> js_status j = ''sent'') \<and> (js_read_at j \<noteq> None \<longrightarrow> js_delivered_at j \<noteq> None) \<and>
     (js_delivery_confirmed j \<longleftrightarrow> js_delivered_at j \<noteq> None) \<and>
     (js_status j \<in> {''sent'', ''failed''} \<longleftrightarrow> js_finished_at j \<noteq> None)"

definition held :: "send_state \<Rightarrow> (string \<times> JobStatus) list" where
  "held s = ss_waiting s @ map (\<lambda>x. (fst x, fst (snd x))) (ss_running s)"

text \<open>A job in the hands of a goroutine, as the goroutine has it and as the registry has it.\<close>

definition in_work :: "JobStatus \<Rightarrow> JobStatus \<Rightarrow> bool" where
  "in_work q j \<longleftrightarrow>
     js_job_id j = js_job_id q \<and> js_instance_id j = js_instance_id q \<and> js_message_id j = [] \<and> js_finished_at j = None \<and>
     js_message_id q = [] \<and> js_finished_at q = None \<and> js_delivered_at q = None \<and> js_read_at q = None \<and>
     \<not> js_delivery_confirmed q \<and> js_status q \<in> {''queued'', ''running''}"

definition inv_jobs :: "send_state \<Rightarrow> bool" where
  "inv_jobs s \<longleftrightarrow> (\<forall>k t j. sr_jobs (ss_registry s) k = Some (t, j) \<longrightarrow> job_ok s k t j)"

definition inv_index :: "send_state \<Rightarrow> bool" where
  "inv_index s \<longleftrightarrow> (\<forall>k jk. sr_message_index (ss_registry s) k = Some jk \<longrightarrow>
     (\<exists>t j. sr_jobs (ss_registry s) jk = Some (t, j) \<and> js_message_id j \<noteq> [] \<and>
        k = instanceMessageKey (js_instance_id j) (js_message_id j)))"

definition inv_held :: "send_state \<Rightarrow> bool" where
  "inv_held s \<longleftrightarrow> (\<forall>(t, q) \<in> set (held s). no_bar t \<and>
     (\<exists>j. sr_jobs (ss_registry s) (tenantJobKey t (js_job_id q)) = Some (t, j) \<and> in_work q j)) \<and>
     distinct (map (js_job_id \<circ> snd) (held s))"

definition inv_ids :: "send_state \<Rightarrow> bool" where
  "inv_ids s \<longleftrightarrow> instances_ok (ss_db s) \<and> distinct (map (snd \<circ> snd) (ss_running s)) \<and>
     (\<forall>m \<in> (snd \<circ> snd) ` set (ss_running s). m \<noteq> [] \<and> m \<in> set (ss_message_ids s) - snd ` set (ss_direct s)) \<and>
     snd ` set (ss_direct s) \<subseteq> set (ss_message_ids s)"

definition inv_updates :: "send_state \<Rightarrow> bool" where
  "inv_updates s \<longleftrightarrow> (\<forall>u \<in> set (ss_updates s). \<exists>k t j. sr_jobs (ss_registry s) k = Some (t, j) \<and>
     js_message_id j \<noteq> [] \<and> ru_instance_id u = js_instance_id j \<and> ru_message_id u = js_message_id j)"

definition send_inv :: "send_state \<Rightarrow> bool" where
  "send_inv s \<longleftrightarrow> inv_jobs s \<and> inv_index s \<and> inv_held s \<and> inv_ids s \<and> inv_updates s"

lemmas send_inv_defs = inv_jobs_def inv_index_def inv_held_def inv_ids_def inv_updates_def

lemma start_inv: "instances_ok db \<Longrightarrow> send_inv (send_start db)"
  by (simp add: send_inv_def send_inv_defs send_start_def empty_status_registry_def held_def)

section \<open>One store\<close>

text \<open>
  A job of the registry that has no message yet is replaced by one with the same ids; if the new one has a
  message, the index learns it.
\<close>

definition put_job :: "string \<Rightarrow> JobStatus \<Rightarrow> status_registry \<Rightarrow> status_registry" where
  "put_job t j r = r\<lparr>sr_jobs := (sr_jobs r)(tenantJobKey t (js_job_id j) \<mapsto> (t, j)),
     sr_message_index := (if js_instance_id j \<noteq> [] \<and> js_message_id j \<noteq> []
       then (sr_message_index r)(instanceMessageKey (js_instance_id j) (js_message_id j) \<mapsto> tenantJobKey t (js_job_id j))
       else sr_message_index r)\<rparr>"

lemma Store_new: "sr_jobs r (tenantJobKey t (js_job_id j)) = None \<Longrightarrow> status_Store t j r = put_job t j r"
  by (simp add: status_Store_def put_job_def Let_def)

lemma Store_old:
  "sr_jobs r (tenantJobKey t (js_job_id j)) = Some (t', e) \<Longrightarrow> status_Store t j r = put_job t (mergeStatus e j) r"
  by (simp add: status_Store_def put_job_def Let_def mergeStatus_def)

lemma put_inv_jobs:
  assumes "inv_jobs s" and "job_ok s' (tenantJobKey t (js_job_id j)) t j"
    and "ss_registry s' = put_job t j (ss_registry s)"
    and "\<And>k t' j'. job_ok s k t' j' \<Longrightarrow> job_ok s' k t' j'"
  shows "inv_jobs s'"
  using assms unfolding inv_jobs_def by (auto simp: put_job_def split: if_splits)

lemma put_inv_index:
  assumes "inv_index s" and "ss_registry s' = put_job t j (ss_registry s)"
    and "\<And>t' e. sr_jobs (ss_registry s) (tenantJobKey t (js_job_id j)) = Some (t', e) \<Longrightarrow> js_message_id e = []"
  shows "inv_index s'"
  unfolding inv_index_def
proof (intro allI impI)
  fix k jk
  assume k: "sr_message_index (ss_registry s') k = Some jk"
  show "\<exists>t j. sr_jobs (ss_registry s') jk = Some (t, j) \<and> js_message_id j \<noteq> [] \<and>
      k = instanceMessageKey (js_instance_id j) (js_message_id j)"
  proof (cases "js_instance_id j \<noteq> [] \<and> js_message_id j \<noteq> [] \<and> k = instanceMessageKey (js_instance_id j) (js_message_id j)")
    case True
    with k assms(2) show ?thesis by (auto simp: put_job_def)
  next
    case False
    with k assms(2) have "sr_message_index (ss_registry s) k = Some jk" by (auto simp: put_job_def split: if_splits)
    with assms(1) obtain t' j' where j': "sr_jobs (ss_registry s) jk = Some (t', j')" "js_message_id j' \<noteq> []"
      "k = instanceMessageKey (js_instance_id j') (js_message_id j')" unfolding inv_index_def by blast
    with assms(3) have "jk \<noteq> tenantJobKey t (js_job_id j)" by auto
    with j' assms(2) show ?thesis by (auto simp: put_job_def)
  qed
qed

lemma put_inv_updates:
  assumes "inv_updates s" and "ss_registry s' = put_job t j (ss_registry s)" and "ss_updates s' = ss_updates s"
    and "\<And>t' e. sr_jobs (ss_registry s) (tenantJobKey t (js_job_id j)) = Some (t', e) \<Longrightarrow> js_message_id e = []"
  shows "inv_updates s'"
  unfolding inv_updates_def
proof
  fix u
  assume "u \<in> set (ss_updates s')"
  with assms(1,3) obtain k t' j' where j': "sr_jobs (ss_registry s) k = Some (t', j')" "js_message_id j' \<noteq> []"
    "ru_instance_id u = js_instance_id j'" "ru_message_id u = js_message_id j'" unfolding inv_updates_def by auto
  with assms(4) have "k \<noteq> tenantJobKey t (js_job_id j)" by auto
  with j' assms(2) show "\<exists>k t j. sr_jobs (ss_registry s') k = Some (t, j) \<and> js_message_id j \<noteq> [] \<and>
      ru_instance_id u = js_instance_id j \<and> ru_message_id u = js_message_id j" by (auto simp: put_job_def)
qed

lemma put_inv_held:
  assumes "inv_held s" and "ss_registry s' = put_job t j (ss_registry s)" and "no_bar t"
    and "\<And>t' q. (t', q) \<in> set (held s') \<Longrightarrow>
      (t', q) \<in> set (held s) \<and> js_job_id q \<noteq> js_job_id j \<or> t' = t \<and> in_work q j"
    and "distinct (map (js_job_id \<circ> snd) (held s'))"
  shows "inv_held s'"
  unfolding inv_held_def
proof (intro conjI ballI, clarify)
  fix t' q
  assume h: "(t', q) \<in> set (held s')"
  consider "(t', q) \<in> set (held s)" "js_job_id q \<noteq> js_job_id j" | "t' = t" "in_work q j" using assms(4) [OF h] by blast
  then show "no_bar t' \<and> (\<exists>j. sr_jobs (ss_registry s') (tenantJobKey t' (js_job_id q)) = Some (t', j) \<and> in_work q j)"
  proof cases
    case 1
    with assms(1) obtain j' where "no_bar t'" "sr_jobs (ss_registry s) (tenantJobKey t' (js_job_id q)) = Some (t', j')" "in_work q j'"
      unfolding inv_held_def by auto
    with 1 assms(2,3) show ?thesis by (auto simp: put_job_def tenantJobKey_inject)
  next
    case 2
    with assms(2,3) show ?thesis by (auto simp: put_job_def in_work_def)
  qed
qed (rule assms(5))

lemma job_ok_mono:
  assumes "job_ok s k t j" and "set (ss_job_ids s) \<subseteq> set (ss_job_ids s')" and "set (ss_message_ids s) \<subseteq> set (ss_message_ids s')"
    and "snd ` set (ss_direct s') \<subseteq> snd ` set (ss_direct s) \<union> - set (ss_message_ids s)"
    and "(snd \<circ> snd) ` set (ss_running s') \<subseteq> (snd \<circ> snd) ` set (ss_running s) \<union> - set (ss_message_ids s)"
  shows "job_ok s' k t j"
  using assms unfolding job_ok_def by blast

lemma fresh_key:
  assumes "inv_jobs s" and "no_bar t" and "jobID \<notin> set (ss_job_ids s)"
  shows "sr_jobs (ss_registry s) (tenantJobKey t jobID) = None"
proof (rule ccontr)
  assume "sr_jobs (ss_registry s) (tenantJobKey t jobID) \<noteq> None"
  then obtain t' j where "sr_jobs (ss_registry s) (tenantJobKey t jobID) = Some (t', j)" by auto
  with assms(1) have "job_ok s (tenantJobKey t jobID) t' j" unfolding inv_jobs_def by blast
  then have "tenantJobKey t jobID = tenantJobKey t' (js_job_id j)" "no_bar t'" "js_job_id j \<in> set (ss_job_ids s)"
    unfolding job_ok_def by blast+
  with assms(2,3) show False by (auto simp: tenantJobKey_inject)
qed

lemma held_job:
  assumes "inv_held s" and "(t, q) \<in> set (held s)"
  obtains j where "no_bar t" "sr_jobs (ss_registry s) (tenantJobKey t (js_job_id q)) = Some (t, j)" "in_work q j"
  using assms unfolding inv_held_def by auto

section \<open>Each step keeps the invariant\<close>

lemma queue_inv:
  assumes "send_inv s" and "QueueSendText (ss_db s) t reference number msg jobID now (ss_registry s) = (Inr q, r)"
    and "no_bar t" and "jobID \<notin> set (ss_job_ids s)"
  shows "send_inv (s\<lparr>ss_registry := r, ss_waiting := ss_waiting s @ [(t, q)], ss_job_ids := jobID # ss_job_ids s\<rparr>)"
    (is "send_inv ?s")
proof -
  have inv: "inv_jobs s" "inv_index s" "inv_held s" "inv_ids s" "inv_updates s" using assms(1) by (simp_all add: send_inv_def)
  from assms(2) obtain i n m where i: "resolve (ss_db s) t reference = Inr i" and q: "q = job_queued i reference n m jobID now"
    and r: "r = status_Store t q (ss_registry s)"
    by (auto simp: QueueSendText_def Let_def split: sum.splits if_splits)
  have "no_bar (in_id i)" using inv(4) resolve_sound [OF i] by (auto simp: inv_ids_def instances_ok_def)
  then have new: "js_job_id q = jobID" "no_bar (js_instance_id q)" "js_message_id q = []" "js_status q = ''queued''"
    "js_delivered_at q = None" "js_read_at q = None" "js_finished_at q = None" "\<not> js_delivery_confirmed q"
    by (simp_all add: q job_queued_def)
  have none: "sr_jobs (ss_registry s) (tenantJobKey t (js_job_id q)) = None"
    using fresh_key [OF inv(1) assms(3,4)] new by simp
  then have put: "ss_registry ?s = put_job t q (ss_registry s)" using r Store_new by simp
  have ids: "js_job_id p \<in> set (ss_job_ids s)" if "(t', p) \<in> set (held s)" for t' p
    using held_job [OF inv(3) that] inv(1) unfolding inv_jobs_def job_ok_def in_work_def by metis
  have d: "distinct (map (js_job_id \<circ> snd) (held ?s))"
    using inv(3) ids assms(4) new by (fastforce simp: inv_held_def held_def)
  have "inv_jobs ?s"
  proof (rule put_inv_jobs [OF inv(1) _ put])
    show "job_ok ?s (tenantJobKey t (js_job_id q)) t q" using new assms(3) by (simp add: job_ok_def)
    show "job_ok s k t' j' \<Longrightarrow> job_ok ?s k t' j'" for k t' j' by (erule job_ok_mono) auto
  qed
  moreover have "inv_index ?s" by (rule put_inv_index [OF inv(2) put]) (simp add: none)
  moreover have "inv_held ?s"
  proof (rule put_inv_held [OF inv(3) put assms(3) _ d])
    fix t' p
    assume "(t', p) \<in> set (held ?s)"
    then consider "(t', p) \<in> set (held s)" | "(t', p) = (t, q)" by (auto simp: held_def)
    then show "(t', p) \<in> set (held s) \<and> js_job_id p \<noteq> js_job_id q \<or> t' = t \<and> in_work p q"
    proof cases
      case 1
      with ids [OF 1] assms(4) new show ?thesis by auto
    next
      case 2
      with new show ?thesis by (simp add: in_work_def)
    qed
  qed
  moreover have "inv_ids ?s" using inv(4) by (simp add: inv_ids_def)
  moreover have "inv_updates ?s" by (rule put_inv_updates [OF inv(5) put]) (simp_all add: none)
  ultimately show ?thesis by (simp add: send_inv_def)
qed

lemma goroutine_inv:
  assumes "send_inv s" and w: "ss_waiting s = xs @ (t, q) # ys" and m: "messageID \<notin> set (ss_message_ids s)" "messageID \<noteq> []"
  shows "send_inv (store_job t (job_running q now)
      (s\<lparr>ss_waiting := xs @ ys, ss_running := ss_running s @ [(t, job_running q now, messageID)],
         ss_message_ids := messageID # ss_message_ids s\<rparr>))" (is "send_inv ?s")
proof -
  have inv: "inv_jobs s" "inv_index s" "inv_held s" "inv_ids s" "inv_updates s" using assms(1) by (simp_all add: send_inv_def)
  have "(t, q) \<in> set (held s)" by (simp add: held_def w)
  from held_job [OF inv(3) this] obtain j where t: "no_bar t"
    and j: "sr_jobs (ss_registry s) (tenantJobKey t (js_job_id q)) = Some (t, j)" and qj: "in_work q j" .
  define n where "n = mergeStatus j (job_running q now)"
  have n: "js_job_id n = js_job_id q" "in_work (job_running q now) n" "js_status n = ''running''" "js_message_id n = []"
    "js_instance_id n = js_instance_id j" "js_delivered_at n = js_delivered_at j" "js_read_at n = js_read_at j"
    "js_delivery_confirmed n = js_delivery_confirmed j" "js_finished_at n = None"
    using qj by (auto simp: n_def mergeStatus_def job_running_def in_work_def or_else_def)
  have put: "ss_registry ?s = put_job t n (ss_registry s)"
    using Store_old [of "ss_registry s" t "job_running q now"] j by (simp add: store_job_def n_def job_running_def)
  have none: "js_message_id e = []" if "sr_jobs (ss_registry s) (tenantJobKey t (js_job_id n)) = Some (t', e)" for t' e
    using that j n(1) qj by (simp add: in_work_def)
  have jok: "job_ok s (tenantJobKey t (js_job_id q)) t j" using inv(1) j unfolding inv_jobs_def by blast
  have d: "distinct (map (js_job_id \<circ> snd) (held ?s))"
    using inv(3) by (auto simp: inv_held_def held_def w store_job_def job_running_def)
  have "inv_jobs ?s"
  proof (rule put_inv_jobs [OF inv(1) _ put])
    show "job_ok ?s (tenantJobKey t (js_job_id n)) t n"
      using jok n qj t by (auto simp: job_ok_def in_work_def store_job_def)
    show "job_ok s k t' j' \<Longrightarrow> job_ok ?s k t' j'" for k t' j'
      by (erule job_ok_mono) (use m in \<open>auto simp: store_job_def\<close>)
  qed
  moreover have "inv_index ?s" by (rule put_inv_index [OF inv(2) put none])
  moreover have "inv_held ?s"
  proof (rule put_inv_held [OF inv(3) put t _ d])
    fix t' p
    assume "(t', p) \<in> set (held ?s)"
    then consider "(t', p) \<in> set (held s)" "js_job_id p \<noteq> js_job_id q" | "(t', p) = (t, job_running q now)"
      using inv(3) by (auto simp: inv_held_def held_def w store_job_def image_iff) force+
    then show "(t', p) \<in> set (held s) \<and> js_job_id p \<noteq> js_job_id n \<or> t' = t \<and> in_work p n"
      using n(1,2) by cases auto
  qed
  moreover have "inv_ids ?s" using inv(4) m by (auto simp: inv_ids_def store_job_def)
  moreover have "inv_updates ?s" by (rule put_inv_updates [OF inv(5) put _ none]) (simp add: store_job_def)
  ultimately show ?thesis by (simp add: send_inv_def)
qed

lemma distinct_map_other: "distinct (map f (xs @ x # ys)) \<Longrightarrow> y \<in> set (xs @ ys) \<Longrightarrow> f y \<noteq> f x"
  by (auto simp: image_iff)

lemma finish_inv:
  assumes "send_inv s" and w: "ss_running s = xs @ (t, q, messageID) # ys"
    and res: "result = Inr (messageID, serverID) \<or> result = Inl e"
  shows "send_inv (store_job t (job_finished q now result) (s\<lparr>ss_running := xs @ ys\<rparr>))" (is "send_inv ?s")
proof -
  have inv: "inv_jobs s" "inv_index s" "inv_held s" "inv_ids s" "inv_updates s" using assms(1) by (simp_all add: send_inv_def)
  have "(t, q) \<in> set (held s)" by (simp add: held_def w)
  from held_job [OF inv(3) this] obtain j where t: "no_bar t"
    and j: "sr_jobs (ss_registry s) (tenantJobKey t (js_job_id q)) = Some (t, j)" and qj: "in_work q j" .
  define n where "n = mergeStatus j (job_finished q now result)"
  have mid: "messageID \<noteq> []" "messageID \<in> set (ss_message_ids s) - snd ` set (ss_direct s)"
    "messageID \<notin> (snd \<circ> snd) ` set (xs @ ys)" using inv(4) by (auto simp: inv_ids_def w)
  have jok: "job_ok s (tenantJobKey t (js_job_id q)) t j" using inv(1) j unfolding inv_jobs_def by blast
  then have dj: "js_delivered_at j = None" "js_read_at j = None" "\<not> js_delivery_confirmed j"
    using qj by (auto simp: job_ok_def in_work_def)
  have n: "js_job_id n = js_job_id q" "js_instance_id n = js_instance_id j" "js_delivered_at n = None" "js_read_at n = None"
    "\<not> js_delivery_confirmed n" "js_finished_at n \<noteq> None"
    "js_status n = ''sent'' \<and> js_message_id n = messageID \<or> js_status n = ''failed'' \<and> js_message_id n = []"
    using res qj dj mid(1)
    by (elim disjE; simp add: n_def mergeStatus_def job_finished_def in_work_def or_else_def)+
  have "js_job_id (job_finished q now result) = js_job_id q" using res by (auto simp: job_finished_def)
  then have put: "ss_registry ?s = put_job t n (ss_registry s)"
    using Store_old [of "ss_registry s" t "job_finished q now result"] j by (simp add: store_job_def n_def)
  have none: "js_message_id e = []" if "sr_jobs (ss_registry s) (tenantJobKey t (js_job_id n)) = Some (t', e)" for t' e
    using that j n(1) qj by (simp add: in_work_def)
  let ?A = "ss_waiting s @ map (\<lambda>x. (fst x, fst (snd x))) xs" and ?B = "map (\<lambda>x. (fst x, fst (snd x))) ys"
  have hs: "held s = ?A @ (t, q) # ?B" "held ?s = ?A @ ?B" by (simp_all add: held_def w store_job_def)
  have ds: "distinct (map (js_job_id \<circ> snd) (?A @ (t, q) # ?B))" using inv(3) hs(1) by (simp add: inv_held_def)
  then have d: "distinct (map (js_job_id \<circ> snd) (held ?s))" unfolding hs(2) by simp
  have "inv_jobs ?s"
  proof (rule put_inv_jobs [OF inv(1) _ put])
    have same: "set (ss_job_ids ?s) = set (ss_job_ids s)" "set (ss_message_ids ?s) = set (ss_message_ids s)"
      "set (ss_direct ?s) = set (ss_direct s)" "ss_running ?s = xs @ ys" by (simp_all add: store_job_def)
    have "no_bar (js_instance_id j)" "js_job_id q \<in> set (ss_job_ids s)"
      using jok qj by (simp_all add: job_ok_def in_work_def)
    then show "job_ok ?s (tenantJobKey t (js_job_id n)) t n"
      unfolding job_ok_def same using n(1-6) t mid n(7) by (elim disjE conjE) simp_all
    show "job_ok s k t' j' \<Longrightarrow> job_ok ?s k t' j'" for k t' j'
      by (erule job_ok_mono) (auto simp: store_job_def w)
  qed
  moreover have "inv_index ?s" by (rule put_inv_index [OF inv(2) put none])
  moreover have "inv_held ?s"
  proof (rule put_inv_held [OF inv(3) put t _ d])
    fix t' p
    assume "(t', p) \<in> set (held ?s)"
    then have "(t', p) \<in> set (held s)" "js_job_id p \<noteq> js_job_id q"
      using distinct_map_other [OF ds, of "(t', p)"] unfolding hs by auto
    then show "(t', p) \<in> set (held s) \<and> js_job_id p \<noteq> js_job_id n \<or> t' = t \<and> in_work p n"
      using n(1) by simp
  qed
  moreover have "inv_ids ?s" using inv(4) by (auto simp: inv_ids_def store_job_def w)
  moreover have "inv_updates ?s" by (rule put_inv_updates [OF inv(5) put _ none]) (simp add: store_job_def)
  ultimately show ?thesis by (simp add: send_inv_def)
qed

text \<open>A receipt that is taken is for a job that was sent; it changes that job only.\<close>

lemma MarkReceipt_taken:
  assumes "status_MarkReceipt instanceID messageID state at r = (Some u, r')"
  obtains jobKey t j j' where "sr_message_index r (instanceMessageKey instanceID messageID) = Some jobKey"
    "sr_jobs r jobKey = Some (t, j)" "receipt_status state at j = Some j'"
    "r' = r\<lparr>sr_jobs := (sr_jobs r)(jobKey \<mapsto> (t, j'))\<rparr>" "ru_instance_id u = instanceID" "ru_message_id u = messageID"
  using assms by (auto simp: status_MarkReceipt_def split: option.splits prod.splits)

lemma MarkReceipt_refused: "status_MarkReceipt instanceID messageID state at r = (None, r') \<Longrightarrow> r' = r"
  by (auto simp: status_MarkReceipt_def split: option.splits prod.splits)

lemma receipt_status_same:
  assumes "receipt_status state at j = Some j'"
  shows "js_job_id j' = js_job_id j" "js_instance_id j' = js_instance_id j" "js_message_id j' = js_message_id j"
    "js_status j' = js_status j" "js_finished_at j' = js_finished_at j" "js_delivered_at j' \<noteq> None" "js_delivery_confirmed j'"
  using assms by (auto simp: receipt_status_def later_def split: if_splits option.splits)

lemma receipt_inv:
  assumes "send_inv s" and r: "status_MarkReceipt instanceID messageID state at (ss_registry s) = (u, r)" and "no_bar instanceID"
  shows "send_inv (s\<lparr>ss_registry := r, ss_updates := ss_updates s @ (case u of None \<Rightarrow> [] | Some x \<Rightarrow> [x])\<rparr>)" (is "send_inv ?s")
proof (cases u)
  case None
  with r have "?s = s" using MarkReceipt_refused by simp
  with assms(1) show ?thesis by simp
next
  case (Some x)
  have inv: "inv_jobs s" "inv_index s" "inv_held s" "inv_ids s" "inv_updates s" using assms(1) by (simp_all add: send_inv_def)
  from r Some obtain jobKey t j j' where
    ix: "sr_message_index (ss_registry s) (instanceMessageKey instanceID messageID) = Some jobKey"
    and j: "sr_jobs (ss_registry s) jobKey = Some (t, j)" and j': "receipt_status state at j = Some j'"
    and r': "r = (ss_registry s)\<lparr>sr_jobs := (sr_jobs (ss_registry s))(jobKey \<mapsto> (t, j'))\<rparr>"
    and x: "ru_instance_id x = instanceID" "ru_message_id x = messageID" by (auto elim: MarkReceipt_taken)
  note same = receipt_status_same [OF j']
  from inv(2) ix j have m: "js_message_id j \<noteq> []" "instanceMessageKey instanceID messageID = instanceMessageKey (js_instance_id j) (js_message_id j)"
    unfolding inv_index_def by fastforce+
  have jok: "job_ok s jobKey t j" using inv(1) j unfolding inv_jobs_def by blast
  then have "no_bar (js_instance_id j)" by (simp add: job_ok_def)
  with m(2) assms(3) have im: "instanceID = js_instance_id j" "messageID = js_message_id j"
    by (simp_all add: instanceMessageKey_inject)
  have jok': "job_ok s jobKey t j'" using jok same m(1) by (auto simp: job_ok_def)
  have "inv_jobs ?s" using inv(1) jok' by (auto simp: inv_jobs_def r' job_ok_def split: if_splits)
  moreover have "inv_index ?s" using inv(2) j same by (fastforce simp: inv_index_def r')
  moreover have "inv_held ?s"
  proof -
    have h: "held ?s = held s" by (simp add: held_def)
    have "no_bar t' \<and> (\<exists>j0. sr_jobs r (tenantJobKey t' (js_job_id q)) = Some (t', j0) \<and> in_work q j0)"
      if tq: "(t', q) \<in> set (held s)" for t' q
    proof -
      from held_job [OF inv(3) tq] obtain j0 where j0: "no_bar t'"
        "sr_jobs (ss_registry s) (tenantJobKey t' (js_job_id q)) = Some (t', j0)" "in_work q j0" .
      have "tenantJobKey t' (js_job_id q) \<noteq> jobKey" using j0 j m(1) by (auto simp: in_work_def)
      with j0 show ?thesis by (simp add: r')
    qed
    with inv(3) show ?thesis unfolding inv_held_def h by auto
  qed
  moreover have "inv_ids ?s" using inv(4) by (simp add: inv_ids_def)
  moreover have "inv_updates ?s"
    unfolding inv_updates_def
  proof
    fix v
    assume "v \<in> set (ss_updates ?s)"
    then consider "v \<in> set (ss_updates s)" | "v = x" using Some by auto
    then show "\<exists>k t j. sr_jobs (ss_registry ?s) k = Some (t, j) \<and> js_message_id j \<noteq> [] \<and>
        ru_instance_id v = js_instance_id j \<and> ru_message_id v = js_message_id j"
    proof cases
      case 1
      with inv(5) obtain k t0 j0 where "sr_jobs (ss_registry s) k = Some (t0, j0)" "js_message_id j0 \<noteq> []"
        "ru_instance_id v = js_instance_id j0" "ru_message_id v = js_message_id j0" unfolding inv_updates_def by blast
      with j same show ?thesis by (cases "k = jobKey") (auto simp: r')
    next
      case 2
      with im x same m(1) show ?thesis by (intro exI [of _ jobKey] exI [of _ t] exI [of _ j']) (simp add: r')
    qed
  qed
  ultimately show ?thesis by (simp add: send_inv_def)
qed

lemma step_inv: "send_step s s' \<Longrightarrow> send_inv s \<Longrightarrow> send_inv s'"
proof (induction rule: send_step.induct)
  case (Queue s tenantID reference number msg jobID now q r)
  then show ?case by (intro queue_inv)
next
  case (Run s xs tenantID q ys messageID now)
  then show ?case by (intro goroutine_inv)
next
  case (Finish s xs tenantID q messageID ys result serverID e now)
  then show ?case by (intro finish_inv)
next
  case (Direct messageID s instanceID)
  have "job_ok s k t j \<Longrightarrow> job_ok (s\<lparr>ss_message_ids := messageID # ss_message_ids s, ss_direct := (instanceID, messageID) # ss_direct s\<rparr>) k t j"
    for k t j by (erule job_ok_mono) (use Direct in auto)
  with Direct show ?case by (auto simp: send_inv_def send_inv_defs held_def)
next
  case (Receipt instanceID messageID state at s u r)
  then show ?case by (intro receipt_inv)
next
  case (Tables db s)
  then show ?case by (auto simp: send_inv_def send_inv_defs held_def job_ok_def)
qed

lemma reachable_inv: "send_reachable s \<Longrightarrow> send_inv s"
proof -
  have "send_step\<^sup>*\<^sup>* a s \<Longrightarrow> send_inv a \<Longrightarrow> send_inv s" for a
    by (induction rule: rtranclp_induct) (auto dest: step_inv)
  then show "send_reachable s \<Longrightarrow> send_inv s" unfolding send_reachable_def using start_inv by blast
qed

section \<open>A run\<close>

text \<open>One message is queued, sent, and delivered; then a receipt comes for another that was sent without a job.\<close>

definition sample_job :: JobStatus where
  "sample_job = job_queued (sample_instance ''i1'' ''t1'') ''Support'' ''5511'' ''hello'' ''j1'' 10"

definition run_queued :: send_state where
  "run_queued = (send_start sample_db)\<lparr>ss_registry := status_Store ''t1'' sample_job empty_status_registry,
     ss_waiting := [(''t1'', sample_job)], ss_job_ids := [''j1'']\<rparr>"

definition run_running :: send_state where
  "run_running = store_job ''t1'' (job_running sample_job 11) (run_queued\<lparr>ss_waiting := [],
     ss_running := [(''t1'', job_running sample_job 11, ''m1'')], ss_message_ids := [''m1'']\<rparr>)"

definition run_finished :: send_state where
  "run_finished = store_job ''t1'' (job_finished (job_running sample_job 11) 12 (Inr (''m1'', 7))) (run_running\<lparr>ss_running := []\<rparr>)"

definition run_direct :: send_state where
  "run_direct = run_finished\<lparr>ss_message_ids := ''m2'' # ss_message_ids run_finished, ss_direct := [(''i1'', ''m2'')]\<rparr>"

definition run_delivered :: send_state where
  "run_delivered = (case status_MarkReceipt ''i1'' ''m1'' ''Delivered'' 13 (ss_registry run_direct) of
     (u, r) \<Rightarrow> run_direct\<lparr>ss_registry := r, ss_updates := (case u of None \<Rightarrow> [] | Some x \<Rightarrow> [x])\<rparr>)"

lemma run_steps:
  "send_step (send_start sample_db) run_queued" "send_step run_queued run_running" "send_step run_running run_finished"
  "send_step run_finished run_direct" "send_step run_direct run_delivered"
proof -
  have res: "resolve sample_db ''t1'' ''Support'' = Inr (sample_instance ''i1'' ''t1'')" by code_simp
  have tr: "trim_space ''5511'' = ''5511''" "trim_space ''hello'' = ''hello''" by code_simp+
  have "QueueSendText (ss_db (send_start sample_db)) ''t1'' ''Support'' ''5511'' ''hello'' ''j1'' 10 (ss_registry (send_start sample_db)) =
      (Inr sample_job, status_Store ''t1'' sample_job empty_status_registry)"
    using res tr by (simp add: QueueSendText_def send_start_def sample_job_def Let_def)
  from send_step.Queue [OF this] show "send_step (send_start sample_db) run_queued"
    by (simp add: no_bar_def send_start_def run_queued_def)
  show "send_step run_queued run_running"
    using send_step.Run [of run_queued "[]" "''t1''" sample_job "[]" "''m1''" 11]
    by (simp add: run_running_def run_queued_def send_start_def)
  show "send_step run_running run_finished"
    using send_step.Finish [of run_running "[]" "''t1''" "job_running sample_job 11" "''m1''" "[]" "Inr (''m1'', 7)" 7 _ 12]
    by (simp add: run_finished_def run_running_def store_job_def)
  have ids: "ss_message_ids run_finished = [''m1'']" "ss_direct run_finished = []"
    by (simp_all add: run_finished_def run_running_def run_queued_def send_start_def store_job_def)
  show "send_step run_finished run_direct"
    using send_step.Direct [of "''m2''" run_finished "''i1''"] by (simp add: run_direct_def ids)
  obtain u r where ur: "status_MarkReceipt ''i1'' ''m1'' ''Delivered'' 13 (ss_registry run_direct) = (u, r)" by (rule prod.exhaust)
  have up: "ss_updates run_direct = []"
    by (simp add: run_direct_def run_finished_def run_running_def run_queued_def send_start_def store_job_def)
  show "send_step run_direct run_delivered"
    using send_step.Receipt [OF ur] by (simp add: run_delivered_def ur up no_bar_def)
qed

lemma run_reachable: "send_reachable run_running" "send_reachable run_delivered"
proof -
  have "instances_ok sample_db" by (simp add: instances_ok_def sample_db_def sample_instance_def no_bar_def)
  then show "send_reachable run_running" "send_reachable run_delivered"
    unfolding send_reachable_def using run_steps by (meson converse_rtranclp_into_rtranclp rtranclp.rtrancl_refl)+
qed

definition sample_update :: ReceiptUpdate where
  "sample_update = \<lparr>ru_instance_id = ''i1'', ru_message_id = ''m1'', ru_state = ''delivered'', ru_at = 13\<rparr>"

lemma run_delivered_updates: "ss_updates run_delivered = [sample_update]"
  by code_simp

lemma run_delivered_job:
  "\<exists>j. GetSendTextJob (ss_db run_delivered) ''t1'' ''i1'' ''j1'' (ss_registry run_delivered) = Inr j \<and> DeliveryStatus j = ''delivered''"
proof -
  have "(case GetSendTextJob (ss_db run_delivered) ''t1'' ''i1'' ''j1'' (ss_registry run_delivered) of
      Inl _ \<Rightarrow> False | Inr j \<Rightarrow> DeliveryStatus j = ''delivered'')" by code_simp
  then show ?thesis by (auto split: sum.splits)
qed

section \<open>Properties\<close>

text \<open>
  C20: the listeners of receipts, the message history and the progress of broadcasts, hear of a receipt only
  when the message belongs to a job of the queue that was sent by the instance. So no receipt for a message that
  was sent without a job, as all messages of broadcasts are, ever reaches them.
\<close>

theorem receipts_need_a_job:
  assumes "send_reachable s" and "u \<in> set (ss_updates s)"
  shows "(\<exists>k t j. sr_jobs (ss_registry s) k = Some (t, j) \<and> js_status j = ''sent'' \<and>
      js_instance_id j = ru_instance_id u \<and> js_message_id j = ru_message_id u) \<and>
    (ru_instance_id u, ru_message_id u) \<notin> set (ss_direct s)"
proof -
  have inv: "send_inv s" using assms(1) by (rule reachable_inv)
  with assms(2) obtain k t j where j: "sr_jobs (ss_registry s) k = Some (t, j)" "js_message_id j \<noteq> []"
    "ru_instance_id u = js_instance_id j" "ru_message_id u = js_message_id j"
    unfolding send_inv_def inv_updates_def by blast
  with inv have "job_ok s k t j" unfolding send_inv_def inv_jobs_def by blast
  with j show ?thesis unfolding job_ok_def by (metis DiffD1 DiffD2 image_eqI snd_conv)
qed

lemma receipts_need_a_job_witness:
  "\<exists>j. sr_jobs (ss_registry run_delivered) ''t1|j1'' = Some (''t1'', j) \<and> js_message_id j = ''m1'' \<and>
     (''i1'', ''m2'') \<in> set (ss_direct run_delivered) \<and>
     (ru_instance_id sample_update, ru_message_id sample_update) \<notin> set (ss_direct run_delivered)"
proof -
  have "sample_update \<in> set (ss_updates run_delivered)" by (simp add: run_delivered_updates)
  from receipts_need_a_job [OF run_reachable(2) this]
  have "(ru_instance_id sample_update, ru_message_id sample_update) \<notin> set (ss_direct run_delivered)" ..
  moreover have "(case sr_jobs (ss_registry run_delivered) ''t1|j1'' of None \<Rightarrow> False
      | Some (t, j) \<Rightarrow> t = ''t1'' \<and> js_message_id j = ''m1'')" by code_simp
  moreover have "(''i1'', ''m2'') \<in> set (ss_direct run_delivered)" by code_simp
  ultimately show ?thesis by (auto split: option.splits)
qed

text \<open>
  C22: what a job says of itself is consistent in every reachable state: its message has an id exactly when it was
  sent, it has an end exactly when it was sent or failed, only what was sent was delivered and only what was
  delivered was read, and confirmed means delivered.
\<close>

theorem job_states_consistent:
  assumes "send_reachable s" and "GetSendTextJob (ss_db s) tenantID reference jobID (ss_registry s) = Inr j"
  shows "js_status j \<in> {''queued'', ''running'', ''sent'', ''failed''} \<and>
    (js_message_id j \<noteq> [] \<longleftrightarrow> js_status j = ''sent'') \<and>
    (js_finished_at j \<noteq> None \<longleftrightarrow> js_status j \<in> {''sent'', ''failed''}) \<and>
    (js_delivered_at j \<noteq> None \<longrightarrow> js_status j = ''sent'') \<and> (js_read_at j \<noteq> None \<longrightarrow> js_delivered_at j \<noteq> None) \<and>
    (js_delivery_confirmed j \<longleftrightarrow> js_delivered_at j \<noteq> None) \<and>
    (Sent j \<longleftrightarrow> js_status j = ''sent'')"
proof -
  from assms(2) obtain t where "sr_jobs (ss_registry s) (tenantJobKey tenantID jobID) = Some (t, j)"
    by (auto simp: GetSendTextJob_def status_Load_def split: sum.splits option.splits if_splits)
  with reachable_inv [OF assms(1)] have "job_ok s (tenantJobKey tenantID jobID) t j"
    unfolding send_inv_def inv_jobs_def by blast
  then show ?thesis by (auto simp: job_ok_def Sent_def DeliveryStatus_def)
qed

lemma job_states_consistent_witness:
  "\<exists>j. GetSendTextJob (ss_db run_delivered) ''t1'' ''i1'' ''j1'' (ss_registry run_delivered) = Inr j \<and> js_status j = ''sent'' \<and> Sent j"
proof -
  obtain j where j: "GetSendTextJob (ss_db run_delivered) ''t1'' ''i1'' ''j1'' (ss_registry run_delivered) = Inr j"
    "DeliveryStatus j = ''delivered''" using run_delivered_job by blast
  from job_states_consistent [OF run_reachable(2) j(1)] j show ?thesis by (auto simp: Sent_def)
qed

text \<open>
  A tenant reads its own jobs only: what is returned was queued by this tenant under this id, for the instance
  of the tenant that the reference names.
\<close>

theorem jobs_isolated:
  assumes "send_reachable s" and "no_bar tenantID"
    and "GetSendTextJob (ss_db s) tenantID reference jobID (ss_registry s) = Inr j"
  shows "sr_jobs (ss_registry s) (tenantJobKey tenantID jobID) = Some (tenantID, j) \<and> js_job_id j = jobID \<and>
    (\<exists>i \<in> set (ad_instances (ss_db s)). in_tenant_id i = tenantID \<and> in_id i = js_instance_id j \<and>
       (in_id i = trim_space reference \<or> lower_trim (in_name i) = lower_trim reference))"
proof -
  from assms(3) obtain t i where k: "sr_jobs (ss_registry s) (tenantJobKey tenantID jobID) = Some (t, j)"
    and i: "resolve (ss_db s) tenantID reference = Inr i" "js_instance_id j = in_id i"
    by (auto simp: GetSendTextJob_def status_Load_def split: sum.splits option.splits if_splits)
  with reachable_inv [OF assms(1)] have "job_ok s (tenantJobKey tenantID jobID) t j"
    unfolding send_inv_def inv_jobs_def by blast
  then have "tenantJobKey tenantID jobID = tenantJobKey t (js_job_id j)" "no_bar t" unfolding job_ok_def by blast+
  then have "tenantID = t" "jobID = js_job_id j" using assms(2) by (simp_all add: tenantJobKey_inject)
  with k i resolve_sound [OF i(1)] show ?thesis by auto
qed

lemma jobs_isolated_witness:
  "\<exists>j. GetSendTextJob (ss_db run_delivered) ''t1'' ''i1'' ''j1'' (ss_registry run_delivered) = Inr j \<and> js_job_id j = ''j1''"
proof -
  obtain j where j: "GetSendTextJob (ss_db run_delivered) ''t1'' ''i1'' ''j1'' (ss_registry run_delivered) = Inr j"
    using run_delivered_job by blast
  have "no_bar ''t1''" by (simp add: no_bar_def)
  from jobs_isolated [OF run_reachable(2) this j] j show ?thesis by blast
qed

text \<open>
  A receipt that comes in before the goroutine has stored the id of the message it has just sent is lost:
  the registry does not know the message, nothing changes and no listener is called.
\<close>

theorem early_receipts_lost:
  assumes "send_reachable s" and "(t, q, messageID) \<in> set (ss_running s)" and "no_bar (js_instance_id q)"
  shows "status_MarkReceipt (js_instance_id q) messageID state at (ss_registry s) = (None, ss_registry s)"
proof -
  have inv: "send_inv s" using assms(1) by (rule reachable_inv)
  have "sr_message_index (ss_registry s) (instanceMessageKey (js_instance_id q) messageID) = None"
  proof (rule ccontr)
    assume "sr_message_index (ss_registry s) (instanceMessageKey (js_instance_id q) messageID) \<noteq> None"
    then obtain jk t' j where j: "sr_jobs (ss_registry s) jk = Some (t', j)" "js_message_id j \<noteq> []"
      and k: "instanceMessageKey (js_instance_id q) messageID = instanceMessageKey (js_instance_id j) (js_message_id j)"
      using inv unfolding send_inv_def inv_index_def by blast
    from inv j(1) have ok: "job_ok s jk t' j" unfolding send_inv_def inv_jobs_def by blast
    then have "messageID = js_message_id j" using k assms(3) by (simp add: job_ok_def instanceMessageKey_inject)
    with ok j(2) assms(2) show False by (force simp: job_ok_def)
  qed
  then show ?thesis by (simp add: status_MarkReceipt_def)
qed

lemma early_receipts_lost_witness:
  "status_MarkReceipt ''i1'' ''m1'' ''read'' 12 (ss_registry run_running) = (None, ss_registry run_running)"
proof -
  have "(''t1'', job_running sample_job 11, ''m1'') \<in> set (ss_running run_running)" by (simp add: run_running_def store_job_def)
  from early_receipts_lost [OF run_reachable(1) this] show ?thesis
    by (simp add: job_running_def sample_job_def job_queued_def sample_instance_def no_bar_def)
qed

definition progress :: "string \<Rightarrow> nat" where
  "progress status =
     (if status = ''queued'' then 0 else if status = ''running'' then 1 else if status = ''delivered'' then 3
      else if status = ''read'' then 4 else 2)"

definition not_before :: "time option \<Rightarrow> time option \<Rightarrow> bool" where
  "not_before x y = (case x of None \<Rightarrow> True | Some a \<Rightarrow> (case y of None \<Rightarrow> False | Some b \<Rightarrow> a \<le> b))"

definition forward :: "JobStatus \<Rightarrow> JobStatus \<Rightarrow> bool" where
  "forward j j' \<longleftrightarrow>
     progress (DeliveryStatus j) \<le> progress (DeliveryStatus j') \<and>
     (js_finished_at j \<noteq> None \<longrightarrow> js_status j' = js_status j \<and> js_message_id j' = js_message_id j \<and> js_finished_at j' = js_finished_at j) \<and>
     not_before (js_delivered_at j) (js_delivered_at j') \<and> not_before (js_read_at j) (js_read_at j')"

lemma not_before_refl [simp]: "not_before x x"
  by (simp add: not_before_def split: option.splits)

lemma forward_refl [simp]: "forward j j"
  by (simp add: forward_def)

lemma progress_simps [simp]:
  "progress ''queued'' = 0" "progress ''running'' = 1" "progress ''sent'' = 2" "progress ''failed'' = 2"
  "progress ''delivered'' = 3" "progress ''read'' = 4"
  by (simp_all add: progress_def)

lemma not_before_later: "not_before x (later at x)"
  by (simp add: not_before_def later_def split: option.splits)

lemma later_Some: "later at x \<noteq> None"
  by (simp add: later_def split: option.splits)

lemma forward_receipt:
  assumes "job_ok s k t j" and "receipt_status state at j = Some j'"
  shows "forward j j'"
proof -
  have st: "progress (js_status j) \<le> 2" using assms(1) by (auto simp: job_ok_def)
  consider "j' = j\<lparr>js_delivered_at := later at (js_delivered_at j), js_delivery_confirmed := True\<rparr>"
    | "j' = j\<lparr>js_delivered_at := later at (js_delivered_at j), js_read_at := later at (js_read_at j),
         js_delivery_confirmed := True\<rparr>"
    using assms(2) by (auto simp: receipt_status_def split: if_splits)
  then show ?thesis
    using st later_Some [of at] not_before_later [of _ at]
    by cases (simp_all add: forward_def DeliveryStatus_def)
qed

text \<open>A job in the hands of a goroutine has not gone further than running.\<close>

lemma forward_work:
  assumes "job_ok s k t j" and "in_work q j" and "js_status n \<in> {''running'', ''sent'', ''failed''}"
  shows "forward j (mergeStatus j n)"
proof -
  have j: "js_status j \<in> {''queued'', ''running''}" "js_delivered_at j = None" "js_read_at j = None" "js_finished_at j = None"
    using assms(1,2) by (auto simp: job_ok_def in_work_def)
  then have "progress (DeliveryStatus j) \<le> 1" by (auto simp: DeliveryStatus_def)
  moreover have "1 \<le> progress (DeliveryStatus (mergeStatus j n))"
    using assms(3) by (auto simp: DeliveryStatus_def mergeStatus_def)
  ultimately show ?thesis using j by (simp add: forward_def not_before_def)
qed

lemma store_forward:
  assumes "send_inv s" and "(t0, q) \<in> set (held s)" and "js_job_id n = js_job_id q"
    and "js_status n \<in> {''running'', ''sent'', ''failed''}" and "sr_jobs (ss_registry s) k = Some (t, j)"
  shows "\<exists>j'. sr_jobs (status_Store t0 n (ss_registry s)) k = Some (t, j') \<and> forward j j'"
proof -
  have "inv_jobs s" "inv_held s" using assms(1) by (simp_all add: send_inv_def)
  from held_job [OF this(2) assms(2)] obtain j0 where
    j0: "sr_jobs (ss_registry s) (tenantJobKey t0 (js_job_id q)) = Some (t0, j0)" "in_work q j0" .
  have id: "js_job_id (mergeStatus j0 n) = js_job_id q" using assms(3) by (simp add: mergeStatus_def)
  have put: "status_Store t0 n (ss_registry s) = put_job t0 (mergeStatus j0 n) (ss_registry s)"
    by (rule Store_old) (use j0 assms(3) in simp)
  show ?thesis
  proof (cases "k = tenantJobKey t0 (js_job_id q)")
    case True
    with j0 assms(5) have "j = j0" "t = t0" by simp_all
    moreover have "job_ok s k t j" using \<open>inv_jobs s\<close> assms(5) unfolding inv_jobs_def by blast
    ultimately show ?thesis using True id put forward_work [of s k t j q n] j0(2) assms(4)
      by (auto simp: put_job_def)
  next
    case False
    with assms(5) id put show ?thesis by (auto simp: put_job_def)
  qed
qed

text \<open>
  C21: no step loses a job or moves it back: from queued over running to sent or failed, delivered and read.
  What was sent keeps its message, and the times of delivery and reading only move forward, also when the goroutine
  stores its outcome late or receipts come twice or out of order.
\<close>

theorem jobs_move_forward:
  assumes "send_reachable s" and "send_step s s'" and "sr_jobs (ss_registry s) k = Some (t, j)"
  shows "\<exists>j'. sr_jobs (ss_registry s') k = Some (t, j') \<and> forward j j'"
proof -
  have inv: "send_inv s" using assms(1) by (rule reachable_inv)
  from assms(2) show ?thesis
  proof cases
    case (Queue tenantID reference number msg jobID now q r)
    then have r: "r = status_Store tenantID q (ss_registry s)" "js_job_id q = jobID"
      by (auto simp: QueueSendText_def job_queued_def Let_def split: sum.splits if_splits)
    have none: "sr_jobs (ss_registry s) (tenantJobKey tenantID (js_job_id q)) = None"
      using fresh_key [of s] inv Queue(3,4) r(2) by (simp add: send_inv_def)
    with assms(3) have "k \<noteq> tenantJobKey tenantID (js_job_id q)" by auto
    with Store_new [OF none] r Queue(1) assms(3) show ?thesis by (auto simp: put_job_def)
  next
    case (Run xs tenantID q ys messageID now)
    then have "(tenantID, q) \<in> set (held s)" by (simp add: held_def)
    from store_forward [OF inv this _ _ assms(3), of "job_running q now"] Run(1) show ?thesis
      by (simp add: store_job_def job_running_def)
  next
    case (Finish xs tenantID q messageID ys result serverID e now)
    then have "(tenantID, q) \<in> set (held s)" by (simp add: held_def)
    moreover have "js_job_id (job_finished q now result) = js_job_id q"
      "js_status (job_finished q now result) \<in> {''running'', ''sent'', ''failed''}"
      using Finish(3) by (auto simp: job_finished_def)
    ultimately show ?thesis using store_forward [OF inv _ _ _ assms(3)] Finish(1) by (simp add: store_job_def)
  next
    case (Direct messageID instanceID)
    with assms(3) show ?thesis by simp
  next
    case (Receipt instanceID messageID state at u r)
    show ?thesis
    proof (cases u)
      case None
      with Receipt(2) have "r = ss_registry s" using MarkReceipt_refused by blast
      with Receipt(1) assms(3) show ?thesis by simp
    next
      case (Some x)
      with Receipt(2) obtain jk t0 j0 j1 where m: "sr_jobs (ss_registry s) jk = Some (t0, j0)"
        "receipt_status state at j0 = Some j1" "r = (ss_registry s)\<lparr>sr_jobs := (sr_jobs (ss_registry s))(jk \<mapsto> (t0, j1))\<rparr>"
        by (auto elim: MarkReceipt_taken)
      have "job_ok s jk t0 j0" using inv m(1) unfolding send_inv_def inv_jobs_def by blast
      from forward_receipt [OF this m(2)] Receipt(1) assms(3) m show ?thesis by (cases "k = jk") auto
    qed
  next
    case (Tables db)
    with assms(3) show ?thesis by simp
  qed
qed

lemma jobs_move_forward_witness:
  "\<exists>j j'. sr_jobs (ss_registry run_running) ''t1|j1'' = Some (''t1'', j) \<and>
     sr_jobs (ss_registry run_finished) ''t1|j1'' = Some (''t1'', j') \<and> forward j j'"
proof -
  have "(case sr_jobs (ss_registry run_running) ''t1|j1'' of None \<Rightarrow> False | Some (t, j) \<Rightarrow> t = ''t1'')" by code_simp
  then obtain j where j: "sr_jobs (ss_registry run_running) ''t1|j1'' = Some (''t1'', j)" by (auto split: option.splits)
  from jobs_move_forward [OF run_reachable(1) run_steps(3) j] j show ?thesis by blast
qed

end
