(* ===== verification/Chat_Cache.thy ===== *)
theory Chat_Cache
  imports Send_Status
begin

text \<open>
  The search for chats, \<open>SearchChats\<close> of \<open>internal/instance/service.go\<close>, behind the cache of
  \<open>internal/instance/chat_cache.go\<close>: an answer is served for 30 seconds, a stale one for five minutes when the
  engine cannot be asked, and the engine is asked for the same search at most once in five seconds. The engine
  is an argument, its answer or its error. Copies of lists are lists.
\<close>

section \<open>Filters and records\<close>

record chatSearchFilter =
  cf_remote_jid :: string
  cf_query :: string

record chatSearchRecord =
  cr_id :: string
  cr_push_name :: string
  cr_remote_jid :: string
  cr_labels :: "string list"
  cr_profile_pic_url :: string
  cr_created_at :: string
  cr_updated_at :: string
  cr_instance_id :: string
  cr_last_message_timestamp :: string

definition maxChatSearchQueryLength :: nat where "maxChatSearchQueryLength = 100"
definition maxChatSearchJIDLength :: nat where "maxChatSearchJIDLength = 255"

definition where_string :: "json_object \<Rightarrow> string \<Rightarrow> string" where
  "where_string w k = (case map_of w k of Some (JStr t) \<Rightarrow> trim_space t | _ \<Rightarrow> [])"

definition normalizeChatSearchFilter :: "json_object \<Rightarrow> go_error + chatSearchFilter" where
  "normalizeChatSearchFilter w =
     (let jid = where_string w ''remoteJid'';
          query = (if where_string w ''query'' = [] then where_string w ''search'' else where_string w ''query'')
      in if maxChatSearchJIDLength < length jid then
           Inl (wrap ErrValidation ''remoteJid cannot exceed 255 characters'')
         else if maxChatSearchQueryLength < length query then
           Inl (wrap ErrValidation ''chat search query cannot exceed 100 characters'')
         else Inr \<lparr>cf_remote_jid = jid, cf_query = query\<rparr>)"

section \<open>The cache\<close>

record chatSearchCacheEntry =
  ce_items :: "chatSearchRecord list"
  ce_refreshed_at :: time
  ce_expires_at :: time
  ce_stale_until :: time

record chatSearchCache =
  cc_entries :: "string \<rightharpoonup> chatSearchCacheEntry"
  cc_fresh_ttl :: duration
  cc_stale_ttl :: duration
  cc_live_throttle :: duration
  cc_last_live :: "string \<rightharpoonup> time"

record ChatSearchResult =
  cs_items :: "chatSearchRecord list"
  cs_cached :: bool
  cs_stale :: bool
  cs_source :: string
  cs_refreshed_at :: time
  cs_expires_at :: time
  cs_stale_until :: time
  cs_ttl_seconds :: int
  cs_stale_ttl_seconds :: int
  cs_reason :: string
  cs_operator_message :: string

definition newChatSearchCache :: "duration \<Rightarrow> duration \<Rightarrow> duration \<Rightarrow> chatSearchCache" where
  "newChatSearchCache freshTTL staleTTL liveThrottle =
     (let fresh = (if freshTTL \<le> 0 then 30 * second else freshTTL);
          stale = (if staleTTL < fresh then fresh else staleTTL);
          throttle = (if liveThrottle \<le> 0 then 5 * second else liveThrottle)
      in \<lparr>cc_entries = Map.empty, cc_fresh_ttl = fresh, cc_stale_ttl = stale, cc_live_throttle = throttle,
          cc_last_live = Map.empty\<rparr>)"

definition default_cache :: chatSearchCache where
  "default_cache = newChatSearchCache (30 * second) (5 * minute) (5 * second)"

text \<open>The four parts are joined by NUL bytes.\<close>

definition chatSearchCacheKey :: "string \<Rightarrow> string \<Rightarrow> chatSearchFilter \<Rightarrow> string" where
  "chatSearchCacheKey tenantID instanceID f =
     join [CHR 0x00] [trim_space tenantID, trim_space instanceID, lower_trim (cf_remote_jid f), lower_trim (cf_query f)]"

definition resultFromEntry :: "chatSearchCache \<Rightarrow> chatSearchCacheEntry \<Rightarrow> bool \<Rightarrow> string \<Rightarrow> string \<Rightarrow> ChatSearchResult" where
  "resultFromEntry c e stale source reason =
     \<lparr>cs_items = ce_items e, cs_cached = (source = ''cache''), cs_stale = stale, cs_source = source,
      cs_refreshed_at = ce_refreshed_at e, cs_expires_at = ce_expires_at e, cs_stale_until = ce_stale_until e,
      cs_ttl_seconds = cc_fresh_ttl c div second, cs_stale_ttl_seconds = cc_stale_ttl c div second,
      cs_reason = reason,
      cs_operator_message =
        (if source = ''cache'' \<and> stale then
           ''chat list returned from stale cache because live bridge refresh was not available''
         else if source = ''cache'' then ''chat list returned from fresh cache''
         else ''chat list returned from live bridge'')\<rparr>"

definition cache_fresh :: "string \<Rightarrow> time \<Rightarrow> chatSearchCache \<Rightarrow> ChatSearchResult option" where
  "cache_fresh key now c =
     (case cc_entries c key of
        None \<Rightarrow> None
      | Some e \<Rightarrow> if ce_expires_at e < now then None else Some (resultFromEntry c e False ''cache'' ''fresh_cache''))"

definition attempted_lately :: "string \<Rightarrow> time \<Rightarrow> chatSearchCache \<Rightarrow> bool" where
  "attempted_lately key now c = (case cc_last_live c key of None \<Rightarrow> False | Some t \<Rightarrow> now - t < cc_live_throttle c)"

definition cache_stale :: "string \<Rightarrow> time \<Rightarrow> string \<Rightarrow> chatSearchCache \<Rightarrow> ChatSearchResult option" where
  "cache_stale key now reason c =
     (case cc_entries c key of
        None \<Rightarrow> None
      | Some e \<Rightarrow> if ce_stale_until e < now then None else Some (resultFromEntry c e True ''cache'' reason))"

definition cache_throttled :: "string \<Rightarrow> time \<Rightarrow> chatSearchCache \<Rightarrow> ChatSearchResult option" where
  "cache_throttled key now c =
     (if attempted_lately key now c then cache_stale key now ''live_query_throttled'' c else None)"

definition beginLiveAttempt :: "string \<Rightarrow> time \<Rightarrow> chatSearchCache \<Rightarrow> bool \<times> chatSearchCache" where
  "beginLiveAttempt key now c =
     (if attempted_lately key now c then (False, c) else (True, c\<lparr>cc_last_live := (cc_last_live c)(key \<mapsto> now)\<rparr>))"

definition cleanupExpired :: "time \<Rightarrow> chatSearchCache \<Rightarrow> chatSearchCache" where
  "cleanupExpired now c =
     (let gone = (\<lambda>k. case cc_entries c k of None \<Rightarrow> False | Some e \<Rightarrow> ce_stale_until e < now)
      in c\<lparr>cc_entries := (\<lambda>k. if gone k then None else cc_entries c k),
           cc_last_live := (\<lambda>k. if gone k then None else cc_last_live c k)\<rparr>)"

definition new_entry :: "chatSearchRecord list \<Rightarrow> time \<Rightarrow> chatSearchCache \<Rightarrow> chatSearchCacheEntry" where
  "new_entry items now c =
     \<lparr>ce_items = items, ce_refreshed_at = now, ce_expires_at = now + cc_fresh_ttl c, ce_stale_until = now + cc_stale_ttl c\<rparr>"

definition cache_store ::
  "string \<Rightarrow> chatSearchRecord list \<Rightarrow> time \<Rightarrow> chatSearchCache \<Rightarrow> ChatSearchResult \<times> chatSearchCache" where
  "cache_store key items now c =
     (let c = cleanupExpired now c; e = new_entry items now c
      in (resultFromEntry c e False ''live'' [],
          c\<lparr>cc_last_live := (cc_last_live c)(key \<mapsto> now), cc_entries := (cc_entries c)(key \<mapsto> e)\<rparr>))"

section \<open>Errors of the engine\<close>

definition mentions :: "string \<Rightarrow> string list \<Rightarrow> bool" where
  "mentions message words = list_ex (contains message) words"

definition rate_words :: "string list" where
  "rate_words = [''rate limit'', ''ratelimit'', ''too many requests'', ''429'']"

definition normalizeChatSearchBridgeError :: "go_error \<Rightarrow> go_error" where
  "normalizeChatSearchBridgeError e =
     (if err_is e \<in> {Some ErrTimeout, Some ErrValidation, Some ErrNotFound} then e
      else let message = lower_trim (err_text e) in
        if mentions message rate_words then
          wrap ErrRateLimited ''live chat search is rate limited; retry shortly or use cached data when available''
        else if mentions message [''runtime unavailable'', ''legacy runtime unavailable'',
            ''legacy client runtime unavailable'', ''legacy chat services unavailable'', ''no active session found'',
            ''not connected'', ''connection'', ''timeout''] then
          wrap ErrConflict ''live chat search unavailable; no cached chat list is available''
        else e)"

definition staleReasonForChatSearchError :: "go_error \<Rightarrow> string" where
  "staleReasonForChatSearchError e =
     (if mentions (lower_trim (err_text e)) rate_words then ''bridge_rate_limited'' else ''bridge_unavailable'')"

section \<open>The search\<close>

text \<open>What a request finds behind the cache: no runtime, one without chats, or the engine.\<close>

datatype bridge = NoRuntime "go_error option" | NoChats | Engine "go_error + chatSearchRecord list"

text \<open>The readings of the clock, in the order the code takes them; the last is that after the engine was asked.\<close>

definition live_search ::
  "string \<Rightarrow> bridge \<Rightarrow> time \<Rightarrow> chatSearchCache \<Rightarrow> (go_error + ChatSearchResult) \<times> chatSearchCache" where
  "live_search key b now c =
     (case b of
        NoRuntime e \<Rightarrow>
          (case cache_stale key now ''bridge_unavailable'' c of
             Some r \<Rightarrow> (Inr r, c)
           | None \<Rightarrow> (Inl (normalizeChatSearchBridgeError
                 (case e of None \<Rightarrow> plain_error ''runtime unavailable'' | Some e \<Rightarrow> e)), c))
      | NoChats \<Rightarrow>
          (case cache_stale key now ''bridge_unavailable'' c of
             Some r \<Rightarrow> (Inr r, c)
           | None \<Rightarrow> (Inl (normalizeChatSearchBridgeError (plain_error ''legacy runtime unavailable'')), c))
      | Engine (Inl e) \<Rightarrow>
          (case cache_stale key now (staleReasonForChatSearchError e) c of
             Some r \<Rightarrow> (Inr r, c)
           | None \<Rightarrow> (Inl (normalizeChatSearchBridgeError e), c))
      | Engine (Inr chats) \<Rightarrow>
          (case cache_store key chats now c of (r, c) \<Rightarrow> (Inr r, c)))"

definition SearchChats ::
  "auth_db \<Rightarrow> string \<Rightarrow> string \<Rightarrow> json_object \<Rightarrow> go_error option \<Rightarrow> time \<times> time \<times> time \<times> time \<Rightarrow> bridge \<Rightarrow>
   chatSearchCache \<Rightarrow> (go_error + ChatSearchResult) \<times> chatSearchCache" where
  "SearchChats db tenantID reference w ctx_err ts b c =
     (case ts of (t1, t2, t3, t4) \<Rightarrow>
      case resolve db tenantID reference of
        Inl e \<Rightarrow> (Inl e, c)
      | Inr i \<Rightarrow>
      case normalizeChatSearchFilter w of
        Inl e \<Rightarrow> (Inl e, c)
      | Inr f \<Rightarrow>
      case ctx_err of
        Some e \<Rightarrow> (Inl e, c)
      | None \<Rightarrow>
          (let key = chatSearchCacheKey tenantID (in_id i) f in
           case cache_fresh key t1 c of
             Some r \<Rightarrow> (Inr r, c)
           | None \<Rightarrow>
           case cache_throttled key t2 c of
             Some r \<Rightarrow> (Inr r, c)
           | None \<Rightarrow>
               (case beginLiveAttempt key t3 c of
                  (False, c) \<Rightarrow> (Inl (wrap ErrConflict ''live chat search is temporarily throttled; retry shortly''), c)
                | (True, c) \<Rightarrow> live_search key b t4 c)))"

section \<open>The cache under concurrent searches\<close>

text \<open>
  What concurrent searches do to the cache: each takes its lock to begin a live attempt and, if it got an answer, to
  store it. The history holds the attempts that were granted and the answers that were stored, with their times.
\<close>

record cache_state =
  ch_cache :: chatSearchCache
  ch_clock :: time
  ch_granted :: "(string \<times> time) list"
  ch_answers :: "(string \<times> chatSearchRecord list \<times> time) list"

inductive cache_step :: "cache_state \<Rightarrow> cache_state \<Rightarrow> bool" where
  Begin: "ch_clock s \<le> now \<Longrightarrow> beginLiveAttempt key now (ch_cache s) = (ok, c) \<Longrightarrow>
    cache_step s (s\<lparr>ch_cache := c, ch_clock := now,
      ch_granted := (if ok then [(key, now)] else []) @ ch_granted s\<rparr>)"
| Answer: "ch_clock s \<le> now \<Longrightarrow> cache_store key items now (ch_cache s) = (r, c) \<Longrightarrow>
    cache_step s (s\<lparr>ch_cache := c, ch_clock := now, ch_answers := (key, items, now) # ch_answers s\<rparr>)"

definition cache_reachable :: "chatSearchCache \<Rightarrow> cache_state \<Rightarrow> bool" where
  "cache_reachable c0 s \<longleftrightarrow>
     cc_entries c0 = Map.empty \<and> cc_last_live c0 = Map.empty \<and> 0 \<le> cc_fresh_ttl c0 \<and> cc_fresh_ttl c0 \<le> cc_stale_ttl c0 \<and>
     (\<exists>t. cache_step\<^sup>*\<^sup>* \<lparr>ch_cache = c0, ch_clock = t, ch_granted = [], ch_answers = []\<rparr> s)"

text \<open>
  An entry is a stored answer; an attempt that was granted is remembered, or else the answer that was there before
  had expired when that of another search was stored.
\<close>

definition forgotten :: "duration \<Rightarrow> cache_state \<Rightarrow> string \<Rightarrow> time \<Rightarrow> bool" where
  "forgotten staleTTL s key since \<longleftrightarrow>
     (\<exists>(k1, i1, r) \<in> set (ch_answers s). \<exists>(k2, i2, t) \<in> set (ch_answers s).
        k1 = key \<and> k2 \<noteq> key \<and> r + staleTTL < t \<and> since \<le> t)"

definition cache_inv :: "chatSearchCache \<Rightarrow> cache_state \<Rightarrow> bool" where
  "cache_inv c0 s \<longleftrightarrow>
     cc_fresh_ttl (ch_cache s) = cc_fresh_ttl c0 \<and> cc_stale_ttl (ch_cache s) = cc_stale_ttl c0 \<and>
     cc_live_throttle (ch_cache s) = cc_live_throttle c0 \<and>
     (\<forall>k e. cc_entries (ch_cache s) k = Some e \<longrightarrow> (\<exists>items t. (k, items, t) \<in> set (ch_answers s) \<and> e = new_entry items t c0)) \<and>
     (\<forall>(k, items, t) \<in> set (ch_answers s). t \<le> ch_clock s) \<and>
     (\<forall>k l. cc_last_live (ch_cache s) k = Some l \<longrightarrow> l \<le> ch_clock s) \<and>
     (\<forall>(k, t) \<in> set (ch_granted s). t \<le> ch_clock s \<and>
        ((\<exists>l. cc_last_live (ch_cache s) k = Some l \<and> t \<le> l) \<or> forgotten (cc_stale_ttl c0) s k t))"

lemma forgotten_mono: "forgotten d s k t \<Longrightarrow> set (ch_answers s) \<subseteq> set (ch_answers s') \<Longrightarrow> forgotten d s' k t"
  unfolding forgotten_def by blast

lemma forgotten_Cons: "forgotten d s k t \<Longrightarrow> ch_answers s' = a # ch_answers s \<Longrightarrow> forgotten d s' k t"
  by (rule forgotten_mono) auto

lemma cache_invI:
  assumes "cc_fresh_ttl (ch_cache s) = cc_fresh_ttl c0" "cc_stale_ttl (ch_cache s) = cc_stale_ttl c0"
    and "cc_live_throttle (ch_cache s) = cc_live_throttle c0"
    and "\<And>k e. cc_entries (ch_cache s) k = Some e \<Longrightarrow> \<exists>items t. (k, items, t) \<in> set (ch_answers s) \<and> e = new_entry items t c0"
    and "\<And>k i t. (k, i, t) \<in> set (ch_answers s) \<Longrightarrow> t \<le> ch_clock s"
    and "\<And>k l. cc_last_live (ch_cache s) k = Some l \<Longrightarrow> l \<le> ch_clock s"
    and "\<And>k t. (k, t) \<in> set (ch_granted s) \<Longrightarrow> t \<le> ch_clock s \<and>
        ((\<exists>l. cc_last_live (ch_cache s) k = Some l \<and> t \<le> l) \<or> forgotten (cc_stale_ttl c0) s k t)"
  shows "cache_inv c0 s"
  unfolding cache_inv_def
  by (intro conjI allI impI ballI; (rule assms; assumption)?; clarify; rule assms(5,7); assumption)

lemma cache_invD:
  assumes "cache_inv c0 s"
  shows "cc_fresh_ttl (ch_cache s) = cc_fresh_ttl c0" "cc_stale_ttl (ch_cache s) = cc_stale_ttl c0"
    "cc_live_throttle (ch_cache s) = cc_live_throttle c0"
    "cc_entries (ch_cache s) k = Some e \<Longrightarrow> \<exists>items t. (k, items, t) \<in> set (ch_answers s) \<and> e = new_entry items t c0"
    "(k, i, t) \<in> set (ch_answers s) \<Longrightarrow> t \<le> ch_clock s"
    "cc_last_live (ch_cache s) k = Some l \<Longrightarrow> l \<le> ch_clock s"
    "(k, t) \<in> set (ch_granted s) \<Longrightarrow> t \<le> ch_clock s \<and>
        ((\<exists>l. cc_last_live (ch_cache s) k = Some l \<and> t \<le> l) \<or> forgotten (cc_stale_ttl c0) s k t)"
proof -
  note I = assms [unfolded cache_inv_def]
  show "cc_fresh_ttl (ch_cache s) = cc_fresh_ttl c0" "cc_stale_ttl (ch_cache s) = cc_stale_ttl c0"
    "cc_live_throttle (ch_cache s) = cc_live_throttle c0" using I by simp_all
  show "cc_entries (ch_cache s) k = Some e \<Longrightarrow> \<exists>items t. (k, items, t) \<in> set (ch_answers s) \<and> e = new_entry items t c0"
    using I by (elim conjE) blast
  show "(k, i, t) \<in> set (ch_answers s) \<Longrightarrow> t \<le> ch_clock s" using I by (elim conjE) fast
  show "cc_last_live (ch_cache s) k = Some l \<Longrightarrow> l \<le> ch_clock s" using I by (elim conjE) blast
  show "(k, t) \<in> set (ch_granted s) \<Longrightarrow> t \<le> ch_clock s \<and>
        ((\<exists>l. cc_last_live (ch_cache s) k = Some l \<and> t \<le> l) \<or> forgotten (cc_stale_ttl c0) s k t)"
    using I by (elim conjE) fast
qed

lemma forgotten_same: "ch_answers s' = ch_answers s \<Longrightarrow> forgotten d s' k t = forgotten d s k t"
  by (simp add: forgotten_def)

lemma begin_inv:
  assumes inv: "cache_inv c0 s" and now: "ch_clock s \<le> now" and b: "beginLiveAttempt key now (ch_cache s) = (ok, c)"
  shows "cache_inv c0 (s\<lparr>ch_cache := c, ch_clock := now, ch_granted := (if ok then [(key, now)] else []) @ ch_granted s\<rparr>)"
    (is "cache_inv c0 ?s")
proof -
  note D = cache_invD [OF inv]
  have c: "cc_fresh_ttl c = cc_fresh_ttl c0" "cc_stale_ttl c = cc_stale_ttl c0" "cc_live_throttle c = cc_live_throttle c0"
    "cc_entries c = cc_entries (ch_cache s)" "cc_last_live c = (if ok then (cc_last_live (ch_cache s))(key \<mapsto> now) else cc_last_live (ch_cache s))"
    using b D(1-3) by (auto simp: beginLiveAttempt_def split: if_splits)
  have gr: "t \<le> now \<and> ((\<exists>l. cc_last_live c k = Some l \<and> t \<le> l) \<or> forgotten (cc_stale_ttl c0) ?s k t)"
    if "(k, t) \<in> set (ch_granted ?s)" for k t
  proof -
    have f: "forgotten d ?s k t = forgotten d s k t" for d by (rule forgotten_same) simp
    from that consider "(k, t) \<in> set (ch_granted s)" | "ok" "(k, t) = (key, now)" by (auto split: if_splits)
    then show ?thesis
    proof cases
      case 1
      with D(7) [OF 1] now show ?thesis unfolding c(5) f by auto
    qed (simp add: c(5))
  qed
  have l: "l \<le> now" if "cc_last_live c k = Some l" for k l
    using that D(6) [of k l] now by (auto simp: c(5) split: if_splits)
  have a: "t \<le> now" if "(k, i, t) \<in> set (ch_answers s)" for k i t using D(5) [OF that] now by simp
  show ?thesis by (rule cache_invI) (use c D(4) gr l a in simp_all)
qed

lemma answer_inv:
  assumes inv: "cache_inv c0 s" and now: "ch_clock s \<le> now" and st: "cache_store key items now (ch_cache s) = (r, c)"
  shows "cache_inv c0 (s\<lparr>ch_cache := c, ch_clock := now, ch_answers := (key, items, now) # ch_answers s\<rparr>)" (is "cache_inv c0 ?s")
proof -
  let ?gone = "\<lambda>k. case cc_entries (ch_cache s) k of None \<Rightarrow> False | Some e \<Rightarrow> ce_stale_until e < now"
  have c: "cc_entries c = (\<lambda>k. if ?gone k then None else cc_entries (ch_cache s) k)(key \<mapsto> new_entry items now c0)"
    "cc_last_live c = (\<lambda>k. if ?gone k then None else cc_last_live (ch_cache s) k)(key \<mapsto> now)"
    "cc_fresh_ttl c = cc_fresh_ttl c0" "cc_stale_ttl c = cc_stale_ttl c0" "cc_live_throttle c = cc_live_throttle c0"
    using st inv by (auto simp: cache_store_def cleanupExpired_def Let_def cache_inv_def new_entry_def)
  have gr: "t \<le> now \<and> ((\<exists>l. cc_last_live c k = Some l \<and> t \<le> l) \<or> forgotten (cc_stale_ttl c0) ?s k t)"
    if g: "(k, t) \<in> set (ch_granted s)" for k t
  proof -
    from inv g have t: "t \<le> ch_clock s" "(\<exists>l. cc_last_live (ch_cache s) k = Some l \<and> t \<le> l) \<or> forgotten (cc_stale_ttl c0) s k t"
      unfolding cache_inv_def by auto
    consider "k = key" | "k \<noteq> key" "?gone k" | "k \<noteq> key" "\<not> ?gone k" by blast
    then show ?thesis
    proof cases
      case 1
      with t now c(2) show ?thesis by auto
    next
      case 2
      then obtain e where e: "cc_entries (ch_cache s) k = Some e" "ce_stale_until e < now" by (auto split: option.splits)
      with inv obtain i' t' where "(k, i', t') \<in> set (ch_answers s)" "e = new_entry i' t' c0" unfolding cache_inv_def by blast
      with e 2(1) t(1) now show ?thesis by (force simp: forgotten_def new_entry_def)
    next
      case 3
      from t(2) show ?thesis
      proof
        assume "\<exists>l. cc_last_live (ch_cache s) k = Some l \<and> t \<le> l"
        with 3 t(1) now c(2) show ?thesis by auto
      next
        assume "forgotten (cc_stale_ttl c0) s k t"
        with t(1) now show ?thesis by (auto intro: forgotten_Cons)
      qed
    qed
  qed
  have "\<exists>i t. (k, i, t) \<in> set (ch_answers ?s) \<and> e = new_entry i t c0" if "cc_entries c k = Some e" for k e
    using that inv unfolding c(1) cache_inv_def by (fastforce split: if_splits)
  moreover have "l \<le> now" if "cc_last_live c k = Some l" for k l
    using that inv now unfolding c(2) cache_inv_def by (fastforce split: if_splits)
  moreover have "t \<le> now" if "(k, i, t) \<in> set (ch_answers ?s)" for k i t
    using that inv now unfolding cache_inv_def by fastforce
  ultimately show ?thesis by (intro cache_invI) (use gr c(3-5) in simp_all)
qed

lemma reachable_cache_inv:
  assumes "cache_reachable c0 s"
  shows "cache_inv c0 s"
proof -
  from assms obtain t where run: "cache_step\<^sup>*\<^sup>* \<lparr>ch_cache = c0, ch_clock = t, ch_granted = [], ch_answers = []\<rparr> s"
    and c0: "cc_entries c0 = Map.empty" "cc_last_live c0 = Map.empty" unfolding cache_reachable_def by blast
  from run show ?thesis
  proof (induction rule: rtranclp_induct)
    case base
    with c0 show ?case by (simp add: cache_inv_def)
  next
    case (step s s')
    from step(2) show ?case
    proof cases
      case (Begin now key ok c)
      with step(3) show ?thesis by (simp only:) (rule begin_inv)
    next
      case (Answer now key items r c)
      with step(3) show ?thesis by (simp only:) (rule answer_inv)
    qed
  qed
qed

section \<open>Keys\<close>

definition no_nul :: "string \<Rightarrow> bool" where
  "no_nul s \<longleftrightarrow> CHR 0x00 \<notin> set s"

lemma key_isolates:
  assumes "chatSearchCacheKey t i f = chatSearchCacheKey t' i' f'" and "no_nul t" "no_nul i" "no_nul t'" "no_nul i'"
  shows "trim_space t = trim_space t' \<and> trim_space i = trim_space i'"
proof -
  have cut: "a = c \<and> b = d" if "a @ CHR 0x00 # b = c @ CHR 0x00 # d" "no_nul a" "no_nul c" for a b c d
    using that unfolding no_nul_def
  proof (induction a arbitrary: c)
    case Nil
    then show ?case by (cases c) auto
  next
    case (Cons x a)
    then show ?case by (cases c) auto
  qed
  have n: "no_nul (trim_space x)" if "no_nul x" for x using that trim_space_set unfolding no_nul_def by blast
  have e: "trim_space t @ CHR 0x00 # trim_space i @ CHR 0x00 # lower_trim (cf_remote_jid f) @ CHR 0x00 # lower_trim (cf_query f) =
      trim_space t' @ CHR 0x00 # trim_space i' @ CHR 0x00 # lower_trim (cf_remote_jid f') @ CHR 0x00 # lower_trim (cf_query f')"
    using assms(1) by (simp add: chatSearchCacheKey_def)
  from cut [OF this n n] assms(2,4) have "trim_space t = trim_space t'"
    "trim_space i @ CHR 0x00 # lower_trim (cf_remote_jid f) @ CHR 0x00 # lower_trim (cf_query f) =
      trim_space i' @ CHR 0x00 # lower_trim (cf_remote_jid f') @ CHR 0x00 # lower_trim (cf_query f')" by blast+
  with cut [OF this(2) n n] assms(3,5) show ?thesis by blast
qed

section \<open>Properties\<close>

text \<open>
  Between two live searches of the same key lie at least five seconds, the throttle of the cache, unless
  the store of another search has swept away the memory of the first, because the answer before it had expired.
\<close>

theorem live_attempts_spaced:
  assumes "cache_reachable c0 s" and "(key, since) \<in> set (ch_granted s)" and "ch_clock s \<le> now"
    and "beginLiveAttempt key now (ch_cache s) = (True, c)"
  shows "cc_live_throttle c0 \<le> now - since \<or> forgotten (cc_stale_ttl c0) s key since"
proof -
  note D = cache_invD [OF reachable_cache_inv [OF assms(1)]]
  from D(7) [OF assms(2)] show ?thesis
    using assms(4) D(3) by (auto simp: beginLiveAttempt_def attempted_lately_def split: if_splits option.splits)
qed

text \<open>
  The run in which it happens: an answer at 0, expired since 300 s; a live search at 400 s, which fails; an answer for
  another search at 401 s; and at 402 s the next live search.
\<close>

definition sample_cache_run :: "cache_state" where
  "sample_cache_run =
     (let c1 = snd (beginLiveAttempt ''a'' 0 default_cache);
          c2 = snd (cache_store ''a'' [] 0 c1);
          c3 = snd (beginLiveAttempt ''a'' (400 * second) c2);
          c4 = snd (beginLiveAttempt ''b'' (401 * second) c3);
          c5 = snd (cache_store ''b'' [] (401 * second) c4)
      in \<lparr>ch_cache = c5, ch_clock = 401 * second,
          ch_granted = [(''b'', 401 * second), (''a'', 400 * second), (''a'', 0)],
          ch_answers = [(''b'', [], 401 * second), (''a'', [], 0)]\<rparr>)"

lemma sample_cache_run_reachable: "cache_reachable default_cache sample_cache_run"
proof -
  let ?c1 = "snd (beginLiveAttempt ''a'' 0 default_cache)"
  let ?c2 = "snd (cache_store ''a'' [] 0 ?c1)"
  let ?c3 = "snd (beginLiveAttempt ''a'' (400 * second) ?c2)"
  let ?c4 = "snd (beginLiveAttempt ''b'' (401 * second) ?c3)"
  let ?c5 = "snd (cache_store ''b'' [] (401 * second) ?c4)"
  have g: "beginLiveAttempt ''a'' 0 default_cache = (True, ?c1)" "beginLiveAttempt ''a'' (400 * second) ?c2 = (True, ?c3)"
    "beginLiveAttempt ''b'' (401 * second) ?c3 = (True, ?c4)"
    by (simp_all add: beginLiveAttempt_def attempted_lately_def cache_store_def cleanupExpired_def default_cache_def
        newChatSearchCache_def second_def minute_def Let_def new_entry_def)
  let ?s0 = "\<lparr>ch_cache = default_cache, ch_clock = 0, ch_granted = [], ch_answers = []\<rparr>"
  let ?s1 = "\<lparr>ch_cache = ?c1, ch_clock = 0, ch_granted = [(''a'', 0)], ch_answers = []\<rparr>"
  let ?s2 = "\<lparr>ch_cache = ?c2, ch_clock = 0, ch_granted = [(''a'', 0)], ch_answers = [(''a'', [], 0)]\<rparr>"
  let ?s3 = "\<lparr>ch_cache = ?c3, ch_clock = 400 * second, ch_granted = [(''a'', 400 * second), (''a'', 0)],
      ch_answers = [(''a'', [], 0)]\<rparr>"
  let ?s4 = "\<lparr>ch_cache = ?c4, ch_clock = 401 * second,
      ch_granted = [(''b'', 401 * second), (''a'', 400 * second), (''a'', 0)], ch_answers = [(''a'', [], 0)]\<rparr>"
  have "cache_step ?s0 ?s1" using Begin [of ?s0 0 "''a''" True ?c1] g(1) by simp
  moreover have "cache_step ?s1 ?s2"
    using Answer [of ?s1 0 "''a''" "[]" "fst (cache_store ''a'' [] 0 ?c1)" ?c2] by simp
  moreover have "cache_step ?s2 ?s3"
    using Begin [of ?s2 "400 * second" "''a''" True ?c3] g(2) by (simp add: second_def)
  moreover have "cache_step ?s3 ?s4"
    using Begin [of ?s3 "401 * second" "''b''" True ?c4] g(3) by (simp add: second_def)
  moreover have "cache_step ?s4 sample_cache_run"
    using Answer [of ?s4 "401 * second" "''b''" "[]" "fst (cache_store ''b'' [] (401 * second) ?c4)" ?c5]
    by (simp add: sample_cache_run_def Let_def)
  ultimately have "cache_step\<^sup>*\<^sup>* ?s0 sample_cache_run"
    by (meson converse_rtranclp_into_rtranclp rtranclp.rtrancl_refl)
  then show ?thesis
    unfolding cache_reachable_def by (auto simp: default_cache_def newChatSearchCache_def second_def minute_def)
qed

lemma live_attempts_spaced_witness:
  "fst (beginLiveAttempt ''a'' (402 * second) (ch_cache sample_cache_run)) \<and> forgotten (5 * minute) sample_cache_run ''a'' (400 * second)"
proof -
  have "fst (beginLiveAttempt ''a'' (402 * second) (ch_cache sample_cache_run))" by code_simp
  then obtain c where b: "beginLiveAttempt ''a'' (402 * second) (ch_cache sample_cache_run) = (True, c)"
    by (metis prod.exhaust_sel)
  have m: "(''a'', 400 * second) \<in> set (ch_granted sample_cache_run)" "ch_clock sample_cache_run \<le> 402 * second"
    by (simp_all add: sample_cache_run_def Let_def second_def)
  have d: "cc_live_throttle default_cache = 5 * second" "cc_stale_ttl default_cache = 5 * minute"
    by (simp_all add: default_cache_def newChatSearchCache_def second_def minute_def)
  from live_attempts_spaced [OF sample_cache_run_reachable m b] show ?thesis
    using b by (auto simp: d second_def)
qed

lemma cache_fresh_Some:
  "cache_fresh key now c = Some r \<Longrightarrow> \<exists>e. cc_entries c key = Some e \<and> now \<le> ce_expires_at e \<and>
     cs_items r = ce_items e \<and> cs_cached r \<and> \<not> cs_stale r \<and> cs_refreshed_at r = ce_refreshed_at e"
  by (auto simp: cache_fresh_def resultFromEntry_def split: option.splits if_splits)

lemma cache_stale_Some:
  "cache_stale key now reason c = Some r \<Longrightarrow> \<exists>e. cc_entries c key = Some e \<and> now \<le> ce_stale_until e \<and>
     cs_items r = ce_items e \<and> cs_cached r \<and> cs_stale r \<and> cs_refreshed_at r = ce_refreshed_at e"
  by (auto simp: cache_stale_def resultFromEntry_def split: option.splits if_splits)

lemma cache_throttled_Some: "cache_throttled key now c = Some r \<Longrightarrow> \<exists>reason. cache_stale key now reason c = Some r"
  by (auto simp: cache_throttled_def split: if_splits)

lemma beginLiveAttempt_entries: "beginLiveAttempt key now c = (ok, c') \<Longrightarrow> cc_entries c' = cc_entries c"
  by (auto simp: beginLiveAttempt_def split: if_splits)

lemma live_search_Inr:
  assumes "live_search key b now c = (Inr r, c')"
  shows "(\<exists>items. b = Engine (Inr items) \<and> cs_items r = items \<and> \<not> cs_cached r \<and> \<not> cs_stale r) \<or>
    (\<exists>reason. cache_stale key now reason c = Some r)"
proof (cases "\<exists>items. b = Engine (Inr items)")
  case True
  with assms show ?thesis
    by (auto simp: live_search_def cache_store_def resultFromEntry_def new_entry_def Let_def)
next
  case False
  with assms show ?thesis
    by (auto simp: live_search_def split: bridge.splits sum.splits option.splits)
qed

text \<open>What a search returns, by where it came from.\<close>

lemma SearchChats_Inr:
  assumes "SearchChats db tenantID reference w None (t1, t2, t3, t4) b c = (Inr r, c')"
  obtains (live) items where "b = Engine (Inr items)" "cs_items r = items" "\<not> cs_cached r" "\<not> cs_stale r"
  | (cached) i f t e where "resolve db tenantID reference = Inr i" "normalizeChatSearchFilter w = Inr f"
      "cc_entries c (chatSearchCacheKey tenantID (in_id i) f) = Some e" "t \<in> {t1, t2, t4}"
      "if cs_stale r then t \<le> ce_stale_until e else t \<le> ce_expires_at e" "cs_items r = ce_items e" "cs_cached r"
      "cs_refreshed_at r = ce_refreshed_at e"
proof -
  obtain i f where i: "resolve db tenantID reference = Inr i" and f: "normalizeChatSearchFilter w = Inr f"
    using assms by (auto simp: SearchChats_def split: sum.splits)
  let ?k = "chatSearchCacheKey tenantID (in_id i) f"
  obtain ok c1 where g: "beginLiveAttempt ?k t3 c = (ok, c1)" by (rule prod.exhaust)
  consider "cache_fresh ?k t1 c = Some r" | "cache_throttled ?k t2 c = Some r" | "live_search ?k b t4 c1 = (Inr r, c')"
    using assms i f g by (auto simp: SearchChats_def Let_def split: option.splits bool.splits)
  then show thesis
  proof cases
    case 1
    from cache_fresh_Some [OF this] show ?thesis by (auto intro!: cached [OF i f, of _ t1])
  next
    case 2
    from cache_throttled_Some [OF 2] obtain reason where "cache_stale ?k t2 reason c = Some r" by blast
    from cache_stale_Some [OF this] show ?thesis by (auto intro!: cached [OF i f, of _ t2])
  next
    case 3
    from live_search_Inr [OF this] show ?thesis
    proof
      assume "\<exists>items. b = Engine (Inr items) \<and> cs_items r = items \<and> \<not> cs_cached r \<and> \<not> cs_stale r"
      with live show ?thesis by blast
    next
      assume "\<exists>reason. cache_stale ?k t4 reason c1 = Some r"
      then obtain reason where "cache_stale ?k t4 reason c1 = Some r" by blast
      from cache_stale_Some [OF this] beginLiveAttempt_entries [OF g] show ?thesis
        by (auto intro!: cached [OF i f, of _ t4])
    qed
  qed
qed


definition sample_record :: chatSearchRecord where
  "sample_record = \<lparr>cr_id = ''5511@s.whatsapp.net'', cr_push_name = ''Ana'', cr_remote_jid = ''5511@s.whatsapp.net'',
     cr_labels = [], cr_profile_pic_url = [], cr_created_at = [], cr_updated_at = [], cr_instance_id = ''i1'',
     cr_last_message_timestamp = ''0001-01-01T00:00:00Z''\<rparr>"

definition one_instance_db :: auth_db where
  "one_instance_db = \<lparr>ad_tenants = [], ad_users = [], ad_instances =
     [\<lparr>in_id = ''i1'', in_tenant_id = ''t1'', in_name = ''support'', in_status = ''open'', in_engine_instance_id = [],
       in_webhook_url = [], in_webhook_events = [], in_webhook_base64 = False, in_webhook_by_events = False,
       in_ai_enabled = False, in_ai_auto_reply = False, in_created_at = 0\<rparr>], ad_legacy = [], ad_outage = (\<lambda>_. None)\<rparr>"

definition sample_key :: string where
  "sample_key = chatSearchCacheKey ''t1'' ''i1'' \<lparr>cf_remote_jid = [], cf_query = ''ana''\<rparr>"

definition sample_filled :: cache_state where
  "sample_filled = \<lparr>ch_cache = snd (cache_store sample_key [sample_record] 0 default_cache), ch_clock = 0, ch_granted = [],
     ch_answers = [(sample_key, [sample_record], 0)]\<rparr>"

lemma sample_filled_reachable: "cache_reachable default_cache sample_filled"
proof -
  let ?s0 = "\<lparr>ch_cache = default_cache, ch_clock = 0, ch_granted = [], ch_answers = []\<rparr>"
  have "cache_step ?s0 sample_filled"
    using Answer [of ?s0 0 sample_key "[sample_record]" "fst (cache_store sample_key [sample_record] 0 default_cache)"
        "snd (cache_store sample_key [sample_record] 0 default_cache)"] by (simp add: sample_filled_def)
  then show ?thesis
    unfolding cache_reachable_def by (auto simp: default_cache_def newChatSearchCache_def second_def minute_def)
qed


text \<open>
  While an answer that is not older than five minutes is in the cache, a search that names an instance of
  the tenant and has a proper filter is answered, whatever the state of the engine.
\<close>

theorem searches_answered:
  assumes "resolve db tenantID reference = Inr i" and "normalizeChatSearchFilter w = Inr f"
    and "cc_entries c (chatSearchCacheKey tenantID (in_id i) f) = Some e"
    and "t1 \<le> t2" and "t2 \<le> t3" and "t3 \<le> t4" and "t4 \<le> ce_stale_until e"
  shows "\<exists>r c'. SearchChats db tenantID reference w None (t1, t2, t3, t4) b c = (Inr r, c')"
proof -
  let ?k = "chatSearchCacheKey tenantID (in_id i) f"
  show ?thesis
  proof (cases "cache_fresh ?k t1 c \<noteq> None \<or> cache_throttled ?k t2 c \<noteq> None")
    case True
    with assms(1,2) show ?thesis by (auto simp: SearchChats_def Let_def split: option.splits)
  next
    case False
    have st: "\<exists>r. cache_stale ?k t reason c = Some r" if "t \<le> t4" for t reason
      using assms(3,7) that by (simp add: cache_stale_def)
    then have "cache_stale ?k t2 ''live_query_throttled'' c \<noteq> None" using assms(5,6) by fastforce
    with False have "\<not> attempted_lately ?k t2 c" by (auto simp: cache_throttled_def)
    with assms(5) have "\<not> attempted_lately ?k t3 c" by (auto simp: attempted_lately_def split: option.splits)
    then obtain c1 where b: "beginLiveAttempt ?k t3 c = (True, c1)" "cc_entries c1 = cc_entries c"
      by (simp add: beginLiveAttempt_def)
    have "\<exists>r. cache_stale ?k t4 reason c1 = Some r" for reason using assms(3,7) b(2) by (simp add: cache_stale_def)
    then have "\<exists>r c'. live_search ?k b t4 c1 = (Inr r, c')"
      by (auto simp: live_search_def cache_store_def Let_def split: bridge.splits sum.splits option.splits) (metis option.distinct(1))+
    with False b assms(1,2) show ?thesis by (auto simp: SearchChats_def Let_def)
  qed
qed

lemma searches_answered_witness:
  "\<exists>r c'. SearchChats one_instance_db ''t1'' ''Support'' [(''search'', JStr ''Ana'')] None
     (second, second, second, second) NoChats (ch_cache sample_filled) = (Inr r, c')"
proof -
  define i where "i = hd (ad_instances one_instance_db)"
  have r: "resolve one_instance_db ''t1'' ''Support'' = Inr i" unfolding i_def by code_simp
  have f: "normalizeChatSearchFilter [(''search'', JStr ''Ana'')] = Inr \<lparr>cf_remote_jid = [], cf_query = ''Ana''\<rparr>" by code_simp
  have k: "chatSearchCacheKey ''t1'' (in_id i) \<lparr>cf_remote_jid = [], cf_query = ''Ana''\<rparr> = sample_key" unfolding i_def by code_simp
  have e: "cc_entries (ch_cache sample_filled) (chatSearchCacheKey ''t1'' (in_id i) \<lparr>cf_remote_jid = [], cf_query = ''Ana''\<rparr>) =
      Some (new_entry [sample_record] 0 default_cache)"
    unfolding k by (simp add: sample_filled_def cache_store_def cleanupExpired_def new_entry_def Let_def)
  show ?thesis
    by (rule searches_answered [OF r f e])
       (simp_all add: new_entry_def default_cache_def newChatSearchCache_def second_def minute_def)
qed

end
