(* ===== verification/Message_Store.thy ===== *)
theory Message_Store
  imports Prelude
begin

text \<open>
  The table of the conversation messages and the statements of \<open>gormConversationMessageRepository\<close>
  (\<open>internal/repository/gorm.go\<close>). The rows are a list, \<open>md_refuse\<close> is the database's refusal to write a row
  (an outage, a value too long for its column) and \<open>md_outage\<close> its refusal of a query. The column
  \<open>message_payload\<close> holds a JSON text the code writes with \<open>Marshal\<close> and reads with \<open>Unmarshal\<close>; here it is the
  object itself, the empty one for the empty text.
\<close>

section \<open>Rows\<close>

record ConversationMessage =
  cm_id :: string
  cm_tenant_id :: string
  cm_instance_id :: string
  cm_remote_jid :: string
  cm_external_message_id :: string
  cm_direction :: string
  cm_message_type :: string
  cm_push_name :: string
  cm_source :: string
  cm_body :: string
  cm_status :: string
  cm_message_timestamp :: time
  cm_media_url :: string
  cm_mime_type :: string
  cm_file_name :: string
  cm_caption :: string
  cm_message_payload :: json_object
  cm_delivered_at :: "time option"
  cm_read_at :: "time option"
  cm_created_at :: time
  cm_updated_at :: time

record message_db =
  md_messages :: "ConversationMessage list"
  md_refuse :: "ConversationMessage \<Rightarrow> go_error option"
  md_outage :: "go_error option"

record ConversationMessageFilter =
  mf_remote_jid :: string
  mf_external_message_id :: string
  mf_query :: string
  mf_limit :: int
  mf_before :: "time option"

text \<open>The unique index \<open>idx_conversation_messages_instance_external\<close>.\<close>

definition message_key :: "ConversationMessage \<Rightarrow> string \<times> string" where
  "message_key m = (cm_instance_id m, cm_external_message_id m)"

section \<open>Patterns\<close>

text \<open>
  \<open>LIKE\<close> of SQL: a percent sign stands for any text, an underscore for one character (in UTF-8 a byte and the
  continuation bytes after it), a backslash takes the next character as it is. \<open>ILIKE\<close> folds the case.
\<close>

definition continuation :: "char \<Rightarrow> bool" where
  "continuation c \<longleftrightarrow> (of_char c :: nat) div 64 = 2"

fun like :: "string \<Rightarrow> string \<Rightarrow> bool" where
  "like [] t \<longleftrightarrow> t = []"
| "like (p # ps) t \<longleftrightarrow>
     (if p = CHR ''%'' then like ps t \<or> (case t of [] \<Rightarrow> False | _ # t' \<Rightarrow> like (p # ps) t')
      else case t of
        [] \<Rightarrow> False
      | c # t' \<Rightarrow>
          if p = CHR ''_'' then like ps (dropWhile continuation t')
          else if p = CHR 0x5C then (case ps of [] \<Rightarrow> False | q # qs \<Rightarrow> c = q \<and> like qs t')
          else c = p \<and> like ps t')"

definition ilike :: "string \<Rightarrow> string \<Rightarrow> bool" where
  "ilike t p = like (to_lower p) (to_lower t)"

section \<open>Statements\<close>

text \<open>The columns \<open>Upsert\<close> assigns when the key is there already: all but the id and the time of creation.\<close>

definition overwrite :: "ConversationMessage \<Rightarrow> ConversationMessage \<Rightarrow> ConversationMessage" where
  "overwrite m old = m\<lparr>cm_id := cm_id old, cm_created_at := cm_created_at old\<rparr>"

text \<open>\<open>BeforeCreate\<close> gives an id where there is none, \<open>Create\<close> sets the times that are zero.\<close>

definition created_row :: "string \<Rightarrow> time \<Rightarrow> ConversationMessage \<Rightarrow> ConversationMessage" where
  "created_row newID now m =
     m\<lparr>cm_id := (if cm_id m = [] then newID else cm_id m),
       cm_created_at := (if cm_created_at m = 0 then now else cm_created_at m),
       cm_updated_at := (if cm_updated_at m = 0 then now else cm_updated_at m)\<rparr>"

definition message_Upsert ::
  "string \<Rightarrow> time \<Rightarrow> ConversationMessage option \<Rightarrow> message_db \<Rightarrow> go_error option \<times> message_db" where
  "message_Upsert newID now message db =
     (case message of
        None \<Rightarrow> (None, db)
      | Some m \<Rightarrow>
          (let m = created_row newID now m in
           case md_refuse db m of
             Some e \<Rightarrow> (Some e, db)
           | None \<Rightarrow>
               if message_key m \<in> message_key ` set (md_messages db)
               then (None, db\<lparr>md_messages :=
                       map (\<lambda>x. if message_key x = message_key m then overwrite m x else x) (md_messages db)\<rparr>)
               else (None, db\<lparr>md_messages := md_messages db @ [m]\<rparr>)))"

definition message_matches :: "string \<Rightarrow> string \<Rightarrow> ConversationMessageFilter \<Rightarrow> ConversationMessage \<Rightarrow> bool" where
  "message_matches tenantID instanceID f m \<longleftrightarrow>
     cm_tenant_id m = tenantID \<and> cm_instance_id m = instanceID \<and>
     (trim_space (mf_remote_jid f) \<noteq> [] \<longrightarrow> cm_remote_jid m = trim_space (mf_remote_jid f)) \<and>
     (trim_space (mf_external_message_id f) \<noteq> [] \<longrightarrow> cm_external_message_id m = trim_space (mf_external_message_id f)) \<and>
     (trim_space (mf_query f) \<noteq> [] \<longrightarrow> ilike (cm_body m) (''%'' @ trim_space (mf_query f) @ ''%'')) \<and>
     (case mf_before f of None \<Rightarrow> True | Some b \<Rightarrow> b = 0 \<or> cm_message_timestamp m < b)"

text \<open>\<open>ORDER BY message_timestamp DESC, created_at DESC\<close>: the latest come first.\<close>

definition newest_first :: "ConversationMessage list \<Rightarrow> ConversationMessage list" where
  "newest_first ms = sort_key (\<lambda>m. - cm_message_timestamp m) (sort_key (\<lambda>m. - cm_created_at m) ms)"

definition message_List ::
  "string \<Rightarrow> string \<Rightarrow> ConversationMessageFilter \<Rightarrow> message_db \<Rightarrow> go_error + ConversationMessage list" where
  "message_List tenantID instanceID f db =
     (case md_outage db of
        Some e \<Rightarrow> Inl e
      | None \<Rightarrow>
          (let found = newest_first (filter (message_matches tenantID instanceID f) (md_messages db))
           in Inr (rev (if 0 < mf_limit f then take (nat (mf_limit f)) found else found))))"

definition message_CountByTenant :: "string \<Rightarrow> message_db \<Rightarrow> go_error + int" where
  "message_CountByTenant tenantID db =
     (case md_outage db of
        Some e \<Rightarrow> Inl e
      | None \<Rightarrow> Inr (int (length (filter (\<lambda>m. cm_tenant_id m = tenantID) (md_messages db)))))"

definition message_receipt :: "string \<Rightarrow> time \<Rightarrow> time \<Rightarrow> ConversationMessage \<Rightarrow> ConversationMessage" where
  "message_receipt state at now m =
     (if state = ''delivered'' then m\<lparr>cm_status := ''delivered'', cm_delivered_at := Some at, cm_updated_at := now\<rparr>
      else m\<lparr>cm_status := ''read'', cm_delivered_at := Some at, cm_read_at := Some at, cm_updated_at := now\<rparr>)"

definition message_MarkReceipt ::
  "string \<Rightarrow> string \<Rightarrow> string \<Rightarrow> time \<Rightarrow> time \<Rightarrow> message_db \<Rightarrow> go_error option \<times> message_db" where
  "message_MarkReceipt instanceID externalMessageID state at now db =
     (let instanceID = trim_space instanceID; externalMessageID = trim_space externalMessageID;
          state = lower_trim state in
      if instanceID = [] \<or> externalMessageID = [] then (None, db)
      else if state \<notin> {''delivered'', ''read''} then (None, db)
      else case md_outage db of
        Some e \<Rightarrow> (Some e, db)
      | None \<Rightarrow>
          (None, db\<lparr>md_messages :=
             map (\<lambda>m. if message_key m = (instanceID, externalMessageID) then message_receipt state at now m else m)
               (md_messages db)\<rparr>))"

record GroupSummary =
  gs_remote_jid :: string
  gs_push_name :: string
  gs_message_count :: int
  gs_last_message :: time

definition group_key :: "ConversationMessage \<Rightarrow> string \<times> string" where
  "group_key m = (cm_remote_jid m, cm_push_name m)"

definition group_summary :: "ConversationMessage list \<Rightarrow> string \<times> string \<Rightarrow> GroupSummary" where
  "group_summary ms k =
     (let group = filter (\<lambda>m. group_key m = k) ms
      in \<lparr>gs_remote_jid = fst k, gs_push_name = snd k, gs_message_count = int (length group),
          gs_last_message = Max (set (map cm_message_timestamp group))\<rparr>)"

definition message_ListGroups :: "string \<Rightarrow> message_db \<Rightarrow> go_error + GroupSummary list" where
  "message_ListGroups instanceID db =
     (case md_outage db of
        Some e \<Rightarrow> Inl e
      | None \<Rightarrow>
          (let ms = filter (\<lambda>m. cm_instance_id m = instanceID \<and> like ''%@g.us'' (cm_remote_jid m)) (md_messages db)
           in Inr (sort_key (\<lambda>g. - gs_last_message g) (map (group_summary ms) (remdups (map group_key ms))))))"

end
