(* ===== verification/Rfc3339_Format.thy ===== *)
theory Rfc3339_Format
  imports Rfc3339
begin

text \<open>
  \<open>Format(time.RFC3339)\<close> of Go's library for times in UTC of the years 1 to 9999, as the message history prints
  its timestamps and takes them back as cursors. The year is found as \<open>time.absDate\<close> does it, by cycles of 400,
  100, 4 and 1 years. Parsing what was printed gives the whole seconds back.
\<close>

section \<open>From days to dates\<close>

text \<open>The year of a day and the day in it.\<close>

definition year_day :: "int \<Rightarrow> int \<times> int" where
  "year_day z =
     (let n = z div 146097; d = z mod 146097;
          c = min 3 (d div 36524); d = d - 36524 * c;
          q = d div 1461; d = d mod 1461;
          r = min 3 (d div 365); d = d - 365 * r
      in (400 * n + 100 * c + 4 * q + r + 1, d))"

fun month_day :: "int list \<Rightarrow> int \<Rightarrow> int \<Rightarrow> int \<times> int" where
  "month_day [] y d = (12, d + 1)"
| "month_day (mo # mos) y d = (if d < days_in y mo then (mo, d + 1) else month_day mos y (d - days_in y mo))"

fun pad_digits :: "nat \<Rightarrow> int \<Rightarrow> string" where
  "pad_digits 0 k = []"
| "pad_digits (Suc n) k = pad_digits n (k div 10) @ [char_of (nat (k mod 10) + 48)]"

definition format_rfc3339 :: "time \<Rightarrow> string" where
  "format_rfc3339 t =
     (let s = t div second; days = s div 86400; rest = s mod 86400 in
      case year_day days of (y, yd) \<Rightarrow>
      case month_day [1..12] y yd of (mo, d) \<Rightarrow>
        pad_digits 4 y @ ''-'' @ pad_digits 2 mo @ ''-'' @ pad_digits 2 d @ ''T'' @
        pad_digits 2 (rest div 3600) @ '':'' @ pad_digits 2 (rest div 60 mod 60) @ '':'' @ pad_digits 2 (rest mod 60) @ ''Z'')"

lemma format_example: "format_rfc3339 (63900000000 * second + 7) = ''2025-11-29T08:00:00Z''"
  by code_simp

section \<open>The date of a day\<close>

lemma year_day_correct:
  assumes "year_day z = (y, d)"
  shows "days_before_year y + d = z" and "0 \<le> d" and "d < (if leap_year y then 366 else 365)"
proof -
  define n where "n = z div 146097"
  define d0 where "d0 = z mod 146097"
  define c where "c = min 3 (d0 div 36524)"
  define d1 where "d1 = d0 - 36524 * c"
  define q where "q = d1 div 1461"
  define d2 where "d2 = d1 mod 1461"
  define r where "r = min 3 (d2 div 365)"
  have y: "y = 400 * n + 100 * c + 4 * q + r + 1" and d: "d = d2 - 365 * r"
    using assms
    by (simp_all only: year_day_def Let_def n_def [symmetric] d0_def [symmetric] c_def [symmetric] d1_def [symmetric]
        q_def [symmetric] d2_def [symmetric] r_def [symmetric] prod.inject)
  have z: "z = 146097 * n + d0" by (simp add: n_def d0_def)
  have b0: "0 \<le> d0" "d0 < 146097" by (simp_all add: d0_def)
  have "0 \<le> c \<and> c \<le> 3 \<and> 0 \<le> d1 \<and> d1 \<le> 36524 \<and> (c < 3 \<longrightarrow> d1 < 36524)"
  proof (cases "3 \<le> d0 div 36524")
    case True
    then have "c = 3" by (simp add: c_def)
    moreover have "109572 \<le> d0" using True by linarith
    ultimately show ?thesis using b0 unfolding d1_def by simp
  next
    case False
    then have ce: "c = d0 div 36524" by (simp add: c_def)
    then have "d1 = d0 mod 36524" unfolding d1_def by (simp add: minus_mult_div_eq_mod)
    moreover have "0 \<le> c" using ce b0 by (simp add: pos_imp_zdiv_nonneg_iff)
    moreover have "0 \<le> d0 mod 36524" "d0 mod 36524 < 36524" by simp_all
    ultimately show ?thesis using False ce by linarith
  qed
  then have c: "0 \<le> c" "c \<le> 3" "0 \<le> d1" "d1 \<le> 36524" "c < 3 \<Longrightarrow> d1 < 36524" by auto
  have "d1 = 1461 * q + d2" "0 \<le> d2" "d2 < 1461" by (simp_all add: q_def d2_def)
  with c have q: "d1 = 1461 * q + d2" "0 \<le> d2" "d2 < 1461" "0 \<le> q" "q \<le> 24" by simp_all
  have r: "0 \<le> r \<and> r \<le> 3 \<and> 0 \<le> d \<and> d \<le> 365 \<and> (d = 365 \<longrightarrow> r = 3 \<and> d2 = 1460)"
  proof (cases "3 \<le> d2 div 365")
    case True
    then have "r = 3" by (simp add: r_def)
    moreover have "1095 \<le> d2" using True by linarith
    ultimately show ?thesis using q(3) unfolding d by simp
  next
    case False
    then have "r = d2 div 365" by (simp add: r_def)
    then have "d = d2 mod 365" unfolding d by (simp add: minus_mult_div_eq_mod)
    moreover have "0 \<le> r" using \<open>r = d2 div 365\<close> q(2) by (simp add: pos_imp_zdiv_nonneg_iff)
    moreover have "0 \<le> d2 mod 365" "d2 mod 365 < 365" by simp_all
    ultimately show ?thesis using False \<open>r = d2 div 365\<close> by linarith
  qed
  then have r: "0 \<le> r" "r \<le> 3" "0 \<le> d" "d \<le> 365" "d = 365 \<Longrightarrow> r = 3 \<and> d2 = 1460"
    by auto
  let ?p = "400 * n + 100 * c + 4 * q + r"
  have "?p = r + 4 * (100 * n + 25 * c + q)" by simp
  then have p4: "?p div 4 = 100 * n + 25 * c + q" using r(1,2) by linarith
  have "?p = (4 * q + r) + 100 * (4 * n + c)" by simp
  then have p100: "?p div 100 = 4 * n + c" using r(1,2) q(4,5) by linarith
  have "?p = (100 * c + 4 * q + r) + 400 * n" by simp
  then have p400: "?p div 400 = n" using r(1,2) q(4,5) c(1,2) by linarith
  show "days_before_year y + d = z"
    using y d p4 p100 p400 z q(1) d1_def by (simp add: days_before_year_def Let_def)
  show "0 \<le> d" by (rule r(3))
  have "leap_year y" if "d = 365"
  proof -
    from r(5) [OF that] have r3: "r = 3" "d2 = 1460" by blast+
    have y': "y = 4 * (100 * n + 25 * c + q + 1)" using y r3 by simp
    show ?thesis
    proof (cases "q = 24")
      case True
      then have "c = 3" using q(1) r3 c(2,5) by linarith
      with True y r3 have "y = 400 * (n + 1)" by simp
      then show ?thesis by (simp add: leap_year_def)
    next
      case False
      have "y = (4 * q + 4) + 100 * (4 * n + c)" using y' by simp
      moreover have "0 \<le> 4 * q + 4" "4 * q + 4 < 100" using q(4,5) False by linarith+
      ultimately have "y mod 100 = 4 * q + 4" by (simp only: mod_mult_self2 mod_pos_pos_trivial)
      with q(4) y' show ?thesis by (simp add: leap_year_def)
    qed
  qed
  with r(4) show "d < (if leap_year y then 366 else 365)" by (cases "d = 365") auto
qed

lemma month_day_split:
  assumes "month_day mos y d = (m, d')" and "0 \<le> d" and "d < sum_list (map (days_in y) mos)"
  shows "\<exists>as bs. mos = as @ m # bs \<and> d = sum_list (map (days_in y) as) + d' - 1 \<and> 1 \<le> d' \<and> d' \<le> days_in y m"
  using assms
proof (induction mos arbitrary: d)
  case (Cons mo mos)
  show ?case
  proof (cases "d < days_in y mo")
    case True
    with Cons.prems show ?thesis by (intro exI [of _ "[]"] exI [of _ mos]) auto
  next
    case False
    with Cons.prems Cons.IH [of "d - days_in y mo"] obtain as bs where "mos = as @ m # bs"
      "d - days_in y mo = sum_list (map (days_in y) as) + d' - 1" "1 \<le> d'" "d' \<le> days_in y m" by auto
    then show ?thesis by (intro exI [of _ "mo # as"] exI [of _ bs]) auto
  qed
qed simp

lemma upto_split_at: "[1..j] = as @ m # bs \<Longrightarrow> as = [1..m - 1] \<and> 1 \<le> m \<and> m \<le> j" for j :: int
proof -
  assume a: "[1..j] = as @ m # bs"
  let ?k = "length as"
  have "length [1..j] = ?k + 1 + length bs" using a by simp
  then have k: "1 + int ?k \<le> j" by simp
  have "[1..j] ! ?k = m" using a by simp
  with k have m: "m = 1 + int ?k" by simp
  have "as = [1..m - 1]"
  proof (rule nth_equalityI)
    show "length as = length [1..m - 1]" using m by simp
    fix i
    assume i: "i < length as"
    then have "as ! i = [1..j] ! i" using a by (simp add: nth_append)
    then show "as ! i = [1..m - 1] ! i" using i k m by simp
  qed
  moreover have "1 \<le> m" "m \<le> j" using m k by linarith+
  ultimately show "as = [1..m - 1] \<and> 1 \<le> m \<and> m \<le> j" by blast
qed

lemma days_of_year: "sum_list (map (days_in y) [1..12]) = (if leap_year y then 366 else 365)"
  by (simp add: upto.simps days_in_def)

lemma date_correct:
  assumes "year_day z = (y, yd)" and "month_day [1..12] y yd = (mo, d)"
  shows "day_number y mo d = z \<and> 1 \<le> mo \<and> mo \<le> 12 \<and> 1 \<le> d \<and> d \<le> days_in y mo"
proof -
  note yd = year_day_correct [OF assms(1)]
  have "yd < sum_list (map (days_in y) [1..12])" using yd(3) days_of_year by simp
  from month_day_split [OF assms(2) yd(2) this] obtain as bs where
    s: "[1..12] = as @ mo # bs" "yd = sum_list (map (days_in y) as) + d - 1" "1 \<le> d" "d \<le> days_in y mo" by blast
  from upto_split_at [OF s(1)] s(2-4) yd(1) show ?thesis by (simp add: day_number_def)
qed

section \<open>Parsing what was printed\<close>

lemma length_pad_digits [simp]: "length (pad_digits n k) = n"
  by (induction n arbitrary: k) simp_all

lemma is_digit_char_of: "d < 10 \<Longrightarrow> is_digit (char_of (d + 48 :: nat))"
proof -
  have "list_all (\<lambda>d. is_digit (char_of (d + 48 :: nat))) [0..<10]" by code_simp
  then show "d < 10 \<Longrightarrow> ?thesis" by (simp add: list_all_iff)
qed

lemma is_digit_pad_digits: "0 \<le> k \<Longrightarrow> list_all is_digit (pad_digits n k)"
  by (induction n arbitrary: k) (simp_all add: is_digit_char_of nat_less_iff pos_imp_zdiv_nonneg_iff)

lemma digits_value_pad_digits: "0 \<le> k \<Longrightarrow> k < 10 ^ n \<Longrightarrow> digits_value (pad_digits n k) = k"
proof (induction n arbitrary: k)
  case (Suc n)
  then have "k div 10 < 10 ^ n" by simp
  with Suc have "digits_value (pad_digits n (k div 10)) = k div 10" by (simp add: pos_imp_zdiv_nonneg_iff)
  moreover have "digit_value (char_of (nat (k mod 10) + 48)) = k mod 10"
    by (subst digit_value_char_of) (simp_all add: nat_less_iff)
  ultimately show ?case by (simp add: digits_value_snoc)
qed (simp add: digits_value_def)

lemma p_digits_pad [simp]: "0 \<le> k \<Longrightarrow> k < 10 ^ n \<Longrightarrow> p_digits n (pad_digits n k @ s) = Some (k, s)"
  by (simp add: p_digits_def is_digit_pad_digits digits_value_pad_digits)

lemma p_lit_Cons [simp]: "p_lit c (c # s) = Some ((), s)"
  by (simp add: p_lit_def)

lemma p_then_Some [simp]: "p_then (Some (a, s)) f = f a s"
  by (simp add: p_then_def)

lemma p_hour_pad [simp]: "0 \<le> k \<Longrightarrow> k < 100 \<Longrightarrow> p_hour (pad_digits 2 k @ s) = Some (k, s)"
  by (simp add: p_hour_def)

text \<open>The times whose year has four digits.\<close>

definition four_digit_year :: "time \<Rightarrow> bool" where
  "four_digit_year t \<longleftrightarrow> 0 \<le> t \<and> t < days_before_year 10000 * 86400 * second"

lemma days_before_10000: "days_before_year 10000 = 3652059"
  by (simp add: days_before_year_def)

lemma div_minus_one:
  fixes y k :: int
  assumes "0 < k"
  shows "(y - 1) div k = (if y mod k = 0 then y div k - 1 else y div k)"
proof -
  have y: "y - 1 = (y mod k - 1) + k * (y div k)" by simp
  have b: "0 \<le> y mod k" "y mod k < k" using assms by simp_all
  show ?thesis
  proof (cases "y mod k = 0")
    case True
    then have "y - 1 = (k - 1) + k * (y div k - 1)" using mult_div_mod_eq [of k y] by (simp add: right_diff_distrib)
    then have "(y - 1) div k = (y div k - 1) + (k - 1) div k" using assms by (simp only: div_mult_self2)
    with True assms show ?thesis by (simp add: div_pos_pos_trivial)
  next
    case False
    then have "0 \<le> y mod k - 1" "y mod k - 1 < k" using b by linarith+
    then have "(y mod k - 1) div k = 0" by (rule div_pos_pos_trivial)
    moreover have "(y - 1) div k = y div k + (y mod k - 1) div k"
      using assms by (subst y) (simp only: div_mult_self2)
    ultimately show ?thesis using False by simp
  qed
qed

lemma days_of_next_year: "days_before_year (y + 1) = days_before_year y + (if leap_year y then 366 else 365)"
proof -
  have m: "y mod 400 = 0 \<Longrightarrow> y mod 100 = 0" "y mod 100 = 0 \<Longrightarrow> y mod 4 = 0"
    unfolding mod_eq_0_iff_dvd by (rule dvd_trans; simp)+
  have succ: "days_before_year (y + 1) = 365 * y + y div 4 - y div 100 + y div 400"
    by (simp add: days_before_year_def)
  have this_year: "days_before_year y = 365 * y - 365 + (y - 1) div 4 - (y - 1) div 100 + (y - 1) div 400"
    by (simp add: days_before_year_def Let_def)
  consider "y mod 400 = 0" | "y mod 100 = 0" "y mod 400 \<noteq> 0" | "y mod 4 = 0" "y mod 100 \<noteq> 0" | "y mod 4 \<noteq> 0"
    by blast
  then show ?thesis
  proof cases
    case 1
    with m have "leap_year y" by (simp add: leap_year_def)
    with 1 m show ?thesis unfolding succ this_year by (simp add: div_minus_one)
  next
    case 2
    then have "\<not> leap_year y" by (simp add: leap_year_def)
    with 2 m show ?thesis unfolding succ this_year by (simp add: div_minus_one)
  next
    case 3
    with m have "leap_year y" "y mod 400 \<noteq> 0" by (auto simp: leap_year_def)
    with 3 show ?thesis unfolding succ this_year by (simp add: div_minus_one)
  next
    case 4
    with m have "\<not> leap_year y" "y mod 100 \<noteq> 0" "y mod 400 \<noteq> 0" by (auto simp: leap_year_def)
    with 4 show ?thesis unfolding succ this_year by (simp add: div_minus_one)
  qed
qed

lemma days_before_year_mono: "x \<le> y \<Longrightarrow> days_before_year x \<le> days_before_year y"
proof (induction y rule: int_ge_induct)
  case (step i)
  then show ?case by (simp add: days_of_next_year split: if_splits)
qed simp

lemma year_day_bounds:
  assumes "year_day z = (y, d)" and "0 \<le> z" and "z < days_before_year 10000"
  shows "1 \<le> y \<and> y < 10000"
proof -
  note yd = year_day_correct [OF assms(1)]
  have "y < 10000" using yd(1,2) assms(3) days_before_year_mono [of 10000 y] by linarith
  moreover have "1 \<le> y"
  proof (rule ccontr)
    assume "\<not> 1 \<le> y"
    then have "days_before_year (y + 1) \<le> 0" using days_before_year_mono [of "y + 1" 1]
      by (simp add: days_before_year_def)
    then show False using yd(1,3) assms(2) days_of_next_year [of y] by linarith
  qed
  ultimately show ?thesis by blast
qed

lemma clock_parts: "a = h * 60 + m \<Longrightarrow> r = a * 60 + s \<Longrightarrow> h * 3600 + m * 60 + s = (r :: int)"
  by simp

lemma parse_format:
  assumes "four_digit_year t"
  shows "parse_rfc3339 (format_rfc3339 t) = Some (t - t mod second)"
proof -
  define s where "s = t div second"
  obtain y yd where y: "year_day (s div 86400) = (y, yd)" by (rule prod.exhaust)
  obtain mo d where mo: "month_day [1..12] y yd = (mo, d)" by (rule prod.exhaust)
  have s: "0 \<le> s" "s < days_before_year 10000 * 86400"
    using assms unfolding four_digit_year_def s_def second_def days_before_10000 by linarith+
  then have z: "0 \<le> s div 86400" "s div 86400 < days_before_year 10000" by linarith+
  note yb = year_day_bounds [OF y z]
  from date_correct [OF y mo] have dc: "day_number y mo d = s div 86400"
    and mb: "1 \<le> mo" "mo \<le> 12" "1 \<le> d" "d \<le> days_in y mo" by blast+
  have d31: "d \<le> 31" using mb(4) by (auto simp: days_in_def split: if_splits)
  let ?r = "s mod 86400"
  have rb: "0 \<le> ?r" "?r < 86400" by simp_all
  have h: "0 \<le> ?r div 3600" "?r div 3600 < 24" using rb by linarith+
  have parts: "?r div 3600 * 3600 + ?r div 60 mod 60 * 60 + ?r mod 60 = ?r"
  proof -
    have "?r div 60 div 60 = ?r div 3600" by (simp add: zdiv_zmult2_eq [symmetric])
    then have "?r div 60 = ?r div 3600 * 60 + ?r div 60 mod 60" using div_mult_mod_eq [of "?r div 60" 60] by simp
    moreover have "?r = ?r div 60 * 60 + ?r mod 60" by simp
    ultimately show ?thesis by (rule clock_parts)
  qed
  have format: "format_rfc3339 t = pad_digits 4 y @ ''-'' @ pad_digits 2 mo @ ''-'' @ pad_digits 2 d @ ''T'' @
      pad_digits 2 (?r div 3600) @ '':'' @ pad_digits 2 (?r div 60 mod 60) @ '':'' @ pad_digits 2 (?r mod 60) @ ''Z''"
    using y mo by (simp add: format_rfc3339_def Let_def s_def)
  have "parse_rfc3339 (format_rfc3339 t) =
      Some ((s div 86400 * 86400 + ?r div 3600 * 3600 + ?r div 60 mod 60 * 60 + ?r mod 60 - 0) * second + 0)"
    unfolding format using yb mb d31 h
    by (simp add: parse_rfc3339_def p_fraction_def p_zone_def dc)
  also have "\<dots> = Some (s * second)"
    by (simp only: add.assoc [symmetric] parts [unfolded add.assoc [symmetric]] diff_0_right add_0_right)
      (simp only: add.assoc parts [unfolded add.assoc] div_mult_mod_eq)
  finally show ?thesis by (simp add: s_def minus_mod_eq_div_mult)
qed

end
