(* ===== verification/Message_History.thy ===== *)
theory Message_History
  imports Message_Store Instance_Store Webhook_Events Chat_History Rfc3339_Format
begin

text \<open>
  The message history of an instance: the search (\<open>internal/instance/message_history.go\<close> and \<open>SearchMessages\<close>
  of \<open>service.go\<close>), the rows the sending operations leave (\<open>persistOutbound...\<close>, \<open>SendText\<close>, \<open>SendMedia\<close>,
  \<open>SendAudio\<close>), the anchor of a history backfill, and the two listeners of \<open>internal/service/app.go\<close> that
  write incoming messages and receipts. The engine that sends is a parameter; \<open>ctx_err\<close> is the error of a
  cancelled request and a store of \<open>None\<close> a server without the table.
\<close>

section \<open>The search request\<close>

definition defaultMessageSearchLimit :: int where "defaultMessageSearchLimit = 100"
definition maxMessageSearchLimit :: int where "maxMessageSearchLimit = 250"
definition maxMessageSearchQueryLen :: nat where "maxMessageSearchQueryLen = 100"
definition maxMessageSearchJIDLen :: nat where "maxMessageSearchJIDLen = 255"
definition maxMessageSearchIDLen :: nat where "maxMessageSearchIDLen = 255"

record MessageSearchRequest =
  mr_where :: json_object
  mr_limit :: int
  mr_cursor :: string
  mr_remote_jid :: string
  mr_remote_jid_alt :: string
  mr_chat_jid :: string
  mr_jid :: string
  mr_message_id :: string
  mr_message_id_alt :: string
  mr_query :: string

record messageSearchFilter =
  sf_remote_jid :: string
  sf_message_id :: string
  sf_query :: string
  sf_limit :: int
  sf_before :: "time option"

text \<open>The values come out of a JSON document, where only strings are strings.\<close>

definition stringValue :: "json option \<Rightarrow> string" where
  "stringValue v = (case v of Some (JStr s) \<Rightarrow> s | _ \<Rightarrow> [])"

fun nested :: "json option \<Rightarrow> string list \<Rightarrow> json option" where
  "nested current [] = current"
| "nested current (k # ks) =
     (case current of
        Some (JObj mapped) \<Rightarrow> (case map_of mapped k of None \<Rightarrow> None | Some v \<Rightarrow> nested (Some v) ks)
      | _ \<Rightarrow> None)"

definition nestedString :: "json_object \<Rightarrow> string list \<Rightarrow> string" where
  "nestedString values keys = (if keys = [] then [] else stringValue (nested (Some (JObj values)) keys))"

fun firstString :: "string list \<Rightarrow> string" where
  "firstString [] = []"
| "firstString (v # vs) = (if trim_space v \<noteq> [] then trim_space v else firstString vs)"

definition normalizeMessageSearchLimit :: "int \<Rightarrow> int" where
  "normalizeMessageSearchLimit value =
     (if value \<le> 0 then 0 else if maxMessageSearchLimit < value then maxMessageSearchLimit else value)"

text \<open>Seconds and milliseconds of Unix time.\<close>

definition from_unix :: "int \<Rightarrow> time" where "from_unix n = (n + 62135596800) * second"
definition from_unix_milli :: "int \<Rightarrow> time" where "from_unix_milli n = n * 1000000 + 62135596800 * second"

definition parseHistoryCursor :: "string \<Rightarrow> go_error + time option" where
  "parseHistoryCursor raw =
     (if raw = [] then Inr None
      else case parse_rfc3339 raw of
        Some t \<Rightarrow> Inr (Some t)
      | None \<Rightarrow>
          (case atoi raw of
             Some n \<Rightarrow> Inr (Some (if 1000000000000 < n then from_unix_milli n else from_unix n))
           | None \<Rightarrow> Inl (plain_error ''unsupported cursor format'')))"

text \<open>The fields of the filter, each the first of several places of the request that is not blank.\<close>

definition where_value :: "MessageSearchRequest \<Rightarrow> string \<Rightarrow> string" where
  "where_value r k = stringValue (map_of (mr_where r) k)"

definition request_jid :: "MessageSearchRequest \<Rightarrow> string" where
  "request_jid r = trim_space (firstString
     (map (\<lambda>k. nestedString (mr_where r) [''key'', k]) [''remoteJid'', ''remote_jid'', ''chat_jid'', ''jid''] @
      map (where_value r) [''remoteJid'', ''remote_jid'', ''chat_jid'', ''chatId'', ''jid''] @
      [mr_remote_jid r, mr_remote_jid_alt r, mr_chat_jid r, mr_jid r]))"

definition request_message_id :: "MessageSearchRequest \<Rightarrow> string" where
  "request_message_id r = trim_space (firstString
     (map (\<lambda>k. nestedString (mr_where r) [''key'', k]) [''id'', ''message_id'', ''messageId''] @
      map (where_value r) [''id'', ''messageId'', ''message_id''] @
      [mr_message_id r, mr_message_id_alt r]))"

definition request_query :: "MessageSearchRequest \<Rightarrow> string" where
  "request_query r = trim_space (firstString (map (where_value r) [''query'', ''search'', ''text''] @ [mr_query r]))"

definition request_cursor :: "MessageSearchRequest \<Rightarrow> string" where
  "request_cursor r = trim_space (firstString ([mr_cursor r] @ map (where_value r) [''before'', ''cursor'']))"

definition request_limit :: "MessageSearchRequest \<Rightarrow> int" where
  "request_limit r =
     (let limit = normalizeMessageSearchLimit (mr_limit r) in if limit = 0 then defaultMessageSearchLimit else limit)"

definition normalizeMessageSearchRequest :: "MessageSearchRequest \<Rightarrow> go_error + messageSearchFilter" where
  "normalizeMessageSearchRequest r =
     (if maxMessageSearchJIDLen < length (request_jid r) then
        Inl (wrap ErrValidation ''remoteJid cannot exceed 255 characters'')
      else if maxMessageSearchIDLen < length (request_message_id r) then
        Inl (wrap ErrValidation ''message id cannot exceed 255 characters'')
      else if maxMessageSearchQueryLen < length (request_query r) then
        Inl (wrap ErrValidation ''message search query cannot exceed 100 characters'')
      else case (if request_cursor r = [] then Inr None else parseHistoryCursor (request_cursor r)) of
        Inl _ \<Rightarrow> Inl (wrap ErrValidation ''invalid message cursor'')
      | Inr before \<Rightarrow>
          if request_jid r = [] then Inl (wrap ErrValidation ''where.key.remoteJid is required'')
          else Inr \<lparr>sf_remote_jid = request_jid r, sf_message_id = request_message_id r, sf_query = request_query r,
                    sf_limit = request_limit r, sf_before = before\<rparr>)"

section \<open>The records of the answer\<close>

definition normalizeStoredMessageType :: "string \<Rightarrow> string" where
  "normalizeStoredMessageType messageType =
     (let t = to_lower (trim_space messageType) in
      if t \<in> {''conversation'', ''extendedtextmessage'', ''extendedtext'', ''text''} then ''conversation''
      else if t \<in> {''imagemessage'', ''image''} then ''imageMessage''
      else if t \<in> {''videomessage'', ''video''} then ''videoMessage''
      else if t \<in> {''audiomessage'', ''audio''} then ''audioMessage''
      else if t \<in> {''documentmessage'', ''document''} then ''documentMessage''
      else trim_space messageType)"

definition buildFrontendMessagePayload :: "ConversationMessage \<Rightarrow> json_object" where
  "buildFrontendMessagePayload item =
     (if cm_message_payload item \<noteq> [] then cm_message_payload item
      else
        let t = normalizeStoredMessageType (cm_message_type item);
            media = [(''mediaUrl'', JStr (cm_media_url item)), (''mimetype'', JStr (cm_mime_type item))];
            caption = (''caption'', JStr (cm_caption item));
            mime = (''mimetype'', JStr (cm_mime_type item))
        in if t = ''conversation'' then [(''conversation'', JStr (cm_body item))]
           else if t = ''imageMessage'' then (''imageMessage'', JObj [caption, mime]) # media
           else if t = ''videoMessage'' then (''videoMessage'', JObj [caption, mime]) # media
           else if t = ''audioMessage'' then (''audioMessage'', JObj [mime, (''ptt'', JBool True)]) # media
           else if t = ''documentMessage'' then
             (''documentMessage'', JObj [caption, mime, (''fileName'', JStr (cm_file_name item))]) # media
           else [(''text'', JStr (cm_body item))])"

fun text_of_nested :: "json_object \<Rightarrow> string list \<Rightarrow> string \<Rightarrow> string" where
  "text_of_nested payload [] d = d"
| "text_of_nested payload (k # ks) d =
     (case map_of payload k of
        Some (JObj n) \<Rightarrow>
          (let t = firstString [stringValue (map_of n ''text''), stringValue (map_of n ''caption'')]
           in if t \<noteq> [] then t else text_of_nested payload ks d)
      | _ \<Rightarrow> text_of_nested payload ks d)"

definition extractStoredMessageText :: "ConversationMessage \<Rightarrow> json_object \<Rightarrow> string" where
  "extractStoredMessageText item payload =
     (if trim_space (cm_body item) \<noteq> [] then trim_space (cm_body item)
      else if stringValue (map_of payload ''conversation'') \<noteq> [] then stringValue (map_of payload ''conversation'')
      else if stringValue (map_of payload ''text'') \<noteq> [] then stringValue (map_of payload ''text'')
      else text_of_nested payload [''extendedTextMessage'', ''imageMessage'', ''videoMessage'', ''documentMessage'']
             (trim_space (cm_caption item)))"

record legacyMessageRecord =
  lr_id :: string
  lr_message_id :: string
  lr_remote_jid :: string
  lr_remote_jid_alt :: string
  lr_chat_jid :: string
  lr_direction :: string
  lr_from_me :: bool
  lr_key :: "string \<times> bool \<times> string"
  lr_push_name :: string
  lr_message_type :: string
  lr_message :: json_object
  lr_text :: string
  lr_body :: string
  lr_caption :: string
  lr_media_url :: string
  lr_mime_type :: string
  lr_file_name :: string
  lr_status :: string
  lr_message_timestamp :: string
  lr_timestamp :: string
  lr_instance_id :: string
  lr_source :: string

definition toLegacyMessageRecord :: "ConversationMessage \<Rightarrow> legacyMessageRecord" where
  "toLegacyMessageRecord item =
     (let id = firstString [cm_external_message_id item, cm_id item];
          fromMe = (to_lower (cm_direction item) = ''outbound'');
          payload = buildFrontendMessagePayload item;
          timestamp = format_rfc3339 (cm_message_timestamp item)
      in \<lparr>lr_id = id, lr_message_id = id, lr_remote_jid = cm_remote_jid item, lr_remote_jid_alt = cm_remote_jid item,
          lr_chat_jid = cm_remote_jid item, lr_direction = cm_direction item, lr_from_me = fromMe,
          lr_key = (id, fromMe, cm_remote_jid item),
          lr_push_name = firstString [cm_push_name item, trimRemoteJID (cm_remote_jid item)],
          lr_message_type = normalizeStoredMessageType (cm_message_type item), lr_message = payload,
          lr_text = extractStoredMessageText item payload, lr_body = cm_body item, lr_caption = cm_caption item,
          lr_media_url = cm_media_url item, lr_mime_type = cm_mime_type item, lr_file_name = cm_file_name item,
          lr_status = cm_status item, lr_message_timestamp = timestamp, lr_timestamp = timestamp,
          lr_instance_id = cm_instance_id item, lr_source = firstString [cm_source item, cm_remote_jid item]\<rparr>)"

definition toLegacyMessageRecords :: "ConversationMessage list \<Rightarrow> legacyMessageRecord list" where
  "toLegacyMessageRecords items = map toLegacyMessageRecord items"

definition list_filter :: "messageSearchFilter \<Rightarrow> ConversationMessageFilter" where
  "list_filter f =
     \<lparr>mf_remote_jid = sf_remote_jid f, mf_external_message_id = sf_message_id f, mf_query = sf_query f,
      mf_limit = sf_limit f, mf_before = sf_before f\<rparr>"

definition SearchMessages ::
  "auth_db \<Rightarrow> string \<Rightarrow> string \<Rightarrow> MessageSearchRequest \<Rightarrow> go_error option \<Rightarrow> message_db option \<Rightarrow>
   go_error + legacyMessageRecord list" where
  "SearchMessages db tenantID reference input ctx_err history =
     (case resolve db tenantID reference of
        Inl e \<Rightarrow> Inl e
      | Inr i \<Rightarrow>
          (case normalizeMessageSearchRequest input of
             Inl e \<Rightarrow> Inl e
           | Inr f \<Rightarrow>
               (case ctx_err of
                  Some e \<Rightarrow> Inl e
                | None \<Rightarrow>
                    (case history of
                       None \<Rightarrow> Inl (wrap ErrConflict ''message history repository unavailable'')
                     | Some h \<Rightarrow>
                         (case message_List tenantID (in_id i) (list_filter f) h of
                            Inl e \<Rightarrow> Inl e
                          | Inr ms \<Rightarrow> Inr (toLegacyMessageRecords ms))))))"

definition FetchGroups :: "string \<Rightarrow> message_db \<Rightarrow> go_error + GroupSummary list" where
  "FetchGroups instanceID h = message_ListGroups instanceID h"

section \<open>Groups\<close>

record groupRecord =
  gr_remote_jid :: string
  gr_push_name :: string
  gr_instance_id :: string
  gr_message_count :: int
  gr_last_message :: string

definition trim_suffix :: "string \<Rightarrow> string \<Rightarrow> string" where
  "trim_suffix s p = (if has_suffix s p then take (length s - length p) s else s)"

definition group_record :: "string \<Rightarrow> GroupSummary \<Rightarrow> groupRecord" where
  "group_record instanceID g =
     \<lparr>gr_remote_jid = gs_remote_jid g,
      gr_push_name = (if gs_push_name g = [] \<or> gs_push_name g = gs_remote_jid g
                      then trim_suffix (gs_remote_jid g) ''@g.us'' else gs_push_name g),
      gr_instance_id = instanceID, gr_message_count = gs_message_count g,
      gr_last_message = format_rfc3339 (gs_last_message g)\<rparr>"

definition LegacyFetchAllGroups :: "auth_db \<Rightarrow> string \<Rightarrow> string \<Rightarrow> message_db \<Rightarrow> go_error + groupRecord list" where
  "LegacyFetchAllGroups db tenantID reference h =
     (case resolve db tenantID reference of
        Inl e \<Rightarrow> Inl e
      | Inr i \<Rightarrow>
          (case FetchGroups (in_id i) h of
             Inl e \<Rightarrow> Inl e
           | Inr summaries \<Rightarrow> Inr (map (group_record (in_id i)) summaries)))"

record findGroupRecord =
  fg_id :: string
  fg_subject :: string
  fg_remote_jid :: string
  fg_instance_id :: string
  fg_message_count :: int
  fg_last_message :: string

definition find_group_record :: "string \<Rightarrow> GroupSummary \<Rightarrow> findGroupRecord" where
  "find_group_record instanceID g =
     \<lparr>fg_id = gs_remote_jid g,
      fg_subject = (if gs_push_name g = [] \<or> gs_push_name g = gs_remote_jid g
                    then trim_suffix (gs_remote_jid g) ''@g.us'' else gs_push_name g),
      fg_remote_jid = gs_remote_jid g, fg_instance_id = instanceID, fg_message_count = gs_message_count g,
      fg_last_message = format_rfc3339 (gs_last_message g)\<rparr>"

definition LegacyFindGroup :: "auth_db \<Rightarrow> string \<Rightarrow> string \<Rightarrow> message_db \<Rightarrow> go_error + findGroupRecord list" where
  "LegacyFindGroup db tenantID reference h =
     (case resolve db tenantID reference of
        Inl e \<Rightarrow> Inl e
      | Inr i \<Rightarrow>
          (case FetchGroups (in_id i) h of
             Inl e \<Rightarrow> Inl e
           | Inr summaries \<Rightarrow> Inr (map (find_group_record (in_id i)) summaries)))"

section \<open>The anchor of a backfill\<close>

record HistoryBackfillRequest =
  hb_chat_jid :: string
  hb_message_id :: string
  hb_timestamp :: time
  hb_is_from_me :: bool
  hb_is_group :: bool
  hb_count :: int

text \<open>The input has the fields of the request; the answer names where the anchor comes from.\<close>

definition resolveHistoryBackfillRequest ::
  "Instance \<Rightarrow> HistoryBackfillRequest \<Rightarrow> message_db option \<Rightarrow> go_error + HistoryBackfillRequest \<times> string" where
  "resolveHistoryBackfillRequest i input history =
     (let count = (if hb_count input \<le> 0 then 50 else hb_count input);
          count = (if 200 < count then 200 else count);
          r = input\<lparr>hb_chat_jid := trim_space (hb_chat_jid input), hb_message_id := trim_space (hb_message_id input),
                    hb_count := count\<rparr>
      in if hb_chat_jid r \<noteq> [] \<and> hb_message_id r \<noteq> [] \<and> hb_timestamp r \<noteq> 0 then
           Inr (r\<lparr>hb_is_group := hb_is_group r \<or> has_suffix (hb_chat_jid r) ''@g.us''\<rparr>, ''explicit'')
         else if hb_chat_jid r = [] then Inl (wrap ErrValidation ''chat_jid is required for history backfill'')
         else if hb_message_id r \<noteq> [] \<or> hb_timestamp r \<noteq> 0 then
           Inl (wrap ErrValidation ''message_id and timestamp must be provided together'')
         else case history of
           None \<Rightarrow> Inl (wrap ErrConflict ''no stored history is available to derive a backfill anchor'')
         | Some h \<Rightarrow>
             (case message_List (in_tenant_id i) (in_id i)
                     \<lparr>mf_remote_jid = hb_chat_jid r, mf_external_message_id = [], mf_query = [], mf_limit = 1,
                      mf_before = None\<rparr> h of
                Inl e \<Rightarrow> Inl e
              | Inr items \<Rightarrow>
                  if items = [] then Inl (wrap ErrConflict ''no stored message anchor found for chat_jid'')
                  else (let anchor = last items in
                    if trim_space (cm_external_message_id anchor) = [] \<or> cm_message_timestamp anchor = 0 then
                      Inl (wrap ErrConflict ''stored history anchor is incomplete'')
                    else Inr (r\<lparr>hb_message_id := trim_space (cm_external_message_id anchor),
                                hb_timestamp := cm_message_timestamp anchor,
                                hb_is_from_me := (to_lower (cm_direction anchor) = ''outbound''),
                                hb_is_group := has_suffix (hb_chat_jid r) ''@g.us''\<rparr>, ''stored_history''))))"

end
