(* ===== verification/Message_Search.thy ===== *)
theory Message_Search
  imports Message_History
begin

text \<open>
  What a search of the message history answers: the patterns of a query, the rows of an answer and their order,
  the pages a client gets that takes the time of the oldest record as its next cursor.
\<close>

section \<open>Queries\<close>

text \<open>A text without the characters \<open>LIKE\<close> treats specially.\<close>

definition plain_text :: "string \<Rightarrow> bool" where
  "plain_text q \<longleftrightarrow> set q \<inter> {CHR ''%'', CHR ''_'', CHR 0x5C} = {}"

lemma like_percent: "like (CHR ''%'' # ps) t \<longleftrightarrow> (\<exists>a b. t = a @ b \<and> like ps b)"
proof (induction t)
  case (Cons c t)
  have "(\<exists>a b. c # t = a @ b \<and> like ps b) \<longleftrightarrow> like ps (c # t) \<or> (\<exists>a b. t = a @ b \<and> like ps b)"
    by (auto simp: Cons_eq_append_conv)
  with Cons show ?case by simp
qed simp

lemma like_plain: "plain_text q \<Longrightarrow> like (q @ ps) t \<longleftrightarrow> (\<exists>b. t = q @ b \<and> like ps b)"
proof (induction q arbitrary: t)
  case (Cons p q)
  then have p: "p \<noteq> CHR ''%''" "p \<noteq> CHR ''_''" "p \<noteq> CHR 0x5C" and q: "plain_text q"
    by (auto simp: plain_text_def)
  from Cons.IH [OF q] p show ?case by (cases t) auto
qed simp

lemma like_all [simp]: "like ''%'' t"
  by (subst like_percent) (auto intro: exI [of _ t])

lemma plain_text_lower:
  assumes "plain_text q"
  shows "plain_text (to_lower q)"
proof -
  have "c = d" if "lower_char c = d" "d \<in> {CHR ''%'', CHR ''_'', CHR 0x5C}" for c d
    by (rule lower_char_fixed [OF _ that(1)]) (use that(2) in \<open>auto simp: less_eq_char_def\<close>)
  with assms show ?thesis unfolding plain_text_def to_lower_def by fastforce
qed

lemma ilike_plain:
  assumes "plain_text q"
  shows "ilike t (''%'' @ q @ ''%'') \<longleftrightarrow> contains (to_lower t) (to_lower q)"
proof -
  have "to_lower (''%'' @ q @ ''%'') = CHR ''%'' # to_lower q @ ''%''"
    by (simp add: to_lower_def lower_char_def)
  then have "ilike t (''%'' @ q @ ''%'') \<longleftrightarrow> (\<exists>a b. to_lower t = a @ b \<and> like (to_lower q @ ''%'') b)"
    by (simp add: ilike_def like_percent del: like.simps)
  also have "\<dots> \<longleftrightarrow> contains (to_lower t) (to_lower q)"
    using like_plain [OF plain_text_lower [OF assms], of "''%''"] by (auto simp: contains_iff simp del: like.simps)
  finally show ?thesis .
qed

section \<open>Lists of messages\<close>

lemma set_newest_first [simp]: "set (newest_first ms) = set ms"
  by (simp add: newest_first_def)

lemma length_newest_first [simp]: "length (newest_first ms) = length ms"
  by (simp add: newest_first_def)

lemma distinct_newest_first [simp]: "distinct (newest_first ms) = distinct ms"
  by (simp add: newest_first_def)

lemma sorted_newest_first: "sorted (map (\<lambda>m. - cm_message_timestamp m) (newest_first ms))"
  by (simp add: newest_first_def)

lemma sorted_map_uminus: "sorted (map (\<lambda>x. - f x) xs) \<Longrightarrow> sorted (map f (rev xs))" for f :: "'a \<Rightarrow> int"
  by (induction xs) (auto simp: sorted_append)

text \<open>What the list of an answer holds.\<close>

lemma message_List_cases:
  assumes "message_List tenantID instanceID f h = Inr ms"
  shows "md_outage h = None"
    and "set ms \<subseteq> {m \<in> set (md_messages h). message_matches tenantID instanceID f m}"
    and "sorted (map cm_message_timestamp ms)"
    and "0 < mf_limit f \<Longrightarrow> int (length ms) \<le> mf_limit f"
    and "int (length ms) < mf_limit f \<Longrightarrow> {m \<in> set (md_messages h). message_matches tenantID instanceID f m} \<subseteq> set ms"
    and "m \<in> set ms \<Longrightarrow> x \<in> set (md_messages h) \<Longrightarrow> message_matches tenantID instanceID f x \<Longrightarrow> x \<notin> set ms \<Longrightarrow>
      cm_message_timestamp x \<le> cm_message_timestamp m"
proof -
  let ?found = "newest_first (filter (message_matches tenantID instanceID f) (md_messages h))"
  show out: "md_outage h = None" using assms by (simp add: message_List_def split: option.splits)
  obtain n where ms: "ms = rev (take n ?found)" and n: "0 < mf_limit f \<Longrightarrow> n = nat (mf_limit f)"
  proof (cases "0 < mf_limit f")
    case True
    with assms out that [of "nat (mf_limit f)"] show ?thesis by (simp add: message_List_def Let_def)
  next
    case False
    with assms out that [of "length ?found"] show ?thesis by (simp add: message_List_def Let_def)
  qed
  show "set ms \<subseteq> {m \<in> set (md_messages h). message_matches tenantID instanceID f m}"
    using set_take_subset [of n ?found] unfolding ms by auto
  have "sorted (map (\<lambda>m. - cm_message_timestamp m) (take n ?found))"
    using sorted_newest_first by (metis sorted_wrt_take take_map)
  from sorted_map_uminus [OF this] show "sorted (map cm_message_timestamp ms)" unfolding ms by simp
  show "0 < mf_limit f \<Longrightarrow> int (length ms) \<le> mf_limit f" using n unfolding ms by simp
  show "{m \<in> set (md_messages h). message_matches tenantID instanceID f m} \<subseteq> set ms" if "int (length ms) < mf_limit f"
  proof -
    from that n have "length ?found < n" unfolding ms by (simp add: min_def split: if_splits)
    then show ?thesis unfolding ms by simp
  qed
  show "cm_message_timestamp x \<le> cm_message_timestamp m"
    if m: "m \<in> set ms" and x: "x \<in> set (md_messages h)" "message_matches tenantID instanceID f x" "x \<notin> set ms"
  proof -
    have "x \<in> set (take n ?found @ drop n ?found)" using x by simp
    then have "x \<in> set (drop n ?found)" using x(3) unfolding ms by (simp del: append_take_drop_id)
    moreover have "m \<in> set (take n ?found)" using m unfolding ms by simp
    moreover have "sorted (map (\<lambda>m. - cm_message_timestamp m) (take n ?found @ drop n ?found))"
      using sorted_newest_first by simp
    ultimately have "- cm_message_timestamp m \<le> - cm_message_timestamp x"
      by (simp add: sorted_append del: append_take_drop_id)
    then show ?thesis by simp
  qed
qed

section \<open>Requests\<close>

lemma trim_space_firstString [simp]: "trim_space (firstString vs) = firstString vs"
  by (induction vs) auto

lemma request_fields_trimmed [simp]:
  "trim_space (request_jid r) = request_jid r" "trim_space (request_message_id r) = request_message_id r"
  "trim_space (request_query r) = request_query r"
  by (simp_all add: request_jid_def request_message_id_def request_query_def del: firstString.simps)

lemma request_limit_bounds: "1 \<le> request_limit r \<and> request_limit r \<le> 250"
  by (simp add: request_limit_def normalizeMessageSearchLimit_def defaultMessageSearchLimit_def
      maxMessageSearchLimit_def Let_def)

lemma normalize_request_Inr:
  assumes "normalizeMessageSearchRequest r = Inr f"
  obtains before where
    "f = \<lparr>sf_remote_jid = request_jid r, sf_message_id = request_message_id r, sf_query = request_query r,
          sf_limit = request_limit r, sf_before = before\<rparr>"
    "request_jid r \<noteq> []" "length (request_jid r) \<le> 255" "length (request_message_id r) \<le> 255"
    "length (request_query r) \<le> 100"
    "(if request_cursor r = [] then Inr None else parseHistoryCursor (request_cursor r)) = Inr before"
  using assms unfolding normalizeMessageSearchRequest_def maxMessageSearchQueryLen_def maxMessageSearchJIDLen_def
    maxMessageSearchIDLen_def
  by (auto simp: not_less split: if_split_asm sum.splits)

text \<open>A request is refused for a reason the client can mend.\<close>

lemma normalize_request_Inl: "normalizeMessageSearchRequest r = Inl e \<Longrightarrow> err_is e = Some ErrValidation"
  unfolding normalizeMessageSearchRequest_def by (auto split: if_split_asm sum.splits)

lemma SearchMessages_Inr:
  assumes "SearchMessages db tenantID reference r c history = Inr rs"
  obtains i f h ms where "resolve db tenantID reference = Inr i" "normalizeMessageSearchRequest r = Inr f"
    "c = None" "history = Some h" "message_List tenantID (in_id i) (list_filter f) h = Inr ms"
    "rs = toLegacyMessageRecords ms"
  using assms by (auto simp: SearchMessages_def split: sum.splits option.splits)

text \<open>The rows a request asks for, without regard to the cursor.\<close>

definition wanted :: "string \<Rightarrow> string \<Rightarrow> MessageSearchRequest \<Rightarrow> ConversationMessage \<Rightarrow> bool" where
  "wanted tenantID instanceID r m \<longleftrightarrow>
     cm_tenant_id m = tenantID \<and> cm_instance_id m = instanceID \<and> cm_remote_jid m = request_jid r \<and>
     (request_message_id r \<noteq> [] \<longrightarrow> cm_external_message_id m = request_message_id r) \<and>
     (request_query r \<noteq> [] \<longrightarrow> ilike (cm_body m) (''%'' @ request_query r @ ''%''))"

definition before_cursor :: "MessageSearchRequest \<Rightarrow> ConversationMessage \<Rightarrow> bool" where
  "before_cursor r m \<longleftrightarrow>
     (case parseHistoryCursor (request_cursor r) of
        Inr (Some b) \<Rightarrow> b = 0 \<or> cm_message_timestamp m < b
      | _ \<Rightarrow> True)"

lemma matches_wanted:
  assumes "normalizeMessageSearchRequest r = Inr f"
  shows "message_matches tenantID instanceID (list_filter f) m \<longleftrightarrow> wanted tenantID instanceID r m \<and> before_cursor r m"
proof -
  from assms obtain b where
    f: "f = \<lparr>sf_remote_jid = request_jid r, sf_message_id = request_message_id r, sf_query = request_query r,
             sf_limit = request_limit r, sf_before = b\<rparr>" and j: "request_jid r \<noteq> []"
    and b: "(if request_cursor r = [] then Inr None else parseHistoryCursor (request_cursor r)) = Inr b"
    by (rule normalize_request_Inr) blast
  have "before_cursor r m \<longleftrightarrow> (case b of None \<Rightarrow> True | Some t \<Rightarrow> t = 0 \<or> cm_message_timestamp m < t)"
    using b by (auto simp: before_cursor_def parseHistoryCursor_def split: if_split_asm option.splits)
  then show ?thesis using j
    by (simp add: message_matches_def list_filter_def f wanted_def conj_ac)
qed

lemma limit_of_filter: "normalizeMessageSearchRequest r = Inr f \<Longrightarrow> mf_limit (list_filter f) = request_limit r"
  by (elim normalize_request_Inr) (simp add: list_filter_def)

section \<open>Answers\<close>

text \<open>
  C24: A successful search of the message history answers with rows of the tenant, of the instance the reference
  names and of the chat the request asks for, that fit its message id, query and cursor, the oldest first and at
  most 250 of them; it leaves a row that fits out only when the answer is full, and then none that is newer than
  a row of the answer.
\<close>

theorem search_answers:
  assumes "SearchMessages db tenantID reference r ctx_err history = Inr rs"
  shows "\<exists>i h ms. resolve db tenantID reference = Inr i \<and> in_tenant_id i = tenantID \<and> history = Some h \<and>
    rs = map toLegacyMessageRecord ms \<and> int (length rs) \<le> request_limit r \<and> request_limit r \<le> 250 \<and>
    sorted (map cm_message_timestamp ms) \<and>
    set ms \<subseteq> {m \<in> set (md_messages h). wanted tenantID (in_id i) r m \<and> before_cursor r m} \<and>
    (\<forall>x \<in> set (md_messages h). wanted tenantID (in_id i) r x \<and> before_cursor r x \<and> x \<notin> set ms \<longrightarrow>
       int (length rs) = request_limit r \<and> (\<forall>m \<in> set ms. cm_message_timestamp x \<le> cm_message_timestamp m))"
proof -
  from assms obtain i f h ms where *: "resolve db tenantID reference = Inr i" "normalizeMessageSearchRequest r = Inr f"
    "history = Some h" "message_List tenantID (in_id i) (list_filter f) h = Inr ms" "rs = toLegacyMessageRecords ms"
    by (rule SearchMessages_Inr)
  note L = message_List_cases [OF *(4)] and lim = limit_of_filter [OF *(2)] and mw = matches_wanted [OF *(2)]
  have pos: "0 < request_limit r" "request_limit r \<le> 250" using request_limit_bounds [of r] by simp_all
  have rs: "rs = map toLegacyMessageRecord ms" "length rs = length ms" using *(5) by (simp_all add: toLegacyMessageRecords_def)
  have "int (length rs) \<le> request_limit r" using L(4) pos lim rs(2) by simp
  moreover have "set ms \<subseteq> {m \<in> set (md_messages h). wanted tenantID (in_id i) r m \<and> before_cursor r m}"
    using L(2) by (simp add: mw)
  moreover have "int (length rs) = request_limit r \<and> (\<forall>m \<in> set ms. cm_message_timestamp x \<le> cm_message_timestamp m)"
    if "x \<in> set (md_messages h)" "wanted tenantID (in_id i) r x \<and> before_cursor r x \<and> x \<notin> set ms" for x
  proof -
    have x: "message_matches tenantID (in_id i) (list_filter f) x" "x \<notin> set ms" using that mw by auto
    with L(5) that(1) have "\<not> int (length ms) < mf_limit (list_filter f)" by blast
    with calculation(1) rs(2) lim have "int (length rs) = request_limit r" by simp
    with L(6) [OF _ that(1) x] show ?thesis by blast
  qed
  ultimately show ?thesis using * (1,3) rs(1) pos(2) L(3) resolve_sound [OF *(1)] by blast
qed

text \<open>The reference for a query: rows whose body contains it, letter case aside.\<close>

definition substring_matches :: "string \<Rightarrow> string \<Rightarrow> ConversationMessageFilter \<Rightarrow> ConversationMessage \<Rightarrow> bool" where
  "substring_matches tenantID instanceID f m \<longleftrightarrow>
     message_matches tenantID instanceID (f\<lparr>mf_query := []\<rparr>) m \<and>
     contains (to_lower (cm_body m)) (to_lower (trim_space (mf_query f)))"

definition substring_List ::
  "string \<Rightarrow> string \<Rightarrow> ConversationMessageFilter \<Rightarrow> message_db \<Rightarrow> go_error + ConversationMessage list" where
  "substring_List tenantID instanceID f db =
     (case md_outage db of
        Some e \<Rightarrow> Inl e
      | None \<Rightarrow>
          (let found = newest_first (filter (substring_matches tenantID instanceID f) (md_messages db))
           in Inr (rev (if 0 < mf_limit f then take (nat (mf_limit f)) found else found))))"

lemma contains_Nil [simp]: "contains s []"
  by (cases s) simp_all

text \<open>
  C25: For a query without percent signs, underscores and backslashes, listing the messages is the same as the
  search for the query as a substring of the body, letter case aside.
\<close>

theorem query_is_substring:
  assumes "plain_text (trim_space (mf_query f))"
  shows "message_List tenantID instanceID f h = substring_List tenantID instanceID f h"
proof -
  have "message_matches tenantID instanceID f m \<longleftrightarrow> substring_matches tenantID instanceID f m" for m
    using ilike_plain [OF assms, of "cm_body m"]
    by (cases "trim_space (mf_query f) = []") (auto simp: message_matches_def substring_matches_def)
  then have "message_matches tenantID instanceID f = substring_matches tenantID instanceID f" by blast
  then show ?thesis by (simp only: message_List_def substring_List_def)
qed

text \<open>The other queries are patterns: an underscore in the query finds bodies that do not contain it.\<close>

lemma wildcard_query: "ilike ''order 1x7'' (''%'' @ ''1_7'' @ ''%'') \<and> \<not> contains (to_lower ''order 1x7'') (to_lower ''1_7'')"
  by code_simp

end
