(* ===== verification/Message_Paging.thy ===== *)
theory Message_Paging
  imports Message_Search
begin

text \<open>
  Reading the history page by page. A client takes the timestamp of the oldest record of a page as the cursor of
  the next search, until a page is empty. Where the timestamps are whole seconds and no two are the same it gets
  every message once; otherwise it can miss some.
\<close>

section \<open>Cursors\<close>

lemma white_space_bytes: "w \<in> set white_space \<Longrightarrow> \<not> is_digit (hd w) \<and> last w \<noteq> CHR ''Z''"
  by (auto simp: white_space_def is_digit_def)

lemma trimmed_format: "trimmed (format_rfc3339 t)"
proof -
  obtain y yd where y: "year_day (t div second div 86400) = (y, yd)" by (rule prod.exhaust)
  obtain mo d where mo: "month_day [1..12] y yd = (mo, d)" by (rule prod.exhaust)
  have z: "\<exists>u. format_rfc3339 t = u @ ''Z''" using y mo by (auto simp: format_rfc3339_def Let_def)
  have digits: "\<exists>c u. format_rfc3339 t = c # u \<and> is_digit c"
  proof -
    have four: "pad_digits 4 y = char_of (nat (y div 10 div 10 div 10 mod 10) + 48) # drop 1 (pad_digits 4 y)"
      by (simp add: numeral_eq_Suc)
    have "is_digit (char_of (nat (y div 10 div 10 div 10 mod 10) + 48))"
      by (rule is_digit_char_of) (simp add: nat_less_iff)
    moreover have "\<exists>v. format_rfc3339 t = pad_digits 4 y @ v" using y mo by (auto simp: format_rfc3339_def Let_def)
    ultimately show ?thesis using four by (metis append_Cons)
  qed
  show ?thesis
  proof (unfold trimmed_def, intro ballI conjI)
    fix w
    assume w: "w \<in> set white_space"
    note b = white_space_bytes [OF w] and ne = white_space_nonempty [OF w]
    show "\<not> has_prefix (format_rfc3339 t) w" using digits b ne
      by (cases w) (auto simp: has_prefix_iff)
    show "\<not> has_suffix (format_rfc3339 t) w"
    proof
      assume "has_suffix (format_rfc3339 t) w"
      then obtain v u where "format_rfc3339 t = v @ w" "format_rfc3339 t = u @ ''Z''" using z by (auto simp: has_suffix_iff)
      then have "last w = CHR ''Z''" using ne by (metis last_appendR last_snoc)
      with b show False by blast
    qed
  qed
qed

lemma format_nonempty [simp]: "format_rfc3339 t \<noteq> []"
  by (simp add: format_rfc3339_def Let_def split: prod.split)

text \<open>
  C26: The timestamp a record of the history shows is a cursor: read back, it is the time of the message cut to
  the second, for the times of the years 1 to 9999.
\<close>

theorem cursor_round_trip:
  assumes "four_digit_year (cm_message_timestamp m)"
  shows "parseHistoryCursor (lr_timestamp (toLegacyMessageRecord m)) =
    Inr (Some (cm_message_timestamp m - cm_message_timestamp m mod second))"
  by (simp add: parseHistoryCursor_def toLegacyMessageRecord_def Let_def parse_format [OF assms])

definition paging_message :: ConversationMessage where
  "paging_message =
     \<lparr>cm_id = ''u1'', cm_tenant_id = ''t'', cm_instance_id = ''i'', cm_remote_jid = ''7@s'', cm_external_message_id = ''m1'',
      cm_direction = ''inbound'', cm_message_type = ''conversation'', cm_push_name = [], cm_source = [],
      cm_body = ''Hello'', cm_status = ''received'', cm_message_timestamp = 63900000000 * second + 7, cm_media_url = [],
      cm_mime_type = [], cm_file_name = [], cm_caption = [], cm_message_payload = [], cm_delivered_at = None,
      cm_read_at = None, cm_created_at = 5, cm_updated_at = 5\<rparr>"

lemma cursor_round_trip_witness:
  "parseHistoryCursor (lr_timestamp (toLegacyMessageRecord paging_message)) = Inr (Some (63900000000 * second))"
proof -
  have "four_digit_year (cm_message_timestamp paging_message)"
    by (simp add: four_digit_year_def paging_message_def days_before_10000 second_def)
  from cursor_round_trip [OF this] show ?thesis by (simp add: paging_message_def second_def)
qed

section \<open>Pages\<close>

fun history_walk ::
  "nat \<Rightarrow> (string \<Rightarrow> go_error + legacyMessageRecord list) \<Rightarrow> string \<Rightarrow> legacyMessageRecord list option" where
  "history_walk 0 search cursor = None"
| "history_walk (Suc n) search cursor =
     (case search cursor of
        Inl _ \<Rightarrow> None
      | Inr [] \<Rightarrow> Some []
      | Inr (r # rs) \<Rightarrow> map_option (\<lambda>older. older @ r # rs) (history_walk n search (lr_timestamp r)))"

text \<open>Walking back over a list that is strictly descending in time.\<close>

lemma filter_below_page:
  fixes key :: "'a \<Rightarrow> int"
  assumes "sorted_wrt (\<lambda>x y. key y < key x) xs" and "0 < n" and "xs \<noteq> []"
  shows "filter (\<lambda>x. key x < key (last (take n xs))) xs = drop n xs"
proof -
  let ?t = "take n xs"
  have ne: "?t \<noteq> []" using assms(2,3) by simp
  have split: "sorted_wrt (\<lambda>x y. key y < key x) (?t @ drop n xs)" using assms(1) by simp
  have "\<not> key x < key (last ?t)" if "x \<in> set ?t" for x
  proof -
    have t: "sorted_wrt (\<lambda>x y. key y < key x) (butlast ?t @ [last ?t])"
      using split ne by (simp add: sorted_wrt_append del: append_take_drop_id)
    have "x \<in> set (butlast ?t @ [last ?t])" using that ne by simp
    with t show ?thesis by (auto simp: sorted_wrt_append)
  qed
  moreover have "key x < key (last ?t)" if "x \<in> set (drop n xs)" for x
    using split that last_in_set [OF ne] by (auto simp: sorted_wrt_append simp del: append_take_drop_id)
  ultimately have "filter (\<lambda>x. key x < key (last ?t)) (?t @ drop n xs) = drop n xs"
    by (simp add: filter_empty_conv filter_id_conv del: append_take_drop_id)
  then show ?thesis by simp
qed

lemma walk_back:
  assumes search: "\<And>c b. parse c = Some b \<Longrightarrow> search c = Inr (map rec (rev (take n (filter (\<lambda>x. key x < b) xs))))"
    and stamp: "\<And>x. x \<in> set xs \<Longrightarrow> parse (lr_timestamp (rec x)) = Some (key x)"
    and desc: "sorted_wrt (\<lambda>x y. key y < key x) xs" and n: "0 < n"
    and c: "parse c = Some (b :: int)" and fuel: "length (filter (\<lambda>x. key x < b) xs) < k"
  shows "history_walk k search c = Some (map rec (rev (filter (\<lambda>x. key x < b) xs)))"
  using c fuel
proof (induction k arbitrary: c b)
  case (Suc k)
  let ?ys = "filter (\<lambda>x. key x < b) xs"
  note s = search [OF Suc.prems(1)]
  show ?case
  proof (cases "?ys = []")
    case True
    with s show ?thesis by simp
  next
    case False
    let ?p = "take n ?ys"
    have ne: "?p \<noteq> []" using False n by simp
    let ?o = "last ?p"
    have o: "?o \<in> set ?ys" using last_in_set [OF ne] by (meson in_set_takeD)
    have page: "rev ?p = ?o # rev (butlast ?p)" using ne by (metis append_butlast_last_id rev_eq_Cons_iff rev_rev_ident)
    have desc': "sorted_wrt (\<lambda>x y. key y < key x) ?ys" using desc by (rule sorted_wrt_filter)
    have "filter (\<lambda>x. key x < key ?o) xs = filter (\<lambda>x. key x < key ?o) ?ys"
      using o by (auto simp: filter_filter intro!: filter_cong)
    then have older: "filter (\<lambda>x. key x < key ?o) xs = drop n ?ys"
      using filter_below_page [OF desc' n False] by simp
    have "0 < length ?ys" using False by simp
    then have short: "length (filter (\<lambda>x. key x < key ?o) xs) < k" using Suc.prems(2) n unfolding older length_drop by linarith
    have "?o \<in> set xs" using o by simp
    from Suc.IH [OF stamp [OF this] short]
    have rest: "history_walk k search (lr_timestamp (rec ?o)) = Some (map rec (rev (drop n ?ys)))" unfolding older .
    have "rev ?ys = rev (drop n ?ys) @ rev ?p" by (metis append_take_drop_id rev_append)
    then have all: "rev ?ys = rev (drop n ?ys) @ ?o # rev (butlast ?p)" unfolding page .
    show ?thesis using s rest unfolding page all by simp
  qed
qed simp

text \<open>The request with another cursor; its \<open>where\<close> names none.\<close>

definition at_cursor :: "MessageSearchRequest \<Rightarrow> string \<Rightarrow> MessageSearchRequest" where
  "at_cursor r c = r\<lparr>mr_cursor := c\<rparr>"

lemma at_cursor_fields [simp]:
  "request_jid (at_cursor r c) = request_jid r" "request_message_id (at_cursor r c) = request_message_id r"
  "request_query (at_cursor r c) = request_query r" "request_limit (at_cursor r c) = request_limit r"
  "wanted tenantID instanceID (at_cursor r c) m = wanted tenantID instanceID r m"
  by (simp_all add: at_cursor_def request_jid_def request_message_id_def request_query_def request_limit_def
      where_value_def wanted_def cong: map_cong)

lemma request_cursor_at [simp]: "trim_space c \<noteq> [] \<Longrightarrow> request_cursor (at_cursor r c) = trim_space c"
  by (simp add: request_cursor_def at_cursor_def)

text \<open>The parse of a cursor as a bound; the empty one bounds nothing.\<close>

definition cursor_bound :: "int \<Rightarrow> string \<Rightarrow> int option" where
  "cursor_bound upper c =
     (if c = [] then Some upper
      else case parse_rfc3339 (trim_space c) of Some t \<Rightarrow> if t = 0 then None else Some t | None \<Rightarrow> None)"

text \<open>The rows a request wants, the latest first.\<close>

definition wanted_rows :: "string \<Rightarrow> string \<Rightarrow> MessageSearchRequest \<Rightarrow> message_db \<Rightarrow> ConversationMessage list" where
  "wanted_rows tenantID instanceID r h = newest_first (filter (wanted tenantID instanceID r) (md_messages h))"

lemma filter_newest_first: "filter P (newest_first ms) = newest_first (filter P ms)"
  by (simp add: newest_first_def filter_sort)

lemma search_page:
  assumes r: "resolve db tenantID reference = Inr i" and up: "md_outage h = None"
    and ok: "\<exists>f. normalizeMessageSearchRequest r = Inr f" and none: "request_cursor (at_cursor r []) = []"
    and upper: "\<And>m. m \<in> set (md_messages h) \<Longrightarrow> cm_message_timestamp m < upper"
    and c: "cursor_bound upper c = Some b"
  shows "SearchMessages db tenantID reference (at_cursor r c) None (Some h) =
    Inr (map toLegacyMessageRecord (rev (take (nat (request_limit r))
      (filter (\<lambda>m. cm_message_timestamp m < b) (wanted_rows tenantID (in_id i) r h)))))"
proof -
  from ok obtain f0 where "normalizeMessageSearchRequest r = Inr f0" by blast
  then have j: "request_jid r \<noteq> []" "length (request_jid r) \<le> 255" "length (request_message_id r) \<le> 255"
    "length (request_query r) \<le> 100" by (auto elim: normalize_request_Inr)
  let ?r = "at_cursor r c"
  have cur: "\<exists>before. (if request_cursor ?r = [] then Inr None else parseHistoryCursor (request_cursor ?r)) = Inr before \<and>
      (\<forall>m \<in> set (md_messages h). before_cursor ?r m \<longleftrightarrow> cm_message_timestamp m < b)"
  proof (cases "c = []")
    case True
    with c upper none show ?thesis by (auto simp: cursor_bound_def before_cursor_def parseHistoryCursor_def)
  next
    case False
    with c obtain t where t: "parse_rfc3339 (trim_space c) = Some t" "t = b" "b \<noteq> 0"
      by (auto simp: cursor_bound_def split: option.splits if_splits)
    then have "trim_space c \<noteq> []" by (auto simp: parse_rfc3339_def p_then_def p_digits_def)
    with t show ?thesis by (auto simp: before_cursor_def parseHistoryCursor_def)
  qed
  then obtain before where before:
    "(if request_cursor ?r = [] then Inr None else parseHistoryCursor (request_cursor ?r)) = Inr before"
    "\<And>m. m \<in> set (md_messages h) \<Longrightarrow> before_cursor ?r m \<longleftrightarrow> cm_message_timestamp m < b" by blast
  have "\<exists>f. normalizeMessageSearchRequest ?r = Inr f"
    using j before(1) unfolding normalizeMessageSearchRequest_def
    by (simp add: maxMessageSearchQueryLen_def maxMessageSearchJIDLen_def maxMessageSearchIDLen_def not_less)
  then obtain f where f: "normalizeMessageSearchRequest ?r = Inr f" by blast
  have lim: "0 < request_limit r" using request_limit_bounds [of r] by simp
  have rows: "filter (message_matches tenantID (in_id i) (list_filter f)) (md_messages h) =
      filter (\<lambda>m. cm_message_timestamp m < b) (filter (wanted tenantID (in_id i) r) (md_messages h))"
    using before(2) by (auto simp: matches_wanted [OF f] filter_filter intro!: filter_cong)
  have "message_List tenantID (in_id i) (list_filter f) h = Inr (rev (take (nat (request_limit r))
      (filter (\<lambda>m. cm_message_timestamp m < b) (wanted_rows tenantID (in_id i) r h))))"
    using up lim limit_of_filter [OF f]
    by (simp add: message_List_def rows wanted_rows_def filter_newest_first)
  with r f show ?thesis by (simp add: SearchMessages_def toLegacyMessageRecords_def)
qed

lemma strictly_descending:
  assumes "distinct (map cm_message_timestamp ms)"
  shows "sorted_wrt (\<lambda>x y. cm_message_timestamp y < cm_message_timestamp x) (newest_first ms)"
proof -
  let ?k = "\<lambda>m. - cm_message_timestamp m"
  have "distinct (map ?k (newest_first ms))" using assms by (auto simp: distinct_map inj_on_def)
  then have "sorted_wrt (<) (map ?k (newest_first ms))"
    using sorted_newest_first by (simp add: strict_sorted_iff)
  then show ?thesis by (simp add: sorted_wrt_map)
qed

text \<open>Rows whose times are distinct whole seconds of the years 1 to 9999.\<close>

definition whole_second_times :: "ConversationMessage list \<Rightarrow> bool" where
  "whole_second_times ms \<longleftrightarrow>
     distinct (map cm_message_timestamp ms) \<and>
     list_all (\<lambda>m. four_digit_year (cm_message_timestamp m) \<and> 0 < cm_message_timestamp m \<and>
       cm_message_timestamp m mod second = 0) ms"

text \<open>
  C27: A client that walks back through the history, taking the timestamp of the oldest record of each page for the
  next cursor, ends with an empty page and has then every message it wants exactly once, the oldest first, whatever
  the size of the pages, when the times of these messages are distinct whole seconds.
\<close>

theorem history_walk_complete:
  assumes "resolve db tenantID reference = Inr i" and "md_outage h = None"
    and "\<exists>f. normalizeMessageSearchRequest r = Inr f" and "request_cursor (at_cursor r []) = []"
    and "whole_second_times (filter (wanted tenantID (in_id i) r) (md_messages h))"
    and "length (wanted_rows tenantID (in_id i) r h) < fuel"
  shows "history_walk fuel (\<lambda>c. SearchMessages db tenantID reference (at_cursor r c) None (Some h)) [] =
    Some (map toLegacyMessageRecord (rev (wanted_rows tenantID (in_id i) r h)))"
proof -
  let ?W = "wanted_rows tenantID (in_id i) r h" and ?key = cm_message_timestamp
  define upper where "upper = Max (insert 0 (?key ` set (md_messages h))) + 1"
  have upper: "?key m < upper" if "m \<in> set (md_messages h)" for m
  proof -
    have "?key m \<le> Max (insert 0 (?key ` set (md_messages h)))" by (rule Max_ge) (use that in auto)
    then show ?thesis unfolding upper_def by simp
  qed
  have W: "set ?W \<subseteq> set (md_messages h)" by (auto simp: wanted_rows_def)
  then have whole: "filter (\<lambda>m. ?key m < upper) ?W = ?W" using upper by (auto simp: filter_id_conv)
  have stamp: "cursor_bound upper (lr_timestamp (toLegacyMessageRecord m)) = Some (?key m)" if "m \<in> set ?W" for m
  proof -
    have m: "four_digit_year (?key m)" "0 < ?key m" "?key m mod second = 0"
      using that assms(5) by (auto simp: wanted_rows_def whole_second_times_def list_all_iff)
    have "trim_space (format_rfc3339 (?key m)) = format_rfc3339 (?key m)" by (rule trimmed_trim_space) (rule trimmed_format)
    then show ?thesis using m
      by (simp add: cursor_bound_def toLegacyMessageRecord_def Let_def parse_format)
  qed
  have "history_walk fuel (\<lambda>c. SearchMessages db tenantID reference (at_cursor r c) None (Some h)) [] =
      Some (map toLegacyMessageRecord (rev (filter (\<lambda>m. ?key m < upper) ?W)))"
  proof (rule walk_back [where parse = "cursor_bound upper" and n = "nat (request_limit r)"])
    show "sorted_wrt (\<lambda>x y. ?key y < ?key x) ?W"
      unfolding wanted_rows_def by (rule strictly_descending) (use assms(5) in \<open>simp add: whole_second_times_def\<close>)
    show "0 < nat (request_limit r)" using request_limit_bounds [of r] by simp
    show "cursor_bound upper [] = Some upper" by (simp add: cursor_bound_def)
    show "length (filter (\<lambda>m. ?key m < upper) ?W) < fuel" using assms(6) whole by simp
  qed (use search_page [OF assms(1-4) upper] stamp in auto)
  then show ?thesis unfolding whole .
qed

definition paging_instance :: Instance where
  "paging_instance =
     \<lparr>in_id = ''i'', in_tenant_id = ''t'', in_name = ''shop'', in_status = ''open'', in_engine_instance_id = [],
      in_webhook_url = [], in_webhook_events = [], in_webhook_base64 = False, in_webhook_by_events = False,
      in_ai_enabled = False, in_ai_auto_reply = False, in_created_at = 1\<rparr>"

definition paging_auth :: auth_db where
  "paging_auth =
     \<lparr>ad_tenants = [], ad_users = [], ad_instances = [paging_instance], ad_legacy = [], ad_outage = (\<lambda>_. None)\<rparr>"

definition paging_request :: MessageSearchRequest where
  "paging_request =
     \<lparr>mr_where = [(''key'', JObj [(''remoteJid'', JStr ''7@s'')])], mr_limit = 1, mr_cursor = [], mr_remote_jid = [],
      mr_remote_jid_alt = [], mr_chat_jid = [], mr_jid = [], mr_message_id = [], mr_message_id_alt = [], mr_query = []\<rparr>"

definition at_time :: "string \<Rightarrow> time \<Rightarrow> ConversationMessage" where
  "at_time ext t = paging_message\<lparr>cm_external_message_id := ext, cm_message_timestamp := t\<rparr>"

definition sample_history :: "time list \<Rightarrow> message_db" where
  "sample_history ts =
     \<lparr>md_messages = map2 at_time [''m1'', ''m2''] ts, md_refuse = (\<lambda>_. None), md_outage = None\<rparr>"

definition sample_walk :: "message_db \<Rightarrow> legacyMessageRecord list option" where
  "sample_walk h =
     history_walk 5 (\<lambda>c. SearchMessages paging_auth ''t'' ''i'' (at_cursor paging_request c) None (Some h)) []"

lemma paging_resolve: "resolve paging_auth ''t'' ''i'' = Inr paging_instance"
  by code_simp

lemma paging_request_ok:
  "normalizeMessageSearchRequest paging_request =
     Inr \<lparr>sf_remote_jid = ''7@s'', sf_message_id = [], sf_query = [], sf_limit = 1, sf_before = None\<rparr>"
  "request_cursor (at_cursor paging_request []) = []"
  by code_simp+

definition two_times :: "time list" where "two_times = [63900000001 * second, 63900000000 * second]"

lemma two_times_wanted:
  "whole_second_times (filter (wanted ''t'' ''i'' paging_request) (md_messages (sample_history two_times)))"
  "map cm_message_timestamp (wanted_rows ''t'' ''i'' paging_request (sample_history two_times)) = two_times"
  by code_simp+

lemma history_walk_complete_witness:
  "\<exists>rs. sample_walk (sample_history two_times) = Some (map toLegacyMessageRecord rs) \<and>
     map cm_message_timestamp rs = rev two_times"
proof -
  let ?h = "sample_history two_times"
  have "length (wanted_rows ''t'' (in_id paging_instance) paging_request ?h) < 5"
    using arg_cong [OF two_times_wanted(2), of length] by (simp add: paging_instance_def two_times_def)
  from history_walk_complete [OF paging_resolve _ _ paging_request_ok(2) _ this] two_times_wanted(1) paging_request_ok(1)
  have "sample_walk ?h = Some (map toLegacyMessageRecord (rev (wanted_rows ''t'' ''i'' paging_request ?h)))"
    by (simp add: sample_walk_def paging_instance_def sample_history_def)
  then show ?thesis using two_times_wanted(2) by (metis rev_map)
qed

text \<open>Two messages of one second, in pages of one: the walk ends with one of them.\<close>

definition one_second :: "time list" where "one_second = [63900000000 * second + 1, 63900000000 * second + 2]"

lemma walk_misses_a_message:
  "length (wanted_rows ''t'' ''i'' paging_request (sample_history one_second)) = 2 \<and>
   map_option length (sample_walk (sample_history one_second)) = Some 1"
proof -
  let ?h = "sample_history one_second" and ?upper = "63900000001 * second"
  have rows: "wanted_rows ''t'' ''i'' paging_request ?h =
      [at_time ''m2'' (63900000000 * second + 2), at_time ''m1'' (63900000000 * second + 1)]"
    by (simp add: wanted_rows_def one_second_def) code_simp
  have lim: "nat (request_limit paging_request) = 1" by code_simp
  have stamp: "lr_timestamp (toLegacyMessageRecord (at_time ''m2'' (63900000000 * second + 2))) = ''2025-11-29T08:00:00Z''"
    by code_simp
  have "cursor_bound ?upper [] = Some ?upper" by (simp add: cursor_bound_def)
  moreover have "cursor_bound ?upper ''2025-11-29T08:00:00Z'' = Some (63900000000 * second)" by code_simp
  moreover have "SearchMessages paging_auth ''t'' ''i'' (at_cursor paging_request c) None (Some ?h) =
      Inr (map toLegacyMessageRecord (rev (take 1 (filter (\<lambda>m. cm_message_timestamp m < b)
        (wanted_rows ''t'' ''i'' paging_request ?h)))))" if "cursor_bound ?upper c = Some b" for c b
  proof -
    have up: "md_outage ?h = None" by (simp add: sample_history_def)
    have below: "cm_message_timestamp m < ?upper" if "m \<in> set (md_messages ?h)" for m
      using that by (auto simp: sample_history_def one_second_def at_time_def second_def)
    have ok: "\<exists>f. normalizeMessageSearchRequest paging_request = Inr f" using paging_request_ok(1) by blast
    have id: "in_id paging_instance = ''i''" by (simp add: paging_instance_def)
    show ?thesis using search_page [OF paging_resolve up ok paging_request_ok(2) below that] unfolding lim id .
  qed
  ultimately have
    "SearchMessages paging_auth ''t'' ''i'' (at_cursor paging_request []) None (Some ?h) =
       Inr [toLegacyMessageRecord (at_time ''m2'' (63900000000 * second + 2))]"
    "SearchMessages paging_auth ''t'' ''i'' (at_cursor paging_request ''2025-11-29T08:00:00Z'') None (Some ?h) = Inr []"
    by (simp_all add: rows at_time_def second_def)
  then have "sample_walk ?h = Some [toLegacyMessageRecord (at_time ''m2'' (63900000000 * second + 2))]"
    by (simp add: sample_walk_def numeral_eq_Suc stamp)
  then show ?thesis using rows by simp
qed

section \<open>Further examples\<close>

lemma one_page: "SearchMessages paging_auth ''t'' ''i'' paging_request None (Some (sample_history two_times)) =
   Inr [toLegacyMessageRecord (at_time ''m1'' (63900000001 * second))]"
  by code_simp

lemma search_answers_witness:
  "\<exists>i h ms. resolve paging_auth ''t'' ''i'' = Inr i \<and> Some (sample_history two_times) = Some h \<and>
     [toLegacyMessageRecord (at_time ''m1'' (63900000001 * second))] = map toLegacyMessageRecord ms \<and>
     set ms \<subseteq> {m \<in> set (md_messages h). wanted ''t'' (in_id i) paging_request m \<and> before_cursor paging_request m}"
  using search_answers [OF one_page] by (elim exE conjE) (intro exI conjI; assumption)

lemma query_is_substring_witness:
  "message_List ''t'' ''i'' \<lparr>mf_remote_jid = [], mf_external_message_id = [], mf_query = ''hELl'', mf_limit = 5, mf_before = None\<rparr>
     (sample_history two_times) =
   substring_List ''t'' ''i'' \<lparr>mf_remote_jid = [], mf_external_message_id = [], mf_query = ''hELl'', mf_limit = 5, mf_before = None\<rparr>
     (sample_history two_times)"
proof -
  have "plain_text (trim_space ''hELl'')" by code_simp
  then show ?thesis by (intro query_is_substring) simp
qed

end
