(* ===== verification/Message_Sending.thy ===== *)
theory Message_Sending
  imports Message_History
begin

text \<open>
  What writes the message history: the sending operations of an instance (\<open>SendText\<close>, \<open>SendMedia\<close>,
  \<open>SendAudio\<close> of \<open>internal/instance/service.go\<close>, \<open>persistOutbound...\<close> of \<open>message_history.go\<close>) and the
  listeners of \<open>registerConversationCallbacks\<close> (\<open>internal/service/app.go\<close>) for incoming messages and for
  receipts. The engine is a record of its operations, a parameter. The answer of an operation comes with the
  history it leaves; an error of the history is logged and otherwise ignored.
\<close>

section \<open>Inputs and results\<close>

record SendTextInput =
  st_number :: string
  st_text :: string

record SendResult =
  sr_message_id :: string
  sr_server_id :: int
  sr_chat :: string
  sr_from_me :: bool
  sr_timestamp :: time
  sr_message_type :: string

record resolvedMediaMessageInput =
  mi_number :: string
  mi_type :: string
  mi_mime_type :: string
  mi_caption :: string
  mi_file_name :: string
  mi_url :: string
  mi_file_data :: string

record resolvedAudioMessageInput =
  ai_number :: string
  ai_file_data :: string

text \<open>The operations of the engine that send; \<open>sg_legacy\<close> says that the runtime is a \<open>LegacyRuntime\<close>.\<close>

record sending_engine =
  sg_legacy :: bool
  sg_SendText :: "Instance \<Rightarrow> string \<Rightarrow> string \<Rightarrow> go_error + SendResult"
  sg_SendMedia :: "Instance \<Rightarrow> resolvedMediaMessageInput \<Rightarrow> go_error + SendResult"
  sg_SendAudio :: "Instance \<Rightarrow> resolvedAudioMessageInput \<Rightarrow> go_error + SendResult"

text \<open>The answer of \<open>ensureRuntime\<close>, a runtime and an error, and what the senders make of it.\<close>

definition legacy_runtime :: "sending_engine option \<times> go_error option \<Rightarrow> go_error + sending_engine" where
  "legacy_runtime ensured =
     (case ensured of
        (None, Some e) \<Rightarrow> Inl e
      | (None, None) \<Rightarrow> Inl (plain_error ''runtime unavailable'')
      | (Some g, _) \<Rightarrow> if sg_legacy g then Inr g else Inl (plain_error ''legacy runtime unavailable''))"

section \<open>Rows of sent messages\<close>

definition blank_message :: ConversationMessage where
  "blank_message =
     \<lparr>cm_id = [], cm_tenant_id = [], cm_instance_id = [], cm_remote_jid = [], cm_external_message_id = [],
      cm_direction = [], cm_message_type = [], cm_push_name = [], cm_source = [], cm_body = [], cm_status = [],
      cm_message_timestamp = 0, cm_media_url = [], cm_mime_type = [], cm_file_name = [], cm_caption = [],
      cm_message_payload = [], cm_delivered_at = None, cm_read_at = None, cm_created_at = 0, cm_updated_at = 0\<rparr>"

text \<open>What the three kinds of message have in common.\<close>

definition outbound_row :: "string \<Rightarrow> Instance \<Rightarrow> string \<Rightarrow> SendResult \<Rightarrow> ConversationMessage" where
  "outbound_row tenantID i number result =
     blank_message\<lparr>cm_tenant_id := tenantID, cm_instance_id := in_id i,
       cm_remote_jid := firstString [sr_chat result, trim_space number],
       cm_external_message_id := sr_message_id result, cm_direction := ''outbound'',
       cm_push_name := trimRemoteJID (sr_chat result), cm_source := trimRemoteJID (sr_chat result),
       cm_status := ''sent'', cm_message_timestamp := sr_timestamp result\<rparr>"

definition buildOutboundMediaPayload :: "string \<Rightarrow> resolvedMediaMessageInput \<Rightarrow> json_object" where
  "buildOutboundMediaPayload frontendType input =
     (let caption = (''caption'', JStr (trim_space (mi_caption input)));
          mime = (''mimetype'', JStr (trim_space (mi_mime_type input)));
          media = [(''mediaUrl'', JStr (trim_space (mi_url input))), mime]
      in if frontendType = ''imageMessage'' then (''imageMessage'', JObj [caption, mime]) # media
         else if frontendType = ''videoMessage'' then (''videoMessage'', JObj [caption, mime]) # media
         else if frontendType = ''documentMessage'' then
           (''documentMessage'', JObj [caption, mime, (''fileName'', JStr (trim_space (mi_file_name input)))]) # media
         else if frontendType = ''audioMessage'' then (''audioMessage'', JObj [mime, (''ptt'', JBool True)]) # media
         else [(''text'', JStr (trim_space (mi_caption input)))])"

definition outbound_text :: "string \<Rightarrow> Instance \<Rightarrow> SendTextInput \<Rightarrow> SendResult \<Rightarrow> ConversationMessage" where
  "outbound_text tenantID i input result =
     (outbound_row tenantID i (st_number input) result)
       \<lparr>cm_message_type := ''conversation'', cm_body := trim_space (st_text input),
        cm_message_payload := [(''conversation'', JStr (trim_space (st_text input)))]\<rparr>"

definition outbound_media :: "string \<Rightarrow> Instance \<Rightarrow> resolvedMediaMessageInput \<Rightarrow> SendResult \<Rightarrow> ConversationMessage" where
  "outbound_media tenantID i input result =
     (let frontendType = normalizeStoredMessageType (sr_message_type result) in
      (outbound_row tenantID i (mi_number input) result)
       \<lparr>cm_message_type := frontendType, cm_body := trim_space (mi_caption input),
        cm_media_url := trim_space (mi_url input), cm_mime_type := trim_space (mi_mime_type input),
        cm_file_name := trim_space (mi_file_name input), cm_caption := trim_space (mi_caption input),
        cm_message_payload := buildOutboundMediaPayload frontendType input\<rparr>)"

definition outbound_audio :: "string \<Rightarrow> Instance \<Rightarrow> resolvedAudioMessageInput \<Rightarrow> SendResult \<Rightarrow> ConversationMessage" where
  "outbound_audio tenantID i input result =
     (outbound_row tenantID i (ai_number input) result)
       \<lparr>cm_message_type := ''audioMessage'', cm_mime_type := ''audio/ogg'',
        cm_message_payload := [(''audioMessage'', JObj [(''ptt'', JBool True)])]\<rparr>"

text \<open>An error of the table is only logged.\<close>

definition persist :: "string \<Rightarrow> time \<Rightarrow> ConversationMessage \<Rightarrow> message_db option \<Rightarrow> message_db option" where
  "persist newID now m history = map_option (\<lambda>h. snd (message_Upsert newID now (Some m) h)) history"

definition persistOutboundText ::
  "string \<Rightarrow> time \<Rightarrow> string \<Rightarrow> Instance \<Rightarrow> SendTextInput \<Rightarrow> SendResult \<Rightarrow> message_db option \<Rightarrow> message_db option" where
  "persistOutboundText newID now tenantID i input result = persist newID now (outbound_text tenantID i input result)"

definition persistOutboundMedia ::
  "string \<Rightarrow> time \<Rightarrow> string \<Rightarrow> Instance \<Rightarrow> resolvedMediaMessageInput \<Rightarrow> SendResult \<Rightarrow> message_db option \<Rightarrow> message_db option" where
  "persistOutboundMedia newID now tenantID i input result = persist newID now (outbound_media tenantID i input result)"

definition persistOutboundAudio ::
  "string \<Rightarrow> time \<Rightarrow> string \<Rightarrow> Instance \<Rightarrow> resolvedAudioMessageInput \<Rightarrow> SendResult \<Rightarrow> message_db option \<Rightarrow> message_db option" where
  "persistOutboundAudio newID now tenantID i input result = persist newID now (outbound_audio tenantID i input result)"

section \<open>Sending\<close>

definition SendText ::
  "auth_db \<Rightarrow> sending_engine option \<times> go_error option \<Rightarrow> string \<Rightarrow> time \<Rightarrow> string \<Rightarrow> string \<Rightarrow> SendTextInput \<Rightarrow>
   message_db option \<Rightarrow> (go_error + SendResult) \<times> message_db option" where
  "SendText db ensured newID now tenantID reference input history =
     (case resolve db tenantID reference of
        Inl e \<Rightarrow> (Inl e, history)
      | Inr i \<Rightarrow>
          if trim_space (st_number input) = [] \<or> trim_space (st_text input) = [] then
            (Inl (wrap ErrValidation ''number and text are required''), history)
          else case legacy_runtime ensured of
            Inl e \<Rightarrow> (Inl e, history)
          | Inr g \<Rightarrow>
              (case sg_SendText g i (trim_space (st_number input)) (st_text input) of
                 Inl e \<Rightarrow> (Inl e, history)
               | Inr result \<Rightarrow> (Inr result, persistOutboundText newID now tenantID i input result history)))"

definition SendMedia ::
  "auth_db \<Rightarrow> sending_engine option \<times> go_error option \<Rightarrow> string \<Rightarrow> time \<Rightarrow> string \<Rightarrow> string \<Rightarrow>
   resolvedMediaMessageInput \<Rightarrow> message_db option \<Rightarrow> (go_error + SendResult) \<times> message_db option" where
  "SendMedia db ensured newID now tenantID reference input history =
     (case resolve db tenantID reference of
        Inl e \<Rightarrow> (Inl e, history)
      | Inr i \<Rightarrow>
          (let input = input\<lparr>mi_number := trim_space (mi_number input), mi_type := trim_space (mi_type input),
                             mi_url := trim_space (mi_url input), mi_file_name := trim_space (mi_file_name input)\<rparr> in
           if mi_number input = [] \<or> mi_type input = [] then
             (Inl (wrap ErrValidation ''number and media type are required''), history)
           else if mi_file_data input = [] \<and> mi_url input = [] then
             (Inl (wrap ErrValidation ''media payload or url is required''), history)
           else case legacy_runtime ensured of
             Inl e \<Rightarrow> (Inl e, history)
           | Inr g \<Rightarrow>
               (case sg_SendMedia g i input of
                  Inl e \<Rightarrow> (Inl e, history)
                | Inr result \<Rightarrow> (Inr result, persistOutboundMedia newID now tenantID i input result history))))"

definition SendAudio ::
  "auth_db \<Rightarrow> sending_engine option \<times> go_error option \<Rightarrow> string \<Rightarrow> time \<Rightarrow> string \<Rightarrow> string \<Rightarrow>
   resolvedAudioMessageInput \<Rightarrow> message_db option \<Rightarrow> (go_error + SendResult) \<times> message_db option" where
  "SendAudio db ensured newID now tenantID reference input history =
     (case resolve db tenantID reference of
        Inl e \<Rightarrow> (Inl e, history)
      | Inr i \<Rightarrow>
          (let input = input\<lparr>ai_number := trim_space (ai_number input)\<rparr> in
           if ai_number input = [] \<or> ai_file_data input = [] then
             (Inl (wrap ErrValidation ''number and audio payload are required''), history)
           else case legacy_runtime ensured of
             Inl e \<Rightarrow> (Inl e, history)
           | Inr g \<Rightarrow>
               (case sg_SendAudio g i input of
                  Inl e \<Rightarrow> (Inl e, history)
                | Inr result \<Rightarrow> (Inr result, persistOutboundAudio newID now tenantID i input result history))))"

section \<open>The listeners\<close>

definition inbound_row :: "Instance \<Rightarrow> InboundMessage \<Rightarrow> ConversationMessage" where
  "inbound_row i m =
     blank_message\<lparr>cm_tenant_id := in_tenant_id i, cm_instance_id := in_id i,
       cm_remote_jid := trim_space (im_remote_jid m), cm_external_message_id := trim_space (im_message_id m),
       cm_direction := ''inbound'', cm_message_type := trim_space (im_message_type m),
       cm_push_name := trim_space (im_push_name m), cm_source := trim_space (im_source m),
       cm_body := trim_space (im_body m), cm_status := ''received'', cm_message_timestamp := im_timestamp m,
       cm_media_url := trim_space (im_media_url m), cm_mime_type := trim_space (im_mime_type m),
       cm_file_name := trim_space (im_file_name m), cm_caption := trim_space (im_caption m),
       cm_message_payload := im_message m\<rparr>"

definition inbound_listener :: "auth_db \<Rightarrow> string \<Rightarrow> time \<Rightarrow> InboundMessage \<Rightarrow> message_db \<Rightarrow> message_db" where
  "inbound_listener db newID now m h =
     (case instance_GetByGlobalID db (im_instance_id m) of
        Inl _ \<Rightarrow> h
      | Inr i \<Rightarrow> snd (message_Upsert newID now (Some (inbound_row i m)) h))"

definition receipt_listener :: "string \<Rightarrow> string \<Rightarrow> string \<Rightarrow> time \<Rightarrow> time \<Rightarrow> message_db \<Rightarrow> message_db" where
  "receipt_listener instanceID messageID state at now h = snd (message_MarkReceipt instanceID messageID state at now h)"

end
