(* ===== verification/Message_System.thy ===== *)
theory Message_System
  imports Message_Paging Message_Sending
begin

text \<open>
  The message history as it runs: the senders, the two listeners and the database's moods change the table one
  step after the other. What holds of the table in every state that can be reached, and what a sent message leaves
  for a search to find.
\<close>

section \<open>Steps\<close>

inductive history_step :: "auth_db \<Rightarrow> message_db \<Rightarrow> message_db \<Rightarrow> bool" for db :: auth_db where
  Text: "SendText db ensured newID now tenantID reference input (Some h) = (result, Some h') \<Longrightarrow> newID \<noteq> [] \<Longrightarrow>
    history_step db h h'"
| Media: "SendMedia db ensured newID now tenantID reference media (Some h) = (result, Some h') \<Longrightarrow> newID \<noteq> [] \<Longrightarrow>
    history_step db h h'"
| Audio: "SendAudio db ensured newID now tenantID reference audio (Some h) = (result, Some h') \<Longrightarrow> newID \<noteq> [] \<Longrightarrow>
    history_step db h h'"
| Inbound: "newID \<noteq> [] \<Longrightarrow> history_step db h (inbound_listener db newID now m h)"
| Receipt: "history_step db h (receipt_listener instanceID messageID state at now h)"
| Mood: "history_step db h (h\<lparr>md_refuse := refuse, md_outage := outage\<rparr>)"

definition empty_history :: message_db where
  "empty_history = \<lparr>md_messages = [], md_refuse = (\<lambda>_. None), md_outage = None\<rparr>"

definition history_reachable :: "auth_db \<Rightarrow> message_db \<Rightarrow> bool" where
  "history_reachable db h \<longleftrightarrow> (history_step db)\<^sup>*\<^sup>* empty_history h"

section \<open>The invariant\<close>

text \<open>The status of a row, its direction and its times fit together.\<close>

definition status_ok :: "ConversationMessage \<Rightarrow> bool" where
  "status_ok m \<longleftrightarrow>
     (cm_direction m, cm_status m) \<in>
       {(''outbound'', ''sent''), (''inbound'', ''received'')} \<union> {''outbound'', ''inbound''} \<times> {''delivered'', ''read''} \<and>
     (cm_status m \<in> {''sent'', ''received''} \<longrightarrow> cm_delivered_at m = None) \<and>
     (cm_status m \<in> {''delivered'', ''read''} \<longrightarrow> cm_delivered_at m \<noteq> None) \<and>
     (cm_status m = ''read'' \<longrightarrow> cm_read_at m \<noteq> None) \<and>
     (cm_read_at m \<noteq> None \<longrightarrow> cm_delivered_at m \<noteq> None)"

definition owned :: "auth_db \<Rightarrow> ConversationMessage \<Rightarrow> bool" where
  "owned db m \<longleftrightarrow> (\<exists>i \<in> set (ad_instances db). in_id i = cm_instance_id m \<and> in_tenant_id i = cm_tenant_id m)"

definition row_ok :: "auth_db \<Rightarrow> ConversationMessage \<Rightarrow> bool" where
  "row_ok db m \<longleftrightarrow> cm_id m \<noteq> [] \<and> status_ok m \<and> owned db m"

definition history_inv :: "auth_db \<Rightarrow> message_db \<Rightarrow> bool" where
  "history_inv db h \<longleftrightarrow> distinct (map message_key (md_messages h)) \<and> (\<forall>m \<in> set (md_messages h). row_ok db m)"

text \<open>Replacing rows by rows with the same key.\<close>

lemma keys_map: "(\<And>x. message_key (g x) = message_key x) \<Longrightarrow> map message_key (map g ms) = map message_key ms"
  by (induction ms) auto

lemma message_key_created_row [simp]: "message_key (created_row newID now m) = message_key m"
  by (simp add: message_key_def created_row_def)

lemma message_key_overwrite [simp]: "message_key (overwrite m old) = message_key m"
  by (simp add: message_key_def overwrite_def)

lemma message_key_receipt [simp]: "message_key (message_receipt state at now m) = message_key m"
  by (simp add: message_key_def message_receipt_def)

lemma upsert_inv:
  assumes "history_inv db h" and "status_ok m" and "owned db m" and "newID \<noteq> []"
  shows "history_inv db (snd (message_Upsert newID now (Some m) h))"
proof -
  let ?m = "created_row newID now m"
  have m: "row_ok db ?m" using assms(2-4)
    by (simp add: row_ok_def created_row_def status_ok_def owned_def)
  have over: "row_ok db (overwrite ?m x)" if "row_ok db x" for x
    using m that by (simp add: row_ok_def overwrite_def status_ok_def owned_def)
  have keys: "map message_key (map (\<lambda>x. if message_key x = message_key ?m then overwrite ?m x else x) (md_messages h)) =
      map message_key (md_messages h)"
    by (rule keys_map) (simp split: if_split)
  show ?thesis
  proof (cases "md_refuse h ?m")
    case None
    show ?thesis
    proof (cases "message_key ?m \<in> message_key ` set (md_messages h)")
      case True
      with None assms(1) over keys show ?thesis
        by (auto simp: message_Upsert_def Let_def history_inv_def simp del: map_map)
    next
      case False
      with None assms(1) m show ?thesis by (auto simp: message_Upsert_def Let_def history_inv_def)
    qed
  qed (use assms(1) in \<open>simp add: message_Upsert_def Let_def\<close>)
qed

lemma receipt_row_ok: "row_ok db m \<Longrightarrow> row_ok db (message_receipt state at now m)"
  by (auto simp: row_ok_def message_receipt_def status_ok_def owned_def)

lemma history_receipt_inv:
  assumes "history_inv db h"
  shows "history_inv db (snd (message_MarkReceipt instanceID messageID state at now h))"
proof -
  let ?g = "\<lambda>m. if message_key m = (trim_space instanceID, trim_space messageID)
    then message_receipt (lower_trim state) at now m else m"
  have "map message_key (map ?g (md_messages h)) = map message_key (md_messages h)"
    by (rule keys_map) (simp split: if_split)
  with assms receipt_row_ok [of db] have "history_inv db (h\<lparr>md_messages := map ?g (md_messages h)\<rparr>)"
    by (auto simp: history_inv_def simp del: map_map)
  with assms show ?thesis
    by (auto simp: message_MarkReceipt_def Let_def simp del: map_map split: option.split)
qed

text \<open>The rows the code writes.\<close>

lemmas outbound_defs = outbound_row_def outbound_text_def outbound_media_def outbound_audio_def blank_message_def Let_def

lemma outbound_status_ok:
  "status_ok (outbound_text tenantID i input result)" "status_ok (outbound_media tenantID i media result)"
  "status_ok (outbound_audio tenantID i audio result)"
  by (simp_all add: outbound_defs status_ok_def)

lemma outbound_owned:
  assumes "resolve db tenantID reference = Inr i"
  shows "owned db (outbound_text tenantID i input result)" "owned db (outbound_media tenantID i media result)"
    "owned db (outbound_audio tenantID i audio result)"
  using resolve_sound [OF assms] by (auto simp: outbound_defs owned_def)

lemma inbound_row_fine: "i \<in> set (ad_instances db) \<Longrightarrow> status_ok (inbound_row i m) \<and> owned db (inbound_row i m)"
  by (auto simp: inbound_row_def blank_message_def status_ok_def owned_def)

lemma send_cases:
  "SendText db ensured newID now tenantID reference input (Some h) = (result, Some h') \<Longrightarrow> h' \<noteq> h \<Longrightarrow>
     \<exists>i r. resolve db tenantID reference = Inr i \<and> h' = snd (message_Upsert newID now (Some (outbound_text tenantID i input r)) h)"
  "SendMedia db ensured newID now tenantID reference media (Some h) = (result, Some h') \<Longrightarrow> h' \<noteq> h \<Longrightarrow>
     \<exists>i r m. resolve db tenantID reference = Inr i \<and> h' = snd (message_Upsert newID now (Some (outbound_media tenantID i m r)) h)"
  "SendAudio db ensured newID now tenantID reference audio (Some h) = (result, Some h') \<Longrightarrow> h' \<noteq> h \<Longrightarrow>
     \<exists>i r a. resolve db tenantID reference = Inr i \<and> h' = snd (message_Upsert newID now (Some (outbound_audio tenantID i a r)) h)"
  by (auto simp: SendText_def SendMedia_def SendAudio_def persistOutboundText_def persistOutboundMedia_def
      persistOutboundAudio_def persist_def Let_def split: sum.splits if_split_asm)

lemma history_step_inv: "history_step db h h' \<Longrightarrow> history_inv db h \<Longrightarrow> history_inv db h'"
proof (induction rule: history_step.induct)
  case Text
  then show ?case using send_cases(1) upsert_inv outbound_status_ok(1) outbound_owned(1) by metis
next
  case Media
  then show ?case using send_cases(2) upsert_inv outbound_status_ok(2) outbound_owned(2) by metis
next
  case Audio
  then show ?case using send_cases(3) upsert_inv outbound_status_ok(3) outbound_owned(3) by metis
next
  case (Inbound newID h now m)
  show ?case
  proof (cases "instance_GetByGlobalID db (im_instance_id m)")
    case (Inr i)
    then have "i \<in> set (ad_instances db)" unfolding instance_GetByGlobalID_def by (blast dest: gorm_first_Inr)
    with Inr Inbound show ?thesis using upsert_inv inbound_row_fine by (simp add: inbound_listener_def)
  qed (use Inbound in \<open>simp add: inbound_listener_def\<close>)
next
  case Receipt
  then show ?case unfolding receipt_listener_def by (rule history_receipt_inv)
qed (simp add: history_inv_def)

text \<open>
  C28: In every state the history can reach, no two rows have the same instance and message id, every row belongs to
  the tenant its instance belongs to, and its status fits its direction and its times: a message that went out is
  sent, delivered or read, one that came in received, delivered or read, with the time of the delivery from then
  on and the time it was read when it was.
\<close>

theorem history_rows_consistent:
  assumes "history_reachable db h"
  shows "history_inv db h"
  using assms unfolding history_reachable_def
proof (induction rule: rtranclp_induct)
  case base
  show ?case by (simp add: history_inv_def empty_history_def)
next
  case (step y z)
  then show ?case by (blast intro: history_step_inv)
qed

section \<open>A sent message is found\<close>

text \<open>A table keeps one row under the key that was written.\<close>

lemma upsert_row:
  assumes "md_refuse h (created_row newID now m) = None"
  shows "\<exists>m' i c. m' \<in> set (md_messages (snd (message_Upsert newID now (Some m) h))) \<and>
    m' = (created_row newID now m)\<lparr>cm_id := i, cm_created_at := c\<rparr>"
proof (cases "message_key m \<in> message_key ` set (md_messages h)")
  case True
  then obtain x where x: "x \<in> set (md_messages h)" "message_key x = message_key m" by auto
  let ?m = "overwrite (created_row newID now m) x"
  have "?m \<in> set (md_messages (snd (message_Upsert newID now (Some m) h)))"
    using assms True x by (auto simp: message_Upsert_def Let_def image_iff)
  then show ?thesis
    by (intro exI [of _ ?m] exI [of _ "cm_id x"] exI [of _ "cm_created_at x"]) (simp add: overwrite_def)
next
  case False
  let ?m = "created_row newID now m"
  have "?m \<in> set (md_messages (snd (message_Upsert newID now (Some m) h)))"
    using assms False by (simp add: message_Upsert_def Let_def)
  moreover have "?m = ?m\<lparr>cm_id := cm_id ?m, cm_created_at := cm_created_at ?m\<rparr>" by (cases ?m) simp
  ultimately show ?thesis by (intro exI conjI)
qed

lemma filter_single:
  assumes "distinct (map k ms)" and "m \<in> set ms" and "P m" and "\<And>x. P x \<Longrightarrow> k x = k m"
  shows "filter P ms = [m]"
  using assms
proof (induction ms)
  case (Cons x ms)
  show ?case
  proof (cases "x = m")
    case True
    have "\<not> P y" if "y \<in> set ms" for y
      using that Cons.prems(1,4) True by (force simp: image_iff)
    with True Cons.prems(3) show ?thesis by (simp add: filter_empty_conv)
  next
    case False
    then have m: "m \<in> set ms" using Cons.prems(2) by simp
    then have "\<not> P x" using Cons.prems(1,4) by (force simp: image_iff)
    moreover have "filter P ms = [m]"
      by (rule Cons.IH [OF _ m Cons.prems(3,4)]) (use Cons.prems(1) in simp_all)
    ultimately show ?thesis by simp
  qed
qed simp

lemma newest_first_single [simp]: "newest_first [m] = [m]"
  by (simp add: newest_first_def)

lemma search_by_id:
  assumes inv: "history_inv db h" and r: "resolve db tenantID reference = Inr i" and up: "md_outage h = None"
    and f: "normalizeMessageSearchRequest r = Inr f" and c: "request_cursor r = []"
    and m: "m \<in> set (md_messages h)" "wanted tenantID (in_id i) r m" and ext: "request_message_id r \<noteq> []"
  shows "SearchMessages db tenantID reference r None (Some h) = Inr [toLegacyMessageRecord m]"
proof -
  have "filter (message_matches tenantID (in_id i) (list_filter f)) (md_messages h) = [m]"
  proof (rule filter_single)
    show "distinct (map message_key (md_messages h))" using inv by (simp add: history_inv_def)
    show "message_matches tenantID (in_id i) (list_filter f) m"
      using m(2) c by (simp add: matches_wanted [OF f] before_cursor_def parseHistoryCursor_def)
    show "message_key x = message_key m" if "message_matches tenantID (in_id i) (list_filter f) x" for x
      using that m(2) ext by (simp add: matches_wanted [OF f] wanted_def message_key_def)
  qed (rule m(1))
  moreover have "0 < nat (request_limit r)" using request_limit_bounds [of r] by simp
  ultimately have "message_List tenantID (in_id i) (list_filter f) h = Inr [m]"
    using up limit_of_filter [OF f] by (simp add: message_List_def take_Cons')
  with r f show ?thesis by (simp add: SearchMessages_def toLegacyMessageRecords_def)
qed

text \<open>
  C29: A text message the engine has taken is in the history: as long as the table takes the row, a search of the
  chat for the id the engine gave answers with one record, of an outgoing message that is sent, with the text that
  was sent and the engine's time, whatever had happened to the history before.
\<close>

theorem sent_text_found:
  assumes "history_reachable db h" and "newID \<noteq> []"
    and "SendText db ensured newID now tenantID reference input (Some h) = (Inr result, Some h')"
    and "md_outage h = None" and "\<forall>m. md_refuse h m = None"
    and "normalizeMessageSearchRequest r = Inr f" and "request_message_id r = sr_message_id result"
    and "sr_message_id result \<noteq> []" and "request_query r = []" and "request_cursor r = []"
    and "request_jid r = firstString [sr_chat result, trim_space (st_number input)]"
  shows "\<exists>m. SearchMessages db tenantID reference r None (Some h') = Inr [m] \<and> lr_id m = sr_message_id result \<and>
    lr_from_me m \<and> lr_status m = ''sent'' \<and> lr_text m = trim_space (st_text input) \<and>
    lr_timestamp m = format_rfc3339 (sr_timestamp result)"
proof -
  from assms(3) obtain i where i: "resolve db tenantID reference = Inr i" and nonblank: "trim_space (st_text input) \<noteq> []"
    and h': "h' = snd (message_Upsert newID now (Some (outbound_text tenantID i input result)) h)"
    by (auto simp: SendText_def persistOutboundText_def persist_def split: sum.splits if_split_asm)
  let ?row = "outbound_text tenantID i input result"
  have inv: "history_inv db h'" unfolding h'
    by (rule upsert_inv [OF history_rows_consistent [OF assms(1)] outbound_status_ok(1) outbound_owned(1) [OF i] assms(2)])
  have up: "md_outage h' = None" using assms(4) unfolding h'
    by (simp add: message_Upsert_def Let_def split: option.split)
  from upsert_row [OF assms(5) [rule_format], of newID now ?row] obtain m n c where m: "m \<in> set (md_messages h')"
    "m = (created_row newID now ?row)\<lparr>cm_id := n, cm_created_at := c\<rparr>" unfolding h' by (elim exE conjE)
  have row: "cm_tenant_id m = tenantID" "cm_instance_id m = in_id i" "cm_remote_jid m = request_jid r"
    "cm_external_message_id m = sr_message_id result" "cm_direction m = ''outbound''" "cm_status m = ''sent''"
    "cm_body m = trim_space (st_text input)" "cm_message_timestamp m = sr_timestamp result"
    unfolding m(2) by (simp_all add: created_row_def outbound_defs assms(11))
  have id: "trim_space (sr_message_id result) = sr_message_id result" using assms(7) by (metis request_fields_trimmed(2))
  have w: "wanted tenantID (in_id i) r m" using row assms(7,9) by (simp add: wanted_def)
  have "SearchMessages db tenantID reference r None (Some h') = Inr [toLegacyMessageRecord m]"
    by (rule search_by_id [OF inv i up assms(6,10) m(1) w]) (use assms(7,8) in simp)
  moreover have "to_lower ''outbound'' = ''outbound''" by code_simp
  ultimately show ?thesis using row id nonblank assms(8)
    by (simp add: toLegacyMessageRecord_def Let_def extractStoredMessageText_def)
qed

section \<open>Receipts\<close>

lemma image_replace:
  assumes "\<And>x. x \<in> S \<Longrightarrow> P x \<longleftrightarrow> x = m" and "m \<in> S"
  shows "(\<lambda>x. if P x then f x else x) ` S = insert (f m) (S - {m})"
  using assms by force

text \<open>
  A receipt for a message of the history sets the status, the time of the delivery and, when it says read, the
  time it was read of that one row, and changes no other row; the last receipt decides.
\<close>

theorem receipt_updates_one_row:
  assumes "history_reachable db h" and "md_outage h = None" and "m \<in> set (md_messages h)"
    and "message_key m = (trim_space instanceID, trim_space messageID)"
    and "trim_space instanceID \<noteq> []" and "trim_space messageID \<noteq> []"
    and "lower_trim state \<in> {''delivered'', ''read''}"
  shows "\<exists>m'. set (md_messages (receipt_listener instanceID messageID state at now h)) =
      insert m' (set (md_messages h) - {m}) \<and>
    message_key m' = message_key m \<and> cm_status m' = lower_trim state \<and> cm_delivered_at m' = Some at \<and>
    cm_read_at m' = (if lower_trim state = ''read'' then Some at else cm_read_at m)"
proof -
  let ?key = "(trim_space instanceID, trim_space messageID)"
  let ?g = "\<lambda>x. if message_key x = ?key then message_receipt (lower_trim state) at now x else x"
  have "md_messages (receipt_listener instanceID messageID state at now h) = map ?g (md_messages h)"
    using assms(2,5-7) by (simp add: receipt_listener_def message_MarkReceipt_def Let_def)
  moreover have "x = m" if "x \<in> set (md_messages h)" "message_key x = ?key" for x
  proof (rule inj_onD [of message_key "set (md_messages h)"])
    show "inj_on message_key (set (md_messages h))"
      using history_rows_consistent [OF assms(1)] by (simp add: history_inv_def distinct_map)
  qed (use that assms(3,4) in simp_all)
  then have "?g ` set (md_messages h) = insert (message_receipt (lower_trim state) at now m) (set (md_messages h) - {m})"
    by (intro image_replace) (use assms(3,4) in blast)+
  ultimately have "set (md_messages (receipt_listener instanceID messageID state at now h)) =
      insert (message_receipt (lower_trim state) at now m) (set (md_messages h) - {m})" by (simp only: set_map)
  then show ?thesis using assms(7)
    by (intro exI [of _ "message_receipt (lower_trim state) at now m"] conjI) (auto simp: message_receipt_def message_key_def)
qed

text \<open>A delivery that is reported after the message was read takes the status back.\<close>

lemma late_delivery_takes_read_back:
  "cm_status (message_receipt ''delivered'' t2 now2 (message_receipt ''read'' t1 now1 m)) = ''delivered''"
  by (simp add: message_receipt_def)

section \<open>Groups\<close>

lemma like_group: "like ''%@g.us'' s \<longleftrightarrow> has_suffix s ''@g.us''"
proof -
  have "plain_text ''@g.us''" by code_simp
  from like_plain [OF this, of "[]"] have group: "like ''@g.us'' b \<longleftrightarrow> b = ''@g.us''" for b by simp
  have "like ''%@g.us'' s \<longleftrightarrow> (\<exists>a b. s = a @ b \<and> like ''@g.us'' b)" by (rule like_percent)
  also have "\<dots> \<longleftrightarrow> has_suffix s ''@g.us''" by (simp only: group has_suffix_iff) blast
  finally show ?thesis .
qed

lemma sum_list_insort: "sum_list (map f (insort_key k x xs)) = f x + sum_list (map f xs)"
  for f :: "'a \<Rightarrow> int" and k :: "'a \<Rightarrow> int"
  by (induction xs) auto

lemma sum_list_sort [simp]: "sum_list (map f (sort_key k xs)) = sum_list (map f xs)"
  for f :: "'a \<Rightarrow> int" and k :: "'a \<Rightarrow> int"
  by (induction xs) (simp_all add: sum_list_insort)

lemma counts_add_up: "sum_list (map (\<lambda>k. int (length (filter (\<lambda>m. g m = k) ms))) (remdups (map g ms))) = int (length ms)"
proof -
  have "length (filter (\<lambda>m. g m = k) ms) = count_list (map g ms) k" for k by (induction ms) auto
  then have "sum_list (map (\<lambda>k. int (length (filter (\<lambda>m. g m = k) ms))) (remdups (map g ms))) =
      (\<Sum>k \<in> set (map g ms). int (count_list (map g ms) k))"
    by (subst sum.set_conv_list) (simp del: set_map)
  also have "\<dots> = int (length (map g ms))"
    by (simp only: of_nat_sum [symmetric]) (simp only: sum_count_set [OF subset_refl finite_set])
  finally show ?thesis by simp
qed

text \<open>
  The groups a tenant gets for an instance count the messages of the chats of groups of this instance, each once
  and none of another tenant, although the query of the groups does not ask for the tenant.
\<close>

theorem groups_stay_in_tenant:
  assumes "history_reachable db h" and "distinct (map in_id (ad_instances db))"
    and "LegacyFetchAllGroups db tenantID reference h = Inr gs"
  shows "\<exists>i. resolve db tenantID reference = Inr i \<and>
    sum_list (map gr_message_count gs) =
      int (length (filter (\<lambda>m. cm_tenant_id m = tenantID \<and> cm_instance_id m = in_id i \<and>
        has_suffix (cm_remote_jid m) ''@g.us'') (md_messages h)))"
proof -
  from assms(3) obtain i where i: "resolve db tenantID reference = Inr i" and up: "md_outage h = None"
    by (auto simp: LegacyFetchAllGroups_def FetchGroups_def message_ListGroups_def split: sum.splits option.splits)
  let ?ms = "filter (\<lambda>m. cm_instance_id m = in_id i \<and> has_suffix (cm_remote_jid m) ''@g.us'') (md_messages h)"
  let ?groups = "sort_key (\<lambda>g. - gs_last_message g) (map (group_summary ?ms) (remdups (map group_key ?ms)))"
  have gs: "gs = map (group_record (in_id i)) ?groups"
    using assms(3) i up
    by (simp add: LegacyFetchAllGroups_def FetchGroups_def message_ListGroups_def like_group Let_def del: like.simps)
  have "sum_list (map gr_message_count gs) = sum_list (map gs_message_count ?groups)"
    by (simp add: gs group_record_def comp_def)
  also have "\<dots> = sum_list (map gs_message_count (map (group_summary ?ms) (remdups (map group_key ?ms))))"
    by (rule sum_list_sort)
  also have "\<dots> = int (length ?ms)"
    using counts_add_up [of group_key ?ms] by (simp add: group_summary_def Let_def comp_def)
  finally have sum: "sum_list (map gr_message_count gs) = int (length ?ms)" .
  have "cm_tenant_id m = tenantID" if m: "m \<in> set (md_messages h)" "cm_instance_id m = in_id i" for m
  proof -
    from m history_rows_consistent [OF assms(1)] obtain j where
      j: "j \<in> set (ad_instances db)" "in_id j = in_id i" "in_tenant_id j = cm_tenant_id m"
      by (auto simp: history_inv_def row_ok_def owned_def)
    from resolve_sound [OF i] have "i \<in> set (ad_instances db)" "in_tenant_id i = tenantID" by auto
    moreover have "inj_on in_id (set (ad_instances db))" using assms(2) by (simp add: distinct_map)
    ultimately have "j = i" using j(1,2) by (blast dest: inj_onD)
    with j(3) \<open>in_tenant_id i = tenantID\<close> show ?thesis by simp
  qed
  then have "?ms = filter (\<lambda>m. cm_tenant_id m = tenantID \<and> cm_instance_id m = in_id i \<and>
      has_suffix (cm_remote_jid m) ''@g.us'') (md_messages h)" by (intro filter_cong refl) blast
  with sum i show ?thesis by (intro exI [of _ i] conjI) simp_all
qed

section \<open>An example\<close>

definition sent_result :: SendResult where
  "sent_result =
     \<lparr>sr_message_id = ''E1'', sr_server_id = 7, sr_chat = ''9@g.us'', sr_from_me = True,
      sr_timestamp = 63900000000 * second, sr_message_type = ''conversation''\<rparr>"

definition sample_engine :: sending_engine where
  "sample_engine =
     \<lparr>sg_legacy = True, sg_SendText = (\<lambda>_ _ _. Inr sent_result), sg_SendMedia = (\<lambda>_ _. Inr sent_result),
      sg_SendAudio = (\<lambda>_ _. Inr sent_result)\<rparr>"

definition sample_text :: SendTextInput where "sample_text = \<lparr>st_number = ''9'', st_text = '' hi ''\<rparr>"

definition sent_row :: ConversationMessage where
  "sent_row =
     created_row ''u1'' 9 (outbound_text ''t'' paging_instance sample_text sent_result)"

definition sent_history :: message_db where
  "sent_history = empty_history\<lparr>md_messages := [sent_row]\<rparr>"

definition id_request :: MessageSearchRequest where
  "id_request =
     \<lparr>mr_where = [], mr_limit = 0, mr_cursor = [], mr_remote_jid = ''9@g.us'', mr_remote_jid_alt = [], mr_chat_jid = [],
      mr_jid = [], mr_message_id = ''E1'', mr_message_id_alt = [], mr_query = []\<rparr>"

lemma sample_send:
  "SendText paging_auth (Some sample_engine, None) ''u1'' 9 ''t'' ''i'' sample_text (Some empty_history) =
     (Inr sent_result, Some sent_history)"
proof -
  have "trim_space ''9'' = ''9''" "trim_space '' hi '' = ''hi''" by code_simp+
  then show ?thesis
    by (simp add: SendText_def paging_resolve legacy_runtime_def sample_engine_def persistOutboundText_def persist_def
        message_Upsert_def empty_history_def sent_history_def sent_row_def sample_text_def)
qed

lemma sent_history_reachable: "history_reachable paging_auth sent_history"
proof -
  have "history_step paging_auth empty_history sent_history" by (rule Text [OF sample_send]) simp
  then show ?thesis unfolding history_reachable_def by (rule r_into_rtranclp)
qed

lemma history_rows_consistent_witness: "history_inv paging_auth sent_history \<and> md_messages sent_history = [sent_row]"
  using history_rows_consistent [OF sent_history_reachable] by (simp add: sent_history_def)

lemma sent_text_found_witness:
  "\<exists>m. SearchMessages paging_auth ''t'' ''i'' id_request None (Some sent_history) = Inr [m] \<and> lr_id m = ''E1'' \<and>
     lr_status m = ''sent'' \<and> lr_text m = ''hi''"
proof -
  have start: "history_reachable paging_auth empty_history" by (simp add: history_reachable_def)
  have f: "normalizeMessageSearchRequest id_request =
      Inr \<lparr>sf_remote_jid = ''9@g.us'', sf_message_id = ''E1'', sf_query = [], sf_limit = 100, sf_before = None\<rparr>"
    by code_simp
  have fields: "request_message_id id_request = sr_message_id sent_result" "sr_message_id sent_result \<noteq> []"
    "request_query id_request = []" "request_cursor id_request = []"
    "request_jid id_request = firstString [sr_chat sent_result, trim_space (st_number sample_text)]"
    "trim_space (st_text sample_text) = ''hi''" "sr_message_id sent_result = ''E1''"
    by code_simp+
  have up: "md_outage empty_history = None" "\<forall>m. md_refuse empty_history m = None" by (simp_all add: empty_history_def)
  from sent_text_found [OF start _ sample_send up f fields(1-5)] show ?thesis unfolding fields(6,7) by blast
qed

lemma receipt_updates_one_row_witness:
  "\<exists>m'. set (md_messages (receipt_listener ''i'' '' E1'' ''READ'' 11 12 sent_history)) = {m'} \<and> cm_status m' = ''read''"
proof -
  have m: "sent_row \<in> set (md_messages sent_history)" "md_messages sent_history = [sent_row]" "md_outage sent_history = None"
    by (simp_all add: sent_history_def empty_history_def)
  have "message_key sent_row = (trim_space ''i'', trim_space '' E1'')" "trim_space ''i'' \<noteq> []" "trim_space '' E1'' \<noteq> []"
    "lower_trim ''READ'' = ''read''" by code_simp+
  with receipt_updates_one_row [OF sent_history_reachable m(3,1), of "''i''" "'' E1''" "''READ''" 11 12] m(2)
  show ?thesis by auto
qed

lemma groups_stay_in_tenant_witness:
  "\<exists>gs. LegacyFetchAllGroups paging_auth ''t'' ''i'' sent_history = Inr gs \<and> sum_list (map gr_message_count gs) = 1"
proof -
  have d: "distinct (map in_id (ad_instances paging_auth))" by (simp add: paging_auth_def)
  have up: "md_outage sent_history = None" by (simp add: sent_history_def empty_history_def)
  then obtain gs where gs: "LegacyFetchAllGroups paging_auth ''t'' ''i'' sent_history = Inr gs"
    using paging_resolve by (auto simp: LegacyFetchAllGroups_def FetchGroups_def message_ListGroups_def Let_def)
  have "filter (\<lambda>m. cm_tenant_id m = ''t'' \<and> cm_instance_id m = in_id paging_instance \<and>
      has_suffix (cm_remote_jid m) ''@g.us'') (md_messages sent_history) = [sent_row]"
  proof -
    have "cm_tenant_id sent_row = ''t''" "cm_instance_id sent_row = in_id paging_instance"
      "has_suffix (cm_remote_jid sent_row) ''@g.us''" by code_simp+
    then show ?thesis by (simp add: sent_history_def)
  qed
  with groups_stay_in_tenant [OF sent_history_reachable d gs] paging_resolve gs show ?thesis by auto
qed

end
