(* ===== verification/Interval_Gate.thy ===== *)
theory Interval_Gate
  imports Prelude
begin

text \<open>
  Gates that let the same thing through at most once in an interval: a map from keys to the time each was last let
  through. The observations of the runtime, the registry of lifecycle events and the noisy log lines each have
  one. The locale states what such a gate is; its lemmas say how far apart the passes of a key are and when an
  attempt passes.
\<close>

text \<open>The common step: a key seen less than an interval ago, at a time that is not zero, is held back.\<close>

definition gate_try :: "duration \<Rightarrow> string \<Rightarrow> time \<Rightarrow> (string \<rightharpoonup> time) \<Rightarrow> bool \<times> (string \<rightharpoonup> time)" where
  "gate_try interval key now seen =
     (case seen key of
        Some t \<Rightarrow> if t \<noteq> 0 \<and> now - t < interval then (False, seen) else (True, seen(key \<mapsto> now))
      | None \<Rightarrow> (True, seen(key \<mapsto> now)))"

locale interval_gate =
  fixes interval :: duration
    and attempt :: "'k \<Rightarrow> time \<Rightarrow> 's \<Rightarrow> bool \<times> 's"
    and passed_at :: "'s \<Rightarrow> 'k \<Rightarrow> time option"
  assumes positive: "0 < interval"
    and decision: "fst (attempt k t s) \<longleftrightarrow> (case passed_at s k of None \<Rightarrow> True | Some l \<Rightarrow> l = 0 \<or> interval \<le> t - l)"
    and held: "\<not> fst (attempt k t s) \<Longrightarrow> passed_at (snd (attempt k t s)) = passed_at s"
    and noted: "fst (attempt k t s) \<Longrightarrow> passed_at (snd (attempt k t s)) = (passed_at s)(k := Some t)"
begin

text \<open>A run of attempts and the passes it has had, the latest first.\<close>

fun gate_run :: "('k \<times> time) list \<Rightarrow> 's \<Rightarrow> ('k \<times> time) list \<Rightarrow> ('k \<times> time) list \<times> 's" where
  "gate_run [] s passes = (passes, s)"
| "gate_run ((k, t) # as) s passes =
     gate_run as (snd (attempt k t s)) (if fst (attempt k t s) then (k, t) # passes else passes)"

definition spaced :: "('k \<times> time) list \<Rightarrow> bool" where
  "spaced passes \<longleftrightarrow> sorted_wrt (\<lambda>(k, t) (k', t'). k = k' \<longrightarrow> interval \<le> t - t') passes"

definition tracked :: "('k \<times> time) list \<Rightarrow> 's \<Rightarrow> bool" where
  "tracked passes s \<longleftrightarrow> (\<forall>k. passed_at s k = map_of passes k)"

lemma tracked_step:
  "tracked passes s \<Longrightarrow>
     tracked (if fst (attempt k t s) then (k, t) # passes else passes) (snd (attempt k t s))"
  by (auto simp: tracked_def held noted)

text \<open>The latest pass of a key bounds all of them.\<close>

lemma spaced_latest:
  assumes "spaced passes" and "map_of passes k = Some l" and "(k, t) \<in> set passes"
  shows "t = l \<or> interval \<le> l - t"
  using assms by (induction passes) (auto simp: spaced_def split: if_splits)

lemma map_of_member: "(k, t) \<in> set passes \<Longrightarrow> \<exists>l. map_of passes k = Some l"
  by (metis domI dom_map_of_conv_image_fst fst_conv image_eqI domD)

lemma spaced_step:
  assumes "spaced passes" and "tracked passes s" and "fst (attempt k t s)" and "\<forall>p \<in> set passes. snd p \<noteq> 0"
  shows "spaced ((k, t) # passes)"
proof -
  have "interval \<le> t - t'" if "(k, t') \<in> set passes" for t'
  proof -
    from map_of_member [OF that] obtain l where l: "map_of passes k = Some l" by blast
    then have "(k, l) \<in> set passes" by (rule map_of_SomeD)
    then have "l \<noteq> 0" using assms(4) by force
    then have "interval \<le> t - l" using assms(2,3) l by (simp add: tracked_def decision)
    with spaced_latest [OF assms(1) l that] positive show ?thesis by linarith
  qed
  with assms(1) show ?thesis by (auto simp: spaced_def)
qed

lemma gate_run_spaced:
  assumes "spaced passes" and "tracked passes s" and "\<forall>p \<in> set passes. snd p \<noteq> 0" and "\<forall>a \<in> set as. snd a \<noteq> 0"
  shows "spaced (fst (gate_run as s passes)) \<and> tracked (fst (gate_run as s passes)) (snd (gate_run as s passes))"
  using assms
proof (induction as arbitrary: s passes)
  case (Cons a as)
  obtain k t where a: "a = (k, t)" by (rule prod.exhaust)
  let ?p = "if fst (attempt k t s) then (k, t) # passes else passes"
  have "spaced ?p" using spaced_step [of passes s k t] Cons.prems by (simp split: if_split)
  moreover have "\<forall>p \<in> set ?p. snd p \<noteq> 0" using Cons.prems(3,4) a by auto
  ultimately show ?case
    using Cons.IH [of ?p "snd (attempt k t s)"] tracked_step [OF Cons.prems(2), of k t] Cons.prems(4) a by simp
qed simp

text \<open>An attempt passes exactly when no earlier pass of its key is less than an interval ago.\<close>

lemma gate_passes_iff:
  assumes "spaced passes" and "tracked passes s" and "\<forall>p \<in> set passes. snd p \<noteq> 0"
  shows "fst (attempt k t s) \<longleftrightarrow> (\<forall>t'. (k, t') \<in> set passes \<longrightarrow> interval \<le> t - t')"
proof (cases "map_of passes k")
  case None
  then have "\<forall>t'. (k, t') \<notin> set passes" using map_of_member by fastforce
  with None assms(2) show ?thesis by (simp add: tracked_def decision)
next
  case (Some l)
  then have l: "(k, l) \<in> set passes" by (rule map_of_SomeD)
  then have "l \<noteq> 0" using assms(3) by force
  then have now: "fst (attempt k t s) \<longleftrightarrow> interval \<le> t - l" using Some assms(2) by (simp add: tracked_def decision)
  show ?thesis
  proof
    assume p: "fst (attempt k t s)"
    show "\<forall>t'. (k, t') \<in> set passes \<longrightarrow> interval \<le> t - t'"
    proof (intro allI impI)
      fix t' assume "(k, t') \<in> set passes"
      from spaced_latest [OF assms(1) Some this] show "interval \<le> t - t'" using p now positive by linarith
    qed
  qed (use l now in blast)
qed

end

lemma gate_try_interval_gate: "0 < interval \<Longrightarrow> interval_gate interval (gate_try interval) (\<lambda>seen. seen)"
  by unfold_locales (auto simp: gate_try_def split: option.splits if_splits)

end
