(* ===== verification/Engine_Store.thy ===== *)
theory Engine_Store
  imports Auth_Store
begin

text \<open>
  The engine's own table of instances (\<open>pkg/instance/model\<close>, \<open>pkg/instance/repository\<close>) and its event types
  (\<open>pkg/internal/event_types\<close>). The check of a UUID is a library's, the argument \<open>uuid_ok\<close>. The column \<open>proxy\<close>
  holds a text the code writes itself: nothing, the JSON null, or the settings of a proxy.
\<close>

section \<open>Event types\<close>

definition AllEventTypes :: "string list" where
  "AllEventTypes =
     [''MESSAGE'', ''SEND_MESSAGE'', ''READ_RECEIPT'', ''PRESENCE'', ''HISTORY_SYNC'', ''CHAT_PRESENCE'', ''CALL'',
      ''CONNECTION'', ''LABEL'', ''CONTACT'', ''GROUP'', ''NEWSLETTER'', ''QRCODE'', ''BUTTON_CLICK'', ''PICTURE'',
      ''USER_ABOUT'']"

definition IsEventType :: "string \<Rightarrow> bool" where
  "IsEventType eventType \<longleftrightarrow> eventType \<in> set (''ALL'' # AllEventTypes)"

section \<open>Rows\<close>

record EngineProxy =
  px_host :: string
  px_port :: string
  px_username :: string
  px_password :: string

datatype proxy_column = ProxyBlank | ProxyNull | ProxySet EngineProxy

definition no_proxy :: EngineProxy where
  "no_proxy = \<lparr>px_host = [], px_port = [], px_username = [], px_password = []\<rparr>"

text \<open>\<open>json.Unmarshal\<close> of the column into a fresh \<open>ProxyConfig\<close>: the empty text is no JSON.\<close>

definition unmarshal_proxy :: "proxy_column \<Rightarrow> go_error + EngineProxy" where
  "unmarshal_proxy c =
     (case c of
        ProxyBlank \<Rightarrow> Inl (plain_error ''unexpected end of JSON input'')
      | ProxyNull \<Rightarrow> Inr no_proxy
      | ProxySet p \<Rightarrow> Inr p)"

record EngineInstance =
  ei_id :: string
  ei_name :: string
  ei_token :: string
  ei_webhook :: string
  ei_rabbitmq_enable :: string
  ei_websocket_enable :: string
  ei_nats_enable :: string
  ei_jid :: string
  ei_qrcode :: string
  ei_connected :: bool
  ei_expiration :: int
  ei_disconnect_reason :: string
  ei_events :: string
  ei_os_name :: string
  ei_proxy :: proxy_column
  ei_client_name :: string
  ei_created_at :: time
  ei_always_online :: bool
  ei_reject_call :: bool
  ei_msg_reject_call :: string
  ei_read_messages :: bool
  ei_ignore_groups :: bool
  ei_ignore_status :: bool

record AdvancedSettings =
  as_always_online :: bool
  as_reject_call :: bool
  as_msg_reject_call :: string
  as_read_messages :: bool
  as_ignore_groups :: bool
  as_ignore_status :: bool

text \<open>Of the labels and messages of the engine the deletion of an instance sees whose they are.\<close>

record engine_db =
  ed_rows :: "EngineInstance list"
  ed_labels :: "string list"
  ed_messages :: "string list"
  ed_outage :: "go_error option"

section \<open>The repository\<close>

definition engine_Create :: "string \<Rightarrow> EngineInstance \<Rightarrow> engine_db \<Rightarrow> (go_error + EngineInstance) \<times> engine_db" where
  "engine_Create newID i db =
     (let i = (if ei_id i = [] then i\<lparr>ei_id := newID\<rparr> else i) in
      case ed_outage db of
        Some e \<Rightarrow> (Inl e, db)
      | None \<Rightarrow>
          if \<exists>x \<in> set (ed_rows db). ei_id x = ei_id i \<or> ei_token x = ei_token i then (Inl duplicate_key, db)
          else (Inr i, db\<lparr>ed_rows := ed_rows db @ [i]\<rparr>))"

definition engine_GetInstanceByToken :: "string \<Rightarrow> engine_db \<Rightarrow> go_error + EngineInstance" where
  "engine_GetInstanceByToken token db = gorm_first (ed_outage db) ei_id (\<lambda>i. ei_token i = token) (ed_rows db)"

definition engine_GetInstanceByName :: "string \<Rightarrow> engine_db \<Rightarrow> go_error + EngineInstance" where
  "engine_GetInstanceByName name db = gorm_first (ed_outage db) ei_id (\<lambda>i. ei_name i = name) (ed_rows db)"

definition engine_GetInstanceByID :: "(string \<Rightarrow> bool) \<Rightarrow> string \<Rightarrow> engine_db \<Rightarrow> go_error + EngineInstance" where
  "engine_GetInstanceByID uuid_ok instanceId db =
     (if \<not> uuid_ok instanceId then Inl (plain_error ''invalid UUID format'')
      else gorm_first (ed_outage db) ei_id (\<lambda>i. ei_id i = instanceId) (ed_rows db))"

definition engine_GetConnectedInstanceByID :: "string \<Rightarrow> engine_db \<Rightarrow> go_error + EngineInstance" where
  "engine_GetConnectedInstanceByID instanceId db =
     gorm_first (ed_outage db) ei_id (\<lambda>i. ei_id i = instanceId \<and> ei_connected i) (ed_rows db)"

text \<open>\<open>Save\<close>: all columns of the row with the id, a new row when there is none; tokens stay unique.\<close>

definition engine_Update :: "EngineInstance \<Rightarrow> engine_db \<Rightarrow> go_error option \<times> engine_db" where
  "engine_Update i db =
     (case ed_outage db of
        Some e \<Rightarrow> (Some e, db)
      | None \<Rightarrow>
          if \<exists>x \<in> set (ed_rows db). ei_id x \<noteq> ei_id i \<and> ei_token x = ei_token i then (Some duplicate_key, db)
          else if \<exists>x \<in> set (ed_rows db). ei_id x = ei_id i
          then (None, db\<lparr>ed_rows := map (\<lambda>x. if ei_id x = ei_id i then i else x) (ed_rows db)\<rparr>)
          else (None, db\<lparr>ed_rows := ed_rows db @ [i]\<rparr>))"

text \<open>\<open>Update\<close> of columns of the row with an id.\<close>

definition engine_update_row ::
  "string \<Rightarrow> (EngineInstance \<Rightarrow> EngineInstance) \<Rightarrow> engine_db \<Rightarrow> go_error option \<times> engine_db" where
  "engine_update_row rowID f db =
     (case ed_outage db of
        Some e \<Rightarrow> (Some e, db)
      | None \<Rightarrow> (None, db\<lparr>ed_rows := map (\<lambda>x. if ei_id x = rowID then f x else x) (ed_rows db)\<rparr>))"

definition engine_UpdateConnected :: "string \<Rightarrow> bool \<Rightarrow> string \<Rightarrow> engine_db \<Rightarrow> go_error option \<times> engine_db" where
  "engine_UpdateConnected userId status disconnectReason =
     engine_update_row userId (\<lambda>x. x\<lparr>ei_connected := status, ei_disconnect_reason := disconnectReason\<rparr>)"

definition engine_UpdateQrcode :: "string \<Rightarrow> string \<Rightarrow> engine_db \<Rightarrow> go_error option \<times> engine_db" where
  "engine_UpdateQrcode userId qr = engine_update_row userId (\<lambda>x. x\<lparr>ei_qrcode := qr\<rparr>)"

definition engine_UpdateProxy :: "string \<Rightarrow> proxy_column \<Rightarrow> engine_db \<Rightarrow> go_error option \<times> engine_db" where
  "engine_UpdateProxy userId proxy = engine_update_row userId (\<lambda>x. x\<lparr>ei_proxy := proxy\<rparr>)"

definition engine_UpdateJid :: "string \<Rightarrow> string \<Rightarrow> engine_db \<Rightarrow> go_error option \<times> engine_db" where
  "engine_UpdateJid userId jid = engine_update_row userId (\<lambda>x. x\<lparr>ei_jid := jid\<rparr>)"

definition engine_rows_where :: "(EngineInstance \<Rightarrow> bool) \<Rightarrow> engine_db \<Rightarrow> go_error + EngineInstance list" where
  "engine_rows_where P db = (case ed_outage db of Some e \<Rightarrow> Inl e | None \<Rightarrow> Inr (filter P (ed_rows db)))"

definition engine_GetAllConnectedInstances :: "engine_db \<Rightarrow> go_error + EngineInstance list" where
  "engine_GetAllConnectedInstances = engine_rows_where ei_connected"

definition engine_GetAllConnectedInstancesByClientName :: "string \<Rightarrow> engine_db \<Rightarrow> go_error + EngineInstance list" where
  "engine_GetAllConnectedInstancesByClientName clientName =
     engine_rows_where (\<lambda>i. ei_connected i \<and> ei_client_name i = clientName)"

definition engine_GetAll :: "string \<Rightarrow> engine_db \<Rightarrow> go_error + EngineInstance list" where
  "engine_GetAll clientName = engine_rows_where (\<lambda>i. ei_client_name i = clientName)"

definition engine_Delete :: "string \<Rightarrow> engine_db \<Rightarrow> go_error option \<times> engine_db" where
  "engine_Delete instanceId db =
     (case ed_outage db of
        Some e \<Rightarrow> (Some e, db)
      | None \<Rightarrow>
          (None, db\<lparr>ed_labels := filter (\<lambda>l. l \<noteq> instanceId) (ed_labels db),
                    ed_messages := filter (\<lambda>m. m \<noteq> instanceId) (ed_messages db),
                    ed_rows := filter (\<lambda>i. ei_id i \<noteq> instanceId) (ed_rows db)\<rparr>))"

definition engine_GetAdvancedSettings :: "(string \<Rightarrow> bool) \<Rightarrow> string \<Rightarrow> engine_db \<Rightarrow> go_error + AdvancedSettings" where
  "engine_GetAdvancedSettings uuid_ok instanceId db =
     (case engine_GetInstanceByID uuid_ok instanceId db of
        Inl e \<Rightarrow> Inl e
      | Inr i \<Rightarrow>
          Inr \<lparr>as_always_online = ei_always_online i, as_reject_call = ei_reject_call i,
               as_msg_reject_call = ei_msg_reject_call i, as_read_messages = ei_read_messages i,
               as_ignore_groups = ei_ignore_groups i, as_ignore_status = ei_ignore_status i\<rparr>)"

definition engine_UpdateAdvancedSettings ::
  "(string \<Rightarrow> bool) \<Rightarrow> string \<Rightarrow> AdvancedSettings \<Rightarrow> engine_db \<Rightarrow> go_error option \<times> engine_db" where
  "engine_UpdateAdvancedSettings uuid_ok instanceId s db =
     (if \<not> uuid_ok instanceId then (Some (plain_error ''invalid UUID format''), db)
      else engine_update_row instanceId (\<lambda>x. x\<lparr>ei_always_online := as_always_online s, ei_reject_call := as_reject_call s,
             ei_msg_reject_call := as_msg_reject_call s, ei_read_messages := as_read_messages s,
             ei_ignore_groups := as_ignore_groups s, ei_ignore_status := as_ignore_status s\<rparr>) db)"

section \<open>Lemmas\<close>

text \<open>Ids and tokens are unique; every statement keeps that.\<close>

definition engine_db_ok :: "engine_db \<Rightarrow> bool" where
  "engine_db_ok db \<longleftrightarrow> distinct (map ei_id (ed_rows db)) \<and> distinct (map ei_token (ed_rows db))"

lemma map_id_update: "(\<And>x. ei_id x = rowID \<Longrightarrow> g (f x) = g x) \<Longrightarrow>
   map g (map (\<lambda>x. if ei_id x = rowID then f x else x) rows) = map g rows"
  by (induction rows) auto

lemma engine_update_row_ok:
  assumes "engine_db_ok db" and "\<And>x. ei_id (f x) = ei_id x" and "\<And>x. ei_token (f x) = ei_token x"
  shows "engine_db_ok (snd (engine_update_row rowID f db))"
  using assms map_id_update [of rowID ei_id f] map_id_update [of rowID ei_token f]
  by (auto simp: engine_update_row_def engine_db_ok_def simp del: map_map split: option.split)

lemma distinct_tokens_update:
  assumes "distinct (map ei_id rows)" and "distinct (map ei_token rows)"
    and "\<forall>x \<in> set rows. ei_token x = ei_token i \<longrightarrow> ei_id x = ei_id i"
  shows "distinct (map ei_token (map (\<lambda>x. if ei_id x = ei_id i then i else x) rows))"
  using assms
proof (induction rows)
  case (Cons x rows)
  let ?g = "\<lambda>x. if ei_id x = ei_id i then i else x"
  have IH: "distinct (map ei_token (map ?g rows))" by (rule Cons.IH) (use Cons.prems in simp_all)
  show ?case
  proof (cases "ei_id x = ei_id i")
    case True
    have "map ?g rows = rows" using Cons.prems(1) True by (intro map_idI) (auto simp: rev_image_eqI)
    moreover have "ei_token i \<notin> ei_token ` set rows"
    proof
      assume "ei_token i \<in> ei_token ` set rows"
      then obtain y where y: "y \<in> set rows" "ei_token y = ei_token i" by auto
      then have "ei_id y = ei_id x" using Cons.prems(3) True by simp
      then show False using y(1) Cons.prems(1) by (metis distinct.simps(2) image_eqI list.set_map list.simps(9))
    qed
    ultimately show ?thesis using True IH by simp
  next
    case False
    have "ei_token x \<notin> ei_token ` ?g ` set rows"
    proof
      assume "ei_token x \<in> ei_token ` ?g ` set rows"
      then obtain y where y: "y \<in> set rows" "ei_token x = ei_token (?g y)" by auto
      show False
      proof (cases "ei_id y = ei_id i")
        case True
        then have "ei_token x = ei_token i" using y(2) by simp
        then show False using Cons.prems(3) False by simp
      next
        case other: False
        then have "ei_token x = ei_token y" using y(2) by simp
        then show False using y(1) Cons.prems(2) by (metis distinct.simps(2) image_eqI list.set_map list.simps(9))
      qed
    qed
    then have "ei_token x \<notin> set (map ei_token (map ?g rows))" by (simp only: set_map not_False_eq_True)
    then have "distinct (ei_token x # map ei_token (map ?g rows))" using IH by (simp only: distinct.simps simp_thms)
    then show ?thesis using False by simp
  qed
qed simp

lemma engine_Update_ok:
  assumes "engine_db_ok db"
  shows "engine_db_ok (snd (engine_Update i db))"
proof (cases "ed_outage db")
  case None
  show ?thesis
  proof (cases "\<exists>x \<in> set (ed_rows db). ei_id x \<noteq> ei_id i \<and> ei_token x = ei_token i")
    case False
    then have tokens: "\<forall>x \<in> set (ed_rows db). ei_token x = ei_token i \<longrightarrow> ei_id x = ei_id i" by blast
    have ids: "map ei_id (map (\<lambda>x. if ei_id x = ei_id i then i else x) (ed_rows db)) = map ei_id (ed_rows db)"
      by (rule map_id_update) simp
    show ?thesis
    proof (cases "\<exists>x \<in> set (ed_rows db). ei_id x = ei_id i")
      case True
      with assms None False ids distinct_tokens_update [OF _ _ tokens] show ?thesis
        by (auto simp: engine_Update_def engine_db_ok_def simp del: map_map)
    next
      case new: False
      with assms None False tokens show ?thesis by (auto simp: engine_Update_def engine_db_ok_def)
    qed
  qed (use assms None in \<open>simp add: engine_Update_def\<close>)
qed (use assms in \<open>simp add: engine_Update_def\<close>)

lemma engine_Create_ok: "engine_db_ok db \<Longrightarrow> engine_db_ok (snd (engine_Create newID i db))"
  by (auto simp: engine_Create_def engine_db_ok_def Let_def split: option.split)

lemma engine_Delete_ok: "engine_db_ok db \<Longrightarrow> engine_db_ok (snd (engine_Delete rowID db))"
  by (auto simp: engine_Delete_def engine_db_ok_def distinct_map inj_on_def split: option.split)

end
