(* ===== verification/Engine_Service.thy ===== *)
theory Engine_Service
  imports Engine_Store
begin

text \<open>
  The sessions of the engine: the maps of clients and kill channels, \<open>StartInstance\<close>, \<open>ReconnectClient\<close> and their
  like of \<open>pkg/whatsmeow/service/whatsmeow.go\<close>, and the service of its instances,
  \<open>pkg/instance/service/instance_service.go\<close>.

  A client of the WhatsApp library is seen through what the code asks of it (\<open>client_view\<close>); what its operations do
  is in the environment, like what happens while the code sleeps and the check of a UUID. A goroutine the code
  starts is noted (\<open>es_launched\<close>, \<open>es_reconnects\<close>) and runs later.
\<close>

section \<open>State\<close>

record client_view =
  cv_connected :: bool
  cv_logged_in :: bool
  cv_jid :: "string option"
  cv_push_name :: string

record MyClient =
  mc_instance :: EngineInstance
  mc_webhook_url :: string
  mc_rabbitmq_enable :: string
  mc_nats_enable :: string
  mc_websocket_enable :: string
  mc_subscriptions :: "string list"

record ClientData =
  cd_instance :: EngineInstance
  cd_subscriptions :: "string list"
  cd_phone :: string
  cd_is_proxy :: bool

record engine_config =
  ec_client_name :: string
  ec_os_name :: string
  ec_proxy_host :: string
  ec_proxy_port :: string
  ec_proxy_username :: string
  ec_proxy_password :: string

record engine_state =
  es_db :: engine_db
  es_clients :: "string \<rightharpoonup> client_view"
  es_my_clients :: "string \<rightharpoonup> MyClient"
  es_kill :: "string set"
  es_starting :: "string set"
  es_cache :: "string \<rightharpoonup> EngineInstance"
  es_launched :: "ClientData list"
  es_reconnects :: "string list"

record engine_env =
  en_uuid_ok :: "string \<Rightarrow> bool"
  en_config :: engine_config
  en_logout :: "client_view \<Rightarrow> go_error option \<times> client_view"
  en_pair :: "client_view \<Rightarrow> string \<Rightarrow> go_error + string"
  en_wait :: "duration \<Rightarrow> engine_state \<Rightarrow> engine_state"

definition in_db :: "(engine_db \<Rightarrow> 'a \<times> engine_db) \<Rightarrow> engine_state \<Rightarrow> 'a \<times> engine_state" where
  "in_db f s = (case f (es_db s) of (r, db) \<Rightarrow> (r, s\<lparr>es_db := db\<rparr>))"

section \<open>The maps\<close>

definition GetClientPointer :: "string \<Rightarrow> engine_state \<Rightarrow> client_view option" where
  "GetClientPointer instanceID s = es_clients s instanceID"

definition DeleteClientPointer :: "string \<Rightarrow> engine_state \<Rightarrow> engine_state" where
  "DeleteClientPointer instanceID s = s\<lparr>es_clients := (es_clients s)(instanceID := None)\<rparr>"

definition SetKillChannel :: "string \<Rightarrow> engine_state \<Rightarrow> engine_state" where
  "SetKillChannel instanceID s = s\<lparr>es_kill := insert instanceID (es_kill s)\<rparr>"

text \<open>Closing a channel takes it out of the map.\<close>

definition SignalKillChannel :: "string \<Rightarrow> engine_state \<Rightarrow> bool \<times> engine_state" where
  "SignalKillChannel instanceID s =
     (if instanceID \<notin> es_kill s then (False, s) else (True, s\<lparr>es_kill := es_kill s - {instanceID}\<rparr>))"

definition DeleteKillChannel :: "string \<Rightarrow> engine_state \<Rightarrow> engine_state" where
  "DeleteKillChannel instanceID s = s\<lparr>es_kill := es_kill s - {instanceID}\<rparr>"

definition deleteClientState :: "string \<Rightarrow> engine_state \<Rightarrow> engine_state" where
  "deleteClientState instanceID s =
     s\<lparr>es_clients := (es_clients s)(instanceID := None), es_my_clients := (es_my_clients s)(instanceID := None),
       es_kill := es_kill s - {instanceID}\<rparr>"

section \<open>Starting sessions\<close>

text \<open>The events of a row that are known, each once.\<close>

fun known_events :: "string list \<Rightarrow> string list \<Rightarrow> string list" where
  "known_events [] subscribed = subscribed"
| "known_events (arg # args) subscribed =
     (if \<not> IsEventType arg then known_events args subscribed
      else if arg \<in> set subscribed then known_events args subscribed
      else known_events args (subscribed @ [arg]))"

definition subscribed_events :: "string \<Rightarrow> string list" where
  "subscribed_events events =
     (let eventArray = split_on (CHR '','') events
      in if length eventArray < 1 then [''MESSAGE''] else known_events eventArray [])"

definition config_proxy :: "engine_config \<Rightarrow> EngineProxy" where
  "config_proxy c =
     \<lparr>px_host = ec_proxy_host c, px_port = ec_proxy_port c, px_username = ec_proxy_username c,
      px_password = ec_proxy_password c\<rparr>"

text \<open>A row without a proxy gets the configured one, when that is complete.\<close>

definition default_proxy :: "engine_env \<Rightarrow> EngineInstance \<Rightarrow> engine_state \<Rightarrow> (go_error + EngineInstance) \<times> engine_state" where
  "default_proxy en i s =
     (let c = en_config en in
      if ei_proxy i = ProxyBlank \<and> ec_proxy_host c \<noteq> [] \<and> ec_proxy_port c \<noteq> [] \<and> ec_proxy_username c \<noteq> [] \<and>
         ec_proxy_password c \<noteq> [] then
        (let i = i\<lparr>ei_proxy := ProxySet (config_proxy c)\<rparr> in
         case in_db (engine_UpdateProxy (ei_id i) (ei_proxy i)) s of
           (Some e, s) \<Rightarrow> (Inl e, s)
         | (None, s) \<Rightarrow> (Inr i, s))
      else (Inr i, s))"

definition launch :: "ClientData \<Rightarrow> engine_state \<Rightarrow> engine_state" where
  "launch cd s = s\<lparr>es_launched := es_launched s @ [cd]\<rparr>"

definition StartInstance :: "engine_env \<Rightarrow> string \<Rightarrow> engine_state \<Rightarrow> go_error option \<times> engine_state" where
  "StartInstance en instanceId s =
     (if instanceId \<in> es_starting s then (None, s)
      else case engine_GetInstanceByID (en_uuid_ok en) instanceId (es_db s) of
        Inl e \<Rightarrow> (Some e, s)
      | Inr i \<Rightarrow>
          (case default_proxy en i s of
             (Inl e, s) \<Rightarrow> (Some e, s)
           | (Inr i, s) \<Rightarrow>
               if GetClientPointer (ei_id i) s \<noteq> None then (None, s)
               else
                 (let s = s\<lparr>es_cache := (es_cache s)(ei_token i \<mapsto> i)\<rparr>;
                      s = SetKillChannel (ei_id i) s;
                      cd = \<lparr>cd_instance = i, cd_subscriptions = subscribed_events (ei_events i), cd_phone = [],
                            cd_is_proxy = False\<rparr>
                  in if ei_proxy i = ProxyBlank then (None, launch cd s)
                     else case unmarshal_proxy (ei_proxy i) of
                       Inl e \<Rightarrow> (Some e, s)
                     | Inr p \<Rightarrow> (None, launch (cd\<lparr>cd_is_proxy := px_host p \<noteq> []\<rparr>) s))))"

definition ReconnectClient :: "engine_env \<Rightarrow> string \<Rightarrow> engine_state \<Rightarrow> go_error option \<times> engine_state" where
  "ReconnectClient en instanceId s =
     (let s = deleteClientState instanceId (snd (SignalKillChannel instanceId s)) in
      case engine_GetInstanceByID (en_uuid_ok en) instanceId (es_db s) of
        Inl e \<Rightarrow> (Some (plain_error (''failed to get instance: '' @ err_text e)), s)
      | Inr i \<Rightarrow>
          (let s = s\<lparr>es_cache := (es_cache s)(ei_token i := None)\<rparr>;
               s = snd (in_db (engine_UpdateConnected instanceId False ''Reconnecting'') s)
           in StartInstance en instanceId (en_wait en (2 * second) s)))"

definition ConnectOnStartup :: "engine_env \<Rightarrow> string \<Rightarrow> engine_state \<Rightarrow> engine_state" where
  "ConnectOnStartup en clientName s =
     (case (if clientName \<noteq> [] then engine_GetAllConnectedInstancesByClientName clientName (es_db s)
            else engine_GetAllConnectedInstances (es_db s)) of
        Inl _ \<Rightarrow> s
      | Inr is \<Rightarrow> fold (\<lambda>i s. snd (StartInstance en (ei_id i) s)) is s)"

text \<open>The running session takes the settings of its row.\<close>

definition UpdateInstanceSettings :: "engine_env \<Rightarrow> string \<Rightarrow> engine_state \<Rightarrow> go_error option \<times> engine_state" where
  "UpdateInstanceSettings en instanceId s =
     (case engine_GetInstanceByID (en_uuid_ok en) instanceId (es_db s) of
        Inl e \<Rightarrow> (Some e, s)
      | Inr i \<Rightarrow>
          (case es_my_clients s instanceId of
             None \<Rightarrow> (Some (plain_error (''instance '' @ instanceId @ '' not found in runtime'')), s)
           | Some mc \<Rightarrow>
               (let mc = mc\<lparr>mc_instance := i, mc_webhook_url := ei_webhook i, mc_rabbitmq_enable := ei_rabbitmq_enable i,
                            mc_nats_enable := ei_nats_enable i, mc_websocket_enable := ei_websocket_enable i,
                            mc_subscriptions := subscribed_events (ei_events i)\<rparr>
                in (None, s\<lparr>es_my_clients := (es_my_clients s)(instanceId \<mapsto> mc),
                            es_cache := (es_cache s)(ei_token i \<mapsto> i)\<rparr>))))"

definition UpdateInstanceAdvancedSettings :: "engine_env \<Rightarrow> string \<Rightarrow> engine_state \<Rightarrow> go_error option \<times> engine_state" where
  "UpdateInstanceAdvancedSettings en instanceId s =
     (case engine_GetInstanceByID (en_uuid_ok en) instanceId (es_db s) of
        Inl e \<Rightarrow> (Some e, s)
      | Inr i \<Rightarrow>
          (case es_my_clients s instanceId of
             None \<Rightarrow> (Some (plain_error (''instance '' @ instanceId @ '' not found in runtime'')), s)
           | Some mc \<Rightarrow> (None, s\<lparr>es_my_clients := (es_my_clients s)(instanceId \<mapsto> mc\<lparr>mc_instance := i\<rparr>)\<rparr>)))"

definition ClearInstanceCache :: "string \<Rightarrow> string \<Rightarrow> engine_state \<Rightarrow> go_error option \<times> engine_state" where
  "ClearInstanceCache instanceId token s =
     (let s = s\<lparr>es_cache := (es_cache s)(token := None), es_my_clients := (es_my_clients s)(instanceId := None),
                es_clients := (es_clients s)(instanceId := None)\<rparr>
      in (None, (case SignalKillChannel instanceId s of
                   (True, s) \<Rightarrow> DeleteKillChannel instanceId s
                 | (False, s) \<Rightarrow> s)))"

section \<open>The service of the instances\<close>

definition ensureClientConnected :: "engine_env \<Rightarrow> string \<Rightarrow> engine_state \<Rightarrow> (go_error + client_view) \<times> engine_state" where
  "ensureClientConnected en instanceId s =
     (case GetClientPointer instanceId s of
        Some c \<Rightarrow> (if cv_connected c then Inr c else Inl (plain_error ''client disconnected''), s)
      | None \<Rightarrow>
          (case StartInstance en instanceId s of
             (Some _, s) \<Rightarrow> (Inl (plain_error ''no active session found''), s)
           | (None, s) \<Rightarrow>
               (let s = en_wait en (2 * second) s in
                case GetClientPointer instanceId s of
                  Some c \<Rightarrow> (if cv_connected c then Inr c else Inl (plain_error ''no active session found''), s)
                | None \<Rightarrow> (Inl (plain_error ''no active session found''), s))))"

record CreateStruct =
  cs_instance_id :: string
  cs_name :: string
  cs_token :: string
  cs_proxy :: "EngineProxy option"
  cs_advanced :: "AdvancedSettings option"

definition new_engine_row :: "engine_config \<Rightarrow> time \<Rightarrow> CreateStruct \<Rightarrow> EngineInstance" where
  "new_engine_row c now data =
     (let a = (case cs_advanced data of
                 Some a \<Rightarrow> a
               | None \<Rightarrow> \<lparr>as_always_online = False, as_reject_call = False, as_msg_reject_call = [],
                          as_read_messages = False, as_ignore_groups = False, as_ignore_status = False\<rparr>)
      in \<lparr>ei_id = cs_instance_id data, ei_name = cs_name data, ei_token = cs_token data, ei_webhook = [],
          ei_rabbitmq_enable = [], ei_websocket_enable = [], ei_nats_enable = [], ei_jid = [], ei_qrcode = [],
          ei_connected = False, ei_expiration = 0, ei_disconnect_reason = [], ei_events = [], ei_os_name = ec_os_name c,
          ei_proxy = (case cs_proxy data of None \<Rightarrow> ProxyNull | Some p \<Rightarrow> ProxySet p),
          ei_client_name = ec_client_name c, ei_created_at = now, ei_always_online = as_always_online a,
          ei_reject_call = as_reject_call a, ei_msg_reject_call = as_msg_reject_call a,
          ei_read_messages = as_read_messages a, ei_ignore_groups = as_ignore_groups a,
          ei_ignore_status = as_ignore_status a\<rparr>)"

definition svc_Create ::
  "engine_env \<Rightarrow> string \<Rightarrow> time \<Rightarrow> CreateStruct \<Rightarrow> engine_state \<Rightarrow> (go_error + EngineInstance) \<times> engine_state" where
  "svc_Create en newID now data s =
     (case engine_GetInstanceByName (cs_name data) (es_db s) of
        Inr _ \<Rightarrow> (Inl (plain_error ''instance already exists''), s)
      | Inl _ \<Rightarrow> in_db (engine_Create newID (new_engine_row (en_config en) now data)) s)"

record ConnectStruct =
  cn_webhook_url :: string
  cn_subscribe :: "string list"
  cn_phone :: string
  cn_rabbitmq_enable :: string
  cn_websocket_enable :: string
  cn_nats_enable :: string

definition connect_events :: "string list \<Rightarrow> string list" where
  "connect_events subscribe =
     (case subscribe of
        [] \<Rightarrow> [''MESSAGE'']
      | e # _ \<Rightarrow> if e = ''ALL'' then AllEventTypes else filter IsEventType subscribe)"

definition connect_row :: "ConnectStruct \<Rightarrow> EngineInstance \<Rightarrow> EngineInstance" where
  "connect_row data i =
     i\<lparr>ei_events := join '','' (connect_events (cn_subscribe data)), ei_webhook := cn_webhook_url data,
       ei_rabbitmq_enable := cn_rabbitmq_enable data, ei_nats_enable := cn_nats_enable data,
       ei_websocket_enable := cn_websocket_enable data\<rparr>"

definition svc_Connect ::
  "engine_env \<Rightarrow> ConnectStruct \<Rightarrow> EngineInstance \<Rightarrow> engine_state \<Rightarrow> (go_error + EngineInstance) \<times> engine_state" where
  "svc_Connect en data i s =
     (let subscribedEvents = connect_events (cn_subscribe data); i = connect_row data i in
      case in_db (engine_Update i) s of
        (Some e, s) \<Rightarrow> (Inl e, s)
      | (None, s) \<Rightarrow>
          (case UpdateInstanceSettings en (ei_id i) s of
             (None, s) \<Rightarrow> (Inr i, s)
           | (Some _, s) \<Rightarrow>
               (let s = SetKillChannel (ei_id i) s;
                    cd = \<lparr>cd_instance = i, cd_subscriptions = subscribedEvents, cd_phone = cn_phone data,
                          cd_is_proxy = False\<rparr>;
                    host = ec_proxy_host (en_config en)
                in if ei_proxy i = ProxyBlank \<and> host = [] then (Inr i, launch cd s)
                   else case unmarshal_proxy (ei_proxy i) of
                     Inl e \<Rightarrow> (Inl e, s)
                   | Inr p \<Rightarrow> (Inr i, launch (cd\<lparr>cd_is_proxy := px_host p \<noteq> [] \<or> host \<noteq> []\<rparr>) s))))"

definition svc_Reconnect :: "engine_env \<Rightarrow> string \<Rightarrow> engine_state \<Rightarrow> go_error option \<times> engine_state" where
  "svc_Reconnect en instanceId s =
     (case ensureClientConnected en instanceId s of
        (Inl e, s) \<Rightarrow> (Some e, s)
      | (Inr _, s) \<Rightarrow> ReconnectClient en instanceId s)"

definition svc_Disconnect :: "engine_env \<Rightarrow> EngineInstance \<Rightarrow> engine_state \<Rightarrow> go_error option \<times> engine_state" where
  "svc_Disconnect en i s =
     (case ensureClientConnected en (ei_id i) s of
        (Inl e, s) \<Rightarrow> (Some e, s)
      | (Inr c, s) \<Rightarrow>
          if cv_connected c \<and> cv_logged_in c then
            in_db (engine_Update (i\<lparr>ei_events := []\<rparr>)) (snd (SignalKillChannel (ei_id i) s))
          else (None, s))"

definition forget_client :: "string \<Rightarrow> engine_state \<Rightarrow> engine_state" where
  "forget_client instanceId s =
     DeleteKillChannel instanceId (DeleteClientPointer instanceId (snd (SignalKillChannel instanceId s)))"

definition set_client :: "string \<Rightarrow> client_view \<Rightarrow> engine_state \<Rightarrow> engine_state" where
  "set_client instanceId c s = s\<lparr>es_clients := (es_clients s)(instanceId \<mapsto> c)\<rparr>"

definition svc_Logout :: "engine_env \<Rightarrow> EngineInstance \<Rightarrow> engine_state \<Rightarrow> go_error option \<times> engine_state" where
  "svc_Logout en i s =
     (case ensureClientConnected en (ei_id i) s of
        (Inl e, s) \<Rightarrow> (Some e, s)
      | (Inr c, s) \<Rightarrow>
          if cv_logged_in c \<and> cv_connected c then
            (case en_logout en c of
               (Some e, c') \<Rightarrow> (Some e, set_client (ei_id i) c' s)
             | (None, c') \<Rightarrow>
                 (case in_db (engine_Update (i\<lparr>ei_connected := False\<rparr>)) (set_client (ei_id i) c' s) of
                    (Some e, s) \<Rightarrow> (Some e, s)
                  | (None, s) \<Rightarrow> (None, forget_client (ei_id i) s)))
          else if cv_connected c then (None, forget_client (ei_id i) s)
          else (Some (plain_error ''ignoring logout as it was not connected''), s))"

record StatusStruct =
  ss_connected :: bool
  ss_logged_in :: bool
  ss_name :: string

definition svc_Status :: "engine_env \<Rightarrow> string \<Rightarrow> engine_state \<Rightarrow> (go_error + StatusStruct) \<times> engine_state" where
  "svc_Status en instanceId s =
     (case ensureClientConnected en instanceId s of
        (Inl e, s) \<Rightarrow> (Inl e, s)
      | (Inr c, s) \<Rightarrow>
          (Inr \<lparr>ss_connected = cv_connected c, ss_logged_in = cv_logged_in c,
                ss_name = (if cv_logged_in c then cv_push_name c else [])\<rparr>, s))"

text \<open>The QR code and the pairing code, in front of and behind the first bar.\<close>

definition qr_parts :: "string \<Rightarrow> (string \<times> string) option" where
  "qr_parts code = (case split_on (CHR ''|'') code of q # p # _ \<Rightarrow> Some (q, p) | _ \<Rightarrow> None)"

definition read_qr :: "string \<Rightarrow> go_error + string \<times> string" where
  "read_qr code =
     (case qr_parts code of Some p \<Rightarrow> Inr p | None \<Rightarrow> Inl (plain_error ''invalid QR code format''))"

definition svc_GetQr :: "engine_env \<Rightarrow> string \<Rightarrow> engine_state \<Rightarrow> (go_error + string \<times> string) \<times> engine_state" where
  "svc_GetQr en instanceId s =
     (let started =
        (if (case GetClientPointer instanceId s of None \<Rightarrow> True | Some c \<Rightarrow> cv_logged_in c) then
           (case StartInstance en instanceId s of
              (Some e, s) \<Rightarrow> (Some (wrap_error ''failed to start instance'' e), s)
            | (None, s) \<Rightarrow>
                (let s = en_wait en (3 * second) s in
                 case GetClientPointer instanceId s of
                   Some c \<Rightarrow> (if cv_logged_in c then Some (plain_error ''session already logged in'') else None, s)
                 | None \<Rightarrow> (None, s)))
         else (None, s))
      in case started of
        (Some e, s) \<Rightarrow> (Inl e, s)
      | (None, s) \<Rightarrow>
          (case engine_GetInstanceByID (en_uuid_ok en) instanceId (es_db s) of
             Inl e \<Rightarrow> (Inl e, s)
           | Inr i \<Rightarrow>
               if ei_qrcode i \<noteq> [] then (read_qr (ei_qrcode i), s)
               else
                 (let s = en_wait en (2 * second) s in
                  case engine_GetInstanceByID (en_uuid_ok en) instanceId (es_db s) of
                    Inl e \<Rightarrow> (Inl e, s)
                  | Inr i \<Rightarrow>
                      (if ei_qrcode i = []
                       then Inl (plain_error ''no QR code available. Please wait a moment and try again'')
                       else read_qr (ei_qrcode i), s))))"

text \<open>An error of the library is logged; the answer is then the empty code.\<close>

definition svc_Pair :: "engine_env \<Rightarrow> string \<Rightarrow> string \<Rightarrow> engine_state \<Rightarrow> go_error + string" where
  "svc_Pair en phone instanceId s =
     (case GetClientPointer instanceId s of
        None \<Rightarrow> Inl (plain_error ''client not initialized'')
      | Some c \<Rightarrow> (case en_pair en c phone of Inl _ \<Rightarrow> Inr [] | Inr code \<Rightarrow> Inr code))"

definition shown_row :: "engine_state \<Rightarrow> EngineInstance \<Rightarrow> EngineInstance" where
  "shown_row s i =
     i\<lparr>ei_connected := (case GetClientPointer (ei_id i) s of Some c \<Rightarrow> cv_logged_in c | None \<Rightarrow> False),
       ei_proxy := ProxyBlank\<rparr>"

definition svc_GetAll :: "engine_env \<Rightarrow> engine_state \<Rightarrow> go_error + EngineInstance list" where
  "svc_GetAll en s =
     (case engine_GetAll (ec_client_name (en_config en)) (es_db s) of
        Inl e \<Rightarrow> Inl e
      | Inr is \<Rightarrow> Inr (map (shown_row s) is))"

definition svc_Info :: "engine_env \<Rightarrow> string \<Rightarrow> engine_state \<Rightarrow> go_error + EngineInstance" where
  "svc_Info en instanceId s =
     (case engine_GetInstanceByID (en_uuid_ok en) instanceId (es_db s) of
        Inl e \<Rightarrow> Inl e
      | Inr i \<Rightarrow> Inr (shown_row s i))"

definition svc_Delete :: "engine_env \<Rightarrow> string \<Rightarrow> engine_state \<Rightarrow> go_error option \<times> engine_state" where
  "svc_Delete en instanceId s =
     (case engine_GetInstanceByID (en_uuid_ok en) instanceId (es_db s) of
        Inl e \<Rightarrow> (Some e, s)
      | Inr i \<Rightarrow>
          (let s = DeleteClientPointer (ei_id i) s;
               s = (if ei_id i \<in> es_kill s then DeleteKillChannel (ei_id i) (snd (SignalKillChannel (ei_id i) s)) else s);
               s = snd (ClearInstanceCache (ei_id i) (ei_token i) s)
           in in_db (engine_Delete instanceId) s))"

definition start_reconnect :: "string \<Rightarrow> engine_state \<Rightarrow> engine_state" where
  "start_reconnect instanceId s = s\<lparr>es_reconnects := es_reconnects s @ [instanceId]\<rparr>"

definition svc_SetProxy ::
  "engine_env \<Rightarrow> string \<Rightarrow> EngineProxy option \<Rightarrow> engine_state \<Rightarrow> go_error option \<times> engine_state" where
  "svc_SetProxy en instanceId proxyConfig s =
     (case engine_GetInstanceByID (en_uuid_ok en) instanceId (es_db s) of
        Inl e \<Rightarrow> (Some e, s)
      | Inr i \<Rightarrow>
          (case proxyConfig of
             None \<Rightarrow> (Some (plain_error ''proxy configuration cannot be nil''), s)
           | Some p \<Rightarrow>
               if px_host p = [] then (Some (plain_error ''proxy host is required''), s)
               else if px_port p = [] then (Some (plain_error ''proxy port is required''), s)
               else case in_db (engine_Update (i\<lparr>ei_proxy := ProxySet p\<rparr>)) s of
                 (Some e, s) \<Rightarrow> (Some e, s)
               | (None, s) \<Rightarrow> (None, start_reconnect (ei_id i) s)))"

definition svc_SetProxyFromStruct ::
  "engine_env \<Rightarrow> string \<Rightarrow> EngineProxy option \<Rightarrow> engine_state \<Rightarrow> go_error option \<times> engine_state" where
  "svc_SetProxyFromStruct en instanceId data s =
     (case data of
        None \<Rightarrow> (Some (plain_error ''proxy data cannot be nil''), s)
      | Some p \<Rightarrow> svc_SetProxy en instanceId (Some p) s)"

definition svc_RemoveProxy :: "engine_env \<Rightarrow> string \<Rightarrow> engine_state \<Rightarrow> go_error option \<times> engine_state" where
  "svc_RemoveProxy en instanceId s =
     (case engine_GetInstanceByID (en_uuid_ok en) instanceId (es_db s) of
        Inl e \<Rightarrow> (Some e, s)
      | Inr i \<Rightarrow>
          (case in_db (engine_Update (i\<lparr>ei_proxy := ProxyBlank\<rparr>)) s of
             (Some e, s) \<Rightarrow> (Some e, s)
           | (None, s) \<Rightarrow> (None, start_reconnect (ei_id i) s)))"

definition svc_GetInstanceByToken :: "string \<Rightarrow> engine_state \<Rightarrow> go_error + EngineInstance" where
  "svc_GetInstanceByToken token s = engine_GetInstanceByToken token (es_db s)"

definition svc_GetAdvancedSettings :: "engine_env \<Rightarrow> string \<Rightarrow> engine_state \<Rightarrow> go_error + AdvancedSettings" where
  "svc_GetAdvancedSettings en instanceId s = engine_GetAdvancedSettings (en_uuid_ok en) instanceId (es_db s)"

definition svc_UpdateAdvancedSettings ::
  "engine_env \<Rightarrow> string \<Rightarrow> AdvancedSettings \<Rightarrow> engine_state \<Rightarrow> go_error option \<times> engine_state" where
  "svc_UpdateAdvancedSettings en instanceId settings s =
     (case in_db (engine_UpdateAdvancedSettings (en_uuid_ok en) instanceId settings) s of
        (Some e, s) \<Rightarrow> (Some e, s)
      | (None, s) \<Rightarrow> (None, snd (UpdateInstanceAdvancedSettings en instanceId s)))"

end
