(* ===== verification/Engine_Runtime.thy ===== *)
theory Engine_Runtime
  imports Engine_Service Message_Sending Jid
begin

text \<open>
  \<open>LegacyRuntime\<close> of \<open>internal/instance/runtime.go\<close>, which carries out the operations of the SaaS layer on the
  engine: it finds or makes the engine's row of an instance, waits for its session and reads its state. The part
  of the WhatsApp library it calls is \<open>runtime_env\<close>: the parse of a JID, the check of a number, the sending of a
  message and of a history request, the ids of messages. A fresh token is an argument.
\<close>

section \<open>The engine's row of an instance\<close>

record RuntimeSnapshot =
  rs_token :: string
  rs_webhook :: string
  rs_events :: string
  rs_jid :: string
  rs_profile_name :: string
  rs_connected :: bool
  rs_logged_in :: bool
  rs_status :: string
  rs_qrcode :: string
  rs_pairing_code :: string
  rs_always_online :: bool
  rs_reject_call :: bool
  rs_read_messages :: bool
  rs_ignore_groups :: bool
  rs_ignore_status :: bool

datatype send_answer = Delivered int | TimedOut | Refused go_error

record runtime_env =
  rt_engine :: engine_env
  rt_parts :: "bool \<times> bool \<times> bool \<times> bool"
  rt_parse_jid :: "string \<Rightarrow> wa_jid \<times> go_error option"
  rt_jid_string :: "wa_jid \<Rightarrow> string"
  rt_check_user_exists :: bool
  rt_on_whatsapp :: "string list \<Rightarrow> go_error + (bool \<times> string) list"
  rt_send :: "nat \<Rightarrow> string \<Rightarrow> string \<Rightarrow> string \<Rightarrow> send_answer"
  rt_request_history :: "string \<Rightarrow> HistoryBackfillRequest \<Rightarrow> go_error option"

definition isNotFound :: "go_error \<Rightarrow> bool" where
  "isNotFound e \<longleftrightarrow> contains (to_lower (err_text e)) ''record not found''"

text \<open>The repository, the service, the map of clients and the WhatsApp service, as far as they are there.\<close>

definition ensureReady :: "runtime_env \<Rightarrow> go_error option" where
  "ensureReady rt =
     (case rt_parts rt of (repo, svc, clients, _) \<Rightarrow>
        if \<not> repo then Some (plain_error ''legacy instance repository unavailable'')
        else if \<not> svc then Some (plain_error ''legacy instance service unavailable'')
        else if \<not> clients then Some (plain_error ''legacy client runtime unavailable'')
        else None)"

definition legacy_id :: "runtime_env \<Rightarrow> Instance \<Rightarrow> string" where
  "legacy_id rt i =
     (let legacyID = trim_space (in_engine_instance_id i) in
      if legacyID = [] then trim_space (in_id i)
      else if \<not> en_uuid_ok (rt_engine rt) legacyID then trim_space (in_id i)
      else legacyID)"

definition find_legacy :: "runtime_env \<Rightarrow> Instance \<Rightarrow> engine_state \<Rightarrow> go_error + EngineInstance option" where
  "find_legacy rt i s =
     (case engine_GetInstanceByID (en_uuid_ok (rt_engine rt)) (legacy_id rt i) (es_db s) of
        Inr x \<Rightarrow> Inr (Some x)
      | Inl e \<Rightarrow>
          if \<not> isNotFound e then Inl e
          else (case engine_GetInstanceByName (trim_space (in_name i)) (es_db s) of
                  Inr x \<Rightarrow> Inr (Some x)
                | Inl _ \<Rightarrow> Inr None))"

definition create_legacy ::
  "runtime_env \<Rightarrow> string \<Rightarrow> time \<Rightarrow> Instance \<Rightarrow> engine_state \<Rightarrow> (go_error + EngineInstance) \<times> engine_state" where
  "create_legacy rt token now i s =
     (case svc_Create (rt_engine rt) (legacy_id rt i) now
             \<lparr>cs_instance_id = legacy_id rt i, cs_name = in_name i, cs_token = token, cs_proxy = None, cs_advanced = None\<rparr> s of
        (Inr x, s) \<Rightarrow> (Inr x, s)
      | (Inl e, s) \<Rightarrow>
          (case engine_GetInstanceByName (trim_space (in_name i)) (es_db s) of
             Inr x \<Rightarrow> (Inr x, s)
           | Inl _ \<Rightarrow> (Inl e, s)))"

text \<open>
  The row brought up to date with the instance, and whether that changed it. Every test of the code is on a column
  that no earlier assignment has touched.
\<close>

definition synced_row :: "engine_config \<Rightarrow> string \<Rightarrow> Instance \<Rightarrow> EngineInstance \<Rightarrow> bool \<times> EngineInstance" where
  "synced_row c token i x =
     (let name = (trim_space (ei_name x) = [] \<or> ei_name x \<noteq> in_name i);
          tok = (trim_space (ei_token x) = []);
          client = (trim_space (ei_client_name x) = []);
          hook = (trim_space (ei_webhook x) \<noteq> trim_space (in_webhook_url i));
          events = (trim_space (in_webhook_url i) \<noteq> [] \<and>
                    (trim_space (ei_events x) = [] \<or> to_lower (trim_space (ei_events x)) = ''all''));
          os = (trim_space (ei_os_name x) = [])
      in (name \<or> tok \<or> client \<or> hook \<or> events \<or> os,
          x\<lparr>ei_name := (if name then in_name i else ei_name x), ei_token := (if tok then token else ei_token x),
            ei_client_name := (if client then ec_client_name c else ei_client_name x),
            ei_webhook := (if hook then trim_space (in_webhook_url i) else ei_webhook x),
            ei_events := (if events then ''MESSAGE'' else ei_events x),
            ei_os_name := (if os then ec_os_name c else ei_os_name x)\<rparr>))"

definition sync_legacy ::
  "runtime_env \<Rightarrow> string \<Rightarrow> Instance \<Rightarrow> EngineInstance \<Rightarrow> engine_state \<Rightarrow> (go_error + EngineInstance) \<times> engine_state" where
  "sync_legacy rt token i x s =
     (case synced_row (en_config (rt_engine rt)) token i x of
        (False, x) \<Rightarrow> (Inr x, s)
      | (True, x) \<Rightarrow>
          (case in_db (engine_Update x) s of
             (Some e, s) \<Rightarrow> (Inl e, s)
           | (None, s) \<Rightarrow> (Inr x, s)))"

definition ensureLegacyInstance ::
  "runtime_env \<Rightarrow> string \<Rightarrow> time \<Rightarrow> Instance \<Rightarrow> engine_state \<Rightarrow> (go_error + EngineInstance) \<times> engine_state" where
  "ensureLegacyInstance rt token now i s =
     (case ensureReady rt of
        Some e \<Rightarrow> (Inl e, s)
      | None \<Rightarrow>
          (case find_legacy rt i s of
             Inl e \<Rightarrow> (Inl e, s)
           | Inr (Some x) \<Rightarrow> sync_legacy rt token i x s
           | Inr None \<Rightarrow>
               (case create_legacy rt token now i s of
                  (Inl e, s) \<Rightarrow> (Inl e, s)
                | (Inr x, s) \<Rightarrow> sync_legacy rt token i x s)))"

section \<open>Snapshots\<close>

definition snapshot_status :: "RuntimeSnapshot \<Rightarrow> EngineInstance \<Rightarrow> string" where
  "snapshot_status n x =
     (if rs_logged_in n then ''open''
      else if rs_qrcode n \<noteq> [] then ''qrcode''
      else if rs_connected n then ''connecting''
      else if ei_connected x then ''open''
      else ''close'')"

definition buildRuntimeSnapshot :: "EngineInstance \<Rightarrow> client_view option \<Rightarrow> RuntimeSnapshot" where
  "buildRuntimeSnapshot x client =
     (let (qr, pairing) = (case qr_parts (ei_qrcode x) of Some p \<Rightarrow> p | None \<Rightarrow> ([], []));
          n = \<lparr>rs_token = ei_token x, rs_webhook = ei_webhook x, rs_events = ei_events x, rs_jid = ei_jid x,
               rs_profile_name = [], rs_connected = False, rs_logged_in = False, rs_status = [], rs_qrcode = qr,
               rs_pairing_code = pairing, rs_always_online = ei_always_online x, rs_reject_call = ei_reject_call x,
               rs_read_messages = ei_read_messages x, rs_ignore_groups = ei_ignore_groups x,
               rs_ignore_status = ei_ignore_status x\<rparr>;
          n = (case client of
                 None \<Rightarrow> n
               | Some c \<Rightarrow>
                   n\<lparr>rs_connected := cv_connected c, rs_logged_in := cv_logged_in c,
                     rs_jid := (case cv_jid c of Some j \<Rightarrow> j | None \<Rightarrow> rs_jid n), rs_profile_name := cv_push_name c\<rparr>)
      in n\<lparr>rs_status := snapshot_status n x\<rparr>)"

definition rt_Snapshot ::
  "runtime_env \<Rightarrow> string \<Rightarrow> time \<Rightarrow> Instance \<Rightarrow> engine_state \<Rightarrow> (go_error + RuntimeSnapshot) \<times> engine_state" where
  "rt_Snapshot rt token now i s =
     (case ensureReady rt of
        Some e \<Rightarrow> (Inl e, s)
      | None \<Rightarrow>
          (case ensureLegacyInstance rt token now i s of
             (Inl e, s) \<Rightarrow> (Inl e, s)
           | (Inr x, s) \<Rightarrow> (Inr (buildRuntimeSnapshot x (GetClientPointer (ei_id x) s)), s)))"

text \<open>Every operation starts with the engine's row; then it goes on with that.\<close>

definition with_legacy ::
  "runtime_env \<Rightarrow> string \<Rightarrow> time \<Rightarrow> Instance \<Rightarrow> (EngineInstance \<Rightarrow> engine_state \<Rightarrow> (go_error + 'a) \<times> engine_state) \<Rightarrow>
   engine_state \<Rightarrow> (go_error + 'a) \<times> engine_state" where
  "with_legacy rt token now i f s =
     (case ensureReady rt of
        Some e \<Rightarrow> (Inl e, s)
      | None \<Rightarrow>
          (case ensureLegacyInstance rt token now i s of
             (Inl e, s) \<Rightarrow> (Inl e, s)
           | (Inr x, s) \<Rightarrow> f x s))"

definition or_connecting :: "RuntimeSnapshot \<Rightarrow> RuntimeSnapshot" where
  "or_connecting n = (if rs_status n \<in> {[], ''close''} then n\<lparr>rs_status := ''connecting''\<rparr> else n)"

definition plain_connect :: "EngineInstance \<Rightarrow> ConnectStruct" where
  "plain_connect x =
     \<lparr>cn_webhook_url = ei_webhook x, cn_subscribe = [], cn_phone = [], cn_rabbitmq_enable = [],
      cn_websocket_enable = [], cn_nats_enable = []\<rparr>"

definition rt_Connect ::
  "runtime_env \<Rightarrow> string \<Rightarrow> time \<Rightarrow> Instance \<Rightarrow> engine_state \<Rightarrow> (go_error + RuntimeSnapshot) \<times> engine_state" where
  "rt_Connect rt token now i =
     with_legacy rt token now i (\<lambda>x s.
       case svc_Connect (rt_engine rt) (plain_connect x) x s of
         (Inl e, s) \<Rightarrow> (Inl e, s)
       | (Inr _, s) \<Rightarrow>
           (case rt_Snapshot rt token now i s of
              (Inl e, s) \<Rightarrow> (Inl e, s)
            | (Inr n, s) \<Rightarrow>
                (let n = or_connecting n in
                 if rs_logged_in n \<or> rs_qrcode n \<noteq> [] then (Inr n, s)
                 else case svc_GetQr (rt_engine rt) (ei_id x) s of
                   (Inl _, s) \<Rightarrow> (Inr n, s)
                 | (Inr (qr, code), s) \<Rightarrow>
                     (Inr (n\<lparr>rs_qrcode := qr, rs_pairing_code := code, rs_status := ''qrcode''\<rparr>), s))))"

definition rt_Disconnect ::
  "runtime_env \<Rightarrow> string \<Rightarrow> time \<Rightarrow> Instance \<Rightarrow> engine_state \<Rightarrow> (go_error + RuntimeSnapshot) \<times> engine_state" where
  "rt_Disconnect rt token now i =
     with_legacy rt token now i (\<lambda>x s.
       case svc_Disconnect (rt_engine rt) x s of
         (Some e, s) \<Rightarrow> (Inl e, s)
       | (None, s) \<Rightarrow> rt_Snapshot rt token now i s)"

definition rt_Reconnect ::
  "runtime_env \<Rightarrow> string \<Rightarrow> time \<Rightarrow> Instance \<Rightarrow> engine_state \<Rightarrow> (go_error + RuntimeSnapshot) \<times> engine_state" where
  "rt_Reconnect rt token now i =
     with_legacy rt token now i (\<lambda>x s.
       case ReconnectClient (rt_engine rt) (ei_id x) s of
         (Some e, s) \<Rightarrow> (Inl e, s)
       | (None, s) \<Rightarrow>
           (case rt_Snapshot rt token now i s of
              (Inl e, s) \<Rightarrow> (Inl e, s)
            | (Inr n, s) \<Rightarrow> (Inr (or_connecting n), s)))"

definition logged_out :: "RuntimeSnapshot \<Rightarrow> RuntimeSnapshot" where
  "logged_out n =
     n\<lparr>rs_connected := False, rs_logged_in := False, rs_qrcode := [], rs_pairing_code := [], rs_status := ''close''\<rparr>"

definition rt_Logout ::
  "runtime_env \<Rightarrow> string \<Rightarrow> time \<Rightarrow> Instance \<Rightarrow> engine_state \<Rightarrow> (go_error + RuntimeSnapshot) \<times> engine_state" where
  "rt_Logout rt token now i =
     with_legacy rt token now i (\<lambda>x s.
       case svc_Logout (rt_engine rt) x s of
         (Some e, s) \<Rightarrow> (Inl e, s)
       | (None, s) \<Rightarrow>
           (case rt_Snapshot rt token now i s of
              (Inl _, s) \<Rightarrow> (Inr (logged_out (buildRuntimeSnapshot x None)), s)
            | (Inr n, s) \<Rightarrow> (Inr (logged_out n), s)))"

section \<open>Waiting for a session\<close>

definition clientReadyTimeout :: duration where "clientReadyTimeout = 8 * second"
definition clientReadyPollInterval :: duration where "clientReadyPollInterval = 500000000"
definition sendRetryDelay :: duration where "sendRetryDelay = 3 * second"

text \<open>The loop that looks every half second until the time is over; the clock moves by what it sleeps.\<close>

function wait_for ::
  "engine_env \<Rightarrow> (client_view \<Rightarrow> bool) \<Rightarrow> string \<Rightarrow> duration \<Rightarrow> duration \<Rightarrow> engine_state \<Rightarrow>
   client_view option \<times> engine_state" where
  "wait_for en P instanceID timeout elapsed s =
     (let found = (case GetClientPointer instanceID s of None \<Rightarrow> None | Some c \<Rightarrow> if P c then Some c else None) in
      if found \<noteq> None then (found, s)
      else if timeout = 0 \<or> timeout < elapsed then (None, s)
      else wait_for en P instanceID timeout (elapsed + clientReadyPollInterval) (en_wait en clientReadyPollInterval s))"
  by pat_completeness auto
termination
  by (relation "measure (\<lambda>(_, _, _, timeout, elapsed, _). nat (timeout - elapsed + 1))")
    (auto simp: clientReadyPollInterval_def)

declare wait_for.simps [simp del]

definition waitForActiveClient ::
  "engine_env \<Rightarrow> string \<Rightarrow> duration \<Rightarrow> engine_state \<Rightarrow> (go_error + client_view) \<times> engine_state" where
  "waitForActiveClient en instanceID timeout s =
     (case wait_for en (\<lambda>c. cv_connected c \<and> cv_logged_in c) instanceID timeout 0 s of
        (Some c, s) \<Rightarrow> (Inr c, s)
      | (None, s) \<Rightarrow> (Inl (plain_error ''no active session found''), s))"

definition waitForPairingClient ::
  "engine_env \<Rightarrow> string \<Rightarrow> duration \<Rightarrow> engine_state \<Rightarrow> (go_error + client_view) \<times> engine_state" where
  "waitForPairingClient en instanceID timeout s =
     (case wait_for en (\<lambda>c. cv_connected c \<and> \<not> cv_logged_in c) instanceID timeout 0 s of
        (Some c, s) \<Rightarrow> (Inr c, s)
      | (None, s) \<Rightarrow> (Inl (wrap ErrTimeout ''runtime did not become ready for pairing''), s))"

definition reconnectExistingClient ::
  "engine_env \<Rightarrow> string \<Rightarrow> engine_state \<Rightarrow> (go_error + client_view) \<times> engine_state" where
  "reconnectExistingClient en instanceID s =
     (case GetClientPointer instanceID s of
        None \<Rightarrow> (Inl (plain_error ''client not initialized''), s)
      | Some c \<Rightarrow>
          if cv_connected c \<and> cv_logged_in c then (Inr c, s)
          else (case svc_Reconnect en instanceID s of
                  (Some e, s) \<Rightarrow> (Inl e, s)
                | (None, s) \<Rightarrow> waitForActiveClient en instanceID clientReadyTimeout s))"

definition hardReconnectClient ::
  "runtime_env \<Rightarrow> string \<Rightarrow> engine_state \<Rightarrow> (go_error + client_view) \<times> engine_state" where
  "hardReconnectClient rt instanceID s =
     (case rt_parts rt of (_, _, _, whatsmeow) \<Rightarrow>
        if \<not> whatsmeow then (Inl (plain_error ''whatsmeow reconnect service unavailable''), s)
        else case ReconnectClient (rt_engine rt) instanceID s of
          (Some e, s) \<Rightarrow> (Inl e, s)
        | (None, s) \<Rightarrow> waitForActiveClient (rt_engine rt) instanceID (clientReadyTimeout + sendRetryDelay) s)"

text \<open>The first of two attempts that succeeds.\<close>

definition or_try ::
  "(go_error + 'a) \<times> engine_state \<Rightarrow> (go_error \<Rightarrow> engine_state \<Rightarrow> (go_error + 'a) \<times> engine_state) \<Rightarrow>
   (go_error + 'a) \<times> engine_state" where
  "or_try r f = (case r of (Inr a, s) \<Rightarrow> (Inr a, s) | (Inl e, s) \<Rightarrow> f e s)"

definition ensureConnectedClient ::
  "runtime_env \<Rightarrow> EngineInstance \<Rightarrow> engine_state \<Rightarrow> (go_error + client_view) \<times> engine_state" where
  "ensureConnectedClient rt x s =
     (let en = rt_engine rt; name = ei_id x in
      or_try (waitForActiveClient en name 0 s) (\<lambda>_ s.
      or_try (reconnectExistingClient en name s) (\<lambda>_ s.
      or_try (hardReconnectClient rt name s) (\<lambda>_ s.
        case svc_Connect en (plain_connect x) x s of
          (Inl e, s) \<Rightarrow> or_try (hardReconnectClient rt name s) (\<lambda>_ s. (Inl e, s))
        | (Inr _, s) \<Rightarrow>
            or_try (waitForActiveClient en name clientReadyTimeout s) (\<lambda>_ s. hardReconnectClient rt name s)))))"

definition refreshConnectedClient ::
  "runtime_env \<Rightarrow> EngineInstance \<Rightarrow> engine_state \<Rightarrow> (go_error + client_view) \<times> engine_state" where
  "refreshConnectedClient rt x s =
     (let en = rt_engine rt; name = ei_id x in
      or_try (waitForActiveClient en name sendRetryDelay s) (\<lambda>_ s.
      or_try (reconnectExistingClient en name s) (\<lambda>_ s.
      or_try (hardReconnectClient rt name s) (\<lambda>_ s.
        case svc_Connect en (plain_connect x) x s of
          (Inl e, s) \<Rightarrow>
            or_try (waitForActiveClient en name sendRetryDelay s) (\<lambda>_ s.
              or_try (hardReconnectClient rt name s) (\<lambda>_ s. (Inl e, s)))
        | (Inr _, s) \<Rightarrow>
            or_try (waitForActiveClient en name clientReadyTimeout s) (\<lambda>_ s. hardReconnectClient rt name s)))))"

section \<open>Pairing, QR codes, settings, history\<close>

definition rt_Pair ::
  "runtime_env \<Rightarrow> string \<Rightarrow> time \<Rightarrow> Instance \<Rightarrow> string \<Rightarrow> engine_state \<Rightarrow> (go_error + RuntimeSnapshot) \<times> engine_state" where
  "rt_Pair rt token now i phone =
     with_legacy rt token now i (\<lambda>x s.
       let en = rt_engine rt; phone = trim_space phone; client = GetClientPointer (ei_id x) s in
       if phone = [] then (Inl (wrap ErrValidation ''phone is required''), s)
       else if (case client of Some c \<Rightarrow> cv_logged_in c | None \<Rightarrow> False) then
         (Inl (wrap ErrConflict ''pairing is only available while the runtime is awaiting login''), s)
       else
         (let ready =
            (case client of
               Some c \<Rightarrow>
                 if cv_connected c then (Inr c, s)
                 else (case svc_Connect en (plain_connect x) x s of
                         (Inl e, s) \<Rightarrow> (Inl e, s)
                       | (Inr _, s) \<Rightarrow> waitForPairingClient en (ei_id x) clientReadyTimeout s)
             | None \<Rightarrow>
                 (case svc_Connect en (plain_connect x) x s of
                    (Inl e, s) \<Rightarrow> (Inl e, s)
                  | (Inr _, s) \<Rightarrow> waitForPairingClient en (ei_id x) clientReadyTimeout s))
          in case ready of
            (Inl e, s) \<Rightarrow> (Inl e, s)
          | (Inr c, s) \<Rightarrow>
              (case en_pair en c phone of
                 Inl e \<Rightarrow> (Inl e, s)
               | Inr code \<Rightarrow> (Inr (or_connecting ((buildRuntimeSnapshot x (Some c))\<lparr>rs_pairing_code := code\<rparr>)), s))))"

definition isQRCodePendingError :: "go_error \<Rightarrow> bool" where
  "isQRCodePendingError e \<longleftrightarrow>
     contains (to_lower (err_text e)) ''no qr code available'' \<or>
     contains (to_lower (err_text e)) ''session already logged in''"

definition rt_QRCode ::
  "runtime_env \<Rightarrow> string \<Rightarrow> time \<Rightarrow> Instance \<Rightarrow> engine_state \<Rightarrow> (go_error + RuntimeSnapshot) \<times> engine_state" where
  "rt_QRCode rt token now i =
     with_legacy rt token now i (\<lambda>x s.
       let n = buildRuntimeSnapshot x (GetClientPointer (ei_id x) s) in
       if rs_logged_in n \<or> (rs_connected n \<and> to_lower (rs_status n) = ''open'') then
         (Inr (n\<lparr>rs_status := (if rs_status n \<in> {[], ''close''} then ''open'' else rs_status n),
                 rs_qrcode := [], rs_pairing_code := []\<rparr>), s)
       else if GetClientPointer (ei_id x) s \<noteq> None \<and> \<not> rs_connected n \<and> rs_qrcode n = [] then
         (Inr (n\<lparr>rs_status := ''connecting'', rs_pairing_code := []\<rparr>), s)
       else case svc_GetQr (rt_engine rt) (ei_id x) s of
         (Inl e, s) \<Rightarrow>
           if isQRCodePendingError e
           then (Inr (n\<lparr>rs_status := ''connecting'', rs_qrcode := [], rs_pairing_code := []\<rparr>), s)
           else (Inl e, s)
       | (Inr (qr, code), s) \<Rightarrow>
           (let n = (buildRuntimeSnapshot x (GetClientPointer (ei_id x) s))\<lparr>rs_qrcode := qr, rs_pairing_code := code\<rparr>
            in (Inr (if rs_status n \<in> {[], ''close''} then n\<lparr>rs_status := ''qrcode''\<rparr> else n), s)))"

definition rt_GetAdvancedSettings ::
  "runtime_env \<Rightarrow> string \<Rightarrow> time \<Rightarrow> Instance \<Rightarrow> engine_state \<Rightarrow> (go_error + AdvancedSettings) \<times> engine_state" where
  "rt_GetAdvancedSettings rt token now i s =
     (case ensureLegacyInstance rt token now i s of
        (Inl e, s) \<Rightarrow> (Inl e, s)
      | (Inr x, s) \<Rightarrow> (svc_GetAdvancedSettings (rt_engine rt) (ei_id x) s, s))"

definition rt_UpdateAdvancedSettings ::
  "runtime_env \<Rightarrow> string \<Rightarrow> time \<Rightarrow> Instance \<Rightarrow> AdvancedSettings \<Rightarrow> engine_state \<Rightarrow>
   (go_error + RuntimeSnapshot) \<times> engine_state" where
  "rt_UpdateAdvancedSettings rt token now i settings s =
     (case ensureLegacyInstance rt token now i s of
        (Inl e, s) \<Rightarrow> (Inl e, s)
      | (Inr x, s) \<Rightarrow>
          (case svc_UpdateAdvancedSettings (rt_engine rt) (ei_id x) settings s of
             (Some e, s) \<Rightarrow> (Inl e, s)
           | (None, s) \<Rightarrow> rt_Snapshot rt token now i s))"

record HistoryBackfillResult =
  hr_accepted :: bool
  hr_chat_jid :: string
  hr_anchor_message_id :: string
  hr_anchor_timestamp :: time
  hr_count :: int

definition GroupServer :: string where "GroupServer = ''g.us''"

definition rt_RequestHistorySync ::
  "runtime_env \<Rightarrow> string \<Rightarrow> time \<Rightarrow> Instance \<Rightarrow> HistoryBackfillRequest \<Rightarrow> engine_state \<Rightarrow>
   (go_error + HistoryBackfillResult) \<times> engine_state" where
  "rt_RequestHistorySync rt token now i input =
     with_legacy rt token now i (\<lambda>x s.
       case ensureConnectedClient rt x s of
         (Inl e, s) \<Rightarrow> (Inl e, s)
       | (Inr _, s) \<Rightarrow>
           (case rt_parse_jid rt (trim_space (hb_chat_jid input)) of
              (_, Some _) \<Rightarrow> (Inl (wrap ErrValidation ''invalid chat_jid''), s)
            | (chat, None) \<Rightarrow>
                if trim_space (hb_message_id input) = [] \<or> hb_timestamp input = 0 then
                  (Inl (wrap ErrValidation ''message anchor is required for history sync''), s)
                else
                  (let count = (if hb_count input \<le> 0 then 50 else hb_count input);
                       count = (if 200 < count then 200 else count);
                       request = input\<lparr>hb_chat_jid := rt_jid_string rt chat, hb_message_id := trim_space (hb_message_id input),
                         hb_is_group := hb_is_group input \<or> jid_server chat = GroupServer, hb_count := count\<rparr>
                   in case rt_request_history rt (ei_id x) request of
                     Some e \<Rightarrow> (Inl e, s)
                   | None \<Rightarrow>
                       (Inr \<lparr>hr_accepted = True, hr_chat_jid = rt_jid_string rt chat,
                             hr_anchor_message_id = trim_space (hb_message_id input),
                             hr_anchor_timestamp = hb_timestamp input, hr_count = count\<rparr>, s))))"

section \<open>Recipients\<close>

definition no_jid :: wa_jid where "no_jid = \<lparr>jid_user = [], jid_server = DefaultUserServer\<rparr>"

definition validateLegacyMessageRecipient :: "runtime_env \<Rightarrow> string \<Rightarrow> bool option \<Rightarrow> go_error + wa_jid" where
  "validateLegacyMessageRecipient rt phone formatJID =
     (let shouldFormat = (case formatJID of None \<Rightarrow> True | Some b \<Rightarrow> b);
          final =
            (if shouldFormat then
               (case CreateJID (if contains phone ''@s.whatsapp.net'' then split_first (CHR ''@'') phone else phone) of
                  Inr normalizedJID \<Rightarrow> Inr normalizedJID
                | Inl _ \<Rightarrow>
                    (case ParseJID (rt_parse_jid rt) phone of
                       (recipient, ok) \<Rightarrow>
                         if ok then Inr (rt_jid_string rt recipient)
                         else Inl (plain_error (''could not parse phone: '' @ phone))))
             else Inr phone)
      in case final of
        Inl e \<Rightarrow> Inl e
      | Inr finalPhone \<Rightarrow>
          (case ParseJID (rt_parse_jid rt) finalPhone of
             (recipient, ok) \<Rightarrow>
               if ok then Inr recipient else Inl (plain_error ''could not parse formatted phone'')))"

text \<open>The JID WhatsApp knows a number by, \<open>None\<close> when it does not know it.\<close>

definition checkTextRecipientOnWhatsApp :: "runtime_env \<Rightarrow> string \<Rightarrow> bool \<Rightarrow> go_error + string option" where
  "checkTextRecipientOnWhatsApp rt phone formatJID =
     (let numbers = PrepareNumbersForWhatsAppCheck [phone] (Some formatJID) in
      case rt_on_whatsapp rt numbers of
        Inl e \<Rightarrow> Inl (wrap_error (''failed to check if number '' @ concat (take 1 numbers) @ '' exists on WhatsApp'') e)
      | Inr resp \<Rightarrow>
          (case resp of
             (True, jid) # _ \<Rightarrow> Inr (Some jid)
           | _ \<Rightarrow> Inr None))"

definition resolveTextRecipient :: "runtime_env \<Rightarrow> string \<Rightarrow> go_error + wa_jid" where
  "resolveTextRecipient rt number =
     (case validateLegacyMessageRecipient rt number (Some True) of
        Inl e \<Rightarrow> Inl e
      | Inr recipient \<Rightarrow>
          if \<not> rt_check_user_exists rt then Inr recipient
          else if contains number ''@g.us'' \<or> contains number ''@broadcast'' \<or> contains number ''@newsletter'' \<or>
                  contains number ''@lid'' then Inr recipient
          else case checkTextRecipientOnWhatsApp rt number False of
            Inl _ \<Rightarrow> Inr recipient
          | Inr (Some jid) \<Rightarrow> validateLegacyMessageRecipient rt jid (Some False)
          | Inr None \<Rightarrow>
              (case checkTextRecipientOnWhatsApp rt number True of
                 Inl _ \<Rightarrow> Inr recipient
               | Inr (Some jid) \<Rightarrow> validateLegacyMessageRecipient rt jid (Some False)
               | Inr None \<Rightarrow> Inl (plain_error (''number '' @ number @ '' is not registered on WhatsApp''))))"

record NumberCheckResult =
  nc_number :: string
  nc_exists :: bool
  nc_jid :: string

fun check_numbers :: "runtime_env \<Rightarrow> string list \<Rightarrow> go_error + NumberCheckResult list" where
  "check_numbers rt [] = Inr []"
| "check_numbers rt (n # ns) =
     (case rt_on_whatsapp rt (PrepareNumbersForWhatsAppCheck [n] (Some True)) of
        Inl e \<Rightarrow> Inl e
      | Inr resp \<Rightarrow>
          (let r = (case resp of
                      (True, jid) # _ \<Rightarrow> \<lparr>nc_number = n, nc_exists = True, nc_jid = jid\<rparr>
                    | _ \<Rightarrow> \<lparr>nc_number = n, nc_exists = False, nc_jid = []\<rparr>)
           in case check_numbers rt ns of Inl e \<Rightarrow> Inl e | Inr rs \<Rightarrow> Inr (r # rs)))"

definition rt_CheckNumbers ::
  "runtime_env \<Rightarrow> string \<Rightarrow> time \<Rightarrow> Instance \<Rightarrow> string list \<Rightarrow> engine_state \<Rightarrow>
   (go_error + NumberCheckResult list) \<times> engine_state" where
  "rt_CheckNumbers rt token now i numbers =
     with_legacy rt token now i (\<lambda>x s.
       case ensureConnectedClient rt x s of
         (Inl e, s) \<Rightarrow> (Inl e, s)
       | (Inr _, s) \<Rightarrow> (check_numbers rt numbers, s))"

section \<open>Sending a text\<close>

definition isTransientSendError :: "go_error \<Rightarrow> bool" where
  "isTransientSendError e \<longleftrightarrow>
     contains (to_lower (err_text e)) ''failed to get device list'' \<or>
     contains (to_lower (err_text e)) ''failed to send usync query'' \<or>
     contains (to_lower (err_text e)) ''context canceled''"

text \<open>
  The loop of attempts: the argument \<open>left\<close> counts down from three. The answer comes with the calls of
  \<open>SendMessage\<close> made, each a recipient, a text and an id.
\<close>

fun send_attempts ::
  "runtime_env \<Rightarrow> EngineInstance \<Rightarrow> string \<Rightarrow> string \<Rightarrow> string \<Rightarrow> time \<Rightarrow> nat \<Rightarrow> nat \<Rightarrow> go_error \<Rightarrow> engine_state \<Rightarrow>
   (go_error + SendResult) \<times> (string \<times> string \<times> string) list \<times> engine_state" where
  "send_attempts rt x recipient body messageID now 0 attempt lastErr s = (Inl lastErr, [], s)"
| "send_attempts rt x recipient body messageID now (Suc left) attempt lastErr s =
     (case (if 0 < attempt
            then map_prod (case_sum Some (\<lambda>_. None)) id
                   (refreshConnectedClient rt x (en_wait (rt_engine rt) sendRetryDelay s))
            else (None, s)) of
        (Some e, s) \<Rightarrow> (Inl e, [], s)
      | (None, s) \<Rightarrow>
          (let call = (recipient, body, messageID);
               again = (\<lambda>e. case send_attempts rt x recipient body messageID now left (attempt + 1) e s of
                             (r, calls, s) \<Rightarrow> (r, call # calls, s))
           in case rt_send rt attempt recipient body messageID of
             Delivered serverID \<Rightarrow>
               (Inr \<lparr>sr_message_id = messageID, sr_server_id = serverID, sr_chat = recipient, sr_from_me = True,
                     sr_timestamp = now, sr_message_type = []\<rparr>, [call], s)
           | TimedOut \<Rightarrow> again (wrap ErrTimeout ''send message timed out after 45s'')
           | Refused e \<Rightarrow> if isTransientSendError e then again e else (Inl e, [call], s)))"

definition rt_SendText ::
  "runtime_env \<Rightarrow> string \<Rightarrow> time \<Rightarrow> string \<Rightarrow> Instance \<Rightarrow> string \<Rightarrow> string \<Rightarrow> engine_state \<Rightarrow>
   (go_error + SendResult) \<times> (string \<times> string \<times> string) list \<times> engine_state" where
  "rt_SendText rt token now messageID i number body s =
     (case with_legacy rt token now i (\<lambda>x s.
             case ensureConnectedClient rt x s of
               (Inl e, s) \<Rightarrow> (Inl e, s)
             | (Inr _, s) \<Rightarrow>
                 (case resolveTextRecipient rt (trim_space number) of
                    Inl e \<Rightarrow> (Inl e, s)
                  | Inr recipient \<Rightarrow> (Inr (x, rt_jid_string rt recipient), s))) s of
        (Inl e, s) \<Rightarrow> (Inl e, [], s)
      | (Inr (x, recipient), s) \<Rightarrow>
          send_attempts rt x recipient body messageID now 3 0 (plain_error []) s)"

end
