(* ===== verification/Runtime_Obs.thy ===== *)
theory Runtime_Obs
  imports Interval_Gate Engine_Runtime
begin

text \<open>
  What is noted of the runtime of an instance: the observations the instance service makes
  (\<open>recordRuntimeObservation\<close> of \<open>internal/instance/service.go\<close>), the registry that hands lifecycle events to
  listeners (\<open>pkg/runtimeobs/registry.go\<close>), the listener that writes them to the tables (\<open>internal/service/app.go\<close>)
  and the tables (\<open>gormRuntimeObservabilityRepository\<close>).

  The registry starts a goroutine for every event and listener. \<open>ob_jobs\<close> holds those that are under way, each with
  what it has still to do: to read the state of the session, to write it, to append the event. They run in any
  order.
\<close>

section \<open>Tables\<close>

record RuntimeSessionState =
  rn_id :: string
  rn_tenant_id :: string
  rn_instance_id :: string
  rn_status :: string
  rn_last_seen_status :: string
  rn_last_event_type :: string
  rn_last_event_source :: string
  rn_connected :: bool
  rn_logged_in :: bool
  rn_pairing_active :: bool
  rn_disconnect_reason :: string
  rn_last_error :: string
  rn_last_event_at :: "time option"
  rn_last_seen_at :: "time option"
  rn_last_connected_at :: "time option"
  rn_last_disconnected_at :: "time option"
  rn_last_paired_at :: "time option"
  rn_last_logout_at :: "time option"
  rn_updated_at :: time

record RuntimeSessionEvent =
  re_id :: string
  re_tenant_id :: string
  re_instance_id :: string
  re_event_type :: string
  re_event_source :: string
  re_status :: string
  re_connected :: bool
  re_logged_in :: bool
  re_pairing_active :: bool
  re_disconnect_reason :: string
  re_error_message :: string
  re_message :: string
  re_payload :: json_object
  re_occurred_at :: time

record obs_db =
  ob_states :: "RuntimeSessionState list"
  ob_events :: "RuntimeSessionEvent list"
  ob_outage :: "go_error option"

definition state_key :: "RuntimeSessionState \<Rightarrow> string \<times> string" where
  "state_key st = (rn_tenant_id st, rn_instance_id st)"

text \<open>All columns but the id are assigned when the session has a row already; the library sets the time of the write.\<close>

definition obs_UpsertState :: "time \<Rightarrow> RuntimeSessionState option \<Rightarrow> obs_db \<Rightarrow> go_error option \<times> obs_db" where
  "obs_UpsertState now st db =
     (case st of
        None \<Rightarrow> (None, db)
      | Some st \<Rightarrow>
          (case ob_outage db of
             Some e \<Rightarrow> (Some e, db)
           | None \<Rightarrow>
               if state_key st \<in> state_key ` set (ob_states db)
               then (None, db\<lparr>ob_states :=
                       map (\<lambda>x. if state_key x = state_key st then st\<lparr>rn_id := rn_id x, rn_updated_at := now\<rparr> else x) (ob_states db)\<rparr>)
               else (None, db\<lparr>ob_states := ob_states db @ [st\<lparr>rn_updated_at := now\<rparr>]\<rparr>)))"

definition obs_GetState :: "string \<Rightarrow> string \<Rightarrow> obs_db \<Rightarrow> go_error + RuntimeSessionState option" where
  "obs_GetState tenantID instanceID db =
     (case ob_outage db of
        Some e \<Rightarrow> Inl e
      | None \<Rightarrow> Inr (find (\<lambda>st. state_key st = (tenantID, instanceID)) (sort_key rn_id (ob_states db))))"

definition obs_AppendEvent :: "RuntimeSessionEvent option \<Rightarrow> obs_db \<Rightarrow> go_error option \<times> obs_db" where
  "obs_AppendEvent e db =
     (case e of
        None \<Rightarrow> (None, db)
      | Some e \<Rightarrow>
          (case ob_outage db of
             Some err \<Rightarrow> (Some err, db)
           | None \<Rightarrow> (None, db\<lparr>ob_events := ob_events db @ [e]\<rparr>)))"

text \<open>The latest, the later row first where times are equal; the answer has them in the order of time.\<close>

definition obs_ListEvents :: "string \<Rightarrow> string \<Rightarrow> int \<Rightarrow> obs_db \<Rightarrow> go_error + RuntimeSessionEvent list" where
  "obs_ListEvents tenantID instanceID limit db =
     (case ob_outage db of
        Some e \<Rightarrow> Inl e
      | None \<Rightarrow>
          (let found = sort_key (\<lambda>e. - re_occurred_at e)
                 (rev (filter (\<lambda>e. re_tenant_id e = tenantID \<and> re_instance_id e = instanceID) (ob_events db)))
           in Inr (rev (if 0 < limit then take (nat limit) found else found))))"

definition obs_ListStatesByTenant :: "string \<Rightarrow> obs_db \<Rightarrow> go_error + RuntimeSessionState list" where
  "obs_ListStatesByTenant tenantID db =
     (case ob_outage db of
        Some e \<Rightarrow> Inl e
      | None \<Rightarrow> Inr (sort_key (\<lambda>st. - rn_updated_at st) (filter (\<lambda>st. rn_tenant_id st = tenantID) (ob_states db))))"

section \<open>The registry\<close>

record LifecycleEvent =
  le_instance_id :: string
  le_event_type :: string
  le_event_source :: string
  le_status :: string
  le_connected :: bool
  le_logged_in :: bool
  le_pairing_active :: bool
  le_disconnect_reason :: string
  le_error_message :: string
  le_message :: string
  le_payload :: json_object
  le_occurred_at :: time

definition lifecycleStatusObservedMinInterval :: duration where
  "lifecycleStatusObservedMinInterval = 15 * second"

definition boolKey :: "bool \<Rightarrow> string" where "boolKey b = (if b then ''true'' else ''false'')"

definition lifecycle_key :: "LifecycleEvent \<Rightarrow> string" where
  "lifecycle_key e = join [CHR 0x00]
     [le_instance_id e, le_event_type e, le_status e, boolKey (le_connected e), boolKey (le_logged_in e),
      boolKey (le_pairing_active e), le_disconnect_reason e, le_error_message e]"

text \<open>True for an event that is dropped.\<close>

definition shouldDropDuplicateLifecycleEvent ::
  "LifecycleEvent \<Rightarrow> (string \<rightharpoonup> time) \<Rightarrow> bool \<times> (string \<rightharpoonup> time)" where
  "shouldDropDuplicateLifecycleEvent e seen =
     (if le_event_type e \<noteq> ''status_observed'' then (False, seen)
      else case gate_try lifecycleStatusObservedMinInterval (lifecycle_key e) (le_occurred_at e) seen of
        (ok, seen) \<Rightarrow> (\<not> ok, seen))"

definition trimmed_event :: "time \<Rightarrow> LifecycleEvent \<Rightarrow> LifecycleEvent" where
  "trimmed_event now e =
     e\<lparr>le_occurred_at := (if le_occurred_at e = 0 then now else le_occurred_at e),
       le_instance_id := trim_space (le_instance_id e), le_event_type := trim_space (le_event_type e),
       le_event_source := trim_space (le_event_source e), le_status := trim_space (le_status e),
       le_disconnect_reason := trim_space (le_disconnect_reason e), le_error_message := trim_space (le_error_message e),
       le_message := trim_space (le_message e)\<rparr>"

text \<open>The events that get through are handed over.\<close>

definition NotifyLifecycleEvent ::
  "time \<Rightarrow> LifecycleEvent \<Rightarrow> (string \<rightharpoonup> time) \<Rightarrow> LifecycleEvent option \<times> (string \<rightharpoonup> time)" where
  "NotifyLifecycleEvent now e seen =
     (if trim_space (le_instance_id e) = [] \<or> trim_space (le_event_type e) = [] then (None, seen)
      else let e = trimmed_event now e in
        case shouldDropDuplicateLifecycleEvent e seen of
          (True, seen) \<Rightarrow> (None, seen)
        | (False, seen) \<Rightarrow> (Some e, seen))"

section \<open>Observations\<close>

definition runtimeObservationMinInterval :: duration where "runtimeObservationMinInterval = 15 * second"
definition noisyLogMinInterval :: duration where "noisyLogMinInterval = 30 * second"

definition observation_key :: "string \<Rightarrow> string \<Rightarrow> string \<Rightarrow> bool \<Rightarrow> bool \<Rightarrow> bool \<Rightarrow> string \<Rightarrow> string" where
  "observation_key instanceID eventType status connected loggedIn pairingActive errorMessage =
     join [CHR 0x00]
       [trim_space instanceID, trim_space eventType, trim_space status, boolKey connected, boolKey loggedIn,
        boolKey pairingActive, trim_space errorMessage]"

definition shouldRecordRuntimeObservation ::
  "string \<Rightarrow> string \<Rightarrow> string \<Rightarrow> bool \<Rightarrow> bool \<Rightarrow> bool \<Rightarrow> string \<Rightarrow> time \<Rightarrow> (string \<rightharpoonup> time) \<Rightarrow> bool \<times> (string \<rightharpoonup> time)" where
  "shouldRecordRuntimeObservation instanceID eventType status connected loggedIn pairingActive errorMessage now seen =
     (if trim_space eventType \<noteq> ''status_observed'' then (True, seen)
      else gate_try runtimeObservationMinInterval
        (observation_key instanceID eventType status connected loggedIn pairingActive errorMessage) now seen)"

definition shouldLogNoisy :: "string \<Rightarrow> time \<Rightarrow> (string \<rightharpoonup> time) \<Rightarrow> bool \<times> (string \<rightharpoonup> time)" where
  "shouldLogNoisy key now seen =
     (if trim_space key = [] then (True, seen) else gate_try noisyLogMinInterval (trim_space key) now seen)"

definition firstStatus :: "string list \<Rightarrow> string" where "firstStatus = firstString"

text \<open>The snapshot as JSON: its fields by their names.\<close>

definition runtimeObservationPayload :: "RuntimeSnapshot option \<Rightarrow> json_object" where
  "runtimeObservationPayload snapshot =
     (case snapshot of
        None \<Rightarrow> []
      | Some n \<Rightarrow>
          [(''Token'', JStr (rs_token n)), (''Webhook'', JStr (rs_webhook n)), (''Events'', JStr (rs_events n)),
           (''JID'', JStr (rs_jid n)), (''ProfileName'', JStr (rs_profile_name n)), (''Connected'', JBool (rs_connected n)),
           (''LoggedIn'', JBool (rs_logged_in n)), (''Status'', JStr (rs_status n)), (''QRCode'', JStr (rs_qrcode n)),
           (''PairingCode'', JStr (rs_pairing_code n)), (''AlwaysOnline'', JBool (rs_always_online n)),
           (''RejectCall'', JBool (rs_reject_call n)), (''ReadMessages'', JBool (rs_read_messages n)),
           (''IgnoreGroups'', JBool (rs_ignore_groups n)), (''IgnoreStatus'', JBool (rs_ignore_status n))])"

record observation =
  bs_status :: string
  bs_connected :: bool
  bs_logged_in :: bool
  bs_pairing_active :: bool

definition observed :: "Instance \<Rightarrow> RuntimeSnapshot option \<Rightarrow> string \<Rightarrow> observation" where
  "observed i snapshot eventType =
     (let status = firstStatus [trim_space (in_status i), ''created''];
          b = (case snapshot of
                 None \<Rightarrow>
                   \<lparr>bs_status = status, bs_connected = (status \<in> {''open'', ''connected''}),
                    bs_logged_in = (status \<in> {''open'', ''connected''}),
                    bs_pairing_active = (status \<in> {''qrcode'', ''connecting''})\<rparr>
               | Some n \<Rightarrow>
                   (let status = firstStatus [trim_space (rs_status n), status] in
                    \<lparr>bs_status = status, bs_connected = rs_connected n, bs_logged_in = rs_logged_in n,
                     bs_pairing_active = (\<not> rs_logged_in n \<and>
                       (trim_space (rs_qrcode n) \<noteq> [] \<or> trim_space (rs_pairing_code n) \<noteq> [] \<or>
                        status \<in> {''qrcode'', ''connecting''}))\<rparr>))
      in if trim_space eventType \<in> {''logout'', ''disconnected''} then
           b\<lparr>bs_connected := False, bs_logged_in := False, bs_pairing_active := False,
             bs_status := (if trim_space eventType = ''logout'' \<and> bs_status b = ''open'' then ''close'' else bs_status b)\<rparr>
         else b)"

text \<open>What the service remembers, the registry's map, and the goroutines of the listener that are under way.\<close>

datatype listener_job =
    ReadState LifecycleEvent
  | WriteState LifecycleEvent string RuntimeSessionState RuntimeSessionEvent
  | AppendEvent LifecycleEvent RuntimeSessionEvent

record observations =
  oz_gate :: "string \<rightharpoonup> time"
  oz_seen :: "string \<rightharpoonup> time"
  oz_jobs :: "listener_job list"

definition hand_over :: "time \<Rightarrow> LifecycleEvent \<Rightarrow> observations \<Rightarrow> observations" where
  "hand_over now e oz =
     (case NotifyLifecycleEvent now e (oz_seen oz) of
        (None, seen) \<Rightarrow> oz\<lparr>oz_seen := seen\<rparr>
      | (Some e, seen) \<Rightarrow> oz\<lparr>oz_seen := seen, oz_jobs := oz_jobs oz @ [ReadState e]\<rparr>)"

definition recordRuntimeObservation ::
  "Instance \<Rightarrow> RuntimeSnapshot option \<Rightarrow> string \<Rightarrow> string \<Rightarrow> string \<Rightarrow> go_error option \<Rightarrow> time \<Rightarrow> observations \<Rightarrow> observations" where
  "recordRuntimeObservation i snapshot eventType source message err now oz =
     (let b = observed i snapshot eventType;
          errorMessage = (case err of None \<Rightarrow> [] | Some e \<Rightarrow> trim_space (err_text e))
      in case shouldRecordRuntimeObservation (in_id i) eventType (bs_status b) (bs_connected b) (bs_logged_in b)
                (bs_pairing_active b) errorMessage now (oz_gate oz) of
        (False, gate) \<Rightarrow> oz\<lparr>oz_gate := gate\<rparr>
      | (True, gate) \<Rightarrow>
          hand_over now
            \<lparr>le_instance_id = in_id i, le_event_type = trim_space eventType, le_event_source = firstStatus [source, ''api''],
             le_status = bs_status b, le_connected = bs_connected b, le_logged_in = bs_logged_in b,
             le_pairing_active = bs_pairing_active b, le_disconnect_reason = [], le_error_message = errorMessage,
             le_message = trim_space message, le_payload = runtimeObservationPayload snapshot, le_occurred_at = now\<rparr>
            (oz\<lparr>oz_gate := gate\<rparr>))"

section \<open>The listener\<close>

definition fresh_state :: "string \<Rightarrow> Instance \<Rightarrow> LifecycleEvent \<Rightarrow> RuntimeSessionState" where
  "fresh_state newID i e =
     \<lparr>rn_id = newID, rn_tenant_id = in_tenant_id i, rn_instance_id = in_id i,
      rn_status = firstString [le_status e, in_status i, ''created''],
      rn_last_seen_status = firstString [le_status e, in_status i, ''created''], rn_last_event_type = [],
      rn_last_event_source = [], rn_connected = False, rn_logged_in = False, rn_pairing_active = False,
      rn_disconnect_reason = [], rn_last_error = [], rn_last_event_at = None, rn_last_seen_at = None,
      rn_last_connected_at = None, rn_last_disconnected_at = None, rn_last_paired_at = None, rn_last_logout_at = None,
      rn_updated_at = 0\<rparr>"

definition next_status :: "Instance \<Rightarrow> LifecycleEvent \<Rightarrow> RuntimeSessionState \<Rightarrow> string" where
  "next_status i e st = firstString [le_status e, rn_last_seen_status st, in_status i, ''created'']"

text \<open>The session's row after an event.\<close>

definition after_event :: "Instance \<Rightarrow> LifecycleEvent \<Rightarrow> RuntimeSessionState \<Rightarrow> RuntimeSessionState" where
  "after_event i e st =
     (let t = trim_space (le_event_type e); at = Some (le_occurred_at e);
          st = st\<lparr>rn_status := next_status i e st, rn_last_seen_status := next_status i e st, rn_last_event_type := t,
                  rn_last_event_source := firstString [le_event_source e, rn_last_event_source st, ''runtime''],
                  rn_connected := le_connected e, rn_logged_in := le_logged_in e, rn_pairing_active := le_pairing_active e,
                  rn_disconnect_reason := trim_space (le_disconnect_reason e),
                  rn_last_error := trim_space (le_error_message e), rn_last_event_at := at, rn_last_seen_at := at\<rparr>;
          st = (if t \<in> {''connected'', ''paired''} then st\<lparr>rn_last_connected_at := at\<rparr>
                else if t = ''disconnected'' then st\<lparr>rn_last_disconnected_at := at\<rparr>
                else if t = ''logout'' then st\<lparr>rn_last_logout_at := at, rn_last_disconnected_at := at\<rparr>
                else st)
      in if t = ''paired'' then st\<lparr>rn_last_paired_at := at\<rparr> else st)"

definition event_record :: "string \<Rightarrow> Instance \<Rightarrow> string \<Rightarrow> LifecycleEvent \<Rightarrow> RuntimeSessionEvent" where
  "event_record newID i status e =
     \<lparr>re_id = newID, re_tenant_id = in_tenant_id i, re_instance_id = in_id i, re_event_type = trim_space (le_event_type e),
      re_event_source = firstString [le_event_source e, ''runtime''], re_status = status, re_connected = le_connected e,
      re_logged_in = le_logged_in e, re_pairing_active = le_pairing_active e,
      re_disconnect_reason = trim_space (le_disconnect_reason e), re_error_message = trim_space (le_error_message e),
      re_message = trim_space (le_message e), re_payload = le_payload e, re_occurred_at = le_occurred_at e\<rparr>"

text \<open>
  One turn of a goroutine: what it leaves to do, and the tables. The ids are those of a new row of the state and of
  the event. A state that cannot be loaded counts as none; an error of the write ends the goroutine.
\<close>

definition listener_turn ::
  "auth_db \<Rightarrow> time \<Rightarrow> string \<Rightarrow> string \<Rightarrow> listener_job \<Rightarrow> obs_db \<Rightarrow> listener_job option \<times> obs_db" where
  "listener_turn db now stateID eventID job ob =
     (case job of
        ReadState e \<Rightarrow>
          (case instance_GetByGlobalID db (le_instance_id e) of
             Inl _ \<Rightarrow> (None, ob)
           | Inr i \<Rightarrow>
               (let st = (case obs_GetState (in_tenant_id i) (in_id i) ob of
                            Inr (Some st) \<Rightarrow> st
                          | _ \<Rightarrow> fresh_state stateID i e)
                in (Some (WriteState e (next_status i e st) (after_event i e st)
                            (event_record eventID i (next_status i e st) e)), ob)))
      | WriteState e _ st r \<Rightarrow>
          (case obs_UpsertState now (Some st) ob of
             (Some _, ob) \<Rightarrow> (None, ob)
           | (None, ob) \<Rightarrow> (Some (AppendEvent e r), ob))
      | AppendEvent e r \<Rightarrow> (None, snd (obs_AppendEvent (Some r) ob)))"

section \<open>Gates\<close>

lemma intervals_positive:
  "0 < runtimeObservationMinInterval" "0 < lifecycleStatusObservedMinInterval" "0 < noisyLogMinInterval"
  by (simp_all add: runtimeObservationMinInterval_def lifecycleStatusObservedMinInterval_def noisyLogMinInterval_def)

interpretation obs_gate: interval_gate runtimeObservationMinInterval "gate_try runtimeObservationMinInterval" "\<lambda>seen. seen"
  by (rule gate_try_interval_gate) (rule intervals_positive)

interpretation event_gate:
  interval_gate lifecycleStatusObservedMinInterval "gate_try lifecycleStatusObservedMinInterval" "\<lambda>seen. seen"
  by (rule gate_try_interval_gate) (rule intervals_positive)

interpretation log_gate: interval_gate noisyLogMinInterval "gate_try noisyLogMinInterval" "\<lambda>seen. seen"
  by (rule gate_try_interval_gate) (rule intervals_positive)

end
