(* ===== verification/Engine_System.thy ===== *)
theory Engine_System
  imports Engine_Runtime
begin

text \<open>
  What holds of the engine's instances as a whole: which row an instance of the SaaS layer is attached to, what
  every operation keeps, what the sending of a text does to the library, and where the operations disagree.
\<close>

section \<open>The row of an instance\<close>

lemma find_sorted_id:
  assumes "distinct (map key rows)" and "x \<in> set rows"
  shows "gorm_first None key (\<lambda>i. key i = key x) rows = Inr x"
  by (rule gorm_first_found) (use assms in \<open>auto simp: distinct_map dest: inj_onD\<close>)

lemma engine_GetByID_row:
  assumes "engine_db_ok db" and "ed_outage db = None" and "x \<in> set (ed_rows db)" and "uuid_ok (ei_id x)"
  shows "engine_GetInstanceByID uuid_ok (ei_id x) db = Inr x"
  using find_sorted_id [of ei_id "ed_rows db" x] assms by (simp add: engine_GetInstanceByID_def engine_db_ok_def)

lemma engine_GetByID_Inr:
  "engine_GetInstanceByID uuid_ok rowID db = Inr x \<Longrightarrow>
     x \<in> set (ed_rows db) \<and> ei_id x = rowID \<and> uuid_ok rowID \<and> ed_outage db = None"
  by (auto simp: engine_GetInstanceByID_def gorm_first_def split: if_splits option.splits dest: find_Some_mem)

lemma engine_GetByID_none:
  "engine_GetInstanceByID uuid_ok rowID db = Inl e \<Longrightarrow> uuid_ok rowID \<Longrightarrow> ed_outage db = None \<Longrightarrow>
     rowID \<notin> ei_id ` set (ed_rows db)"
  by (auto simp: engine_GetInstanceByID_def gorm_first_def find_None_iff split: option.splits)

lemma engine_GetByName_Inr:
  "engine_GetInstanceByName name db = Inr x \<Longrightarrow> x \<in> set (ed_rows db) \<and> ei_name x = name \<and> ed_outage db = None"
  by (auto simp: engine_GetInstanceByName_def gorm_first_def split: option.splits dest: find_Some_mem)

lemma isNotFound_record: "isNotFound (wrap_error ''record not found'' (sentinel_error ErrRecordNotFound))"
  by code_simp

lemma isNotFound_uuid: "\<not> isNotFound (plain_error ''invalid UUID format'')"
  by code_simp

text \<open>The engine does not know the id: then it is the row with the name that is taken.\<close>

lemma engine_GetByID_missing:
  assumes "uuid_ok rowID" and "ed_outage db = None" and "rowID \<notin> ei_id ` set (ed_rows db)"
  shows "engine_GetInstanceByID uuid_ok rowID db = Inl (wrap_error ''record not found'' (sentinel_error ErrRecordNotFound))"
proof -
  have "find (\<lambda>i. ei_id i = rowID) (sort_key ei_id (ed_rows db)) = None"
    using assms(3) by (auto simp: find_None_iff)
  with assms(1,2) show ?thesis by (simp add: engine_GetInstanceByID_def gorm_first_def)
qed

lemma find_legacy_by_name:
  assumes "en_uuid_ok (rt_engine rt) (legacy_id rt i)" and "ed_outage (es_db s) = None"
    and "legacy_id rt i \<notin> ei_id ` set (ed_rows (es_db s))"
  shows "find_legacy rt i s =
    (case engine_GetInstanceByName (trim_space (in_name i)) (es_db s) of Inr x \<Rightarrow> Inr (Some x) | Inl _ \<Rightarrow> Inr None)"
  using engine_GetByID_missing [of "en_uuid_ok (rt_engine rt)" "legacy_id rt i" "es_db s"] assms
  by (simp add: find_legacy_def isNotFound_record)

lemma synced_row_row: "snd (synced_row c token i x) =
   x\<lparr>ei_name := in_name i, ei_token := (if trim_space (ei_token x) = [] then token else ei_token x),
     ei_client_name := (if trim_space (ei_client_name x) = [] then ec_client_name c else ei_client_name x),
     ei_webhook := (if trim_space (ei_webhook x) \<noteq> trim_space (in_webhook_url i) then trim_space (in_webhook_url i)
                    else ei_webhook x),
     ei_events := (if trim_space (in_webhook_url i) \<noteq> [] \<and>
                      (trim_space (ei_events x) = [] \<or> to_lower (trim_space (ei_events x)) = ''all'')
                   then ''MESSAGE'' else ei_events x),
     ei_os_name := (if trim_space (ei_os_name x) = [] then ec_os_name c else ei_os_name x)\<rparr>"
proof -
  have "(if trim_space (ei_name x) = [] \<or> ei_name x \<noteq> in_name i then in_name i else ei_name x) = in_name i" by simp
  then show ?thesis by (simp only: synced_row_def Let_def snd_conv)
qed

lemma synced_row_unchanged: "\<not> fst (synced_row c token i x) \<Longrightarrow> snd (synced_row c token i x) = x"
  by (auto simp: synced_row_def Let_def)

lemma synced_row_id [simp]: "ei_id (snd (synced_row c token i x)) = ei_id x"
  by (simp add: synced_row_row)

lemma synced_row_again:
  assumes "trim_space token \<noteq> []"
  shows "snd (synced_row c token' i (snd (synced_row c token i x))) = snd (synced_row c token i x)"
proof -
  have m: "trim_space ''MESSAGE'' \<noteq> []" "to_lower (trim_space ''MESSAGE'') \<noteq> ''all''" by code_simp+
  show ?thesis unfolding synced_row_row by (simp add: assms m)
qed

lemma sort_key_map: "(\<And>x. x \<in> set rows \<Longrightarrow> key (f x) = key x) \<Longrightarrow> sort_key key (map f rows) = map f (sort_key key rows)"
proof (induction rows)
  case (Cons x rows)
  have "insort_key key (f x) (map f ys) = map f (insort_key key x ys)" if "\<forall>y \<in> set ys. key (f y) = key y" for ys
    using that Cons.prems by (induction ys) auto
  with Cons show ?case by simp
qed simp

lemma find_map: "(\<And>x. x \<in> set rows \<Longrightarrow> P (f x) = P x) \<Longrightarrow> find P (map f rows) = map_option f (find P rows)"
  by (induction rows) auto

lemma gorm_first_map:
  assumes "\<And>x. x \<in> set rows \<Longrightarrow> key (f x) = key x" and "\<And>x. x \<in> set rows \<Longrightarrow> P (f x) = P x"
  shows "gorm_first outage key P (map f rows) = map_sum id f (gorm_first outage key P rows)"
  using sort_key_map [of rows key f] find_map [of "sort_key key rows" P f] assms
  by (auto simp: gorm_first_def split: option.split)

definition replace_row :: "EngineInstance \<Rightarrow> engine_state \<Rightarrow> engine_state" where
  "replace_row x s = s\<lparr>es_db := (es_db s)\<lparr>ed_rows := map (\<lambda>y. if ei_id y = ei_id x then x else y) (ed_rows (es_db s))\<rparr>\<rparr>"

lemma replace_row_id:
  assumes "engine_db_ok (es_db s)" and "x \<in> set (ed_rows (es_db s))"
  shows "replace_row x s = s"
proof -
  have "map (\<lambda>y. if ei_id y = ei_id x then x else y) (ed_rows (es_db s)) = ed_rows (es_db s)"
    using assms by (intro map_idI) (auto simp: engine_db_ok_def distinct_map dest: inj_onD)
  then show ?thesis by (simp add: replace_row_def)
qed

lemma in_db_Update:
  assumes "in_db (engine_Update x) s = (None, s')" and "\<exists>y \<in> set (ed_rows (es_db s)). ei_id y = ei_id x"
  shows "s' = replace_row x s"
  using assms by (auto simp: in_db_def engine_Update_def replace_row_def split: option.splits if_splits)

lemma sync_legacy_row:
  assumes "sync_legacy rt token i r s = (Inr x, s')" and "r \<in> set (ed_rows (es_db s))" and "engine_db_ok (es_db s)"
  shows "x = snd (synced_row (en_config (rt_engine rt)) token i r) \<and> s' = replace_row x s \<and>
    x \<in> set (ed_rows (es_db s')) \<and> engine_db_ok (es_db s')"
proof (cases "synced_row (en_config (rt_engine rt)) token i r")
  case (Pair ch y)
  have y: "y = snd (synced_row (en_config (rt_engine rt)) token i r)" and id: "ei_id y = ei_id r"
    using Pair synced_row_id [of "en_config (rt_engine rt)" token i r] by simp_all
  show ?thesis
  proof (cases ch)
    case False
    then have "y = r" using Pair synced_row_unchanged [of "en_config (rt_engine rt)" token i r] by simp
    moreover have "x = y" "s' = s" using assms(1) Pair False by (simp_all add: sync_legacy_def)
    ultimately show ?thesis using y assms(2,3) replace_row_id [of s x] by simp
  next
    case True
    then have u: "in_db (engine_Update y) s = (None, s')" and x: "x = y"
      using assms(1) Pair by (auto simp: sync_legacy_def split: prod.splits option.splits)
    have s': "s' = replace_row y s" by (rule in_db_Update [OF u]) (use assms(2) id in force)
    have "es_db s' = snd (engine_Update y (es_db s))" using u by (auto simp: in_db_def split: prod.splits)
    then have "engine_db_ok (es_db s')" using engine_Update_ok [OF assms(3)] by simp
    moreover have "y \<in> set (ed_rows (es_db s'))" using assms(2) id s' by (force simp: replace_row_def)
    ultimately show ?thesis using x y s' by simp
  qed
qed

lemma engine_Create_Inr:
  "engine_Create newID i db = (Inr r, db') \<Longrightarrow>
     r = (if ei_id i = [] then i\<lparr>ei_id := newID\<rparr> else i) \<and> db' = db\<lparr>ed_rows := ed_rows db @ [r]\<rparr> \<and> ed_outage db = None"
  by (auto simp: engine_Create_def Let_def split: option.splits if_splits)

lemma new_engine_row_id [simp]: "ei_id (new_engine_row c now data) = cs_instance_id data"
  and new_engine_row_name [simp]: "ei_name (new_engine_row c now data) = cs_name data"
  by (simp_all add: new_engine_row_def Let_def)

lemma svc_Create_row:
  assumes "svc_Create en newID now data s = (Inr r, s')" and "engine_db_ok (es_db s)"
  shows "r \<in> set (ed_rows (es_db s')) \<and> engine_db_ok (es_db s') \<and> ed_outage (es_db s') = None \<and>
    ei_id r = (if cs_instance_id data = [] then newID else cs_instance_id data)"
proof -
  have "in_db (engine_Create newID (new_engine_row (en_config en) now data)) s = (Inr r, s')"
    using assms(1) by (simp add: svc_Create_def split: sum.splits)
  then have c: "engine_Create newID (new_engine_row (en_config en) now data) (es_db s) = (Inr r, es_db s')"
    by (auto simp: in_db_def split: prod.splits)
  have "engine_db_ok (es_db s')" using engine_Create_ok [OF assms(2)] c by (metis snd_conv)
  with engine_Create_Inr [OF c] show ?thesis by auto
qed

lemma find_legacy_Inr:
  assumes "find_legacy rt i s = Inr (Some r)"
  shows "r \<in> set (ed_rows (es_db s)) \<and> ed_outage (es_db s) = None"
  using assms
  by (auto simp: find_legacy_def split: sum.splits if_splits dest: engine_GetByID_Inr engine_GetByName_Inr)

text \<open>The ways to come to a row: by id, by name, by making it.\<close>

lemma ensureLegacyInstance_cases:
  assumes "ensureLegacyInstance rt token now i s = (Inr x, s')"
  obtains (found) r where "ensureReady rt = None" "find_legacy rt i s = Inr (Some r)" "sync_legacy rt token i r s = (Inr x, s')"
  | (made) r t where "ensureReady rt = None" "find_legacy rt i s = Inr None" "create_legacy rt token now i s = (Inr r, t)"
      "sync_legacy rt token i r t = (Inr x, s')"
  using assms by (auto simp: ensureLegacyInstance_def split: option.splits sum.splits prod.splits)

lemma sync_legacy_again:
  assumes "engine_db_ok (es_db s)" and "ed_outage (es_db s) = None" and "x \<in> set (ed_rows (es_db s))"
    and "snd (synced_row (en_config (rt_engine rt)) token i x) = x"
  shows "sync_legacy rt token i x s = (Inr x, s)"
proof (cases "synced_row (en_config (rt_engine rt)) token i x")
  case (Pair ch y)
  then have y: "y = x" using assms(4) by simp
  have "\<not> (\<exists>z \<in> set (ed_rows (es_db s)). ei_id z \<noteq> ei_id x \<and> ei_token z = ei_token x)"
    using assms(1,3) by (auto simp: engine_db_ok_def distinct_map dest: inj_onD)
  then have "in_db (engine_Update x) s = (None, replace_row x s)"
    using assms(2,3) by (auto simp: in_db_def engine_Update_def replace_row_def)
  then show ?thesis using Pair y replace_row_id [OF assms(1,3)] by (simp add: sync_legacy_def split: bool.split)
qed

lemma find_legacy_uuid: "find_legacy rt i s = Inr q \<Longrightarrow> en_uuid_ok (rt_engine rt) (legacy_id rt i)"
  using isNotFound_uuid by (auto simp: find_legacy_def engine_GetInstanceByID_def split: if_splits)

lemma find_legacy_replaced:
  assumes "find_legacy rt i s = Inr (Some r)" and "engine_db_ok (es_db s)" and "engine_db_ok (es_db (replace_row x s))"
    and "ei_id x = ei_id r" and "ei_name x = in_name i" and "trimmed (in_name i)"
  shows "find_legacy rt i (replace_row x s) = Inr (Some x)"
proof -
  let ?f = "\<lambda>y. if ei_id y = ei_id x then x else y" and ?k = "en_uuid_ok (rt_engine rt)"
  let ?rows = "ed_rows (es_db s)"
  note r = find_legacy_Inr [OF assms(1)] and uuid = find_legacy_uuid [OF assms(1)]
  have out: "ed_outage (es_db (replace_row x s)) = None" using r by (simp add: replace_row_def)
  show ?thesis
  proof (cases "legacy_id rt i \<in> ei_id ` set ?rows")
    case True
    then obtain z where z: "z \<in> set ?rows" "ei_id z = legacy_id rt i" by auto
    have "engine_GetInstanceByID ?k (ei_id z) (es_db s) = Inr z"
      by (rule engine_GetByID_row) (use assms(2) r z uuid in auto)
    then have "r = z" using assms(1) z by (simp add: find_legacy_def)
    then have "x \<in> set (ed_rows (es_db (replace_row x s)))" "ei_id x = legacy_id rt i"
      using r z assms(4) by (force simp: replace_row_def)+
    then have "engine_GetInstanceByID ?k (legacy_id rt i) (es_db (replace_row x s)) = Inr x"
      using engine_GetByID_row [OF assms(3) out, of x ?k] uuid by simp
    then show ?thesis by (simp add: find_legacy_def)
  next
    case False
    then have "find_legacy rt i s = (case engine_GetInstanceByName (in_name i) (es_db s) of
        Inr x \<Rightarrow> Inr (Some x) | Inl _ \<Rightarrow> Inr None)"
      using find_legacy_by_name [OF uuid] r assms(6) by (simp add: trimmed_trim_space)
    then have n: "engine_GetInstanceByName (in_name i) (es_db s) = Inr r" using assms(1) by (simp split: sum.splits)
    have same: "ei_name (?f y) = ei_name y" if "y \<in> set ?rows" for y
    proof (cases "ei_id y = ei_id x")
      case True
      then have "y = r" using that r assms(2,4) by (auto simp: engine_db_ok_def distinct_map dest: inj_onD)
      then show ?thesis using True engine_GetByName_Inr [OF n] assms(5) by simp
    qed simp
    have "gorm_first (ed_outage (es_db s)) ei_id (\<lambda>y. ei_name y = in_name i) (map ?f ?rows) =
        map_sum id ?f (gorm_first (ed_outage (es_db s)) ei_id (\<lambda>y. ei_name y = in_name i) ?rows)"
      by (rule gorm_first_map) (simp_all add: same)
    then have n': "engine_GetInstanceByName (in_name i) (es_db (replace_row x s)) = Inr x"
      using n assms(4) by (simp add: engine_GetInstanceByName_def replace_row_def)
    have "legacy_id rt i \<notin> ei_id ` set (ed_rows (es_db (replace_row x s)))"
      using False r assms(4) by (auto simp: replace_row_def)
    then show ?thesis using find_legacy_by_name [OF uuid out] n' assms(6) by (simp add: trimmed_trim_space)
  qed
qed

lemma create_legacy_row:
  assumes "create_legacy rt token now i s = (Inr r, t)" and "find_legacy rt i s = Inr None" and "engine_db_ok (es_db s)"
  shows "r \<in> set (ed_rows (es_db t)) \<and> engine_db_ok (es_db t) \<and> ed_outage (es_db t) = None \<and> ei_id r = legacy_id rt i"
proof (cases "svc_Create (rt_engine rt) (legacy_id rt i) now
             \<lparr>cs_instance_id = legacy_id rt i, cs_name = in_name i, cs_token = token, cs_proxy = None, cs_advanced = None\<rparr> s")
  case (Pair a u)
  show ?thesis
  proof (cases a)
    case (Inr q)
    then have "q = r" "u = t" using assms(1) Pair by (simp_all add: create_legacy_def)
    with Pair Inr svc_Create_row [of "rt_engine rt" "legacy_id rt i" now _ s r t] assms(3) show ?thesis
      by (force simp: case_prod_beta)
  next
    case (Inl e)
    have "es_db u = es_db s" using Pair Inl
      by (auto simp: svc_Create_def in_db_def engine_Create_def Let_def split: sum.splits option.splits if_splits)
    moreover have "\<exists>e. engine_GetInstanceByName (trim_space (in_name i)) (es_db s) = Inl e"
      using assms(2) by (auto simp: find_legacy_def split: sum.splits if_splits)
    ultimately show ?thesis using assms(1) Pair Inl by (auto simp: create_legacy_def)
  qed
qed

text \<open>The row an instance is attached to for good: found, and as the instance wants it.\<close>

definition settled :: "runtime_env \<Rightarrow> string \<Rightarrow> Instance \<Rightarrow> EngineInstance \<Rightarrow> engine_state \<Rightarrow> bool" where
  "settled rt token i x s \<longleftrightarrow> ensureReady rt = None \<and> find_legacy rt i s = Inr (Some x) \<and>
     snd (synced_row (en_config (rt_engine rt)) token i x) = x"

lemma ensure_again:
  assumes "ensureLegacyInstance rt token now i s = (Inr x, s')" and "engine_db_ok (es_db s)"
    and "trimmed (in_name i)" and "trim_space token \<noteq> []"
  shows "ensureLegacyInstance rt token' now' i s' = (Inr x, s') \<and> x \<in> set (ed_rows (es_db s')) \<and>
    engine_db_ok (es_db s') \<and> ei_name x = in_name i \<and> trim_space (ei_token x) \<noteq> [] \<and> trim_space (ei_webhook x) = trim_space (in_webhook_url i) \<and>
    settled rt token' i x s'"
proof -
  have fin: "sync_legacy rt token' i x s' = (Inr x, s') \<and> x \<in> set (ed_rows (es_db s')) \<and> engine_db_ok (es_db s') \<and>
      ei_name x = in_name i \<and> trim_space (ei_token x) \<noteq> [] \<and> trim_space (ei_webhook x) = trim_space (in_webhook_url i) \<and> replace_row x t = s' \<and> ei_id x = ei_id r \<and>
      snd (synced_row (en_config (rt_engine rt)) token' i x) = x"
    if sync: "sync_legacy rt token i r t = (Inr x, s')" and r: "r \<in> set (ed_rows (es_db t))" and ok: "engine_db_ok (es_db t)"
      and out: "ed_outage (es_db t) = None" for r t
  proof -
    note x = sync_legacy_row [OF sync r ok]
    then have x_in: "x \<in> set (ed_rows (es_db s'))" and ok': "engine_db_ok (es_db s')" by blast+
    have out': "ed_outage (es_db s') = None" using x out by (simp add: replace_row_def)
    have again: "snd (synced_row (en_config (rt_engine rt)) token' i x) = x" using x synced_row_again [OF assms(4)] by simp
    then have "sync_legacy rt token' i x s' = (Inr x, s')" by (rule sync_legacy_again [OF ok' out' x_in])
    moreover have "ei_name x = in_name i" "trim_space (ei_token x) \<noteq> []" "trim_space (ei_webhook x) = trim_space (in_webhook_url i)" "ei_id x = ei_id r"
      using x assms(4) by (simp_all add: synced_row_row)
    moreover have "replace_row x t = s'" using x by blast
    ultimately show ?thesis using x_in ok' again by blast
  qed
  from assms(1) show ?thesis
  proof (cases rule: ensureLegacyInstance_cases)
    case (found r)
    note r = find_legacy_Inr [OF found(2)]
    then have f: "sync_legacy rt token' i x s' = (Inr x, s') \<and> x \<in> set (ed_rows (es_db s')) \<and> engine_db_ok (es_db s') \<and>
      ei_name x = in_name i \<and> trim_space (ei_token x) \<noteq> [] \<and> trim_space (ei_webhook x) = trim_space (in_webhook_url i) \<and> replace_row x s = s' \<and> ei_id x = ei_id r \<and>
      snd (synced_row (en_config (rt_engine rt)) token' i x) = x"
      by (elim conjE) (rule fin [OF found(3) _ assms(2)])
    have s': "s' = replace_row x s" and ok: "engine_db_ok (es_db s')" and "ei_id x = ei_id r" "ei_name x = in_name i"
      using f by blast+
    then have "find_legacy rt i s' = Inr (Some x)"
      unfolding s' by (intro find_legacy_replaced [OF found(2) assms(2)]) (simp_all add: assms(3))
    note known = this
    have "sync_legacy rt token' i x s' = (Inr x, s')" using f by blast
    with known have "ensureLegacyInstance rt token' now' i s' = (Inr x, s')"
      using found(1) by (simp add: ensureLegacyInstance_def)
    then show ?thesis using f known found(1) unfolding settled_def by blast
  next
    case (made r t)
    note r = create_legacy_row [OF made(3,2) assms(2)]
    then have f: "sync_legacy rt token' i x s' = (Inr x, s')" "x \<in> set (ed_rows (es_db s'))" "engine_db_ok (es_db s')"
      "ei_name x = in_name i" "trim_space (ei_token x) \<noteq> []" "trim_space (ei_webhook x) = trim_space (in_webhook_url i)" "replace_row x t = s'"
      "ei_id x = legacy_id rt i" "snd (synced_row (en_config (rt_engine rt)) token' i x) = x"
      using fin [OF made(4)] by simp_all
    have "ed_outage (es_db (replace_row x t)) = None" using r by (simp add: replace_row_def)
    then have "ed_outage (es_db s') = None" using f by simp
    then have "engine_GetInstanceByID (en_uuid_ok (rt_engine rt)) (ei_id x) (es_db s') = Inr x"
      by (intro engine_GetByID_row) (use f find_legacy_uuid [OF made(2)] in simp_all)
    then have "find_legacy rt i s' = Inr (Some x)" using f by (simp add: find_legacy_def)
    then show ?thesis using made(1) f by (simp add: ensureLegacyInstance_def settled_def)
  qed
qed

lemma ensure_stable_facts:
  assumes "ensureLegacyInstance rt token now i s = (Inr x, s')" and "engine_db_ok (es_db s)"
    and "trimmed (in_name i)" and "trim_space token \<noteq> []"
  shows "x \<in> set (ed_rows (es_db s'))" and "engine_db_ok (es_db s')" and "ei_name x = in_name i"
    and "trim_space (ei_token x) \<noteq> []"
  using ensure_again [OF assms] by blast+


text \<open>
  When the engine does not know the id of an instance but has one row with its name, made for another instance,
  maybe of another tenant, the instance is attached to that row: it gets the session and the token of the other,
  and events of that session go to its webhook from then on.
\<close>

theorem session_shared_by_name:
  assumes "ensureLegacyInstance rt token now i s = (Inr x, s')" and "engine_db_ok (es_db s)"
    and "trimmed (in_name i)" and "trim_space token \<noteq> []"
    and "in_name j = in_name i" and "en_uuid_ok (rt_engine rt) (legacy_id rt j)"
    and "legacy_id rt j \<notin> ei_id ` set (ed_rows (es_db s'))" and "ed_outage (es_db s') = None"
    and "\<forall>y \<in> set (ed_rows (es_db s')). ei_name y = in_name i \<longrightarrow> ei_id y = ei_id x"
    and "rt_Snapshot rt token' now' j s' = (Inr n, s'')"
  shows "rs_token n = ei_token x \<and> trim_space (rs_webhook n) = trim_space (in_webhook_url j) \<and>
    (\<forall>c. GetClientPointer (ei_id x) s'' = Some c \<longrightarrow> rs_connected n = cv_connected c \<and> rs_logged_in n = cv_logged_in c)"
proof -
  note x = ensure_stable_facts [OF assms(1-4)]
  have only: "y = x" if "y \<in> set (ed_rows (es_db s'))" "ei_name y = in_name i" for y
  proof -
    have "ei_id y = ei_id x" using assms(9) that by blast
    moreover have "inj_on ei_id (set (ed_rows (es_db s')))" using x(2) by (simp add: engine_db_ok_def distinct_map)
    ultimately show ?thesis using that(1) x(1) by (meson inj_onD)
  qed
  have "gorm_first None ei_id (\<lambda>y. ei_name y = in_name i) (ed_rows (es_db s')) = Inr x"
    by (rule gorm_first_found) (use x(1,3) in simp_all, rule only)
  then have "engine_GetInstanceByName (trim_space (in_name j)) (es_db s') = Inr x"
    unfolding assms(5) trimmed_trim_space [OF assms(3)] engine_GetInstanceByName_def assms(8) .
  then have "find_legacy rt j s' = Inr (Some x)"
    unfolding find_legacy_by_name [OF assms(6,8,7)] by (simp only: sum.case)
  note found = this
  have ready: "ensureReady rt = None" using assms(1) by (rule ensureLegacyInstance_cases) simp_all
  then have "ensureLegacyInstance rt token' now' j s' = sync_legacy rt token' j x s'"
    by (simp only: ensureLegacyInstance_def found option.case sum.case)
  note ensured = this
  then obtain y where y: "sync_legacy rt token' j x s' = (Inr y, s'')" "n = buildRuntimeSnapshot y (GetClientPointer (ei_id y) s'')"
    using assms(10) unfolding rt_Snapshot_def ready option.case ensured
    by (cases "sync_legacy rt token' j x s'") (auto split: sum.splits)
  have y': "y = snd (synced_row (en_config (rt_engine rt)) token' j x)"
    using sync_legacy_row [OF y(1)] x by blast
  then have "ei_id y = ei_id x" "ei_token y = ei_token x" "trim_space (ei_webhook y) = trim_space (in_webhook_url j)"
    using x by (simp_all add: synced_row_row)
  then show ?thesis unfolding y(2) by (simp add: buildRuntimeSnapshot_def Let_def split: option.split)
qed

section \<open>Connectors\<close>

lemma UpdateInstanceSettings_db: "es_db (snd (UpdateInstanceSettings en rowID s)) = es_db s"
  by (simp add: UpdateInstanceSettings_def Let_def split: sum.split option.split)

lemma launch_db [simp]: "es_db (launch cd s) = es_db s"
  and SetKillChannel_db [simp]: "es_db (SetKillChannel rowID s) = es_db s"
  by (simp_all add: launch_def SetKillChannel_def)

lemma in_db_fst_snd: "in_db f s = (fst (f (es_db s)), s\<lparr>es_db := snd (f (es_db s))\<rparr>)"
  by (simp add: in_db_def split: prod.split)

lemma svc_Connect_db:
  assumes "svc_Connect en data i s = (Inr y, t)"
  shows "y = connect_row data i \<and> es_db t = snd (engine_Update y (es_db s)) \<and> fst (engine_Update y (es_db s)) = None"
proof -
  let ?i = "connect_row data i"
  obtain u where u: "in_db (engine_Update ?i) s = (None, u)"
    using assms by (auto simp: svc_Connect_def Let_def split: prod.splits option.splits)
  have "y = ?i \<and> es_db t = es_db (snd (UpdateInstanceSettings en (ei_id ?i) u))"
    using assms u by (auto simp: svc_Connect_def Let_def split: prod.splits option.splits sum.splits if_splits)
  then show ?thesis using u by (auto simp: UpdateInstanceSettings_db in_db_fst_snd)
qed

text \<open>
  Every way the runtime has of connecting an instance that has a row (connecting, pairing, making sure of a
  session before a message) sets the connectors of the row to nothing and its events to messages only.
\<close>

theorem connect_forgets_connectors:
  assumes "svc_Connect en (plain_connect x) x s = (Inr y, t)" and "x \<in> set (ed_rows (es_db s))"
  shows "\<exists>r \<in> set (ed_rows (es_db t)). ei_id r = ei_id x \<and> ei_websocket_enable r = [] \<and> ei_rabbitmq_enable r = [] \<and>
    ei_nats_enable r = [] \<and> ei_events r = ''MESSAGE'' \<and> ei_webhook r = ei_webhook x"
proof -
  note c = svc_Connect_db [OF assms(1)]
  let ?y = "connect_row (plain_connect x) x"
  have id: "ei_id ?y = ei_id x" by (simp add: connect_row_def)
  have "?y \<in> set (ed_rows (snd (engine_Update ?y (es_db s))))"
    using c assms(2) id by (auto simp: engine_Update_def split: option.splits if_splits)
  then have "?y \<in> set (ed_rows (es_db t))" using c by simp
  then show ?thesis by (rule bexI [rotated]) (simp add: connect_row_def plain_connect_def connect_events_def)
qed

section \<open>Sending\<close>

text \<open>Every way of getting a client for a message ends with one that is connected and logged in, or with an error.\<close>

lemma wait_for_found: "wait_for en P rowID timeout elapsed s = (Some c, s') \<Longrightarrow> P c"
proof (induction en P rowID timeout elapsed s rule: wait_for.induct)
  case (1 en P rowID timeout elapsed s)
  let ?found = "case GetClientPointer rowID s of None \<Rightarrow> None | Some c \<Rightarrow> if P c then Some c else None"
  show ?case
  proof (cases "?found = None")
    case True
    then show ?thesis using "1.IH" [OF refl] "1.prems" wait_for.simps [of en P rowID timeout elapsed s]
      by (auto simp: Let_def split: if_splits)
  next
    case False
    then have "wait_for en P rowID timeout elapsed s = (?found, s)"
      using wait_for.simps [of en P rowID timeout elapsed s] by (simp add: Let_def)
    with "1.prems" have "?found = Some c" by (metis prod.inject)
    then show ?thesis by (auto split: option.splits if_splits)
  qed
qed

definition client_active :: "client_view \<Rightarrow> bool" where
  "client_active c \<longleftrightarrow> cv_connected c \<and> cv_logged_in c"

lemma waitForActiveClient_active: "waitForActiveClient en rowID timeout s = (Inr c, s') \<Longrightarrow> client_active c"
  by (auto simp: waitForActiveClient_def client_active_def split: prod.splits option.splits dest: wait_for_found)

lemma reconnectExistingClient_active: "reconnectExistingClient en rowID s = (Inr c, s') \<Longrightarrow> client_active c"
  by (auto simp: reconnectExistingClient_def client_active_def [symmetric] split: prod.splits option.splits if_splits
      dest: waitForActiveClient_active)

lemma hardReconnectClient_active: "hardReconnectClient rt rowID s = (Inr c, s') \<Longrightarrow> client_active c"
  by (auto simp: hardReconnectClient_def split: prod.splits option.splits if_splits dest: waitForActiveClient_active)

lemma or_try_active:
  assumes "or_try r f = (Inr c, s')" and "\<And>c s. r = (Inr c, s) \<Longrightarrow> client_active c"
    and "\<And>e s. f e s = (Inr c, s') \<Longrightarrow> client_active c"
  shows "client_active c"
  using assms by (cases r; cases "fst r") (auto simp: or_try_def)

lemmas active_intros = waitForActiveClient_active reconnectExistingClient_active hardReconnectClient_active

lemma ensureConnectedClient_active: "ensureConnectedClient rt x s = (Inr c, s') \<Longrightarrow> client_active c"
  unfolding ensureConnectedClient_def Let_def
  by (elim or_try_active) (auto split: prod.splits sum.splits elim!: or_try_active dest: active_intros)

lemma refreshConnectedClient_active: "refreshConnectedClient rt x s = (Inr c, s') \<Longrightarrow> client_active c"
  unfolding refreshConnectedClient_def Let_def
  by (elim or_try_active) (auto split: prod.splits sum.splits elim!: or_try_active dest: active_intros)

definition retried :: "send_answer \<Rightarrow> bool" where
  "retried a = (case a of TimedOut \<Rightarrow> True | Refused e \<Rightarrow> isTransientSendError e | Delivered _ \<Rightarrow> False)"

definition attempts_ok ::
  "runtime_env \<Rightarrow> string \<times> string \<times> string \<Rightarrow> nat \<Rightarrow> nat \<Rightarrow> (go_error + SendResult) \<Rightarrow> (string \<times> string \<times> string) list \<Rightarrow> bool" where
  "attempts_ok rt call left attempt r calls \<longleftrightarrow>
     (case call of (recipient, body, messageID) \<Rightarrow>
        length calls \<le> left \<and> set calls \<subseteq> {call} \<and>
        (\<forall>k. Suc k < length calls \<longrightarrow> retried (rt_send rt (attempt + k) recipient body messageID)) \<and>
        (\<forall>a. r = Inr a \<longrightarrow> calls \<noteq> [] \<and> sr_message_id a = messageID \<and> sr_chat a = recipient \<and>
           rt_send rt (attempt + (length calls - 1)) recipient body messageID = Delivered (sr_server_id a)))"

lemma attempts_ok_Nil: "attempts_ok rt call left attempt (Inl e) []"
  by (simp add: attempts_ok_def case_prod_beta)

lemma attempts_ok_again:
  assumes "attempts_ok rt (recipient, body, messageID) left (attempt + 1) r calls"
    and "retried (rt_send rt attempt recipient body messageID)"
  shows "attempts_ok rt (recipient, body, messageID) (Suc left) attempt r ((recipient, body, messageID) # calls)"
proof -
  have "retried (rt_send rt (attempt + k) recipient body messageID)" if "Suc k < Suc (length calls)" for k
  proof (cases k)
    case (Suc m)
    then show ?thesis using that assms(1) by (simp add: attempts_ok_def)
  qed (use assms(2) in simp)
  moreover have "rt_send rt (attempt + length calls) recipient body messageID = Delivered (sr_server_id a) \<and>
      sr_message_id a = messageID \<and> sr_chat a = recipient" if "r = Inr a" for a
    using assms(1) that by (cases calls) (simp_all add: attempts_ok_def)
  ultimately show ?thesis using assms(1) by (simp add: attempts_ok_def)
qed

lemma send_attempts_ok:
  "send_attempts rt x recipient body messageID now left attempt e s = (r, calls, s') \<Longrightarrow>
     attempts_ok rt (recipient, body, messageID) left attempt r calls"
proof (induction left arbitrary: attempt e s r calls s')
  case 0
  then show ?case by (auto simp: attempts_ok_Nil)
next
  case (Suc left)
  let ?call = "(recipient, body, messageID)"
  let ?client = "if 0 < attempt
    then map_prod (case_sum Some (\<lambda>_. None)) id (refreshConnectedClient rt x (en_wait (rt_engine rt) sendRetryDelay s))
    else (None, s)"
  show ?case
  proof (cases ?client)
    case (Pair a t)
    show ?thesis
    proof (cases a)
      case (Some err)
      then show ?thesis using Suc.prems Pair by (auto simp: attempts_ok_Nil)
    next
      case None
      have again: "attempts_ok rt ?call (Suc left) attempt r calls"
        if "retried (rt_send rt attempt recipient body messageID)"
          "(case send_attempts rt x recipient body messageID now left (attempt + 1) e' t of
              (r, calls, s) \<Rightarrow> (r, ?call # calls, s)) = (r, calls, s')" for e'
        using that(2) attempts_ok_again [OF Suc.IH that(1)] by (auto split: prod.splits)
      show ?thesis
      proof (cases "rt_send rt attempt recipient body messageID")
        case (Delivered n)
        then show ?thesis using Suc.prems Pair None by (auto simp: attempts_ok_def Let_def)
      next
        case TimedOut
        then show ?thesis using Suc.prems Pair None again by (auto simp: Let_def retried_def)
      next
        case (Refused err)
        then show ?thesis using Suc.prems Pair None again
          by (cases "isTransientSendError err") (auto simp: Let_def retried_def attempts_ok_def)
      qed
    qed
  qed
qed

text \<open>
  C31: a text goes to the library at most three times, each time with the same recipient, body and id; a next time
  only after a time-out or a transient error; and when sending succeeds, the last time was the delivery.
\<close>

theorem text_sent_at_most_thrice:
  assumes "rt_SendText rt token now messageID i number body s = (r, calls, s')"
  shows "length calls \<le> 3 \<and> (\<exists>recipient. set calls \<subseteq> {(recipient, body, messageID)} \<and>
    (\<forall>k. Suc k < length calls \<longrightarrow> retried (rt_send rt k recipient body messageID)) \<and>
    (\<forall>a. r = Inr a \<longrightarrow> calls \<noteq> [] \<and> sr_message_id a = messageID \<and> sr_chat a = recipient \<and>
       rt_send rt (length calls - 1) recipient body messageID = Delivered (sr_server_id a)))"
proof -
  from assms consider e where "calls = []" "r = Inl e"
    | x recipient t where "send_attempts rt x recipient body messageID now 3 0 (plain_error []) t = (r, calls, s')"
    unfolding rt_SendText_def by (auto split: prod.splits sum.splits simp del: send_attempts.simps)
  then show ?thesis
  proof cases
    case (2 x recipient t)
    from send_attempts_ok [OF this] show ?thesis by (auto simp: attempts_ok_def)
  qed simp
qed

section \<open>Witnesses\<close>

definition shop_env :: engine_env where
  "shop_env =
     \<lparr>en_uuid_ok = (\<lambda>u. u \<noteq> []),
      en_config = \<lparr>ec_client_name = ''evolution'', ec_os_name = ''linux'', ec_proxy_host = [], ec_proxy_port = [],
        ec_proxy_username = [], ec_proxy_password = []\<rparr>,
      en_logout = (\<lambda>c. (None, c\<lparr>cv_connected := False, cv_logged_in := False\<rparr>)), en_pair = (\<lambda>c phone. Inr ''code''),
      en_wait = (\<lambda>d s. s)\<rparr>"

text \<open>A library whose first answer to a message is a time-out.\<close>

definition shop_runtime :: runtime_env where
  "shop_runtime =
     \<lparr>rt_engine = shop_env, rt_parts = (True, True, True, True),
      rt_parse_jid = (\<lambda>j. (\<lparr>jid_user = split_first (CHR ''@'') j, jid_server = ''g.us''\<rparr>, None)),
      rt_jid_string = (\<lambda>j. jid_user j @ ''@'' @ jid_server j), rt_check_user_exists = False,
      rt_on_whatsapp = (\<lambda>ns. Inr []),
      rt_send = (\<lambda>k recipient body messageID. if k = 0 then TimedOut else Delivered 7),
      rt_request_history = (\<lambda>c r. None)\<rparr>"

definition shop_instance :: "string \<Rightarrow> string \<Rightarrow> string \<Rightarrow> Instance" where
  "shop_instance tenantID instanceID hook =
     \<lparr>in_id = instanceID, in_tenant_id = tenantID, in_name = ''sales'', in_status = ''created'', in_engine_instance_id = [],
      in_webhook_url = hook, in_webhook_events = [], in_webhook_base64 = False, in_webhook_by_events = False,
      in_ai_enabled = False, in_ai_auto_reply = False, in_created_at = 1\<rparr>"

definition shop_row :: EngineInstance where
  "shop_row = \<lparr>ei_id = ''i1'', ei_name = ''sales'', ei_token = ''t1'', ei_webhook = ''h1'', ei_rabbitmq_enable = ''enabled'',
     ei_websocket_enable = ''enabled'', ei_nats_enable = [], ei_jid = [], ei_qrcode = [], ei_connected = True,
     ei_expiration = 0, ei_disconnect_reason = [], ei_events = ''ALL'', ei_os_name = ''linux'', ei_proxy = ProxyNull,
     ei_client_name = ''evolution'', ei_created_at = 1, ei_always_online = False, ei_reject_call = False,
     ei_msg_reject_call = [], ei_read_messages = False, ei_ignore_groups = False, ei_ignore_status = False\<rparr>"

definition shop_state :: "EngineInstance list \<Rightarrow> (string \<rightharpoonup> client_view) \<Rightarrow> engine_state" where
  "shop_state rows clients =
     \<lparr>es_db = \<lparr>ed_rows = rows, ed_labels = [], ed_messages = [], ed_outage = None\<rparr>, es_clients = clients,
      es_my_clients = Map.empty, es_kill = {}, es_starting = {}, es_cache = Map.empty, es_launched = [], es_reconnects = []\<rparr>"

definition shop_first_row :: EngineInstance where
  "shop_first_row =
     shop_row\<lparr>ei_rabbitmq_enable := [], ei_websocket_enable := [], ei_connected := False, ei_events := ''MESSAGE''\<rparr>"

definition shop_first :: "(go_error + EngineInstance) \<times> engine_state" where
  "shop_first = ensureLegacyInstance shop_runtime ''t1'' 1 (shop_instance ''A'' ''i1'' ''h1'') (shop_state [] Map.empty)"

lemma shop_first_value:
  "fst shop_first = Inr shop_first_row" "ed_rows (es_db (snd shop_first)) = [shop_first_row]"
  "ed_outage (es_db (snd shop_first)) = None"
  by code_simp+

lemma shop_first_result:
  "ensureLegacyInstance shop_runtime ''t1'' 1 (shop_instance ''A'' ''i1'' ''h1'') (shop_state [] Map.empty) =
     (Inr shop_first_row, snd shop_first)"
  by (metis shop_first_def shop_first_value(1) prod.collapse)

lemma shop_empty_ok: "engine_db_ok (es_db (shop_state [] c))"
  by (simp add: shop_state_def engine_db_ok_def)

lemma shop_names: "trimmed (in_name (shop_instance t n h))" "trim_space ''t1'' \<noteq> []" "trim_space ''t2'' \<noteq> []"
  unfolding trimmed_iff shop_instance_def by code_simp+


definition shop_second :: "(go_error + RuntimeSnapshot) \<times> engine_state" where
  "shop_second = rt_Snapshot shop_runtime ''t2'' 2 (shop_instance ''B'' ''i2'' ''h2'') (snd shop_first)"

lemma shop_second_value: "(case fst shop_second of Inr n \<Rightarrow> True | Inl _ \<Rightarrow> False)"
  by code_simp

lemma shop_second_sides:
  "en_uuid_ok (rt_engine shop_runtime) (legacy_id shop_runtime (shop_instance ''B'' ''i2'' ''h2''))"
  "legacy_id shop_runtime (shop_instance ''B'' ''i2'' ''h2'') \<notin> ei_id ` set (ed_rows (es_db (snd shop_first)))"
  unfolding shop_first_value by code_simp+

lemma shop_strings: "ei_token shop_first_row = ''t1''" "trim_space ''h2'' = ''h2''"
  by code_simp+

theorem session_shared_by_name_witness:
  "\<exists>n s. rt_Snapshot shop_runtime ''t2'' 2 (shop_instance ''B'' ''i2'' ''h2'') (snd shop_first) = (Inr n, s) \<and>
     rs_token n = ''t1'' \<and> trim_space (rs_webhook n) = ''h2''"
proof -
  obtain n where "fst shop_second = Inr n" using shop_second_value by (cases "fst shop_second") simp_all
  then obtain s where n: "shop_second = (Inr n, s)" by (metis prod.collapse)
  have name: "in_name (shop_instance ''B'' ''i2'' ''h2'') = in_name (shop_instance ''A'' ''i1'' ''h1'')"
    by (simp add: shop_instance_def)
  have only: "\<forall>y \<in> set (ed_rows (es_db (snd shop_first))). ei_name y = in_name (shop_instance ''A'' ''i1'' ''h1'') \<longrightarrow>
      ei_id y = ei_id shop_first_row"
    by (simp add: shop_first_value)
  from session_shared_by_name [OF shop_first_result shop_empty_ok shop_names(1,2) name shop_second_sides shop_first_value(3)
      only n [unfolded shop_second_def]]
  have "rs_token n = ''t1'' \<and> trim_space (rs_webhook n) = ''h2''"
    by (simp add: shop_strings shop_instance_def)
  with n show ?thesis unfolding shop_second_def by blast
qed

lemma shop_connect_value:
  "(case fst (svc_Connect shop_env (plain_connect shop_row) shop_row (shop_state [shop_row] Map.empty)) of
      Inr y \<Rightarrow> True | Inl _ \<Rightarrow> False)"
  by code_simp

theorem connect_forgets_connectors_witness:
  "ei_websocket_enable shop_row = ''enabled'' \<and>
   (\<exists>y t. svc_Connect shop_env (plain_connect shop_row) shop_row (shop_state [shop_row] Map.empty) = (Inr y, t) \<and>
     (\<exists>r \<in> set (ed_rows (es_db t)). ei_id r = ei_id shop_row \<and> ei_websocket_enable r = []))"
proof -
  obtain y t where y: "svc_Connect shop_env (plain_connect shop_row) shop_row (shop_state [shop_row] Map.empty) = (Inr y, t)"
    using shop_connect_value
    by (cases "svc_Connect shop_env (plain_connect shop_row) shop_row (shop_state [shop_row] Map.empty)") (auto split: sum.splits)
  have "\<exists>r \<in> set (ed_rows (es_db t)). ei_id r = ei_id shop_row \<and> ei_websocket_enable r = []"
    using connect_forgets_connectors [OF y] by (auto simp: shop_state_def)
  with y show ?thesis by (simp add: shop_row_def)
qed

definition shop_session :: "string \<rightharpoonup> client_view" where
  "shop_session = [''i1'' \<mapsto> \<lparr>cv_connected = True, cv_logged_in = True, cv_jid = None, cv_push_name = ''Ana''\<rparr>]"

definition shop_text :: "(go_error + SendResult) \<times> (string \<times> string \<times> string) list \<times> engine_state" where
  "shop_text = rt_SendText shop_runtime ''t1'' 1 ''m1'' (shop_instance ''A'' ''i1'' ''h1'') ''group@g.us'' ''hello''
     (shop_state [shop_row] shop_session)"

lemma shop_text_calls: "fst (snd shop_text) = replicate 2 (''group@g.us'', ''hello'', ''m1'')"
  by code_simp

theorem text_sent_at_most_thrice_witness:
  "\<exists>r s. shop_text = (r, replicate 2 (''group@g.us'', ''hello'', ''m1''), s) \<and> retried (rt_send shop_runtime 0 ''group@g.us'' ''hello'' ''m1'')"
proof -
  obtain r s where t: "shop_text = (r, replicate 2 (''group@g.us'', ''hello'', ''m1''), s)"
    using shop_text_calls by (metis prod.collapse)
  from text_sent_at_most_thrice [OF t [unfolded shop_text_def]]
  have "retried (rt_send shop_runtime 0 ''group@g.us'' ''hello'' ''m1'')" by auto
  with t show ?thesis by blast
qed

section \<open>Where the operations disagree\<close>

text \<open>The guard against a second start is let go before the session is there: a second call starts a second one.\<close>

lemma started_twice:
  "length (es_launched (snd (StartInstance shop_env ''i1'' (snd (StartInstance shop_env ''i1''
     (shop_state [shop_row] Map.empty)))))) = 2"
  by code_simp

text \<open>Events that have been cleared are read as no events, not as the default.\<close>

lemma cleared_events: "subscribed_events [] = []" "subscribed_events ''MESSAGE'' = [''MESSAGE'']"
  by code_simp+

text \<open>The removal of a proxy leaves a column that connecting cannot read when a proxy is configured.\<close>

lemma connect_after_removal:
  assumes "ec_proxy_host (en_config en) \<noteq> []"
    and "ei_proxy i = ProxyBlank" and "es_my_clients u (ei_id i) = None" and "ed_outage (es_db u) = None"
    and "\<forall>x \<in> set (ed_rows (es_db u)). ei_id x \<noteq> ei_id i \<longrightarrow> ei_token x \<noteq> ei_token i"
  shows "\<exists>e. fst (svc_Connect en data i u) = Inl e"
proof -
  let ?i = "connect_row data i"
  have i: "ei_id ?i = ei_id i" "ei_token ?i = ei_token i" "ei_proxy ?i = ProxyBlank" by (simp_all add: connect_row_def assms(2))
  then have "fst (engine_Update ?i (es_db u)) = None"
    using assms(4,5) by (auto simp: engine_Update_def)
  then obtain v where v: "in_db (engine_Update ?i) u = (None, v)" "es_my_clients v = es_my_clients u"
    by (simp add: in_db_fst_snd)
  then obtain e w where "UpdateInstanceSettings en (ei_id ?i) v = (Some e, w)"
    using assms(3) i(1) v(2)
    by (cases "engine_GetInstanceByID (en_uuid_ok en) (ei_id i) (es_db v)") (simp_all add: UpdateInstanceSettings_def)
  then show ?thesis using v i assms(1) by (simp add: svc_Connect_def Let_def unmarshal_proxy_def)
qed

end
