(* ===== verification/Runtime_System.thy ===== *)
theory Runtime_System
  imports Runtime_Obs Instance_Store
begin

text \<open>
  The observations of the runtime as a step relation: the instance service observes, the engine notifies, and the
  goroutines of the listener take their turns in any order. \<open>wt_handed\<close> remembers what the registry has handed
  over, the latest first; no step reads it. The table of the instances stays as it is.
\<close>

section \<open>Steps\<close>

record watch =
  wt_oz :: observations
  wt_ob :: obs_db
  wt_handed :: "LifecycleEvent list"

definition handed_now :: "observations \<Rightarrow> observations \<Rightarrow> LifecycleEvent list" where
  "handed_now oz oz' = concat (map (\<lambda>j. case j of ReadState e \<Rightarrow> [e] | _ \<Rightarrow> []) (drop (length (oz_jobs oz)) (oz_jobs oz')))"

inductive watch_step :: "auth_db \<Rightarrow> watch \<Rightarrow> watch \<Rightarrow> bool" for db where
  observe: "oz' = recordRuntimeObservation i snapshot eventType source message err now (wt_oz w) \<Longrightarrow> 0 < now \<Longrightarrow>
     watch_step db w (w\<lparr>wt_oz := oz', wt_handed := handed_now (wt_oz w) oz' @ wt_handed w\<rparr>)"
| notified: "oz' = hand_over now e (wt_oz w) \<Longrightarrow> 0 < now \<Longrightarrow>
     watch_step db w (w\<lparr>wt_oz := oz', wt_handed := handed_now (wt_oz w) oz' @ wt_handed w\<rparr>)"
| turn: "oz_jobs (wt_oz w) = before @ job # after \<Longrightarrow> listener_turn db now stateID eventID job (wt_ob w) = (left, ob) \<Longrightarrow>
     watch_step db w (w\<lparr>wt_oz := (wt_oz w)\<lparr>oz_jobs := before @ (case left of None \<Rightarrow> [] | Some j \<Rightarrow> [j]) @ after\<rparr>, wt_ob := ob\<rparr>)"
| outage: "watch_step db w (w\<lparr>wt_ob := (wt_ob w)\<lparr>ob_outage := e\<rparr>\<rparr>)"

inductive watched :: "auth_db \<Rightarrow> watch \<Rightarrow> bool" for db where
  start: "watched db \<lparr>wt_oz = \<lparr>oz_gate = Map.empty, oz_seen = Map.empty, oz_jobs = []\<rparr>,
            wt_ob = \<lparr>ob_states = [], ob_events = [], ob_outage = None\<rparr>, wt_handed = []\<rparr>"
| stepped: "watched db w \<Longrightarrow> watch_step db w w' \<Longrightarrow> watched db w'"

section \<open>Whose rows they are\<close>

definition owned :: "auth_db \<Rightarrow> string \<Rightarrow> string \<Rightarrow> bool" where
  "owned db tenantID instanceID \<longleftrightarrow> (\<exists>i \<in> set (ad_instances db). in_tenant_id i = tenantID \<and> in_id i = instanceID)"

definition state_ok :: "auth_db \<Rightarrow> RuntimeSessionState \<Rightarrow> bool" where
  "state_ok db st \<longleftrightarrow> owned db (rn_tenant_id st) (rn_instance_id st) \<and> rn_status st \<noteq> [] \<and> rn_last_seen_status st = rn_status st"

definition event_ok :: "auth_db \<Rightarrow> LifecycleEvent list \<Rightarrow> RuntimeSessionEvent \<Rightarrow> bool" where
  "event_ok db handed r \<longleftrightarrow> owned db (re_tenant_id r) (re_instance_id r) \<and> re_status r \<noteq> [] \<and>
     (\<exists>e \<in> set handed. re_instance_id r = le_instance_id e \<and> re_event_type r = trim_space (le_event_type e) \<and>
        re_occurred_at r = le_occurred_at e \<and> re_connected r = le_connected e \<and> re_logged_in r = le_logged_in e)"

definition turn_ok :: "auth_db \<Rightarrow> LifecycleEvent list \<Rightarrow> listener_job \<Rightarrow> bool" where
  "turn_ok db handed job =
     (case job of
        ReadState e \<Rightarrow> e \<in> set handed
      | WriteState e status st r \<Rightarrow> state_ok db st \<and> event_ok db handed r
      | AppendEvent e r \<Rightarrow> event_ok db handed r)"

definition watch_ok :: "auth_db \<Rightarrow> watch \<Rightarrow> bool" where
  "watch_ok db w \<longleftrightarrow>
     (\<forall>j \<in> set (oz_jobs (wt_oz w)). turn_ok db (wt_handed w) j) \<and>
     (\<forall>st \<in> set (ob_states (wt_ob w)). state_ok db st) \<and>
     (\<forall>r \<in> set (ob_events (wt_ob w)). event_ok db (wt_handed w) r) \<and>
     distinct (map state_key (ob_states (wt_ob w)))"

lemma event_ok_mono: "event_ok db handed r \<Longrightarrow> event_ok db (new @ handed) r"
  by (auto simp: event_ok_def)

lemma turn_ok_mono: "turn_ok db handed j \<Longrightarrow> turn_ok db (new @ handed) j"
  by (auto simp: turn_ok_def event_ok_mono split: listener_job.splits)

lemma hand_over_jobs:
  "oz_jobs (hand_over now e oz) = oz_jobs oz \<or>
   (\<exists>e'. oz_jobs (hand_over now e oz) = oz_jobs oz @ [ReadState e'])"
  by (auto simp: hand_over_def split: prod.splits option.splits)

lemma record_jobs:
  "oz_jobs (recordRuntimeObservation i snapshot eventType source message err now oz) = oz_jobs oz \<or>
   (\<exists>e'. oz_jobs (recordRuntimeObservation i snapshot eventType source message err now oz) = oz_jobs oz @ [ReadState e'])"
proof -
  have "oz_jobs (hand_over now e (oz\<lparr>oz_gate := g\<rparr>)) = oz_jobs oz \<or>
      (\<exists>e'. oz_jobs (hand_over now e (oz\<lparr>oz_gate := g\<rparr>)) = oz_jobs oz @ [ReadState e'])" for e g
    using hand_over_jobs [of now e "oz\<lparr>oz_gate := g\<rparr>"] by simp
  then show ?thesis unfolding recordRuntimeObservation_def Let_def by (simp split: prod.split bool.split)
qed

lemma watch_ok_handed:
  assumes "watch_ok db w" and "oz_jobs oz' = oz_jobs (wt_oz w) \<or> (\<exists>e'. oz_jobs oz' = oz_jobs (wt_oz w) @ [ReadState e'])"
  shows "watch_ok db (w\<lparr>wt_oz := oz', wt_handed := handed_now (wt_oz w) oz' @ wt_handed w\<rparr>)"
  using assms(2)
proof
  assume "oz_jobs oz' = oz_jobs (wt_oz w)"
  then show ?thesis using assms(1) by (simp add: watch_ok_def handed_now_def)
next
  assume "\<exists>e'. oz_jobs oz' = oz_jobs (wt_oz w) @ [ReadState e']"
  then obtain e' where e: "oz_jobs oz' = oz_jobs (wt_oz w) @ [ReadState e']" by blast
  then have h: "handed_now (wt_oz w) oz' = [e']" by (simp add: handed_now_def)
  from assms(1) show ?thesis
    unfolding watch_ok_def by (auto simp: e h turn_ok_def event_ok_mono [of _ _ _ "[e']", simplified]
        dest!: turn_ok_mono [of _ _ _ "[e']"] split: listener_job.splits)
qed

lemma first_created: "firstString (vs @ [''created'']) \<noteq> []"
  by (induction vs) (simp_all add: trim_space_def, code_simp)

lemma next_status_nonempty: "next_status i e st \<noteq> []"
  using first_created [of "[le_status e, rn_last_seen_status st, in_status i]"] by (simp add: next_status_def)

lemma after_event_simps:
  "rn_tenant_id (after_event i e st) = rn_tenant_id st" "rn_instance_id (after_event i e st) = rn_instance_id st"
  "rn_status (after_event i e st) = next_status i e st" "rn_last_seen_status (after_event i e st) = next_status i e st"
  by (simp_all add: after_event_def Let_def)

lemma state_ok_time: "state_ok db (st\<lparr>rn_updated_at := t\<rparr>) = state_ok db st" "state_key (st\<lparr>rn_updated_at := t\<rparr>) = state_key st"
  "state_ok db (st\<lparr>rn_id := n\<rparr>) = state_ok db st" "state_key (st\<lparr>rn_id := n\<rparr>) = state_key st"
  by (simp_all add: state_ok_def state_key_def)

lemma obs_GetState_key: "obs_GetState t n ob = Inr (Some st) \<Longrightarrow> state_key st = (t, n)"
  by (auto simp: obs_GetState_def split: option.splits dest: find_Some_mem)

lemma obs_UpsertState_ok:
  assumes "\<forall>st \<in> set (ob_states ob). state_ok db st" and "distinct (map state_key (ob_states ob))" and "state_ok db st"
    and "obs_UpsertState now (Some st) ob = (r, ob')"
  shows "(\<forall>st \<in> set (ob_states ob'). state_ok db st) \<and> distinct (map state_key (ob_states ob')) \<and>
    ob_events ob' = ob_events ob"
proof -
  have "map state_key (map (\<lambda>x. if state_key x = state_key st then st\<lparr>rn_id := rn_id x, rn_updated_at := now\<rparr> else x) xs) =
      map state_key xs" for xs
    by (induction xs) (simp_all add: state_ok_time)
  with assms show ?thesis
    by (auto simp: obs_UpsertState_def state_ok_time split: option.splits if_splits simp del: map_map)
qed

text \<open>A turn leaves everything well formed.\<close>

lemma listener_turn_ok:
  assumes "listener_turn db now stateID eventID job ob = (left, ob')" and "turn_ok db handed job"
    and "\<forall>st \<in> set (ob_states ob). state_ok db st" and "distinct (map state_key (ob_states ob))"
    and "\<forall>r \<in> set (ob_events ob). event_ok db handed r"
  shows "(\<forall>j. left = Some j \<longrightarrow> turn_ok db handed j) \<and> (\<forall>st \<in> set (ob_states ob'). state_ok db st) \<and>
    distinct (map state_key (ob_states ob')) \<and> (\<forall>r \<in> set (ob_events ob'). event_ok db handed r)"
proof (cases job)
  case (ReadState e)
  show ?thesis
  proof (cases "instance_GetByGlobalID db (le_instance_id e)")
    case (Inr i)
    then have i: "i \<in> set (ad_instances db)" "in_id i = le_instance_id e"
      by (auto simp: instance_GetByGlobalID_def dest: gorm_first_Inr)
    let ?st = "case obs_GetState (in_tenant_id i) (in_id i) ob of Inr (Some st) \<Rightarrow> st | _ \<Rightarrow> fresh_state stateID i e"
    have key: "rn_tenant_id ?st = in_tenant_id i" "rn_instance_id ?st = in_id i"
      by (auto simp: fresh_state_def state_key_def split: sum.splits option.splits dest: obs_GetState_key)
    have left: "left = Some (WriteState e (next_status i e ?st) (after_event i e ?st) (event_record eventID i (next_status i e ?st) e))"
      "ob' = ob"
      using assms(1) Inr ReadState by (auto simp: listener_turn_def Let_def)
    have "state_ok db (after_event i e ?st)"
      using i key by (auto simp: state_ok_def after_event_simps owned_def next_status_nonempty)
    moreover have "event_ok db handed (event_record eventID i (next_status i e ?st) e)"
      using i assms(2) ReadState by (auto simp: event_ok_def event_record_def owned_def next_status_nonempty turn_ok_def)
    ultimately show ?thesis using assms(3-5) by (simp add: left turn_ok_def)
  qed (use assms ReadState in \<open>simp add: listener_turn_def\<close>)
next
  case (WriteState e status st r)
  obtain x ob1 where u: "obs_UpsertState now (Some st) ob = (x, ob1)" by (rule prod.exhaust)
  from obs_UpsertState_ok [OF assms(3,4) _ u] assms(2) WriteState
  have o: "(\<forall>st \<in> set (ob_states ob1). state_ok db st)" "distinct (map state_key (ob_states ob1))" "ob_events ob1 = ob_events ob"
    by (simp_all add: turn_ok_def)
  have "ob' = ob1" "left = None \<or> left = Some (AppendEvent e r)"
    using assms(1) WriteState u by (auto simp: listener_turn_def split: option.splits)
  then show ?thesis using o assms(2,5) WriteState by (auto simp: turn_ok_def)
next
  case (AppendEvent e r)
  then have "left = None" "ob_states ob' = ob_states ob" "set (ob_events ob') \<subseteq> insert r (set (ob_events ob))"
    using assms(1) by (auto simp: listener_turn_def obs_AppendEvent_def split: option.splits)
  then show ?thesis using assms(2-5) AppendEvent by (auto simp: turn_ok_def)
qed

lemma watch_step_ok: "watch_step db w w' \<Longrightarrow> watch_ok db w \<Longrightarrow> watch_ok db w'"
proof (induction rule: watch_step.induct)
  case (observe oz' i snapshot eventType source message err now w)
  show ?case by (rule watch_ok_handed [OF observe.prems]) (unfold observe.hyps(1), rule record_jobs)
next
  case (notified oz' now e w)
  show ?case by (rule watch_ok_handed [OF notified.prems]) (unfold notified.hyps(1), rule hand_over_jobs)
next
  case (turn w before job after now stateID eventID left ob)
  have "turn_ok db (wt_handed w) job" using turn.prems turn.hyps(1) by (simp add: watch_ok_def)
  from listener_turn_ok [OF turn.hyps(2) this] turn.prems
  have o: "(\<forall>j. left = Some j \<longrightarrow> turn_ok db (wt_handed w) j)" "\<forall>st \<in> set (ob_states ob). state_ok db st"
      "distinct (map state_key (ob_states ob))" "\<forall>r \<in> set (ob_events ob). event_ok db (wt_handed w) r"
    by (simp_all add: watch_ok_def)
  then show ?case using turn.prems turn.hyps(1) by (auto simp: watch_ok_def split: option.split)
next
  case (outage w e)
  then show ?case by (simp add: watch_ok_def)
qed

text \<open>
  C32: whatever the order of the turns, every row of a session's state and of its events carries an instance of the
  table and that instance's tenant, an event's row stands for an event that was handed over, and a session has one row,
  with a status that is not blank.
\<close>

theorem observations_owned:
  assumes "watched db w"
  shows "(\<forall>st \<in> set (ob_states (wt_ob w)). \<exists>i \<in> set (ad_instances db). in_tenant_id i = rn_tenant_id st \<and> in_id i = rn_instance_id st) \<and>
    (\<forall>r \<in> set (ob_events (wt_ob w)). (\<exists>i \<in> set (ad_instances db). in_tenant_id i = re_tenant_id r \<and> in_id i = re_instance_id r) \<and>
       (\<exists>e \<in> set (wt_handed w). re_instance_id r = le_instance_id e \<and> re_event_type r = trim_space (le_event_type e) \<and>
          re_occurred_at r = le_occurred_at e)) \<and>
    distinct (map state_key (ob_states (wt_ob w))) \<and> (\<forall>st \<in> set (ob_states (wt_ob w)). rn_status st \<noteq> [])"
proof -
  have "watch_ok db w" using assms by induction (simp add: watch_ok_def, rule watch_step_ok)
  then show ?thesis unfolding watch_ok_def state_ok_def event_ok_def owned_def by blast
qed

section \<open>How far apart they are\<close>

definition passes :: "LifecycleEvent list \<Rightarrow> (string \<times> time) list" where
  "passes handed = map (\<lambda>e. (lifecycle_key e, le_occurred_at e)) (filter (\<lambda>e. le_event_type e = ''status_observed'') handed)"

definition spaced_ok :: "watch \<Rightarrow> bool" where
  "spaced_ok w \<longleftrightarrow> event_gate.spaced (passes (wt_handed w)) \<and> event_gate.tracked (passes (wt_handed w)) (oz_seen (wt_oz w)) \<and>
     (\<forall>e \<in> set (wt_handed w). le_occurred_at e \<noteq> 0)"

text \<open>What the registry does with an event: it drops it, or hands it over past the gate.\<close>

lemma NotifyLifecycleEvent_cases:
  assumes "0 < now"
  shows "NotifyLifecycleEvent now e seen = (None, seen) \<or>
    (\<exists>e' seen'. NotifyLifecycleEvent now e seen = (Some e', seen') \<and> le_occurred_at e' \<noteq> 0 \<and>
      (if le_event_type e' = ''status_observed''
       then gate_try lifecycleStatusObservedMinInterval (lifecycle_key e') (le_occurred_at e') seen = (True, seen')
       else seen' = seen))"
proof (cases "trim_space (le_instance_id e) = [] \<or> trim_space (le_event_type e) = []")
  case False
  let ?e = "trimmed_event now e"
  have t: "le_occurred_at ?e \<noteq> 0" using assms by (simp add: trimmed_event_def)
  have n: "NotifyLifecycleEvent now e seen = (case shouldDropDuplicateLifecycleEvent ?e seen of
      (True, seen) \<Rightarrow> (None, seen) | (False, seen) \<Rightarrow> (Some ?e, seen))"
    using False by (simp add: NotifyLifecycleEvent_def Let_def)
  show ?thesis
  proof (cases "le_event_type ?e = ''status_observed''")
    case True
    obtain b seen' where g: "gate_try lifecycleStatusObservedMinInterval (lifecycle_key ?e) (le_occurred_at ?e) seen = (b, seen')"
      by (rule prod.exhaust)
    show ?thesis
    proof (cases b)
      case b: True
      then show ?thesis using n g True t by (simp add: shouldDropDuplicateLifecycleEvent_def)
    next
      case b: False
      then have "seen' = seen" using g by (auto simp: gate_try_def split: option.splits if_splits)
      then show ?thesis using n g True b by (simp add: shouldDropDuplicateLifecycleEvent_def)
    qed
  next
    case other: False
    then show ?thesis using n t by (simp add: shouldDropDuplicateLifecycleEvent_def)
  qed
qed (simp add: NotifyLifecycleEvent_def)

lemma spaced_ok_hand_over:
  assumes "spaced_ok w" and "0 < now" and "oz_seen oz = oz_seen (wt_oz w)" and "oz_jobs oz = oz_jobs (wt_oz w)"
  shows "spaced_ok (w\<lparr>wt_oz := hand_over now e oz, wt_handed := handed_now (wt_oz w) (hand_over now e oz) @ wt_handed w\<rparr>)"
  using NotifyLifecycleEvent_cases [OF assms(2), of e "oz_seen oz"]
proof (elim disjE exE conjE)
  assume "NotifyLifecycleEvent now e (oz_seen oz) = (None, oz_seen oz)"
  then show ?thesis using assms by (simp add: hand_over_def handed_now_def spaced_ok_def)
next
  fix e' seen'
  assume n: "NotifyLifecycleEvent now e (oz_seen oz) = (Some e', seen')" and t: "le_occurred_at e' \<noteq> 0"
    and g: "if le_event_type e' = ''status_observed''
       then gate_try lifecycleStatusObservedMinInterval (lifecycle_key e') (le_occurred_at e') (oz_seen oz) = (True, seen')
       else seen' = oz_seen oz"
  have h: "hand_over now e oz = oz\<lparr>oz_seen := seen', oz_jobs := oz_jobs oz @ [ReadState e']\<rparr>"
    using n by (simp add: hand_over_def)
  then have hn: "handed_now (wt_oz w) (hand_over now e oz) = [e']" using assms(4) by (simp add: handed_now_def)
  have sp: "event_gate.spaced (passes (wt_handed w))" and tr: "event_gate.tracked (passes (wt_handed w)) (oz_seen oz)"
    and z: "\<forall>p \<in> set (passes (wt_handed w)). snd p \<noteq> 0"
    using assms(1,3) by (auto simp: spaced_ok_def passes_def)
  show ?thesis
  proof (cases "le_event_type e' = ''status_observed''")
    case True
    then have gt: "gate_try lifecycleStatusObservedMinInterval (lifecycle_key e') (le_occurred_at e') (oz_seen oz) = (True, seen')"
      using g by simp
    have p: "passes (e' # wt_handed w) = (lifecycle_key e', le_occurred_at e') # passes (wt_handed w)"
      using True by (simp add: passes_def)
    have "event_gate.spaced (passes (e' # wt_handed w))"
      unfolding p by (rule event_gate.spaced_step [OF sp tr _ z]) (simp add: gt)
    moreover have "event_gate.tracked (passes (e' # wt_handed w)) seen'"
      using event_gate.tracked_step [OF tr, of "lifecycle_key e'" "le_occurred_at e'"] by (simp add: gt p)
    ultimately show ?thesis using assms(1) t unfolding spaced_ok_def by (simp add: h [symmetric] hn) (simp add: h)
  next
    case False
    then have "passes (e' # wt_handed w) = passes (wt_handed w)" "seen' = oz_seen oz" using g by (simp_all add: passes_def)
    then show ?thesis using assms(1) t sp tr unfolding spaced_ok_def by (simp add: hn) (simp add: h)
  qed
qed

lemma watch_step_spaced: "watch_step db w w' \<Longrightarrow> spaced_ok w \<Longrightarrow> spaced_ok w'"
proof (induction rule: watch_step.induct)
  case (observe oz' i snapshot eventType source message err now w)
  have "spaced_ok (w\<lparr>wt_oz := hand_over now e ((wt_oz w)\<lparr>oz_gate := g\<rparr>),
      wt_handed := handed_now (wt_oz w) (hand_over now e ((wt_oz w)\<lparr>oz_gate := g\<rparr>)) @ wt_handed w\<rparr>)" for e g
    by (rule spaced_ok_hand_over [OF observe.prems observe.hyps(2)]) simp_all
  moreover have "spaced_ok (w\<lparr>wt_oz := (wt_oz w)\<lparr>oz_gate := g\<rparr>,
      wt_handed := handed_now (wt_oz w) ((wt_oz w)\<lparr>oz_gate := g\<rparr>) @ wt_handed w\<rparr>)" for g
    using observe.prems by (simp add: spaced_ok_def handed_now_def)
  ultimately show ?case
    unfolding observe.hyps(1) recordRuntimeObservation_def Let_def by (simp split: prod.split bool.split)
next
  case (notified oz' now e w)
  show ?case unfolding notified.hyps(1) by (rule spaced_ok_hand_over [OF notified.prems notified.hyps(2)]) simp_all
next
  case (turn w before job after now stateID eventID left ob)
  then show ?case by (simp add: spaced_ok_def)
next
  case (outage w e)
  then show ?case by (simp add: spaced_ok_def)
qed

text \<open>
  Of two observations of the status with the same instance, status, flags, reason and error that were handed to the
  listener, the later one came at least fifteen seconds after the other.
\<close>

theorem status_observations_spaced:
  assumes "watched db w" and "wt_handed w = later @ e # between @ d # earlier"
    and "le_event_type e = ''status_observed''" and "le_event_type d = ''status_observed''" and "lifecycle_key e = lifecycle_key d"
  shows "15 * second \<le> le_occurred_at e - le_occurred_at d"
proof -
  have "spaced_ok w"
    using assms(1)
    by induction (simp add: spaced_ok_def passes_def event_gate.spaced_def event_gate.tracked_def, rule watch_step_spaced)
  then have "event_gate.spaced (passes (wt_handed w))" by (simp add: spaced_ok_def)
  then have "lifecycleStatusObservedMinInterval \<le> le_occurred_at e - le_occurred_at d" using assms(2-5)
    by (simp add: passes_def event_gate.spaced_def sorted_wrt_append)
  then show ?thesis by (simp add: lifecycleStatusObservedMinInterval_def)
qed

section \<open>Witnesses, and what the rows may miss\<close>

definition watch_db :: auth_db where
  "watch_db = \<lparr>ad_tenants = [], ad_users = [],
     ad_instances = [\<lparr>in_id = ''i1'', in_tenant_id = ''A'', in_name = ''sales'', in_status = ''created'',
       in_engine_instance_id = [], in_webhook_url = [], in_webhook_events = [], in_webhook_base64 = False,
       in_webhook_by_events = False, in_ai_enabled = False, in_ai_auto_reply = False, in_created_at = 1\<rparr>],
     ad_legacy = [], ad_outage = (\<lambda>t. None)\<rparr>"

definition status_event :: "string \<Rightarrow> bool \<Rightarrow> time \<Rightarrow> LifecycleEvent" where
  "status_event status connected t =
     \<lparr>le_instance_id = ''i1'', le_event_type = ''status_observed'', le_event_source = ''api'', le_status = status,
      le_connected = connected, le_logged_in = connected, le_pairing_active = False, le_disconnect_reason = [],
      le_error_message = [], le_message = [], le_payload = [], le_occurred_at = t\<rparr>"

definition no_watch :: observations where
  "no_watch = \<lparr>oz_gate = Map.empty, oz_seen = Map.empty, oz_jobs = []\<rparr>"

definition no_obs :: obs_db where "no_obs = \<lparr>ob_states = [], ob_events = [], ob_outage = None\<rparr>"

definition run_job_fully :: "auth_db \<Rightarrow> listener_job \<Rightarrow> obs_db \<Rightarrow> obs_db" where
  "run_job_fully db job ob =
     (case listener_turn db 1 ''s'' ''e'' job ob of
        (Some j, ob) \<Rightarrow>
          (case listener_turn db 1 ''s'' ''e'' j ob of
             (Some j, ob) \<Rightarrow> snd (listener_turn db 1 ''s'' ''e'' j ob)
           | (None, ob) \<Rightarrow> ob)
      | (None, ob) \<Rightarrow> ob)"

text \<open>A session that is seen open, closed and open again within fifteen seconds keeps a row that says closed.\<close>

lemma flapping_leaves_stale_row:
  "let oz = hand_over 3 (status_event ''open'' True (30 * second))
             (hand_over 2 (status_event ''close'' False (25 * second))
               (hand_over 1 (status_event ''open'' True (20 * second)) no_watch));
       ob = fold (run_job_fully watch_db) (oz_jobs oz) no_obs
   in map rn_status (ob_states ob) = [''close'']"
  by code_simp

text \<open>Two goroutines: the one of the earlier event writes last, and the row is that of the earlier event.\<close>

lemma earlier_event_written_last:
  "case listener_turn watch_db 1 ''s'' ''e'' (ReadState (status_event ''open'' True (20 * second))) no_obs of
     (Some early, ob) \<Rightarrow>
       (case listener_turn watch_db 2 ''s2'' ''e2'' (ReadState (status_event ''close'' False (40 * second))) ob of
          (Some late, ob) \<Rightarrow>
            (case listener_turn watch_db 3 ''s2'' ''e2'' late ob of
               (_, ob) \<Rightarrow>
                 (case listener_turn watch_db 4 ''s'' ''e'' early ob of
                    (_, ob) \<Rightarrow> map rn_status (ob_states ob) = [''open''] \<and> map rn_last_event_at (ob_states ob) = [Some (20 * second)])))
   | _ \<Rightarrow> False"
  by code_simp

lemma watched_notified:
  "watched db \<lparr>wt_oz = oz, wt_ob = ob, wt_handed = h\<rparr> \<Longrightarrow> 0 < now \<Longrightarrow>
     watched db \<lparr>wt_oz = hand_over now e oz, wt_ob = ob, wt_handed = handed_now oz (hand_over now e oz) @ h\<rparr>"
  using watched.stepped [OF _ watch_step.notified [OF refl, of now db "\<lparr>wt_oz = oz, wt_ob = ob, wt_handed = h\<rparr>" e]] by simp

lemma watched_turn:
  assumes "watched db \<lparr>wt_oz = oz, wt_ob = ob, wt_handed = h\<rparr>" and "oz_jobs oz = [j]"
    and "listener_turn db now stateID eventID j ob = (left, ob')"
  shows "watched db \<lparr>wt_oz = oz\<lparr>oz_jobs := (case left of None \<Rightarrow> [] | Some j \<Rightarrow> [j])\<rparr>, wt_ob = ob', wt_handed = h\<rparr>"
proof -
  let ?w = "\<lparr>wt_oz = oz, wt_ob = ob, wt_handed = h\<rparr>"
  have "watch_step db ?w (?w\<lparr>wt_oz := (wt_oz ?w)\<lparr>oz_jobs := [] @ (case left of None \<Rightarrow> [] | Some j \<Rightarrow> [j]) @ []\<rparr>, wt_ob := ob'\<rparr>)"
    using assms(2,3) by (intro watch_step.turn [where job = j and now = now and stateID = stateID and eventID = eventID]) simp_all
  with assms(1) show ?thesis by (simp add: watched.stepped)
qed

lemma watched_run:
  assumes "watched db \<lparr>wt_oz = oz, wt_ob = ob, wt_handed = h\<rparr>" and "oz_jobs oz = [j]"
  shows "\<exists>oz'. watched db \<lparr>wt_oz = oz', wt_ob = run_job_fully db j ob, wt_handed = h\<rparr>"
proof -
  obtain l1 ob1 where 1: "listener_turn db 1 ''s'' ''e'' j ob = (l1, ob1)" by (rule prod.exhaust)
  note w1 = watched_turn [OF assms 1]
  show ?thesis
  proof (cases l1)
    case (Some j1)
    obtain l2 ob2 where 2: "listener_turn db 1 ''s'' ''e'' j1 ob1 = (l2, ob2)" by (rule prod.exhaust)
    have w2: "watched db \<lparr>wt_oz = oz\<lparr>oz_jobs := (case l2 of None \<Rightarrow> [] | Some j \<Rightarrow> [j])\<rparr>, wt_ob = ob2, wt_handed = h\<rparr>"
      using watched_turn [OF w1 _ 2] Some by simp
    show ?thesis
    proof (cases l2)
      case (Some j2)
      obtain l3 ob3 where 3: "listener_turn db 1 ''s'' ''e'' j2 ob2 = (l3, ob3)" by (rule prod.exhaust)
      show ?thesis using watched_turn [OF w2 _ 3] Some \<open>l1 = Some j1\<close> 1 2 3 by (auto simp: run_job_fully_def)
    qed (use w2 \<open>l1 = Some j1\<close> 1 2 in \<open>auto simp: run_job_fully_def\<close>)
  qed (use w1 1 in \<open>auto simp: run_job_fully_def\<close>)
qed

lemma watched_first:
  "watched watch_db \<lparr>wt_oz = hand_over 1 (status_event ''open'' True (20 * second)) no_watch, wt_ob = no_obs,
     wt_handed = [status_event ''open'' True (20 * second)]\<rparr>"
proof -
  have "handed_now no_watch (hand_over 1 (status_event ''open'' True (20 * second)) no_watch) =
      [status_event ''open'' True (20 * second)]"
    by code_simp
  moreover have "watched watch_db \<lparr>wt_oz = no_watch, wt_ob = no_obs, wt_handed = []\<rparr>"
    using watched.start by (simp add: no_watch_def no_obs_def)
  ultimately show ?thesis
    using watched_notified [of watch_db no_watch no_obs "[]" 1 "status_event ''open'' True (20 * second)"] by simp
qed

lemma watched_second:
  "\<exists>oz. watched watch_db \<lparr>wt_oz = oz, wt_ob = no_obs,
     wt_handed = [status_event ''open'' True (40 * second), status_event ''open'' True (20 * second)]\<rparr>"
proof -
  have "handed_now (hand_over 1 (status_event ''open'' True (20 * second)) no_watch)
      (hand_over 2 (status_event ''open'' True (40 * second)) (hand_over 1 (status_event ''open'' True (20 * second)) no_watch)) =
      [status_event ''open'' True (40 * second)]"
    by code_simp
  then show ?thesis using watched_notified [OF watched_first, of 2 "status_event ''open'' True (40 * second)"] by auto
qed

theorem status_observations_spaced_witness:
  "15 * second \<le> le_occurred_at (status_event ''open'' True (40 * second)) - le_occurred_at (status_event ''open'' True (20 * second))"
proof -
  obtain oz where w: "watched watch_db \<lparr>wt_oz = oz, wt_ob = no_obs,
      wt_handed = [status_event ''open'' True (40 * second), status_event ''open'' True (20 * second)]\<rparr>"
    using watched_second by blast
  show ?thesis
    by (rule status_observations_spaced [OF w, of "[]" _ "[]" _ "[]"]) (simp_all add: status_event_def lifecycle_key_def)
qed

theorem observations_owned_witness:
  "\<exists>w. watched watch_db w \<and> map rn_tenant_id (ob_states (wt_ob w)) = [''A''] \<and> map re_tenant_id (ob_events (wt_ob w)) = [''A''] \<and>
     distinct (map state_key (ob_states (wt_ob w)))"
proof -
  let ?j = "ReadState (status_event ''open'' True (20 * second))"
  have "oz_jobs (hand_over 1 (status_event ''open'' True (20 * second)) no_watch) = [?j]" by code_simp
  from watched_run [OF watched_first this]
  obtain oz where w: "watched watch_db \<lparr>wt_oz = oz, wt_ob = run_job_fully watch_db ?j no_obs,
      wt_handed = [status_event ''open'' True (20 * second)]\<rparr>" by blast
  moreover have "map rn_tenant_id (ob_states (run_job_fully watch_db ?j no_obs)) = [''A'']"
      "map re_tenant_id (ob_events (run_job_fully watch_db ?j no_obs)) = [''A'']"
    by code_simp+
  ultimately show ?thesis using observations_owned [OF w] by (intro exI conjI) auto
qed

end
