(* ===== verification/Instance_Service.thy ===== *)
theory Instance_Service
  imports Runtime_System
begin

text \<open>
  The service of the instances, \<open>internal/instance/service.go\<close>, over the runtime it is given. A runtime is a record
  of operations on a state of its own (\<open>runtime_ops\<close>, the interface \<open>Runtime\<close>); \<open>legacy_ops\<close> are those of
  \<open>LegacyRuntime\<close>. The argument \<open>rt\<close> is what \<open>ensureRuntime\<close> gives: operations, or none and maybe an error. The
  clock is read once for every observation, the k-th reading is \<open>clock k\<close>. Where the code returns an instance
  together with an error the handlers drop it; here an error is alone.
\<close>

section \<open>The runtime as the service sees it\<close>

type_synonym 's runtime_answer = "'s \<Rightarrow> (go_error + RuntimeSnapshot) \<times> 's"

record 's runtime_ops =
  ro_connect :: "Instance \<Rightarrow> 's runtime_answer"
  ro_disconnect :: "Instance \<Rightarrow> 's runtime_answer"
  ro_reconnect :: "Instance \<Rightarrow> 's runtime_answer"
  ro_logout :: "Instance \<Rightarrow> 's runtime_answer"
  ro_pair :: "Instance \<Rightarrow> string \<Rightarrow> 's runtime_answer"
  ro_snapshot :: "Instance \<Rightarrow> 's runtime_answer"
  ro_qrcode :: "Instance \<Rightarrow> 's runtime_answer"
  ro_history :: "Instance \<Rightarrow> HistoryBackfillRequest \<Rightarrow> 's \<Rightarrow> (go_error + HistoryBackfillResult) \<times> 's"

type_synonym 's runtime_handle = "go_error option + 's runtime_ops"

definition legacy_ops :: "runtime_env \<Rightarrow> string \<Rightarrow> time \<Rightarrow> engine_state runtime_ops" where
  "legacy_ops rt token now =
     \<lparr>ro_connect = rt_Connect rt token now, ro_disconnect = rt_Disconnect rt token now,
      ro_reconnect = rt_Reconnect rt token now, ro_logout = rt_Logout rt token now, ro_pair = rt_Pair rt token now,
      ro_snapshot = rt_Snapshot rt token now, ro_qrcode = rt_QRCode rt token now,
      ro_history = rt_RequestHistorySync rt token now\<rparr>"

text \<open>The runtime that is there, or the one the factory makes now.\<close>

definition ensureRuntime :: "'s runtime_ops option \<Rightarrow> (go_error + 's runtime_ops) option \<Rightarrow> 's runtime_handle" where
  "ensureRuntime runtime factory =
     (case runtime of
        Some ops \<Rightarrow> Inr ops
      | None \<Rightarrow>
          (case factory of
             None \<Rightarrow> Inl None
           | Some (Inl e) \<Rightarrow> Inl (Some e)
           | Some (Inr ops) \<Rightarrow> Inr ops))"

section \<open>State\<close>

record 's service =
  sv_db :: auth_db
  sv_runtime :: 's
  sv_oz :: observations
  sv_ob :: "obs_db option"
  sv_history :: "message_db option"

definition in_runtime :: "('s \<Rightarrow> 'a \<times> 's) \<Rightarrow> 's service \<Rightarrow> 'a \<times> 's service" where
  "in_runtime f s = (case f (sv_runtime s) of (r, u) \<Rightarrow> (r, s\<lparr>sv_runtime := u\<rparr>))"

definition save_instance :: "Instance \<Rightarrow> 's service \<Rightarrow> go_error option \<times> 's service" where
  "save_instance i s = (case instance_Update i (sv_db s) of (r, db) \<Rightarrow> (r, s\<lparr>sv_db := db\<rparr>))"

definition observe ::
  "Instance \<Rightarrow> RuntimeSnapshot option \<Rightarrow> string \<Rightarrow> string \<Rightarrow> string \<Rightarrow> time \<Rightarrow> 's service \<Rightarrow> 's service" where
  "observe i snapshot eventType source message now s =
     s\<lparr>sv_oz := recordRuntimeObservation i snapshot eventType source message None now (sv_oz s)\<rparr>"

section \<open>Snapshots in the table\<close>

definition applySnapshot ::
  "time \<Rightarrow> Instance \<Rightarrow> RuntimeSnapshot option \<Rightarrow> 's service \<Rightarrow> (go_error + Instance) \<times> 's service" where
  "applySnapshot now i snapshot s =
     (case snapshot of
        None \<Rightarrow> (Inr i, s)
      | Some n \<Rightarrow>
          (let status = (if trim_space (rs_status n) = [] then in_status i else trim_space (rs_status n));
               noted = (\<lambda>i s. observe i (Some n) ''status_observed'' ''runtime_snapshot'' ''live runtime status observed'' now s)
           in if status \<noteq> in_status i then
                (case save_instance (i\<lparr>in_status := status\<rparr>) s of
                   (Some e, s) \<Rightarrow> (Inl e, s)
                 | (None, s) \<Rightarrow> (Inr (i\<lparr>in_status := status\<rparr>), noted (i\<lparr>in_status := status\<rparr>) s))
              else (Inr i, noted i s)))"

definition normalizeBridgeUnavailableLifecycleError :: "go_error option \<Rightarrow> string \<Rightarrow> go_error" where
  "normalizeBridgeUnavailableLifecycleError err action =
     (let e = (case err of None \<Rightarrow> plain_error ''runtime unavailable'' | Some e \<Rightarrow> e);
          message = to_lower (trim_space (err_text e))
      in if contains message ''runtime unavailable'' \<or> contains message ''legacy runtime unavailable'' \<or>
            contains message ''legacy client runtime unavailable''
         then wrap ErrConflict (''runtime unavailable for '' @ trim_space action) else e)"

section \<open>Making, finding, deleting\<close>

record InstanceCreateInput =
  ci_name :: string
  ci_engine_instance_id :: string
  ci_webhook_url :: string

text \<open>The id comes from the hook of the library, the times from the library.\<close>

definition svc_create ::
  "'s runtime_handle \<Rightarrow> string \<Rightarrow> time \<Rightarrow> string \<Rightarrow> InstanceCreateInput \<Rightarrow> 's service \<Rightarrow> (go_error + Instance) \<times> 's service" where
  "svc_create rt newID now tenantID input s =
     (if tenantID = [] \<or> ci_name input = [] then (Inl (wrap ErrValidation ''tenant_id and name are required''), s)
      else
        (let i = \<lparr>in_id = newID, in_tenant_id = tenantID, in_name = ci_name input, in_status = ''created'',
                  in_engine_instance_id = ci_engine_instance_id input, in_webhook_url = ci_webhook_url input,
                  in_webhook_events = [], in_webhook_base64 = False, in_webhook_by_events = False,
                  in_ai_enabled = False, in_ai_auto_reply = False, in_created_at = now\<rparr>;
             synced = (\<lambda>i s. case rt of
                Inl _ \<Rightarrow> (Inr i, s)
              | Inr ops \<Rightarrow> (Inr i, snd (in_runtime (ro_snapshot ops i) s)))
         in case instance_Create i (sv_db s) of
           (Some e, db) \<Rightarrow> (Inl e, s\<lparr>sv_db := db\<rparr>)
         | (None, db) \<Rightarrow>
             (let s = s\<lparr>sv_db := db\<rparr> in
              if trim_space (in_engine_instance_id i) = [] then
                (case save_instance (i\<lparr>in_engine_instance_id := in_id i\<rparr>) s of
                   (Some e, s) \<Rightarrow> (Inl e, s)
                 | (None, s) \<Rightarrow> synced (i\<lparr>in_engine_instance_id := in_id i\<rparr>) s)
              else synced i s)))"

definition svc_list :: "string \<Rightarrow> 's service \<Rightarrow> go_error + Instance list" where
  "svc_list tenantID s = instance_ListByTenant (sv_db s) tenantID"

definition svc_delete :: "string \<Rightarrow> string \<Rightarrow> 's service \<Rightarrow> go_error option \<times> 's service" where
  "svc_delete tenantID instanceID s =
     (if instanceID = [] then (Some (wrap ErrValidation ''instance id is required''), s)
      else case instance_Delete tenantID instanceID (sv_db s) of
        (Some _, db) \<Rightarrow> (Some (wrap ErrNotFound ''instance not found''), s\<lparr>sv_db := db\<rparr>)
      | (None, db) \<Rightarrow> (None, s\<lparr>sv_db := db\<rparr>))"

definition svc_get :: "string \<Rightarrow> string \<Rightarrow> 's service \<Rightarrow> go_error + Instance" where
  "svc_get tenantID instanceID s =
     (case instance_GetByID (sv_db s) tenantID instanceID of
        Inl _ \<Rightarrow> Inl (wrap ErrNotFound ''instance not found'')
      | Inr i \<Rightarrow> Inr i)"

definition svc_resolve :: "string \<Rightarrow> string \<Rightarrow> 's service \<Rightarrow> go_error + Instance" where
  "svc_resolve tenantID reference s = resolve (sv_db s) tenantID reference"

section \<open>The life of a session\<close>

text \<open>
  Connecting and disconnecting work without a runtime too, on the table alone. The operations by reference and by id
  do the same to the instance they find.
\<close>

definition change_status ::
  "('s runtime_ops \<Rightarrow> Instance \<Rightarrow> 's runtime_answer) \<Rightarrow> string \<Rightarrow> string \<Rightarrow> string \<Rightarrow> 's runtime_handle \<Rightarrow> (nat \<Rightarrow> time) \<Rightarrow>
   Instance \<Rightarrow> 's service \<Rightarrow> (go_error + Instance) \<times> 's service" where
  "change_status act local eventType message rt clock i s =
     (case rt of
        Inr ops \<Rightarrow>
          (case in_runtime (act ops i) s of
             (Inl e, s) \<Rightarrow> (Inl e, s)
           | (Inr n, s) \<Rightarrow> applySnapshot (clock 1) i (Some n) (observe i (Some n) eventType ''api'' message (clock 0) s))
      | Inl _ \<Rightarrow>
          (case save_instance (i\<lparr>in_status := local\<rparr>) s of
             (Some e, s) \<Rightarrow> (Inl e, s)
           | (None, s) \<Rightarrow> (Inr (i\<lparr>in_status := local\<rparr>), observe (i\<lparr>in_status := local\<rparr>) None eventType ''api'' message (clock 0) s)))"

definition connect_found ::
  "'s runtime_handle \<Rightarrow> (nat \<Rightarrow> time) \<Rightarrow> Instance \<Rightarrow> 's service \<Rightarrow> (go_error + Instance) \<times> 's service" where
  "connect_found = change_status ro_connect ''connecting'' ''connected'' ''instance connect queued''"

definition disconnect_found ::
  "'s runtime_handle \<Rightarrow> (nat \<Rightarrow> time) \<Rightarrow> Instance \<Rightarrow> 's service \<Rightarrow> (go_error + Instance) \<times> 's service" where
  "disconnect_found = change_status ro_disconnect ''disconnected'' ''disconnected'' ''instance disconnected''"

definition svc_connect ::
  "'s runtime_handle \<Rightarrow> (nat \<Rightarrow> time) \<Rightarrow> string \<Rightarrow> string \<Rightarrow> 's service \<Rightarrow> (go_error + Instance) \<times> 's service" where
  "svc_connect rt clock tenantID reference s =
     (case resolve (sv_db s) tenantID reference of Inl e \<Rightarrow> (Inl e, s) | Inr i \<Rightarrow> connect_found rt clock i s)"

definition svc_connect_by_id ::
  "'s runtime_handle \<Rightarrow> (nat \<Rightarrow> time) \<Rightarrow> string \<Rightarrow> string \<Rightarrow> 's service \<Rightarrow> (go_error + Instance) \<times> 's service" where
  "svc_connect_by_id rt clock tenantID instanceID s =
     (case svc_get tenantID instanceID s of Inl e \<Rightarrow> (Inl e, s) | Inr i \<Rightarrow> connect_found rt clock i s)"

definition svc_disconnect ::
  "'s runtime_handle \<Rightarrow> (nat \<Rightarrow> time) \<Rightarrow> string \<Rightarrow> string \<Rightarrow> 's service \<Rightarrow> (go_error + Instance) \<times> 's service" where
  "svc_disconnect rt clock tenantID reference s =
     (case resolve (sv_db s) tenantID reference of Inl e \<Rightarrow> (Inl e, s) | Inr i \<Rightarrow> disconnect_found rt clock i s)"

definition svc_disconnect_by_id ::
  "'s runtime_handle \<Rightarrow> (nat \<Rightarrow> time) \<Rightarrow> string \<Rightarrow> string \<Rightarrow> 's service \<Rightarrow> (go_error + Instance) \<times> 's service" where
  "svc_disconnect_by_id rt clock tenantID instanceID s =
     (case svc_get tenantID instanceID s of Inl e \<Rightarrow> (Inl e, s) | Inr i \<Rightarrow> disconnect_found rt clock i s)"

text \<open>Reconnecting and logging out need the runtime; a missing one is a conflict.\<close>

definition lifecycle_found ::
  "('s runtime_ops \<Rightarrow> Instance \<Rightarrow> 's runtime_answer) \<Rightarrow> string \<Rightarrow> string \<Rightarrow> string \<Rightarrow> 's runtime_handle \<Rightarrow> (nat \<Rightarrow> time) \<Rightarrow>
   Instance \<Rightarrow> 's service \<Rightarrow> (go_error + Instance \<times> RuntimeSnapshot) \<times> 's service" where
  "lifecycle_found act action eventType message rt clock i s =
     (case rt of
        Inl e \<Rightarrow> (Inl (normalizeBridgeUnavailableLifecycleError e action), s)
      | Inr ops \<Rightarrow>
          (case in_runtime (act ops i) s of
             (Inl e, s) \<Rightarrow> (Inl (normalizeBridgeUnavailableLifecycleError (Some e) action), s)
           | (Inr n, s) \<Rightarrow>
               (case applySnapshot (clock 1) i (Some n) (observe i (Some n) eventType ''api'' message (clock 0) s) of
                  (Inl e, s) \<Rightarrow> (Inl e, s)
                | (Inr i, s) \<Rightarrow> (Inr (i, n), s))))"

definition reconnect_found ::
  "'s runtime_handle \<Rightarrow> (nat \<Rightarrow> time) \<Rightarrow> Instance \<Rightarrow> 's service \<Rightarrow> (go_error + Instance \<times> RuntimeSnapshot) \<times> 's service" where
  "reconnect_found = lifecycle_found ro_reconnect ''reconnect'' ''reconnect_requested'' ''instance reconnect queued''"

definition logout_found ::
  "'s runtime_handle \<Rightarrow> (nat \<Rightarrow> time) \<Rightarrow> Instance \<Rightarrow> 's service \<Rightarrow> (go_error + Instance \<times> RuntimeSnapshot) \<times> 's service" where
  "logout_found = lifecycle_found ro_logout ''logout'' ''logout'' ''instance logged out''"

definition svc_reconnect ::
  "'s runtime_handle \<Rightarrow> (nat \<Rightarrow> time) \<Rightarrow> string \<Rightarrow> string \<Rightarrow> 's service \<Rightarrow> (go_error + Instance \<times> RuntimeSnapshot) \<times> 's service" where
  "svc_reconnect rt clock tenantID reference s =
     (case resolve (sv_db s) tenantID reference of Inl e \<Rightarrow> (Inl e, s) | Inr i \<Rightarrow> reconnect_found rt clock i s)"

definition svc_reconnect_by_id ::
  "'s runtime_handle \<Rightarrow> (nat \<Rightarrow> time) \<Rightarrow> string \<Rightarrow> string \<Rightarrow> 's service \<Rightarrow> (go_error + Instance \<times> RuntimeSnapshot) \<times> 's service" where
  "svc_reconnect_by_id rt clock tenantID instanceID s =
     (case svc_get tenantID instanceID s of Inl e \<Rightarrow> (Inl e, s) | Inr i \<Rightarrow> reconnect_found rt clock i s)"

definition svc_logout ::
  "'s runtime_handle \<Rightarrow> (nat \<Rightarrow> time) \<Rightarrow> string \<Rightarrow> string \<Rightarrow> 's service \<Rightarrow> (go_error + Instance \<times> RuntimeSnapshot) \<times> 's service" where
  "svc_logout rt clock tenantID reference s =
     (case resolve (sv_db s) tenantID reference of Inl e \<Rightarrow> (Inl e, s) | Inr i \<Rightarrow> logout_found rt clock i s)"

definition svc_logout_by_id ::
  "'s runtime_handle \<Rightarrow> (nat \<Rightarrow> time) \<Rightarrow> string \<Rightarrow> string \<Rightarrow> 's service \<Rightarrow> (go_error + Instance \<times> RuntimeSnapshot) \<times> 's service" where
  "svc_logout_by_id rt clock tenantID instanceID s =
     (case svc_get tenantID instanceID s of Inl e \<Rightarrow> (Inl e, s) | Inr i \<Rightarrow> logout_found rt clock i s)"

text \<open>
  At the start of the process every open instance is reconnected, by five workers; here one after the other, in an order
  of the list's instances, each with a clock of its own.
\<close>

definition BootstrapReconnectAll ::
  "'s runtime_handle \<Rightarrow> (string \<Rightarrow> nat \<Rightarrow> time) \<Rightarrow> (Instance list \<Rightarrow> Instance list) \<Rightarrow> 's service \<Rightarrow> 's service" where
  "BootstrapReconnectAll rt clocks order s =
     (case instance_ListByStatus (sv_db s) ''open'' of
        Inl _ \<Rightarrow> s
      | Inr is \<Rightarrow> fold (\<lambda>i s. snd (svc_reconnect_by_id rt (clocks (in_id i)) (in_tenant_id i) (in_id i) s)) (order is) s)"

section \<open>Status, QR codes, pairing\<close>

definition status_found ::
  "'s runtime_handle \<Rightarrow> (nat \<Rightarrow> time) \<Rightarrow> Instance \<Rightarrow> 's service \<Rightarrow> (go_error + Instance) \<times> 's service" where
  "status_found rt clock i s =
     (case rt of
        Inl _ \<Rightarrow> (Inr i, s)
      | Inr ops \<Rightarrow>
          (case in_runtime (ro_snapshot ops i) s of
             (Inl _, s) \<Rightarrow> (Inr i, s)
           | (Inr n, s) \<Rightarrow>
               applySnapshot (clock 1) i (Some n)
                 (observe i (Some n) ''status_observed'' ''runtime_snapshot'' ''live runtime status observed'' (clock 0) s)))"

definition svc_status ::
  "'s runtime_handle \<Rightarrow> (nat \<Rightarrow> time) \<Rightarrow> string \<Rightarrow> string \<Rightarrow> 's service \<Rightarrow> (go_error + Instance) \<times> 's service" where
  "svc_status rt clock tenantID reference s =
     (case resolve (sv_db s) tenantID reference of Inl e \<Rightarrow> (Inl e, s) | Inr i \<Rightarrow> status_found rt clock i s)"

definition svc_status_by_id ::
  "'s runtime_handle \<Rightarrow> (nat \<Rightarrow> time) \<Rightarrow> string \<Rightarrow> string \<Rightarrow> 's service \<Rightarrow> (go_error + Instance) \<times> 's service" where
  "svc_status_by_id rt clock tenantID instanceID s =
     (case svc_get tenantID instanceID s of Inl e \<Rightarrow> (Inl e, s) | Inr i \<Rightarrow> status_found rt clock i s)"

definition no_runtime :: "go_error option \<Rightarrow> go_error" where
  "no_runtime e = (case e of Some e \<Rightarrow> e | None \<Rightarrow> plain_error ''runtime unavailable'')"

definition qrcode_found ::
  "'s runtime_handle \<Rightarrow> (nat \<Rightarrow> time) \<Rightarrow> Instance \<Rightarrow> 's service \<Rightarrow> (go_error + Instance \<times> RuntimeSnapshot) \<times> 's service" where
  "qrcode_found rt clock i s =
     (case rt of
        Inl e \<Rightarrow> (Inl (no_runtime e), s)
      | Inr ops \<Rightarrow>
          (case in_runtime (ro_qrcode ops i) s of
             (Inl e, s) \<Rightarrow> (Inl e, s)
           | (Inr n, s) \<Rightarrow>
               (case applySnapshot (clock 0) i (Some n) s of
                  (Inl e, s) \<Rightarrow> (Inl e, s)
                | (Inr i, s) \<Rightarrow> (Inr (i, n), s))))"

definition svc_qrcode ::
  "'s runtime_handle \<Rightarrow> (nat \<Rightarrow> time) \<Rightarrow> string \<Rightarrow> string \<Rightarrow> 's service \<Rightarrow> (go_error + Instance \<times> RuntimeSnapshot) \<times> 's service" where
  "svc_qrcode rt clock tenantID reference s =
     (case resolve (sv_db s) tenantID reference of Inl e \<Rightarrow> (Inl e, s) | Inr i \<Rightarrow> qrcode_found rt clock i s)"

definition svc_qrcode_by_id ::
  "'s runtime_handle \<Rightarrow> (nat \<Rightarrow> time) \<Rightarrow> string \<Rightarrow> string \<Rightarrow> 's service \<Rightarrow> (go_error + Instance \<times> RuntimeSnapshot) \<times> 's service" where
  "svc_qrcode_by_id rt clock tenantID instanceID s =
     (case svc_get tenantID instanceID s of Inl e \<Rightarrow> (Inl e, s) | Inr i \<Rightarrow> qrcode_found rt clock i s)"

definition pair_found ::
  "'s runtime_handle \<Rightarrow> (nat \<Rightarrow> time) \<Rightarrow> string \<Rightarrow> Instance \<Rightarrow> 's service \<Rightarrow> (go_error + Instance \<times> RuntimeSnapshot) \<times> 's service" where
  "pair_found rt clock phone i s =
     (case rt of
        Inl e \<Rightarrow> (Inl (normalizeBridgeUnavailableLifecycleError e ''pair''), s)
      | Inr ops \<Rightarrow>
          (case in_runtime (ro_pair ops i (trim_space phone)) s of
             (Inl e, s) \<Rightarrow> (Inl (normalizeBridgeUnavailableLifecycleError (Some e) ''pair''), s)
           | (Inr n, s) \<Rightarrow>
               (case applySnapshot (clock 0) i (Some n) s of
                  (Inl e, s) \<Rightarrow> (Inl e, s)
                | (Inr i, s) \<Rightarrow> (Inr (i, n), observe i (Some n) ''pairing_started'' ''api'' ''pairing code generated'' (clock 1) s))))"

definition svc_pair ::
  "'s runtime_handle \<Rightarrow> (nat \<Rightarrow> time) \<Rightarrow> string \<Rightarrow> string \<Rightarrow> string \<Rightarrow> 's service \<Rightarrow>
   (go_error + Instance \<times> RuntimeSnapshot) \<times> 's service" where
  "svc_pair rt clock tenantID reference phone s =
     (case resolve (sv_db s) tenantID reference of Inl e \<Rightarrow> (Inl e, s) | Inr i \<Rightarrow> pair_found rt clock phone i s)"

definition svc_pair_by_id ::
  "'s runtime_handle \<Rightarrow> (nat \<Rightarrow> time) \<Rightarrow> string \<Rightarrow> string \<Rightarrow> string \<Rightarrow> 's service \<Rightarrow>
   (go_error + Instance \<times> RuntimeSnapshot) \<times> 's service" where
  "svc_pair_by_id rt clock tenantID instanceID phone s =
     (case svc_get tenantID instanceID s of Inl e \<Rightarrow> (Inl e, s) | Inr i \<Rightarrow> pair_found rt clock phone i s)"

section \<open>What was observed\<close>

definition loadRuntimeState :: "Instance \<Rightarrow> 's service \<Rightarrow> go_error + RuntimeSessionState option" where
  "loadRuntimeState i s =
     (case sv_ob s of None \<Rightarrow> Inr None | Some ob \<Rightarrow> obs_GetState (in_tenant_id i) (in_id i) ob)"

definition tryRuntimeSnapshot :: "'s runtime_handle \<Rightarrow> Instance \<Rightarrow> 's service \<Rightarrow> RuntimeSnapshot option \<times> 's service" where
  "tryRuntimeSnapshot rt i s =
     (case rt of
        Inl _ \<Rightarrow> (None, s)
      | Inr ops \<Rightarrow>
          (case in_runtime (ro_snapshot ops i) s of
             (Inl _, s) \<Rightarrow> (None, s)
           | (Inr n, s) \<Rightarrow> (Some n, s)))"

text \<open>The second reading comes right after the observation; what the listener has done by then is \<open>meanwhile\<close>.\<close>

definition runtime_status_found ::
  "'s runtime_handle \<Rightarrow> (nat \<Rightarrow> time) \<Rightarrow> ('s service \<Rightarrow> 's service) \<Rightarrow> Instance \<Rightarrow> 's service \<Rightarrow>
   (go_error + Instance \<times> RuntimeSessionState option \<times> RuntimeSnapshot option) \<times> 's service" where
  "runtime_status_found rt clock meanwhile i s =
     (case loadRuntimeState i s of
        Inl e \<Rightarrow> (Inl e, s)
      | Inr state \<Rightarrow>
          (case tryRuntimeSnapshot rt i s of
             (None, s) \<Rightarrow> (Inr (i, state, None), s)
           | (Some n, s) \<Rightarrow>
               (let s = meanwhile (observe i (Some n) ''status_observed'' ''runtime_snapshot'' ''live runtime status observed'' (clock 0) s)
                in (Inr (i, (case loadRuntimeState i s of Inr (Some latest) \<Rightarrow> Some latest | _ \<Rightarrow> state), Some n), s))))"

definition svc_runtime_status ::
  "'s runtime_handle \<Rightarrow> (nat \<Rightarrow> time) \<Rightarrow> ('s service \<Rightarrow> 's service) \<Rightarrow> string \<Rightarrow> string \<Rightarrow> 's service \<Rightarrow>
   (go_error + Instance \<times> RuntimeSessionState option \<times> RuntimeSnapshot option) \<times> 's service" where
  "svc_runtime_status rt clock meanwhile tenantID reference s =
     (case resolve (sv_db s) tenantID reference of Inl e \<Rightarrow> (Inl e, s) | Inr i \<Rightarrow> runtime_status_found rt clock meanwhile i s)"

definition svc_runtime_status_by_id ::
  "'s runtime_handle \<Rightarrow> (nat \<Rightarrow> time) \<Rightarrow> ('s service \<Rightarrow> 's service) \<Rightarrow> string \<Rightarrow> string \<Rightarrow> 's service \<Rightarrow>
   (go_error + Instance \<times> RuntimeSessionState option \<times> RuntimeSnapshot option) \<times> 's service" where
  "svc_runtime_status_by_id rt clock meanwhile tenantID instanceID s =
     (case svc_get tenantID instanceID s of Inl e \<Rightarrow> (Inl e, s) | Inr i \<Rightarrow> runtime_status_found rt clock meanwhile i s)"

definition listRuntimeEvents :: "Instance \<Rightarrow> int \<Rightarrow> 's service \<Rightarrow> go_error + RuntimeSessionEvent list" where
  "listRuntimeEvents i limit s =
     (case sv_ob s of
        None \<Rightarrow> Inr []
      | Some ob \<Rightarrow> obs_ListEvents (in_tenant_id i) (in_id i) (if limit \<le> 0 \<or> 200 < limit then 50 else limit) ob)"

definition with_events :: "Instance \<Rightarrow> int \<Rightarrow> 's service \<Rightarrow> go_error + Instance \<times> RuntimeSessionEvent list" where
  "with_events i limit s = (case listRuntimeEvents i limit s of Inl e \<Rightarrow> Inl e | Inr es \<Rightarrow> Inr (i, es))"

definition svc_runtime_history ::
  "string \<Rightarrow> string \<Rightarrow> int \<Rightarrow> 's service \<Rightarrow> go_error + Instance \<times> RuntimeSessionEvent list" where
  "svc_runtime_history tenantID reference limit s =
     (case resolve (sv_db s) tenantID reference of Inl e \<Rightarrow> Inl e | Inr i \<Rightarrow> with_events i limit s)"

definition svc_runtime_history_by_id ::
  "string \<Rightarrow> string \<Rightarrow> int \<Rightarrow> 's service \<Rightarrow> go_error + Instance \<times> RuntimeSessionEvent list" where
  "svc_runtime_history_by_id tenantID instanceID limit s =
     (case svc_get tenantID instanceID s of Inl e \<Rightarrow> Inl e | Inr i \<Rightarrow> with_events i limit s)"

section \<open>Fetching history\<close>

text \<open>The request may be given up in between: \<open>cancelled\<close> is what the context says at the three looks.\<close>

definition backfillHistoryForInstance ::
  "'s runtime_handle \<Rightarrow> (nat \<Rightarrow> time) \<Rightarrow> (nat \<Rightarrow> go_error option) \<Rightarrow> Instance option \<Rightarrow> HistoryBackfillRequest \<Rightarrow> 's service \<Rightarrow>
   (go_error + Instance \<times> HistoryBackfillResult \<times> string) \<times> 's service" where
  "backfillHistoryForInstance rt clock cancelled found input s =
     (case found of
        None \<Rightarrow> (Inl (wrap ErrNotFound ''instance not found''), s)
      | Some i \<Rightarrow>
          (case cancelled 0 of
             Some e \<Rightarrow> (Inl e, s)
           | None \<Rightarrow>
               (case resolveHistoryBackfillRequest i input (sv_history s) of
                  Inl e \<Rightarrow> (Inl e, s)
                | Inr (request, anchorSource) \<Rightarrow>
                    (case cancelled 1 of
                       Some e \<Rightarrow> (Inl e, s)
                     | None \<Rightarrow>
                         (case rt of
                            Inl _ \<Rightarrow> (Inl (wrap ErrConflict ''runtime unavailable for history backfill''), s)
                          | Inr ops \<Rightarrow>
                              (case in_runtime (ro_history ops i request) s of
                                 (Inl e, s) \<Rightarrow> (Inl e, s)
                               | (Inr r, s) \<Rightarrow>
                                   (case cancelled 2 of
                                      Some e \<Rightarrow> (Inl e, s)
                                    | None \<Rightarrow>
                                        (case tryRuntimeSnapshot rt i s of
                                           (n, s) \<Rightarrow> (Inr (i, r, anchorSource),
                                             observe i n ''history_sync_requested'' ''api'' ''history backfill requested'' (clock 0) s))))))))) "

definition svc_backfill ::
  "'s runtime_handle \<Rightarrow> (nat \<Rightarrow> time) \<Rightarrow> (nat \<Rightarrow> go_error option) \<Rightarrow> string \<Rightarrow> string \<Rightarrow> HistoryBackfillRequest \<Rightarrow> 's service \<Rightarrow>
   (go_error + Instance \<times> HistoryBackfillResult \<times> string) \<times> 's service" where
  "svc_backfill rt clock cancelled tenantID reference input s =
     (case resolve (sv_db s) tenantID reference of
        Inl e \<Rightarrow> (Inl e, s)
      | Inr i \<Rightarrow> backfillHistoryForInstance rt clock cancelled (Some i) input s)"

definition svc_backfill_by_id ::
  "'s runtime_handle \<Rightarrow> (nat \<Rightarrow> time) \<Rightarrow> (nat \<Rightarrow> go_error option) \<Rightarrow> string \<Rightarrow> string \<Rightarrow> HistoryBackfillRequest \<Rightarrow> 's service \<Rightarrow>
   (go_error + Instance \<times> HistoryBackfillResult \<times> string) \<times> 's service" where
  "svc_backfill_by_id rt clock cancelled tenantID instanceID input s =
     (case svc_get tenantID instanceID s of
        Inl e \<Rightarrow> (Inl e, s)
      | Inr i \<Rightarrow> backfillHistoryForInstance rt clock cancelled (Some i) input s)"

end
