(* ===== verification/Instance_Connectors.thy ===== *)
theory Instance_Connectors
  imports Instance_Service Engine_System
begin

text \<open>
  The settings of an instance that live in the engine's row: webhook, advanced settings, event connectors and the
  proxy, the second half of \<open>internal/instance/service.go\<close>. These operations need the runtime to be
  \<open>LegacyRuntime\<close>, so the runtime's state is the engine's.
\<close>

section \<open>Events\<close>

definition upper_char :: "char \<Rightarrow> char" where
  "upper_char c = (if CHR ''a'' \<le> c \<and> c \<le> CHR ''z'' then char_of (of_char c - 32 :: nat) else c)"

definition to_upper :: "string \<Rightarrow> string" where "to_upper s = map upper_char s"

definition isSupportedInstanceEvent :: "string \<Rightarrow> bool" where
  "isSupportedInstanceEvent value \<longleftrightarrow>
     value \<in> {''ALL'', ''MESSAGE'', ''SEND_MESSAGE'', ''READ_RECEIPT'', ''PRESENCE'', ''HISTORY_SYNC'', ''CHAT_PRESENCE'',
              ''CALL'', ''CONNECTION'', ''LABEL'', ''CONTACT'', ''GROUP'', ''NEWSLETTER'', ''QRCODE''}"

text \<open>The values in upper case, each once, in the order of their first.\<close>

fun each_once :: "string list \<Rightarrow> string list \<Rightarrow> string list" where
  "each_once [] events = events"
| "each_once (part # parts) events =
     (let value = to_upper (trim_space part) in
      if value = [] then each_once parts events
      else if value \<in> set events then each_once parts events
      else each_once parts (events @ [value]))"

definition parseLegacyEvents :: "string \<Rightarrow> string list" where
  "parseLegacyEvents raw = (if trim_space raw = [] then [] else each_once (split_on (CHR '','') raw) [])"

fun requested :: "string list \<Rightarrow> string list \<Rightarrow> go_error + string list" where
  "requested [] normalized = Inr normalized"
| "requested (event # events) normalized =
     (let value = to_upper (trim_space event) in
      if value = [] then requested events normalized
      else if \<not> isSupportedInstanceEvent value then
        Inl (wrap ErrValidation (''unsupported event \"'' @ value @ ''\"''))
      else if value \<in> set normalized then requested events normalized
      else requested events (normalized @ [value]))"

definition normalizeRequestedEvents :: "string list \<Rightarrow> string \<Rightarrow> bool \<Rightarrow> go_error + string list" where
  "normalizeRequestedEvents events existing enabled =
     (if \<not> enabled \<and> events = [] then Inr (parseLegacyEvents existing)
      else case requested events [] of
        Inl e \<Rightarrow> Inl e
      | Inr normalized \<Rightarrow>
          if normalized \<noteq> [] then Inr normalized
          else if parseLegacyEvents existing \<noteq> [] then Inr (parseLegacyEvents existing)
          else Inr [''MESSAGE''])"

definition normalizedConnectorEnabled :: "string \<Rightarrow> bool" where
  "normalizedConnectorEnabled raw \<longleftrightarrow> to_lower (trim_space raw) \<in> {''enabled'', ''global'', ''true'', ''1'', ''yes''}"

definition connectorState :: "bool \<Rightarrow> string" where
  "connectorState enabled = (if enabled then ''enabled'' else ''disabled'')"

section \<open>Proxies\<close>

record ProxyConfig =
  pc_id :: string
  pc_enabled :: bool
  pc_host :: string
  pc_port :: string
  pc_protocol :: string
  pc_username :: string
  pc_password :: string

definition proxy_off :: ProxyConfig where
  "proxy_off = \<lparr>pc_id = [], pc_enabled = False, pc_host = [], pc_port = [], pc_protocol = ''socks5'', pc_username = [],
     pc_password = []\<rparr>"

definition parseProxyConfig :: "proxy_column \<Rightarrow> ProxyConfig" where
  "parseProxyConfig raw =
     (case unmarshal_proxy raw of
        Inl _ \<Rightarrow> proxy_off
      | Inr p \<Rightarrow>
          proxy_off\<lparr>pc_host := trim_space (px_host p), pc_port := trim_space (px_port p),
            pc_username := trim_space (px_username p), pc_password := trim_space (px_password p),
            pc_enabled := (trim_space (px_host p) \<noteq> [] \<and> trim_space (px_port p) \<noteq> [])\<rparr>)"

definition normalizeProxyConfig :: "ProxyConfig \<Rightarrow> go_error + ProxyConfig" where
  "normalizeProxyConfig input =
     (let protocol = (let p = to_lower (trim_space (pc_protocol input)) in if p = [] then ''socks5'' else p) in
      if protocol \<noteq> ''socks5'' then Inl (wrap ErrValidation ''only socks5 proxy protocol is supported'')
      else
        (let input = input\<lparr>pc_protocol := protocol, pc_host := trim_space (pc_host input), pc_port := trim_space (pc_port input),
               pc_username := trim_space (pc_username input), pc_password := trim_space (pc_password input)\<rparr>
         in if \<not> pc_enabled input then Inr proxy_off
            else if pc_host input = [] \<or> pc_port input = [] then
              Inl (wrap ErrValidation ''host and port are required when proxy is enabled'')
            else Inr input))"

section \<open>The engine behind the service\<close>

datatype legacy_handle = NoRuntime "go_error option" | OtherRuntime "engine_state runtime_ops" | Legacy runtime_env

definition handle_of :: "string \<Rightarrow> time \<Rightarrow> legacy_handle \<Rightarrow> engine_state runtime_handle" where
  "handle_of token now h =
     (case h of NoRuntime e \<Rightarrow> Inl e | OtherRuntime ops \<Rightarrow> Inr ops | Legacy rt \<Rightarrow> Inr (legacy_ops rt token now))"

definition need_legacy :: "legacy_handle \<Rightarrow> go_error + runtime_env" where
  "need_legacy h =
     (case h of
        NoRuntime e \<Rightarrow> Inl (no_runtime e)
      | OtherRuntime _ \<Rightarrow> Inl (plain_error ''legacy runtime unavailable'')
      | Legacy rt \<Rightarrow> Inr rt)"

type_synonym engine_service = "engine_state service"

definition resolveLegacyInstance ::
  "legacy_handle \<Rightarrow> string \<Rightarrow> time \<Rightarrow> string \<Rightarrow> string \<Rightarrow> engine_service \<Rightarrow>
   (go_error + Instance \<times> runtime_env \<times> EngineInstance) \<times> engine_service" where
  "resolveLegacyInstance h token now tenantID reference s =
     (case resolve (sv_db s) tenantID reference of
        Inl e \<Rightarrow> (Inl e, s)
      | Inr i \<Rightarrow>
          (case need_legacy h of
             Inl e \<Rightarrow> (Inl e, s)
           | Inr rt \<Rightarrow>
               (case in_runtime (ensureLegacyInstance rt token now i) s of
                  (Inl e, s) \<Rightarrow> (Inl e, s)
                | (Inr x, s) \<Rightarrow> (Inr (i, rt, x), s))))"

definition update_row :: "EngineInstance \<Rightarrow> engine_service \<Rightarrow> go_error option \<times> engine_service" where
  "update_row x = in_runtime (in_db (engine_Update x))"

definition syncLegacyInstanceSettings :: "runtime_env \<Rightarrow> Instance \<Rightarrow> engine_service \<Rightarrow> engine_service" where
  "syncLegacyInstanceSettings rt i s =
     (case rt_parts rt of (_, _, _, whatsmeow) \<Rightarrow>
        if \<not> whatsmeow then s
        else case in_runtime (UpdateInstanceSettings (rt_engine rt) (in_engine_instance_id i)) s of
          (None, s) \<Rightarrow> s
        | (Some _, s) \<Rightarrow> snd (in_runtime (UpdateInstanceSettings (rt_engine rt) (in_id i)) s))"

section \<open>Webhook\<close>

definition webhook_row :: "Instance \<Rightarrow> string list \<Rightarrow> EngineInstance \<Rightarrow> bool \<times> EngineInstance" where
  "webhook_row i events x =
     (let hook = (trim_space (ei_webhook x) \<noteq> trim_space (in_webhook_url i));
          ev = (events \<noteq> [] \<and> trim_space (ei_events x) \<noteq> join '','' events)
      in (hook \<or> ev,
          x\<lparr>ei_webhook := (if hook then trim_space (in_webhook_url i) else ei_webhook x),
            ei_events := (if ev then join '','' events else ei_events x)\<rparr>))"

definition sync_webhook ::
  "runtime_env \<Rightarrow> string \<Rightarrow> time \<Rightarrow> Instance \<Rightarrow> string list \<Rightarrow> engine_service \<Rightarrow> engine_service" where
  "sync_webhook rt token now i events s =
     (case in_runtime (ensureLegacyInstance rt token now i) s of
        (Inl _, s) \<Rightarrow> s
      | (Inr x, s) \<Rightarrow>
          syncLegacyInstanceSettings rt i
            (case webhook_row i events x of (ch, x) \<Rightarrow> if ch then snd (update_row x s) else s))"

definition svc_set_webhook ::
  "legacy_handle \<Rightarrow> string \<Rightarrow> time \<Rightarrow> string \<Rightarrow> string \<Rightarrow> string \<Rightarrow> string list \<Rightarrow> bool \<Rightarrow> bool \<Rightarrow> engine_service \<Rightarrow>
   (go_error + Instance) \<times> engine_service" where
  "svc_set_webhook h token now tenantID reference webhookURL events base64 byEvents s =
     (case resolve (sv_db s) tenantID reference of
        Inl e \<Rightarrow> (Inl e, s)
      | Inr i \<Rightarrow>
          (let i = i\<lparr>in_webhook_url := trim_space webhookURL, in_webhook_events := join '','' events,
                     in_webhook_base64 := base64, in_webhook_by_events := byEvents\<rparr>
           in case save_instance i s of
             (Some e, s) \<Rightarrow> (Inl e, s)
           | (None, s) \<Rightarrow>
               (case handle_of token now h of
                  Inl _ \<Rightarrow> (Inr i, s)
                | Inr ops \<Rightarrow>
                    (let s = (case h of Legacy rt \<Rightarrow> sync_webhook rt token now i events s | _ \<Rightarrow> s)
                     in case in_runtime (ro_snapshot ops i) s of
                       (Inl _, s) \<Rightarrow> (Inr i, s)
                     | (Inr n, s) \<Rightarrow> applySnapshot now i (Some n) s))))"

section \<open>Advanced settings\<close>

definition with_settings ::
  "legacy_handle \<Rightarrow> string \<Rightarrow> string \<Rightarrow> (runtime_env \<Rightarrow> Instance \<Rightarrow> engine_service \<Rightarrow> (go_error + 'a) \<times> engine_service) \<Rightarrow>
   engine_service \<Rightarrow> (go_error + 'a) \<times> engine_service" where
  "with_settings h tenantID reference f s =
     (case resolve (sv_db s) tenantID reference of
        Inl e \<Rightarrow> (Inl e, s)
      | Inr i \<Rightarrow> (case need_legacy h of Inl e \<Rightarrow> (Inl e, s) | Inr rt \<Rightarrow> f rt i s))"

definition svc_get_settings ::
  "legacy_handle \<Rightarrow> string \<Rightarrow> time \<Rightarrow> string \<Rightarrow> string \<Rightarrow> engine_service \<Rightarrow> (go_error + AdvancedSettings) \<times> engine_service" where
  "svc_get_settings h token now tenantID reference =
     with_settings h tenantID reference (\<lambda>rt i. in_runtime (rt_GetAdvancedSettings rt token now i))"

definition svc_update_settings ::
  "legacy_handle \<Rightarrow> string \<Rightarrow> time \<Rightarrow> string \<Rightarrow> string \<Rightarrow> AdvancedSettings \<Rightarrow> engine_service \<Rightarrow>
   (go_error + AdvancedSettings) \<times> engine_service" where
  "svc_update_settings h token now tenantID reference settings =
     with_settings h tenantID reference (\<lambda>rt i s.
       case in_runtime (rt_UpdateAdvancedSettings rt token now i settings) s of
         (Inl e, s) \<Rightarrow> (Inl e, s)
       | (Inr n, s) \<Rightarrow>
           (case applySnapshot now i (Some n) s of
              (Inl e, s) \<Rightarrow> (Inl e, s)
            | (Inr i, s) \<Rightarrow> in_runtime (rt_GetAdvancedSettings rt token now i) s))"

definition no_settings :: AdvancedSettings where
  "no_settings = \<lparr>as_always_online = False, as_reject_call = False, as_msg_reject_call = [], as_read_messages = False,
     as_ignore_groups = False, as_ignore_status = False\<rparr>"

text \<open>The flag says whether the runtime was there.\<close>

definition SetAlwaysOnlineCompat ::
  "legacy_handle \<Rightarrow> string \<Rightarrow> time \<Rightarrow> string \<Rightarrow> string \<Rightarrow> bool \<Rightarrow> engine_service \<Rightarrow>
   (go_error + AdvancedSettings \<times> bool) \<times> engine_service" where
  "SetAlwaysOnlineCompat h token now tenantID reference alwaysOnline s =
     (case resolve (sv_db s) tenantID reference of
        Inl e \<Rightarrow> (Inl e, s)
      | Inr i \<Rightarrow>
          (case h of
             Legacy rt \<Rightarrow>
               (case in_runtime (rt_GetAdvancedSettings rt token now i) s of
                  (r, s) \<Rightarrow>
                    (let settings = (case r of Inl _ \<Rightarrow> no_settings | Inr a \<Rightarrow> a)\<lparr>as_always_online := alwaysOnline\<rparr> in
                     case svc_update_settings h token now tenantID reference settings s of
                       (Inl e, s) \<Rightarrow> (Inl e, s)
                     | (Inr a, s) \<Rightarrow> (Inr (a, True), s)))
           | _ \<Rightarrow> (Inr (no_settings\<lparr>as_always_online := alwaysOnline\<rparr>, False), s)))"

section \<open>Event connectors\<close>

record EventConnectorConfig =
  cc_id :: string
  cc_enabled :: bool
  cc_events :: "string list"

definition get_connector ::
  "(EngineInstance \<Rightarrow> string) \<Rightarrow> legacy_handle \<Rightarrow> string \<Rightarrow> time \<Rightarrow> string \<Rightarrow> string \<Rightarrow> engine_service \<Rightarrow>
   (go_error + EventConnectorConfig) \<times> engine_service" where
  "get_connector column h token now tenantID reference s =
     (case resolveLegacyInstance h token now tenantID reference s of
        (Inl e, s) \<Rightarrow> (Inl e, s)
      | (Inr (_, _, x), s) \<Rightarrow>
          (Inr \<lparr>cc_id = [], cc_enabled = normalizedConnectorEnabled (column x), cc_events = parseLegacyEvents (ei_events x)\<rparr>, s))"

definition set_connector ::
  "(string \<Rightarrow> EngineInstance \<Rightarrow> EngineInstance) \<Rightarrow> legacy_handle \<Rightarrow> string \<Rightarrow> time \<Rightarrow> string \<Rightarrow> string \<Rightarrow> EventConnectorConfig \<Rightarrow>
   engine_service \<Rightarrow> (go_error + EventConnectorConfig) \<times> engine_service" where
  "set_connector assign h token now tenantID reference input s =
     (case resolveLegacyInstance h token now tenantID reference s of
        (Inl e, s) \<Rightarrow> (Inl e, s)
      | (Inr (i, rt, x), s) \<Rightarrow>
          (case normalizeRequestedEvents (cc_events input) (ei_events x) (cc_enabled input) of
             Inl e \<Rightarrow> (Inl e, s)
           | Inr events \<Rightarrow>
               (case update_row ((assign (connectorState (cc_enabled input)) x)\<lparr>ei_events := join '','' events\<rparr>) s of
                  (Some e, s) \<Rightarrow> (Inl e, s)
                | (None, s) \<Rightarrow>
                    (Inr \<lparr>cc_id = [], cc_enabled = cc_enabled input, cc_events = events\<rparr>, syncLegacyInstanceSettings rt i s))))"

definition GetWebsocketConfig ::
  "legacy_handle \<Rightarrow> string \<Rightarrow> time \<Rightarrow> string \<Rightarrow> string \<Rightarrow> engine_service \<Rightarrow> (go_error + EventConnectorConfig) \<times> engine_service" where
  "GetWebsocketConfig = get_connector ei_websocket_enable"

definition SetWebsocketConfig ::
  "legacy_handle \<Rightarrow> string \<Rightarrow> time \<Rightarrow> string \<Rightarrow> string \<Rightarrow> EventConnectorConfig \<Rightarrow> engine_service \<Rightarrow>
   (go_error + EventConnectorConfig) \<times> engine_service" where
  "SetWebsocketConfig = set_connector (\<lambda>state x. x\<lparr>ei_websocket_enable := state\<rparr>)"

definition GetRabbitMQConfig ::
  "legacy_handle \<Rightarrow> string \<Rightarrow> time \<Rightarrow> string \<Rightarrow> string \<Rightarrow> engine_service \<Rightarrow> (go_error + EventConnectorConfig) \<times> engine_service" where
  "GetRabbitMQConfig = get_connector ei_rabbitmq_enable"

definition SetRabbitMQConfig ::
  "legacy_handle \<Rightarrow> string \<Rightarrow> time \<Rightarrow> string \<Rightarrow> string \<Rightarrow> EventConnectorConfig \<Rightarrow> engine_service \<Rightarrow>
   (go_error + EventConnectorConfig) \<times> engine_service" where
  "SetRabbitMQConfig = set_connector (\<lambda>state x. x\<lparr>ei_rabbitmq_enable := state\<rparr>)"

section \<open>The proxy of an instance\<close>

definition GetProxyConfig ::
  "legacy_handle \<Rightarrow> string \<Rightarrow> time \<Rightarrow> string \<Rightarrow> string \<Rightarrow> engine_service \<Rightarrow> (go_error + ProxyConfig) \<times> engine_service" where
  "GetProxyConfig h token now tenantID reference s =
     (case resolveLegacyInstance h token now tenantID reference s of
        (Inl e, s) \<Rightarrow> (Inl e, s)
      | (Inr (_, _, x), s) \<Rightarrow> (Inr (parseProxyConfig (ei_proxy x)), s))"

text \<open>An operation by the engine's id, or by the instance's own id when that fails.\<close>

definition by_either_id ::
  "(string \<Rightarrow> engine_state \<Rightarrow> go_error option \<times> engine_state) \<Rightarrow> Instance \<Rightarrow> engine_service \<Rightarrow>
   go_error option \<times> engine_service" where
  "by_either_id f i s =
     (case in_runtime (f (in_engine_instance_id i)) s of
        (None, s) \<Rightarrow> (None, s)
      | (Some _, s) \<Rightarrow> in_runtime (f (in_id i)) s)"

definition SetProxyConfig ::
  "legacy_handle \<Rightarrow> string \<Rightarrow> time \<Rightarrow> string \<Rightarrow> string \<Rightarrow> ProxyConfig \<Rightarrow> engine_service \<Rightarrow> (go_error + ProxyConfig) \<times> engine_service" where
  "SetProxyConfig h token now tenantID reference input s =
     (case resolveLegacyInstance h token now tenantID reference s of
        (Inl e, s) \<Rightarrow> (Inl e, s)
      | (Inr (i, rt, _), s) \<Rightarrow>
          (case normalizeProxyConfig input of
             Inl e \<Rightarrow> (Inl e, s)
           | Inr normalized \<Rightarrow>
               (case by_either_id
                   (if \<not> pc_enabled normalized then svc_RemoveProxy (rt_engine rt)
                    else (\<lambda>n. svc_SetProxyFromStruct (rt_engine rt) n
                      (Some \<lparr>px_host = pc_host normalized, px_port = pc_port normalized, px_username = pc_username normalized,
                             px_password = pc_password normalized\<rparr>))) i s of
                  (Some e, s) \<Rightarrow> (Inl e, s)
                | (None, s) \<Rightarrow> (Inr normalized, s))))"

section \<open>Marking messages as read\<close>

record MarkReadInput =
  mk_ids :: "string list"
  mk_chat_jid :: string
  mk_sender_jid :: string
  mk_played :: bool

text \<open>The runtime's \<open>MarkRead\<close> is a call of the library, the argument \<open>mark\<close>; \<open>None\<close> when the runtime has none.\<close>

definition MarkReadCompat ::
  "legacy_handle \<Rightarrow> (Instance \<Rightarrow> MarkReadInput \<Rightarrow> engine_state \<Rightarrow> go_error option \<times> engine_state) option \<Rightarrow> string \<Rightarrow> string \<Rightarrow>
   MarkReadInput \<Rightarrow> engine_service \<Rightarrow> (go_error + nat) \<times> engine_service" where
  "MarkReadCompat h mark tenantID reference input s =
     (case resolve (sv_db s) tenantID reference of
        Inl e \<Rightarrow> (Inl e, s)
      | Inr i \<Rightarrow>
          if mk_ids input = [] then (Inl (wrap ErrValidation ''at least one message id is required''), s)
          else if mk_chat_jid input = [] then (Inl (wrap ErrValidation ''remoteJid or number is required''), s)
          else case h of
            NoRuntime (Some e) \<Rightarrow> (Inl e, s)
          | NoRuntime None \<Rightarrow> (Inl (wrap ErrConflict ''runtime unavailable for markread''), s)
          | _ \<Rightarrow>
              (case mark of
                 None \<Rightarrow> (Inl (wrap ErrConflict ''legacy runtime unavailable for markread''), s)
               | Some f \<Rightarrow>
                   (case in_runtime (f i input) s of
                      (Some e, s) \<Rightarrow> (Inl e, s)
                    | (None, s) \<Rightarrow> (Inr (length (mk_ids input)), s))))"

end
