(* ===== verification/Instance_System.thy ===== *)
theory Instance_System
  imports Instance_Connectors
begin

text \<open>
  What holds of the instances of all tenants: which rows an operation of a tenant may write, which statuses they can
  have, and where the rows and the engine come apart. The locale \<open>lifecycle_runtime\<close> states what the service relies on
  of a runtime; \<open>LegacyRuntime\<close> is its instance.
\<close>

section \<open>Statuses\<close>

definition session_statuses :: "string set" where
  "session_statuses = {''open'', ''qrcode'', ''connecting'', ''close''}"

definition instance_statuses :: "string set" where
  "instance_statuses = session_statuses \<union> {''created'', ''disconnected''}"

lemma snapshot_status_cases: "snapshot_status n x \<in> session_statuses"
  by (simp add: snapshot_status_def session_statuses_def)

lemma built_status: "rs_status (buildRuntimeSnapshot x c) \<in> session_statuses"
  by (simp add: buildRuntimeSnapshot_def Let_def snapshot_status_cases split: option.split)

lemma or_connecting_status: "rs_status n \<in> session_statuses \<Longrightarrow> rs_status (or_connecting n) \<in> session_statuses"
  by (auto simp: or_connecting_def session_statuses_def)

lemma rt_Snapshot_status: "rt_Snapshot rt token now i s = (Inr n, s') \<Longrightarrow> rs_status n \<in> session_statuses"
  by (auto simp: rt_Snapshot_def built_status split: option.splits prod.splits sum.splits)

lemma with_legacy_Inr:
  assumes "with_legacy rt token now i f s = (Inr a, s')"
  obtains x t where "ensureReady rt = None" "ensureLegacyInstance rt token now i s = (Inr x, t)" "f x t = (Inr a, s')"
  using assms by (auto simp: with_legacy_def split: option.splits prod.splits sum.splits)

lemma rt_Connect_status: "rt_Connect rt token now i s = (Inr n, s') \<Longrightarrow> rs_status n \<in> session_statuses"
proof -
  assume a: "rt_Connect rt token now i s = (Inr n, s')"
  let ?rest = "\<lambda>x n s. if rs_logged_in n \<or> rs_qrcode n \<noteq> [] then (Inr n :: go_error + RuntimeSnapshot, s)
    else case svc_GetQr (rt_engine rt) (ei_id x) s of
      (Inl _, s) \<Rightarrow> (Inr n, s)
    | (Inr (qr, code), s) \<Rightarrow> (Inr (n\<lparr>rs_qrcode := qr, rs_pairing_code := code, rs_status := ''qrcode''\<rparr>), s)"
  have rest: "rs_status n \<in> session_statuses" if "?rest x m t = (Inr n, s')" "rs_status m \<in> session_statuses" for x m t
    using that by (auto split: if_splits prod.splits sum.splits simp: session_statuses_def)
  from a obtain x t y u where c: "svc_Connect (rt_engine rt) (plain_connect x) x t = (Inr y, u)"
    and b: "(case rt_Snapshot rt token now i u of (Inl e, s) \<Rightarrow> (Inl e, s) | (Inr n, s) \<Rightarrow> ?rest x (or_connecting n) s) = (Inr n, s')"
    unfolding rt_Connect_def Let_def by (elim with_legacy_Inr) (auto split: prod.splits sum.splits)
  from b obtain m v where "rt_Snapshot rt token now i u = (Inr m, v)" "?rest x (or_connecting m) v = (Inr n, s')"
    by (cases "rt_Snapshot rt token now i u"; cases "fst (rt_Snapshot rt token now i u)") auto
  then show ?thesis using rest or_connecting_status rt_Snapshot_status by blast
qed

lemma rt_Disconnect_status: "rt_Disconnect rt token now i s = (Inr n, s') \<Longrightarrow> rs_status n \<in> session_statuses"
  unfolding rt_Disconnect_def
  by (elim with_legacy_Inr) (auto split: prod.splits option.splits dest: rt_Snapshot_status)

lemma rt_Reconnect_status: "rt_Reconnect rt token now i s = (Inr n, s') \<Longrightarrow> rs_status n \<in> session_statuses"
  unfolding rt_Reconnect_def
  by (elim with_legacy_Inr) (auto split: prod.splits option.splits sum.splits dest!: rt_Snapshot_status intro: or_connecting_status)

lemma rt_Logout_status: "rt_Logout rt token now i s = (Inr n, s') \<Longrightarrow> rs_status n \<in> session_statuses"
  unfolding rt_Logout_def
  by (elim with_legacy_Inr) (auto simp: logged_out_def session_statuses_def split: prod.splits option.splits sum.splits)

lemma paired_status: "rs_status (or_connecting ((buildRuntimeSnapshot x c)\<lparr>rs_pairing_code := code\<rparr>)) \<in> session_statuses"
  by (rule or_connecting_status) (simp add: built_status)

lemma rt_Pair_status: "rt_Pair rt token now i phone s = (Inr n, s') \<Longrightarrow> rs_status n \<in> session_statuses"
  unfolding rt_Pair_def Let_def
  by (elim with_legacy_Inr) (auto split: if_splits prod.splits sum.splits option.splits simp: paired_status)

lemma rt_QRCode_status: "rt_QRCode rt token now i s = (Inr n, s') \<Longrightarrow> rs_status n \<in> session_statuses"
  unfolding rt_QRCode_def Let_def
  by (elim with_legacy_Inr)
     (auto split: if_splits prod.splits sum.splits simp: built_status, auto simp: session_statuses_def)

section \<open>The contract of a runtime\<close>

locale lifecycle_runtime =
  fixes ops :: "'s runtime_ops"
  assumes connect_status: "ro_connect ops i u = (Inr n, u') \<Longrightarrow> rs_status n \<in> session_statuses"
    and disconnect_status: "ro_disconnect ops i u = (Inr n, u') \<Longrightarrow> rs_status n \<in> session_statuses"
    and reconnect_status: "ro_reconnect ops i u = (Inr n, u') \<Longrightarrow> rs_status n \<in> session_statuses"
    and logout_status: "ro_logout ops i u = (Inr n, u') \<Longrightarrow> rs_status n \<in> session_statuses"
    and pair_status: "ro_pair ops i phone u = (Inr n, u') \<Longrightarrow> rs_status n \<in> session_statuses"
    and snapshot_status: "ro_snapshot ops i u = (Inr n, u') \<Longrightarrow> rs_status n \<in> session_statuses"
    and qrcode_status: "ro_qrcode ops i u = (Inr n, u') \<Longrightarrow> rs_status n \<in> session_statuses"

interpretation legacy_lifecycle: lifecycle_runtime "legacy_ops rt token now" for rt token now
  by unfold_locales
     (auto simp: legacy_ops_def dest: rt_Connect_status rt_Disconnect_status rt_Reconnect_status rt_Logout_status
        rt_Pair_status rt_Snapshot_status rt_QRCode_status)

section \<open>One row\<close>

text \<open>Nothing but the row of an instance is written, and that keeps its id and tenant and gets a known status.\<close>

definition same_instance :: "Instance \<Rightarrow> Instance \<Rightarrow> bool" where
  "same_instance i j \<longleftrightarrow> in_id j = in_id i \<and> in_tenant_id j = in_tenant_id i \<and> in_name j = in_name i \<and>
     (in_status j \<in> instance_statuses \<or> in_status j = in_status i)"

definition only_row :: "Instance \<Rightarrow> auth_db \<Rightarrow> auth_db \<Rightarrow> bool" where
  "only_row i db db' \<longleftrightarrow> ad_instances db' = ad_instances db \<or>
     (\<exists>j. same_instance i j \<and> ad_instances db' = map (\<lambda>x. if in_id x = in_id i then j else x) (ad_instances db))"

lemma only_row_refl [simp]: "only_row i db db" by (simp add: only_row_def)

lemma same_instance_refl [simp]: "same_instance i i" by (simp add: same_instance_def)

lemma same_instance_trans: "same_instance i j \<Longrightarrow> same_instance j k \<Longrightarrow> same_instance i k"
  by (auto simp: same_instance_def)

lemma only_row_trans:
  assumes "only_row i db db1" and "same_instance i j" and "only_row j db1 db2"
  shows "only_row i db db2"
proof -
  from assms(3) consider "ad_instances db2 = ad_instances db1"
    | k where "same_instance i k" "ad_instances db2 = map (\<lambda>x. if in_id x = in_id i then k else x) (ad_instances db1)"
    using same_instance_trans [OF assms(2)] assms(2) by (auto simp: only_row_def same_instance_def [of i j])
  then show ?thesis
  proof cases
    case 1
    then show ?thesis using assms(1) by (simp add: only_row_def)
  next
    case (2 k)
    have "map (\<lambda>x. if in_id x = in_id i then k else x) (map (\<lambda>x. if in_id x = in_id i then m else x) xs) =
        map (\<lambda>x. if in_id x = in_id i then k else x) xs" if "in_id m = in_id i" for m xs
      using that by (induction xs) auto
    then have "ad_instances db2 = map (\<lambda>x. if in_id x = in_id i then k else x) (ad_instances db)"
      using 2(2) assms(1) by (auto simp: only_row_def same_instance_def simp del: map_map)
    then show ?thesis using 2(1) by (auto simp: only_row_def)
  qed
qed

definition has_row :: "Instance \<Rightarrow> auth_db \<Rightarrow> bool" where
  "has_row i db \<longleftrightarrow> in_id i \<in> in_id ` set (ad_instances db)"

lemma has_row_only: "has_row i db \<Longrightarrow> only_row i db db' \<Longrightarrow> has_row i db'"
  unfolding only_row_def
proof (elim disjE exE conjE)
  fix j assume h: "has_row i db" and j: "same_instance i j"
    and m: "ad_instances db' = map (\<lambda>x. if in_id x = in_id i then j else x) (ad_instances db)"
  then obtain x where "x \<in> set (ad_instances db)" "in_id x = in_id i" by (auto simp: has_row_def)
  then have "j \<in> set (ad_instances db')" unfolding m by force
  moreover have "in_id j = in_id i" using j by (simp add: same_instance_def)
  ultimately show "has_row i db'" unfolding has_row_def by (metis image_eqI)
qed (simp add: has_row_def)

lemma save_instance_only:
  assumes "has_row i (sv_db s)" and "same_instance i j"
  shows "only_row i (sv_db s) (sv_db (snd (save_instance j s)))"
proof -
  have "\<exists>x \<in> set (ad_instances (sv_db s)). in_id x = in_id j" using assms by (auto simp: has_row_def same_instance_def)
  then have "ad_instances (snd (instance_Update j (sv_db s))) \<in>
      {ad_instances (sv_db s), map (\<lambda>x. if in_id x = in_id j then j else x) (ad_instances (sv_db s))}"
    by (simp add: instance_Update_def split: option.split)
  moreover have "in_id j = in_id i" using assms(2) by (simp add: same_instance_def)
  ultimately show ?thesis using assms(2) by (auto simp: save_instance_def only_row_def split: prod.split)
qed

lemma observe_db [simp]: "sv_db (observe i n e f g t s) = sv_db s" by (simp add: observe_def)
lemma in_runtime_db [simp]: "sv_db (snd (in_runtime f s)) = sv_db s" by (simp add: in_runtime_def split: prod.split)

lemma in_runtime_eq: "in_runtime f s = (r, s') \<Longrightarrow> sv_db s' = sv_db s \<and> f (sv_runtime s) = (r, sv_runtime s')"
  by (auto simp: in_runtime_def split: prod.splits)

lemma trim_session_status: "st \<in> session_statuses \<Longrightarrow> trim_space st = st \<and> st \<noteq> []"
proof -
  have "trim_space ''open'' = ''open''" "trim_space ''qrcode'' = ''qrcode''" "trim_space ''connecting'' = ''connecting''"
    "trim_space ''close'' = ''close''" by code_simp+
  then show "st \<in> session_statuses \<Longrightarrow> trim_space st = st \<and> st \<noteq> []" by (auto simp: session_statuses_def)
qed

lemma session_instance_status: "st \<in> session_statuses \<Longrightarrow> st \<in> instance_statuses"
  by (simp add: instance_statuses_def)

lemma applySnapshot_only:
  assumes "applySnapshot now i (Some n) s = (r, s')" and "rs_status n \<in> session_statuses" and "has_row i (sv_db s)"
  shows "only_row i (sv_db s) (sv_db s') \<and> (\<forall>j. r = Inr j \<longrightarrow> same_instance i j)"
proof -
  have st: "trim_space (rs_status n) = rs_status n" "rs_status n \<noteq> []" using trim_session_status [OF assms(2)] by auto
  let ?j = "i\<lparr>in_status := rs_status n\<rparr>"
  have j: "same_instance i ?j" using assms(2) by (simp add: same_instance_def session_instance_status)
  obtain e u where u: "save_instance ?j s = (e, u)" by (rule prod.exhaust)
  have "only_row i (sv_db s) (sv_db u)" using save_instance_only [OF assms(3) j] u by simp
  then show ?thesis using assms(1) u st j
    by (cases e) (auto simp: applySnapshot_def Let_def split: if_splits)
qed

lemma applySnapshot_db:
  "rs_status n \<in> session_statuses \<Longrightarrow> has_row i (sv_db s) \<Longrightarrow>
     only_row i (sv_db s) (sv_db (snd (applySnapshot now i (Some n) s)))"
  using applySnapshot_only [of now i n s "fst (applySnapshot now i (Some n) s)" "snd (applySnapshot now i (Some n) s)"] by simp

lemma answered_db:
  "(\<And>j u. sv_db (h j u) = sv_db u) \<Longrightarrow>
     sv_db (snd (case p of (Inl e, s) \<Rightarrow> (Inl e, s) | (Inr j, s) \<Rightarrow> (Inr (g j), h j s))) = sv_db (snd p)"
  by (cases p; cases "fst p") auto

text \<open>What one runtime answer leads to, for every way the service uses one.\<close>

lemma change_status_only:
  assumes "has_row i (sv_db s)" and "local \<in> instance_statuses"
    and "\<And>ops u n u'. rt = Inr ops \<Longrightarrow> act ops i u = (Inr n, u') \<Longrightarrow> rs_status n \<in> session_statuses"
  shows "only_row i (sv_db s) (sv_db (snd (change_status act local eventType message rt clock i s)))"
proof (cases rt)
  case (Inl e)
  have "same_instance i (i\<lparr>in_status := local\<rparr>)" using assms(2) by (simp add: same_instance_def)
  from save_instance_only [OF assms(1) this] Inl show ?thesis
    by (auto simp: change_status_def split: prod.splits option.splits)
next
  case rt: (Inr ops)
  obtain r u where a: "in_runtime (act ops i) s = (r, u)" by (rule prod.exhaust)
  note e = in_runtime_eq [OF a]
  show ?thesis
  proof (cases r)
    case (Inr n)
    then have "rs_status n \<in> session_statuses" using assms(3) [OF rt] e by blast
    from applySnapshot_db [OF this, of i "observe i (Some n) eventType ''api'' message (clock 0) u" "clock 1"] e assms(1) Inr
    show ?thesis by (simp add: change_status_def a rt)
  qed (use a e rt in \<open>simp add: change_status_def\<close>)
qed

lemma lifecycle_found_only:
  assumes "has_row i (sv_db s)"
    and "\<And>ops u n u'. rt = Inr ops \<Longrightarrow> act ops i u = (Inr n, u') \<Longrightarrow> rs_status n \<in> session_statuses"
  shows "only_row i (sv_db s) (sv_db (snd (lifecycle_found act action eventType message rt clock i s)))"
proof (cases rt)
  case rt: (Inr ops)
  obtain r u where a: "in_runtime (act ops i) s = (r, u)" by (rule prod.exhaust)
  note e = in_runtime_eq [OF a]
  show ?thesis
  proof (cases r)
    case (Inr n)
    then have "rs_status n \<in> session_statuses" using assms(2) [OF rt] e by blast
    from applySnapshot_db [OF this, of i "observe i (Some n) eventType ''api'' message (clock 0) u" "clock 1"] e assms(1) Inr
    show ?thesis by (simp add: lifecycle_found_def a rt answered_db)
  qed (use a e rt in \<open>simp add: lifecycle_found_def\<close>)
qed (simp add: lifecycle_found_def)

context lifecycle_runtime
begin

lemma status_found_only:
  assumes "has_row i (sv_db s)"
  shows "only_row i (sv_db s) (sv_db (snd (status_found (Inr ops) clock i s)))"
proof -
  obtain r u where a: "in_runtime (ro_snapshot ops i) s = (r, u)" by (rule prod.exhaust)
  note e = in_runtime_eq [OF a]
  show ?thesis
  proof (cases r)
    case (Inr n)
    then have "rs_status n \<in> session_statuses" using snapshot_status e by blast
    from applySnapshot_db [OF this, of i "observe i (Some n) ''status_observed'' ''runtime_snapshot'' ''live runtime status observed'' (clock 0) u" "clock 1"] e assms Inr
    show ?thesis by (simp add: status_found_def a)
  qed (simp add: status_found_def a e)
qed

lemma qrcode_found_only:
  assumes "has_row i (sv_db s)"
  shows "only_row i (sv_db s) (sv_db (snd (qrcode_found (Inr ops) clock i s)))"
proof -
  obtain r u where a: "in_runtime (ro_qrcode ops i) s = (r, u)" by (rule prod.exhaust)
  note e = in_runtime_eq [OF a]
  show ?thesis
  proof (cases r)
    case (Inr n)
    then have "rs_status n \<in> session_statuses" using qrcode_status e by blast
    from applySnapshot_db [OF this, of i u "clock 0"] e assms Inr show ?thesis
      by (simp add: qrcode_found_def a answered_db)
  qed (simp add: qrcode_found_def a e)
qed

lemma pair_found_only:
  assumes "has_row i (sv_db s)"
  shows "only_row i (sv_db s) (sv_db (snd (pair_found (Inr ops) clock phone i s)))"
proof -
  obtain r u where a: "in_runtime (ro_pair ops i (trim_space phone)) s = (r, u)" by (rule prod.exhaust)
  note e = in_runtime_eq [OF a]
  show ?thesis
  proof (cases r)
    case (Inr n)
    then have "rs_status n \<in> session_statuses" using pair_status e by blast
    from applySnapshot_db [OF this, of i u "clock 0"] e assms Inr show ?thesis
      by (simp add: pair_found_def a answered_db)
  qed (simp add: pair_found_def a e)
qed

lemma lifecycle_only:
  assumes "has_row i (sv_db s)"
  shows "only_row i (sv_db s) (sv_db (snd (connect_found (Inr ops) clock i s)))"
    and "only_row i (sv_db s) (sv_db (snd (disconnect_found (Inr ops) clock i s)))"
    and "only_row i (sv_db s) (sv_db (snd (reconnect_found (Inr ops) clock i s)))"
    and "only_row i (sv_db s) (sv_db (snd (logout_found (Inr ops) clock i s)))"
  unfolding connect_found_def disconnect_found_def reconnect_found_def logout_found_def
  by (auto intro!: change_status_only lifecycle_found_only assms
      dest: connect_status disconnect_status reconnect_status logout_status simp: instance_statuses_def session_statuses_def)

end

text \<open>Without a runtime the operations work on the table alone or not at all.\<close>

lemma local_only:
  assumes "has_row i (sv_db s)"
  shows "only_row i (sv_db s) (sv_db (snd (connect_found (Inl e) clock i s)))"
    and "only_row i (sv_db s) (sv_db (snd (disconnect_found (Inl e) clock i s)))"
    and "only_row i (sv_db s) (sv_db (snd (reconnect_found (Inl e) clock i s)))"
    and "only_row i (sv_db s) (sv_db (snd (logout_found (Inl e) clock i s)))"
    and "only_row i (sv_db s) (sv_db (snd (status_found (Inl e) clock i s)))"
    and "only_row i (sv_db s) (sv_db (snd (qrcode_found (Inl e) clock i s)))"
    and "only_row i (sv_db s) (sv_db (snd (pair_found (Inl e) clock phone i s)))"
  unfolding connect_found_def disconnect_found_def reconnect_found_def logout_found_def
  by (auto intro!: change_status_only lifecycle_found_only assms
      simp: instance_statuses_def session_statuses_def status_found_def qrcode_found_def pair_found_def)

definition served :: "legacy_handle \<Rightarrow> bool" where
  "served h = (case h of OtherRuntime _ \<Rightarrow> False | _ \<Rightarrow> True)"

lemma served_only:
  assumes "served h" and "has_row i (sv_db s)"
  shows "only_row i (sv_db s) (sv_db (snd (connect_found (handle_of token now h) clock i s)))"
    and "only_row i (sv_db s) (sv_db (snd (disconnect_found (handle_of token now h) clock i s)))"
    and "only_row i (sv_db s) (sv_db (snd (reconnect_found (handle_of token now h) clock i s)))"
    and "only_row i (sv_db s) (sv_db (snd (logout_found (handle_of token now h) clock i s)))"
    and "only_row i (sv_db s) (sv_db (snd (status_found (handle_of token now h) clock i s)))"
    and "only_row i (sv_db s) (sv_db (snd (qrcode_found (handle_of token now h) clock i s)))"
    and "only_row i (sv_db s) (sv_db (snd (pair_found (handle_of token now h) clock phone i s)))"
  using assms(1)
  by (cases h; simp add: handle_of_def served_def local_only [OF assms(2)] legacy_lifecycle.lifecycle_only [OF assms(2)]
      legacy_lifecycle.status_found_only [OF assms(2)] legacy_lifecycle.qrcode_found_only [OF assms(2)]
      legacy_lifecycle.pair_found_only [OF assms(2)])+

lemma tryRuntimeSnapshot_db: "sv_db (snd (tryRuntimeSnapshot rt i s)) = sv_db s"
  by (auto simp: tryRuntimeSnapshot_def in_runtime_def split: sum.split prod.split)

lemma runtime_status_db:
  assumes "\<And>u. sv_db (meanwhile u) = sv_db u"
  shows "sv_db (snd (runtime_status_found rt clock meanwhile i s)) = sv_db s"
proof -
  obtain n u where t: "tryRuntimeSnapshot rt i s = (n, u)" by (rule prod.exhaust)
  then have "sv_db u = sv_db s" using tryRuntimeSnapshot_db [of rt i s] by simp
  then show ?thesis by (simp add: runtime_status_found_def t assms Let_def split: sum.split option.split)
qed

lemma backfill_db: "sv_db (snd (backfillHistoryForInstance rt clock cancelled found input s)) = sv_db s"
proof -
  have "sv_db (snd (tryRuntimeSnapshot rt i u)) = sv_db u" for i and u :: "'a service" by (rule tryRuntimeSnapshot_db)
  then show ?thesis
    by (auto simp: backfillHistoryForInstance_def case_prod_beta split: option.split sum.split)
qed

lemma syncLegacyInstanceSettings_db [simp]: "sv_db (syncLegacyInstanceSettings rt i s) = sv_db s"
  by (auto simp: syncLegacyInstanceSettings_def in_runtime_def split: prod.split option.split)

lemma update_row_db [simp]: "sv_db (snd (update_row x s)) = sv_db s"
  by (simp add: update_row_def)

lemma sync_webhook_db [simp]: "sv_db (sync_webhook rt token now i events s) = sv_db s"
proof -
  obtain r u where r: "in_runtime (ensureLegacyInstance rt token now i) s = (r, u)" by (rule prod.exhaust)
  then show ?thesis using in_runtime_eq [OF r] by (simp add: sync_webhook_def split: sum.split prod.split)
qed

lemma resolveLegacyInstance_db: "sv_db (snd (resolveLegacyInstance h token now tenantID reference s)) = sv_db s"
  by (auto simp: resolveLegacyInstance_def in_runtime_def split: sum.split prod.split)

lemma resolveLegacyInstance_eq:
  "resolveLegacyInstance h token now tenantID reference s = (r, u) \<Longrightarrow> sv_db u = sv_db s"
  using resolveLegacyInstance_db [of h token now tenantID reference s] by simp

lemma get_connector_db: "sv_db (snd (get_connector column h token now tenantID reference s)) = sv_db s"
  by (auto simp: get_connector_def split: prod.split sum.split dest: resolveLegacyInstance_eq)

lemma set_connector_db: "sv_db (snd (set_connector assign h token now tenantID reference input s)) = sv_db s"
proof -
  obtain r u where r: "resolveLegacyInstance h token now tenantID reference s = (r, u)" by (rule prod.exhaust)
  have "sv_db v = sv_db w" if "update_row x w = (q, v)" for x q v and w :: engine_service
    using update_row_db [of x w] that by simp
  then show ?thesis using resolveLegacyInstance_eq [OF r]
    by (auto simp: set_connector_def r split: sum.split prod.split option.split)
qed

lemma GetProxyConfig_db: "sv_db (snd (GetProxyConfig h token now tenantID reference s)) = sv_db s"
  by (auto simp: GetProxyConfig_def split: prod.split sum.split dest: resolveLegacyInstance_eq)

lemma by_either_id_db [simp]: "sv_db (snd (by_either_id f i s)) = sv_db s"
  by (auto simp: by_either_id_def in_runtime_def split: prod.split option.split)

lemma SetProxyConfig_db: "sv_db (snd (SetProxyConfig h token now tenantID reference input s)) = sv_db s"
proof -
  obtain r u where r: "resolveLegacyInstance h token now tenantID reference s = (r, u)" by (rule prod.exhaust)
  have "sv_db v = sv_db w" if "by_either_id f i w = (q, v)" for f i q v and w :: engine_service
    using by_either_id_db [of f i w] that by simp
  then show ?thesis using resolveLegacyInstance_eq [OF r]
    by (auto simp: SetProxyConfig_def r split: sum.split prod.split option.split)
qed

lemma svc_get_settings_db: "sv_db (snd (svc_get_settings h token now tenantID reference s)) = sv_db s"
  by (simp add: svc_get_settings_def with_settings_def split: sum.split)

lemma rt_UpdateAdvancedSettings_status:
  "rt_UpdateAdvancedSettings rt token now i settings s = (Inr n, s') \<Longrightarrow> rs_status n \<in> session_statuses"
  by (auto simp: rt_UpdateAdvancedSettings_def split: prod.splits sum.splits option.splits dest: rt_Snapshot_status)

section \<open>What a tenant can write\<close>

definition tenant_write :: "string \<Rightarrow> auth_db \<Rightarrow> auth_db \<Rightarrow> bool" where
  "tenant_write tenantID db db' \<longleftrightarrow>
     filter (\<lambda>x. in_tenant_id x \<noteq> tenantID) (ad_instances db') = filter (\<lambda>x. in_tenant_id x \<noteq> tenantID) (ad_instances db) \<and>
     distinct (map in_id (ad_instances db')) \<and>
     (\<forall>x \<in> set (ad_instances db'). in_status x \<in> instance_statuses \<or> in_status x \<in> in_status ` set (ad_instances db))"

lemma tenant_write_same: "distinct (map in_id (ad_instances db)) \<Longrightarrow> ad_instances db' = ad_instances db \<Longrightarrow> tenant_write t db db'"
  by (simp add: tenant_write_def)

lemma filter_replaced:
  assumes "\<And>x. x \<in> set xs \<Longrightarrow> in_id x = k \<Longrightarrow> in_tenant_id x = t" and "in_tenant_id j = t"
  shows "filter (\<lambda>x. in_tenant_id x \<noteq> t) (map (\<lambda>x. if in_id x = k then j else x) xs) = filter (\<lambda>x. in_tenant_id x \<noteq> t) xs"
  using assms(1) by (induction xs) (auto simp: assms(2))

lemma ids_replaced: "in_id j = k \<Longrightarrow> map in_id (map (\<lambda>x. if in_id x = k then j else x) xs) = map in_id xs"
  by (induction xs) auto

lemma only_row_write:
  assumes "only_row i db db'" and "i \<in> set (ad_instances db)" and "in_tenant_id i = t" and "distinct (map in_id (ad_instances db))"
  shows "tenant_write t db db'"
  using assms(1) unfolding only_row_def
proof (elim disjE exE conjE)
  fix j assume j: "same_instance i j" and m: "ad_instances db' = map (\<lambda>x. if in_id x = in_id i then j else x) (ad_instances db)"
  have own: "in_tenant_id x = t" if "x \<in> set (ad_instances db)" "in_id x = in_id i" for x
    using assms(2-4) that by (metis distinct_map inj_onD)
  have jt: "in_tenant_id j = t" "in_id j = in_id i" using j assms(3) by (simp_all add: same_instance_def)
  have "in_status x \<in> instance_statuses \<or> in_status x \<in> in_status ` set (ad_instances db)" if "x \<in> set (ad_instances db')" for x
  proof -
    have "x = j \<or> x \<in> set (ad_instances db)" using that unfolding m by auto
    then show ?thesis using j assms(2) by (auto simp: same_instance_def)
  qed
  then show ?thesis unfolding tenant_write_def
    using filter_replaced [OF own jt(1)] ids_replaced [OF jt(2)] assms(4) by (simp add: m del: map_map)
qed (use assms(4) in \<open>simp add: tenant_write_same\<close>)

lemma svc_get_row: "svc_get t n s = Inr i \<Longrightarrow> i \<in> set (ad_instances (sv_db s)) \<and> in_tenant_id i = t"
  by (auto simp: svc_get_def instance_GetByID_def split: sum.splits dest!: gorm_first_Inr)

lemma resolve_row: "resolve db t ref = Inr i \<Longrightarrow> i \<in> set (ad_instances db) \<and> in_tenant_id i = t"
  by (auto dest: resolve_sound)

text \<open>An operation that finds an instance and then writes its row only.\<close>

lemma found_write:
  assumes "distinct (map in_id (ad_instances (sv_db s)))"
    and "\<And>i. has_row i (sv_db s) \<Longrightarrow> only_row i (sv_db s) (sv_db (snd (f i s)))"
  shows "tenant_write t (sv_db s) (sv_db (snd (case resolve (sv_db s) t ref of Inl e \<Rightarrow> (Inl e, s) | Inr i \<Rightarrow> f i s)))"
    and "tenant_write t (sv_db s) (sv_db (snd (case svc_get t ref s of Inl e \<Rightarrow> (Inl e, s) | Inr i \<Rightarrow> f i s)))"
proof -
  have row: "tenant_write t (sv_db s) (sv_db (snd (f i s)))" if "i \<in> set (ad_instances (sv_db s))" "in_tenant_id i = t" for i
    by (rule only_row_write [OF assms(2) that assms(1)]) (use that in \<open>auto simp: has_row_def\<close>)
  show "tenant_write t (sv_db s) (sv_db (snd (case resolve (sv_db s) t ref of Inl e \<Rightarrow> (Inl e, s) | Inr i \<Rightarrow> f i s)))"
    using row resolve_row tenant_write_same [OF assms(1)] by (auto split: sum.split)
  show "tenant_write t (sv_db s) (sv_db (snd (case svc_get t ref s of Inl e \<Rightarrow> (Inl e, s) | Inr i \<Rightarrow> f i s)))"
  proof (cases "svc_get t ref s")
    case (Inr i)
    then show ?thesis using svc_get_row [OF Inr] row by simp
  qed (simp add: tenant_write_same assms(1))
qed

lemma set_webhook_only:
  assumes "served h" and "has_row i (sv_db s)"
  shows "only_row i (sv_db s) (sv_db (snd (
    let i = i\<lparr>in_webhook_url := a, in_webhook_events := b, in_webhook_base64 := c, in_webhook_by_events := d\<rparr>
    in case save_instance i s of
      (Some e, s) \<Rightarrow> (Inl e, s)
    | (None, s) \<Rightarrow>
        (case handle_of token now h of
           Inl _ \<Rightarrow> (Inr i, s)
         | Inr ops \<Rightarrow>
             (let s = (case h of Legacy rt \<Rightarrow> sync_webhook rt token now i events s | _ \<Rightarrow> s)
              in case in_runtime (ro_snapshot ops i) s of
                (Inl _, s) \<Rightarrow> (Inr i, s)
              | (Inr n, s) \<Rightarrow> applySnapshot now i (Some n) s)))))"
proof -
  let ?i = "i\<lparr>in_webhook_url := a, in_webhook_events := b, in_webhook_base64 := c, in_webhook_by_events := d\<rparr>"
  have same: "same_instance i ?i" by (simp add: same_instance_def)
  obtain e u where u: "save_instance ?i s = (e, u)" by (rule prod.exhaust)
  then have first: "only_row i (sv_db s) (sv_db u)" using save_instance_only [OF assms(2) same] by simp
  have row: "has_row ?i (sv_db u)" using has_row_only [OF assms(2) first] by (simp add: has_row_def)
  show ?thesis
  proof (cases e)
    case (Some x)
    then show ?thesis using u first by (simp add: Let_def)
  next
    case None
    show ?thesis
    proof (cases h)
      case (NoRuntime x)
      then show ?thesis using u None first by (simp add: Let_def handle_of_def)
    next
      case (OtherRuntime ops)
      then show ?thesis using assms(1) by (simp add: served_def)
    next
      case (Legacy rt)
      let ?v = "sync_webhook rt token now ?i events u"
      obtain r w where w: "in_runtime (ro_snapshot (legacy_ops rt token now) ?i) ?v = (r, w)" by (rule prod.exhaust)
      note eq = in_runtime_eq [OF w]
      show ?thesis
      proof (cases r)
        case (Inl x)
        then show ?thesis using u None first eq w Legacy by (simp add: Let_def handle_of_def)
      next
        case (Inr n)
        then have "rs_status n \<in> session_statuses" using eq legacy_lifecycle.snapshot_status by blast
        from applySnapshot_db [OF this, of ?i w now] row eq
        have "only_row ?i (sv_db u) (sv_db (snd (applySnapshot now ?i (Some n) w)))" by simp
        from only_row_trans [OF first same this] show ?thesis
          using u None w Legacy Inr by (simp add: Let_def handle_of_def)
      qed
    qed
  qed
qed

lemma answered_in_runtime:
  "sv_db (snd (case p of (Inl e, s) \<Rightarrow> (Inl e, s) | (Inr i, s) \<Rightarrow> in_runtime (f i) s)) = sv_db (snd p)"
  by (cases p; cases "fst p") auto

lemma update_settings_only:
  assumes "has_row i (sv_db s)"
  shows "only_row i (sv_db s) (sv_db (snd (
    case in_runtime (rt_UpdateAdvancedSettings rt token now i settings) s of
      (Inl e, s) \<Rightarrow> (Inl e, s)
    | (Inr n, s) \<Rightarrow>
        (case applySnapshot now i (Some n) s of
           (Inl e, s) \<Rightarrow> (Inl e, s)
         | (Inr i, s) \<Rightarrow> in_runtime (rt_GetAdvancedSettings rt token now i) s))))"
proof -
  obtain r u where a: "in_runtime (rt_UpdateAdvancedSettings rt token now i settings) s = (r, u)" by (rule prod.exhaust)
  note e = in_runtime_eq [OF a]
  show ?thesis
  proof (cases r)
    case (Inr n)
    then have "rs_status n \<in> session_statuses" using e rt_UpdateAdvancedSettings_status by blast
    from applySnapshot_db [OF this, of i u now] e assms
    have o: "only_row i (sv_db s) (sv_db (snd (applySnapshot now i (Some n) u)))" by simp
    then show ?thesis by (simp add: a Inr answered_in_runtime)
  qed (simp add: a e)
qed

text \<open>The operations of the API of instances, called for a tenant.\<close>

inductive tenant_step :: "legacy_handle \<Rightarrow> string \<Rightarrow> engine_service \<Rightarrow> engine_service \<Rightarrow> bool" for h t where
  created: "tenant_step h t s (snd (svc_create (handle_of token now h) newID now' t input s))"
| deleted: "tenant_step h t s (snd (svc_delete t n s))"
| connected: "tenant_step h t s (snd (svc_connect (handle_of token now h) clock t ref s))"
| connected_by_id: "tenant_step h t s (snd (svc_connect_by_id (handle_of token now h) clock t n s))"
| disconnected: "tenant_step h t s (snd (svc_disconnect (handle_of token now h) clock t ref s))"
| disconnected_by_id: "tenant_step h t s (snd (svc_disconnect_by_id (handle_of token now h) clock t n s))"
| reconnected: "tenant_step h t s (snd (svc_reconnect (handle_of token now h) clock t ref s))"
| reconnected_by_id: "tenant_step h t s (snd (svc_reconnect_by_id (handle_of token now h) clock t n s))"
| logged_out: "tenant_step h t s (snd (svc_logout (handle_of token now h) clock t ref s))"
| logged_out_by_id: "tenant_step h t s (snd (svc_logout_by_id (handle_of token now h) clock t n s))"
| status: "tenant_step h t s (snd (svc_status (handle_of token now h) clock t ref s))"
| status_by_id: "tenant_step h t s (snd (svc_status_by_id (handle_of token now h) clock t n s))"
| qrcode: "tenant_step h t s (snd (svc_qrcode (handle_of token now h) clock t ref s))"
| qrcode_by_id: "tenant_step h t s (snd (svc_qrcode_by_id (handle_of token now h) clock t n s))"
| paired: "tenant_step h t s (snd (svc_pair (handle_of token now h) clock t ref phone s))"
| paired_by_id: "tenant_step h t s (snd (svc_pair_by_id (handle_of token now h) clock t n phone s))"
| runtime_status: "(\<And>u. sv_db (meanwhile u) = sv_db u) \<Longrightarrow>
    tenant_step h t s (snd (svc_runtime_status (handle_of token now h) clock meanwhile t ref s))"
| runtime_status_by_id: "(\<And>u. sv_db (meanwhile u) = sv_db u) \<Longrightarrow>
    tenant_step h t s (snd (svc_runtime_status_by_id (handle_of token now h) clock meanwhile t n s))"
| backfill: "tenant_step h t s (snd (svc_backfill (handle_of token now h) clock cancelled t ref history s))"
| backfill_by_id: "tenant_step h t s (snd (svc_backfill_by_id (handle_of token now h) clock cancelled t n history s))"
| webhook: "tenant_step h t s (snd (svc_set_webhook h token now t ref url events base64 byEvents s))"
| read_settings: "tenant_step h t s (snd (svc_get_settings h token now t ref s))"
| settings: "tenant_step h t s (snd (svc_update_settings h token now t ref settings s))"
| always_online: "tenant_step h t s (snd (SetAlwaysOnlineCompat h token now t ref b s))"
| get_connector: "tenant_step h t s (snd (get_connector column h token now t ref s))"
| set_connector: "tenant_step h t s (snd (set_connector assign h token now t ref config s))"
| get_proxy: "tenant_step h t s (snd (GetProxyConfig h token now t ref s))"
| set_proxy: "tenant_step h t s (snd (SetProxyConfig h token now t ref proxy s))"
| mark_read: "tenant_step h t s (snd (MarkReadCompat h mark t ref request s))"

lemma update_settings_write:
  assumes "distinct (map in_id (ad_instances (sv_db s)))"
  shows "tenant_write t (sv_db s) (sv_db (snd (svc_update_settings h token now t ref settings s)))"
proof (cases "need_legacy h")
  case (Inl e)
  then show ?thesis using tenant_write_same [OF assms]
    by (simp add: svc_update_settings_def with_settings_def split: sum.split)
next
  case rt: (Inr rt)
  show ?thesis
  proof (cases "resolve (sv_db s) t ref")
    case (Inr i)
    note i = resolve_row [OF Inr]
    then have "has_row i (sv_db s)" by (simp add: has_row_def)
    from only_row_write [OF update_settings_only [OF this] _ _ assms] i show ?thesis
      by (simp add: svc_update_settings_def with_settings_def rt Inr)
  qed (simp add: svc_update_settings_def with_settings_def tenant_write_same assms)
qed

lemma always_online_write:
  assumes "distinct (map in_id (ad_instances (sv_db s)))"
  shows "tenant_write t (sv_db s) (sv_db (snd (SetAlwaysOnlineCompat h token now t ref b s)))"
proof -
  have fin: "sv_db (snd (case p of (Inl e, s) \<Rightarrow> (Inl e, s) | (Inr a, s) \<Rightarrow> (Inr (a, True), s))) = sv_db (snd p)"
    for p :: "(go_error + AdvancedSettings) \<times> engine_service"
    by (cases p; cases "fst p") auto
  show ?thesis
  proof (cases "resolve (sv_db s) t ref")
    case (Inr i)
    show ?thesis
    proof (cases h)
      case (Legacy rt)
      obtain r u where r: "in_runtime (rt_GetAdvancedSettings rt token now i) s = (r, u)" by (rule prod.exhaust)
      have u: "sv_db u = sv_db s" using in_runtime_eq [OF r] by simp
      let ?a = "(case r of Inl _ \<Rightarrow> no_settings | Inr a \<Rightarrow> a)\<lparr>as_always_online := b\<rparr>"
      have "tenant_write t (sv_db u) (sv_db (snd (svc_update_settings h token now t ref ?a u)))"
        by (rule update_settings_write) (simp add: u assms)
      then have w: "tenant_write t (sv_db s) (sv_db (snd (svc_update_settings h token now t ref ?a u)))" unfolding u .
      have "SetAlwaysOnlineCompat h token now t ref b s =
          (case svc_update_settings h token now t ref ?a u of (Inl e, s) \<Rightarrow> (Inl e, s) | (Inr a, s) \<Rightarrow> (Inr (a, True), s))"
        unfolding SetAlwaysOnlineCompat_def Inr Legacy Let_def by (simp only: sum.case legacy_handle.case r prod.case)
      then show ?thesis using w by (simp only: fin)
    qed (simp_all add: SetAlwaysOnlineCompat_def Inr tenant_write_same assms)
  qed (simp add: SetAlwaysOnlineCompat_def tenant_write_same assms)
qed

lemma svc_create_write:
  assumes "distinct (map in_id (ad_instances (sv_db s)))"
  shows "tenant_write t (sv_db s) (sv_db (snd (svc_create rt newID now t input s)))"
proof -
  let ?i = "\<lparr>in_id = newID, in_tenant_id = t, in_name = ci_name input, in_status = ''created'',
     in_engine_instance_id = ci_engine_instance_id input, in_webhook_url = ci_webhook_url input,
     in_webhook_events = [], in_webhook_base64 = False, in_webhook_by_events = False,
     in_ai_enabled = False, in_ai_auto_reply = False, in_created_at = now\<rparr>"
  obtain e db where c: "instance_Create ?i (sv_db s) = (e, db)" by (rule prod.exhaust)
  have st: "''created'' \<in> instance_statuses" by (simp add: instance_statuses_def)
  show ?thesis
  proof (cases e)
    case (Some x)
    then have "ad_instances db = ad_instances (sv_db s)" using c
      by (auto simp: instance_Create_def split: option.splits if_splits)
    then show ?thesis using c Some tenant_write_same [OF assms] by (auto simp: svc_create_def Let_def)
  next
    case None
    then have new: "ad_instances db = ad_instances (sv_db s) @ [?i]" "newID \<notin> in_id ` set (ad_instances (sv_db s))"
      using c by (auto simp: instance_Create_def split: option.splits if_splits)
    have one: "tenant_write t (sv_db s) db'" if "ad_instances db' = ad_instances (sv_db s) @ [j]" "in_tenant_id j = t"
        "in_id j = newID" "in_status j = ''created''" for db' :: auth_db and j
      using that assms new st by (auto simp: tenant_write_def)
    let ?u = "s\<lparr>sv_db := db\<rparr>" and ?j = "?i\<lparr>in_engine_instance_id := in_id ?i\<rparr>"
    obtain f v where v: "save_instance ?j ?u = (f, v)" by (rule prod.exhaust)
    have "ad_instances (sv_db v) = ad_instances (sv_db s) @ [?i] \<or> ad_instances (sv_db v) = ad_instances (sv_db s) @ [?j]"
    proof -
      have "map (\<lambda>x. if in_id x = newID then j else x) (ad_instances (sv_db s)) = ad_instances (sv_db s)" for j
        using new(2) by (intro map_idI) auto
      then show ?thesis using v new
        by (auto simp: save_instance_def instance_Update_def split: option.splits prod.splits)
    qed
    then have w: "tenant_write t (sv_db s) (sv_db v)" "tenant_write t (sv_db s) db"
      using one new by auto
    show ?thesis using c None v w
      by (cases rt; cases f) (auto simp: svc_create_def Let_def tenant_write_same assms)
  qed
qed

lemma svc_delete_write:
  assumes "distinct (map in_id (ad_instances (sv_db s)))"
  shows "tenant_write t (sv_db s) (sv_db (snd (svc_delete t n s)))"
proof -
  have "tenant_write t (sv_db s) (snd (instance_Delete t n (sv_db s)))"
    using assms by (auto simp: instance_Delete_def tenant_write_def distinct_map_filter intro!: filter_cong split: option.split)
  then show ?thesis using tenant_write_same [OF assms]
    by (auto simp: svc_delete_def split: prod.splits option.splits)
qed

lemma tenant_step_write:
  assumes "tenant_step h t s s'" and "served h" and d: "distinct (map in_id (ad_instances (sv_db s)))"
  shows "tenant_write t (sv_db s) (sv_db s')"
  using assms(1)
proof cases
  case (webhook token now ref url events base64 byEvents)
  show ?thesis
  proof (cases "resolve (sv_db s) t ref")
    case (Inr i)
    note i = resolve_row [OF Inr]
    then have "has_row i (sv_db s)" by (simp add: has_row_def)
    from only_row_write [OF set_webhook_only [OF assms(2) this] _ _ d] i show ?thesis
      by (simp add: webhook svc_set_webhook_def Inr)
  qed (simp add: webhook svc_set_webhook_def tenant_write_same d)
next
  case (mark_read mark ref request)
  have "sv_db s' = sv_db s"
    by (auto simp: mark_read MarkReadCompat_def in_runtime_def split: sum.split option.split legacy_handle.split prod.split)
  then show ?thesis using tenant_write_same [OF d] by simp
next
  case (runtime_status meanwhile token now clock ref)
  have "sv_db s' = sv_db s"
    by (auto simp: runtime_status(1) svc_runtime_status_def runtime_status_db runtime_status(2) split: sum.split)
  then show ?thesis using tenant_write_same [OF d] by simp
next
  case (runtime_status_by_id meanwhile token now clock n)
  have "sv_db s' = sv_db s"
    by (auto simp: runtime_status_by_id(1) svc_runtime_status_by_id_def runtime_status_db runtime_status_by_id(2) split: sum.split)
  then show ?thesis using tenant_write_same [OF d] by simp
next
  case (backfill token now clock cancelled ref history)
  have "sv_db s' = sv_db s" by (auto simp: backfill svc_backfill_def backfill_db split: sum.split)
  then show ?thesis using tenant_write_same [OF d] by simp
next
  case (backfill_by_id token now clock cancelled n history)
  have "sv_db s' = sv_db s" by (auto simp: backfill_by_id svc_backfill_by_id_def backfill_db split: sum.split)
  then show ?thesis using tenant_write_same [OF d] by simp
qed (simp_all only: svc_create_write [OF d] svc_delete_write [OF d] update_settings_write [OF d] always_online_write [OF d]
    tenant_write_same [OF d] svc_get_settings_db get_connector_db set_connector_db GetProxyConfig_db SetProxyConfig_db
    svc_connect_def svc_connect_by_id_def svc_disconnect_def svc_disconnect_by_id_def svc_reconnect_def
    svc_reconnect_by_id_def svc_logout_def svc_logout_by_id_def svc_status_def svc_status_by_id_def svc_qrcode_def
    svc_qrcode_by_id_def svc_pair_def svc_pair_by_id_def found_write [OF d] served_only [OF assms(2)])

text \<open>
  C33: an operation called for a tenant leaves every instance row of every other tenant as it is, makes none for another,
  keeps ids unique, and writes only the statuses the API documents.
\<close>

theorem tenant_rows_isolated:
  assumes "tenant_step h t s s'" and "served h" and "distinct (map in_id (ad_instances (sv_db s)))"
  shows "(\<forall>x. in_tenant_id x \<noteq> t \<longrightarrow> (x \<in> set (ad_instances (sv_db s')) \<longleftrightarrow> x \<in> set (ad_instances (sv_db s)))) \<and>
    distinct (map in_id (ad_instances (sv_db s'))) \<and>
    (\<forall>x \<in> set (ad_instances (sv_db s')). in_status x \<in> instance_statuses \<or> in_status x \<in> in_status ` set (ad_instances (sv_db s)))"
proof -
  have w: "tenant_write t (sv_db s) (sv_db s')" by (rule tenant_step_write [OF assms])
  have "x \<in> set (ad_instances (sv_db s')) \<longleftrightarrow> x \<in> set (ad_instances (sv_db s))" if "in_tenant_id x \<noteq> t" for x
  proof -
    have "x \<in> set (filter (\<lambda>x. in_tenant_id x \<noteq> t) (ad_instances (sv_db s'))) \<longleftrightarrow>
        x \<in> set (filter (\<lambda>x. in_tenant_id x \<noteq> t) (ad_instances (sv_db s)))"
      using w by (simp only: tenant_write_def)
    then show ?thesis using that by simp
  qed
  then show ?thesis using w by (simp add: tenant_write_def)
qed

section \<open>The engine's row of another\<close>

lemma in_runtime_runtime: "sv_runtime (snd (in_runtime f s)) = snd (f (sv_runtime s))"
  by (simp add: in_runtime_def split: prod.split)

lemma update_row_value:
  assumes "engine_db_ok (es_db s)" and "ed_outage (es_db s) = None" and "x \<in> set (ed_rows (es_db s))"
    and "ei_id y = ei_id x" and "ei_token y = ei_token x"
  shows "in_db (engine_Update y) s = (None, replace_row y s)"
proof -
  have "\<not> (\<exists>z \<in> set (ed_rows (es_db s)). ei_id z \<noteq> ei_id y \<and> ei_token z = ei_token y)"
    using assms(1,3-5) by (auto simp: engine_db_ok_def distinct_map dest: inj_onD)
  then show ?thesis using assms(2-4) by (auto simp: in_db_def engine_Update_def replace_row_def)
qed

lemma sync_legacy_value:
  assumes "engine_db_ok (es_db s)" and "ed_outage (es_db s) = None" and "x \<in> set (ed_rows (es_db s))"
    and "trim_space (ei_token x) \<noteq> []"
  shows "sync_legacy rt token i x s =
    (Inr (snd (synced_row (en_config (rt_engine rt)) token i x)), replace_row (snd (synced_row (en_config (rt_engine rt)) token i x)) s)"
proof (cases "synced_row (en_config (rt_engine rt)) token i x")
  case (Pair ch z)
  then have z: "z = snd (synced_row (en_config (rt_engine rt)) token i x)" by simp
  have "in_db (engine_Update z) s = (None, replace_row z s)"
    by (rule update_row_value [OF assms(1-3)]) (use assms(4) in \<open>simp_all add: z synced_row_row\<close>)
  then show ?thesis using Pair synced_row_unchanged [of "en_config (rt_engine rt)" token i x] replace_row_id [OF assms(1,3)]
    by (cases ch) (simp_all add: sync_legacy_def)
qed

text \<open>
  Whoever creates an instance with the engine id of a row that is there gets that row: its session and token, and
  its events go to the webhook of the new instance.
\<close>

theorem engine_session_taken_over:
  assumes "svc_create (handle_of token now (Legacy rt)) newID now' tenantID
      \<lparr>ci_name = name, ci_engine_instance_id = ei_id x, ci_webhook_url = hook\<rparr> s = (Inr i, s')"
    and "x \<in> set (ed_rows (es_db (sv_runtime s)))" and "engine_db_ok (es_db (sv_runtime s))"
    and "ed_outage (es_db (sv_runtime s)) = None" and "ensureReady rt = None"
    and "en_uuid_ok (rt_engine rt) (ei_id x)" and "trim_space (ei_id x) = ei_id x" and "ei_id x \<noteq> []"
    and "trim_space (ei_token x) \<noteq> []"
  shows "\<exists>y \<in> set (ed_rows (es_db (sv_runtime s'))). ei_id y = ei_id x \<and> ei_token y = ei_token x \<and> ei_name y = name \<and>
    trim_space (ei_webhook y) = trim_space hook"
proof -
  let ?i = "\<lparr>in_id = newID, in_tenant_id = tenantID, in_name = name, in_status = ''created'',
     in_engine_instance_id = ei_id x, in_webhook_url = hook,
     in_webhook_events = [], in_webhook_base64 = False, in_webhook_by_events = False,
     in_ai_enabled = False, in_ai_auto_reply = False, in_created_at = now'\<rparr>"
  obtain db where c: "instance_Create ?i (sv_db s) = (None, db)"
    and s': "s' = snd (in_runtime (rt_Snapshot rt token now ?i) (s\<lparr>sv_db := db\<rparr>))"
    using assms(1,7,8) by (auto simp: svc_create_def Let_def handle_of_def legacy_ops_def split: if_splits prod.splits option.splits)
  let ?e = "sv_runtime s"
  have "legacy_id rt ?i = ei_id x" using assms(6-8) by (simp add: legacy_id_def Let_def)
  then have f: "find_legacy rt ?i ?e = Inr (Some x)"
    using engine_GetByID_row [of "es_db (sv_runtime s)" x "en_uuid_ok (rt_engine rt)"] assms(2-4,6) by (simp add: find_legacy_def)
  let ?y = "snd (synced_row (en_config (rt_engine rt)) token ?i x)"
  have y: "ei_id ?y = ei_id x" "ei_token ?y = ei_token x" "ei_name ?y = name" "trim_space (ei_webhook ?y) = trim_space hook"
    using assms(9) by (simp_all add: synced_row_row)
  have "sync_legacy rt token ?i x ?e = (Inr ?y, replace_row ?y ?e)"
    by (rule sync_legacy_value [OF assms(3,4,2,9)])
  then have "ensureLegacyInstance rt token now ?i ?e = (Inr ?y, replace_row ?y ?e)"
    using f assms(5) by (simp add: ensureLegacyInstance_def)
  then have "snd (rt_Snapshot rt token now ?i ?e) = replace_row ?y ?e" using assms(5) by (simp add: rt_Snapshot_def)
  then have "sv_runtime s' = replace_row ?y ?e" unfolding s' by (simp add: in_runtime_runtime)
  moreover have "?y \<in> set (ed_rows (es_db (replace_row ?y ?e)))" using assms(2) y(1) by (force simp: replace_row_def)
  ultimately show ?thesis using y by (intro bexI [of _ ?y]) simp_all
qed

section \<open>Witnesses\<close>

definition shop_service :: "EngineInstance list \<Rightarrow> engine_service" where
  "shop_service rows = \<lparr>sv_db = watch_db, sv_runtime = shop_state rows Map.empty, sv_oz = no_watch, sv_ob = None, sv_history = None\<rparr>"

definition sales_instance :: Instance where "sales_instance = hd (ad_instances watch_db)"

lemma shop_service_ids: "distinct (map in_id (ad_instances (sv_db (shop_service rows))))"
  by (simp add: shop_service_def watch_db_def)

definition mirror_input :: InstanceCreateInput where
  "mirror_input = \<lparr>ci_name = ''mirror'', ci_engine_instance_id = ''i1'', ci_webhook_url = ''h2''\<rparr>"

definition mirror_made :: "(go_error + Instance) \<times> engine_service" where
  "mirror_made = svc_create (handle_of ''t2'' 5 (Legacy shop_runtime)) ''i2'' 5 ''B'' mirror_input (shop_service [shop_row])"

theorem tenant_rows_isolated_witness:
  "sales_instance \<in> set (ad_instances (sv_db (snd mirror_made))) \<and>
   distinct (map in_id (ad_instances (sv_db (snd mirror_made))))"
proof -
  have step: "tenant_step (Legacy shop_runtime) ''B'' (shop_service [shop_row]) (snd mirror_made)"
    unfolding mirror_made_def by (rule created)
  have served: "served (Legacy shop_runtime)" by (simp add: served_def)
  have "in_tenant_id sales_instance \<noteq> ''B''" and "sales_instance \<in> set (ad_instances (sv_db (shop_service [shop_row])))"
    by (simp_all add: sales_instance_def shop_service_def watch_db_def)
  then show ?thesis using tenant_rows_isolated [OF step served shop_service_ids] by blast
qed

lemma mirror_result: "case fst mirror_made of Inr i \<Rightarrow> in_engine_instance_id i = ''i1'' | Inl _ \<Rightarrow> False"
  by code_simp

lemma shop_row_sides:
  "en_uuid_ok (rt_engine shop_runtime) (ei_id shop_row)" "trim_space (ei_id shop_row) = ei_id shop_row" "ei_id shop_row \<noteq> []"
  "trim_space (ei_token shop_row) \<noteq> []" "ensureReady shop_runtime = None" "trim_space ''h2'' = ''h2''"
  by code_simp+

lemma shop_service_rows:
  "ed_rows (es_db (sv_runtime (shop_service rows))) = rows" "ed_outage (es_db (sv_runtime (shop_service rows))) = None"
  "engine_db_ok (es_db (sv_runtime (shop_service [x])))"
  by (simp_all add: shop_service_def shop_state_def engine_db_ok_def)

theorem engine_session_taken_over_witness:
  "\<exists>y \<in> set (ed_rows (es_db (sv_runtime (snd mirror_made)))). ei_id y = ''i1'' \<and> ei_token y = ''t1'' \<and>
     ei_name y = ''mirror'' \<and> trim_space (ei_webhook y) = ''h2''"
proof -
  obtain i where "fst mirror_made = Inr i" using mirror_result by (auto split: sum.splits)
  then have "mirror_made = (Inr i, snd mirror_made)" by (metis prod.collapse)
  then have made: "svc_create (handle_of ''t2'' 5 (Legacy shop_runtime)) ''i2'' 5 ''B''
      \<lparr>ci_name = ''mirror'', ci_engine_instance_id = ei_id shop_row, ci_webhook_url = ''h2''\<rparr> (shop_service [shop_row]) =
      (Inr i, snd mirror_made)"
    by (simp add: mirror_made_def mirror_input_def shop_row_def)
  have "shop_row \<in> set (ed_rows (es_db (sv_runtime (shop_service [shop_row]))))" by (simp add: shop_service_rows)
  from engine_session_taken_over [OF made this shop_service_rows(3,2) shop_row_sides(5,1,2,3,4)]
  show ?thesis unfolding shop_row_sides(6) by (simp add: shop_row_def)
qed

end
