(* ===== verification/Connector_Settings.thy ===== *)
theory Connector_Settings
  imports Instance_System
begin

text \<open>
  The settings of connectors and proxies are read back as they were set, and where they are not: the events
  \<open>ALL\<close> of an instance with a webhook, and settings of an instance whose row was found by its name.
\<close>

section \<open>Event lists\<close>

lemma supported_event_facts:
  "isSupportedInstanceEvent v \<Longrightarrow> CHR '','' \<notin> set v"
  "isSupportedInstanceEvent v \<Longrightarrow> trim_space v = v"
  "isSupportedInstanceEvent v \<Longrightarrow> to_upper v = v"
  "isSupportedInstanceEvent v \<Longrightarrow> v \<noteq> []"
  "isSupportedInstanceEvent v \<Longrightarrow> to_lower v = ''all'' \<Longrightarrow> v = ''ALL''"
proof -
  let ?all = "[''ALL'', ''MESSAGE'', ''SEND_MESSAGE'', ''READ_RECEIPT'', ''PRESENCE'', ''HISTORY_SYNC'', ''CHAT_PRESENCE'',
              ''CALL'', ''CONNECTION'', ''LABEL'', ''CONTACT'', ''GROUP'', ''NEWSLETTER'', ''QRCODE'']"
  have all: "isSupportedInstanceEvent v \<longleftrightarrow> v \<in> set ?all" by (auto simp: isSupportedInstanceEvent_def)
  have "list_all (\<lambda>v. CHR '','' \<notin> set v \<and> trim_space v = v \<and> to_upper v = v \<and> v \<noteq> [] \<and>
      (to_lower v = ''all'' \<longrightarrow> v = ''ALL'')) ?all"
    by code_simp
  then have "\<forall>v \<in> set ?all. CHR '','' \<notin> set v \<and> trim_space v = v \<and> to_upper v = v \<and> v \<noteq> [] \<and>
      (to_lower v = ''all'' \<longrightarrow> v = ''ALL'')"
    by (simp only: list_all_iff)
  then show "isSupportedInstanceEvent v \<Longrightarrow> CHR '','' \<notin> set v" "isSupportedInstanceEvent v \<Longrightarrow> trim_space v = v"
    "isSupportedInstanceEvent v \<Longrightarrow> to_upper v = v" "isSupportedInstanceEvent v \<Longrightarrow> v \<noteq> []"
    "isSupportedInstanceEvent v \<Longrightarrow> to_lower v = ''all'' \<Longrightarrow> v = ''ALL''"
    unfolding all by blast+
qed

text \<open>One step of the loop over the requested events.\<close>

lemma requested_step:
  assumes "requested (event # events) acc = Inr out"
  obtains "trim_space event = []" "requested events acc = Inr out"
  | "to_upper (trim_space event) \<in> set acc" "requested events acc = Inr out"
  | "isSupportedInstanceEvent (to_upper (trim_space event))" "to_upper (trim_space event) \<notin> set acc"
    "requested events (acc @ [to_upper (trim_space event)]) = Inr out"
  using assms by (auto simp: Let_def to_upper_def split: if_splits)

lemma requested_grows: "requested es acc = Inr out \<Longrightarrow> set acc \<subseteq> set out"
proof (induction es arbitrary: acc)
  case (Cons event events)
  from Cons.prems show ?case by (rule requested_step) (force dest!: Cons.IH)+
qed simp

lemma requested_result:
  "requested es acc = Inr out \<Longrightarrow> distinct acc \<and> list_all isSupportedInstanceEvent acc \<Longrightarrow>
     distinct out \<and> list_all isSupportedInstanceEvent out"
proof (induction es arbitrary: acc)
  case (Cons event events)
  from Cons.prems(1) show ?case
    by (rule requested_step) (use Cons.IH Cons.prems(2) in \<open>simp_all\<close>)
qed simp

lemma requested_some:
  "requested es acc = Inr out \<Longrightarrow> \<exists>v \<in> set es. trim_space v \<noteq> [] \<Longrightarrow> out \<noteq> []"
proof (induction es arbitrary: acc)
  case (Cons event events)
  from Cons.prems(1) show ?case
  proof (rule requested_step)
    assume "trim_space event = []" "requested events acc = Inr out"
    then show ?thesis using Cons.IH [of acc] Cons.prems(2) by simp
  qed (auto dest!: requested_grows)
qed simp

lemma split_on_join: "vs \<noteq> [] \<Longrightarrow> \<forall>v \<in> set vs. c \<notin> set v \<Longrightarrow> split_on c (join [c] vs) = vs"
  by (induction "[c]" vs rule: join.induct) (simp_all add: split_on_single split_on_append)

lemma each_once_fixed:
  "distinct (acc @ vs) \<Longrightarrow> \<forall>v \<in> set vs. to_upper (trim_space v) = v \<and> v \<noteq> [] \<Longrightarrow> each_once vs acc = acc @ vs"
  by (induction vs arbitrary: acc) (auto simp: Let_def)

text \<open>Trimming keeps the characters that no white space holds.\<close>

lemma trim_left_by_keeps: "c \<in> set s \<Longrightarrow> \<forall>w \<in> set ws. c \<notin> set w \<Longrightarrow> c \<in> set (trim_left_by ws s)"
proof (induction ws s rule: trim_left_by.induct)
  case (1 ws s)
  show ?case
  proof (cases "find (\<lambda>w. w \<noteq> [] \<and> has_prefix s w) ws")
    case (Some w)
    then have w: "w \<in> set ws" "has_prefix s w" by (auto dest: find_Some_mem)
    then obtain t where s: "s = w @ t" by (auto simp: has_prefix_iff)
    then have "c \<in> set (drop (length w) s)" using "1.prems" w by auto
    then show ?thesis using "1.IH" [OF Some] "1.prems"(2) trim_left_by_step [OF Some] by simp
  qed (use "1.prems" in \<open>simp add: trim_left_by_stop\<close>)
qed

lemma trim_space_keeps: "c \<in> set s \<Longrightarrow> \<forall>w \<in> set white_space. c \<notin> set w \<Longrightarrow> c \<in> set (trim_space s)"
  by (simp add: trim_space_def trim_left_by_keeps)

lemma comma_kept: "\<forall>w \<in> set white_space. CHR '','' \<notin> set w"
  by code_simp

lemma join_trim:
  assumes "vs \<noteq> []" and "\<forall>v \<in> set vs. isSupportedInstanceEvent v"
  shows "trim_space (join '','' vs) \<noteq> []" and "to_lower (trim_space (join '','' vs)) = ''all'' \<Longrightarrow> vs = [''ALL'']"
proof -
  have "trim_space (join '','' vs) \<noteq> [] \<and> (to_lower (trim_space (join '','' vs)) = ''all'' \<longrightarrow> vs = [''ALL''])"
  proof (cases "\<exists>v. vs = [v]")
    case True
    then show ?thesis using assms supported_event_facts by auto
  next
    case False
    then obtain v u us where "vs = v # u # us" using assms(1) by (metis neq_Nil_conv)
    then have c: "CHR '','' \<in> set (trim_space (join '','' vs))" by (intro trim_space_keeps [OF _ comma_kept]) simp
    have "CHR '','' \<in> set (to_lower (trim_space (join '','' vs)))"
    proof -
      have "lower_char (CHR '','') = CHR '',''" by code_simp
      then show ?thesis using imageI [OF c, of lower_char] by (simp add: to_lower_def)
    qed
    moreover have "CHR '','' \<notin> set ''all''" by simp
    ultimately show ?thesis using c by (metis list.set(1) empty_iff)
  qed
  then show "trim_space (join '','' vs) \<noteq> []" "to_lower (trim_space (join '','' vs)) = ''all'' \<Longrightarrow> vs = [''ALL'']" by blast+
qed

lemma parse_join:
  assumes "distinct vs" and "vs \<noteq> []" and "\<forall>v \<in> set vs. isSupportedInstanceEvent v"
  shows "parseLegacyEvents (join '','' vs) = vs"
proof -
  have "split_on (CHR '','') (join '','' vs) = vs" by (rule split_on_join) (use assms supported_event_facts in auto)
  moreover have "each_once vs [] = vs"
    using each_once_fixed [of "[]" vs] assms supported_event_facts by auto
  ultimately show ?thesis using join_trim(1) [OF assms(2,3)] by (simp add: parseLegacyEvents_def)
qed

lemma connector_state_read [simp]: "normalizedConnectorEnabled (connectorState b) = b"
proof -
  have "normalizedConnectorEnabled ''enabled''" "\<not> normalizedConnectorEnabled ''disabled''" by code_simp+
  then show ?thesis by (cases b) (simp_all add: connectorState_def)
qed

section \<open>The columns of the connectors\<close>

text \<open>What a connector needs of its column of the engine's row.\<close>

locale connector_column =
  fixes column :: "EngineInstance \<Rightarrow> string" and assign :: "string \<Rightarrow> EngineInstance \<Rightarrow> EngineInstance"
  assumes column_assigned: "column (assign v x) = v"
    and column_events: "column (x\<lparr>ei_events := e\<rparr>) = column x"
    and assign_kept: "ei_id (assign v x) = ei_id x" "ei_token (assign v x) = ei_token x" "ei_name (assign v x) = ei_name x"
    and assign_synced: "synced_row c token i (assign v x) = (case synced_row c token i x of (ch, y) \<Rightarrow> (ch, assign v y))"
    and assign_with_events: "assign v (x\<lparr>ei_events := e\<rparr>) = (assign v x)\<lparr>ei_events := e\<rparr>"

interpretation websocket: connector_column ei_websocket_enable "\<lambda>v x. x\<lparr>ei_websocket_enable := v\<rparr>"
  by unfold_locales (simp_all add: synced_row_def Let_def)

interpretation rabbitmq: connector_column ei_rabbitmq_enable "\<lambda>v x. x\<lparr>ei_rabbitmq_enable := v\<rparr>"
  by unfold_locales (simp_all add: synced_row_def Let_def)

lemma find_legacy_db: "es_db s = es_db u \<Longrightarrow> find_legacy rt i s = find_legacy rt i u"
proof -
  assume h: "es_db s = es_db u"
  show "find_legacy rt i s = find_legacy rt i u" unfolding find_legacy_def h by (rule refl)
qed

lemma sync_settings_db [simp]: "es_db (sv_runtime (syncLegacyInstanceSettings rt i s)) = es_db (sv_runtime s)"
  and sync_settings_instances [simp]: "sv_db (syncLegacyInstanceSettings rt i s) = sv_db s"
proof -
  have db: "es_db (sv_runtime u) = es_db (sv_runtime v) \<and> sv_db u = sv_db v"
    if "in_runtime (UpdateInstanceSettings en n) v = (r, u)" for en n r u v
    using that UpdateInstanceSettings_db [of en n "sv_runtime v"] by (auto simp: in_runtime_def split: prod.splits)
  have "es_db (sv_runtime (syncLegacyInstanceSettings rt i s)) = es_db (sv_runtime s) \<and>
      sv_db (syncLegacyInstanceSettings rt i s) = sv_db s"
    by (auto simp: syncLegacyInstanceSettings_def case_prod_beta in_runtime_runtime UpdateInstanceSettings_db
        split: prod.split option.split dest!: db)
  then show "es_db (sv_runtime (syncLegacyInstanceSettings rt i s)) = es_db (sv_runtime s)"
    "sv_db (syncLegacyInstanceSettings rt i s) = sv_db s" by blast+
qed

text \<open>A row that is settled stays so when its events are set, unless the instance's webhook rewrites them.\<close>

lemma synced_events:
  assumes "snd (synced_row c token i x) = x" and "vs \<noteq> []" and "\<forall>v \<in> set vs. isSupportedInstanceEvent v"
    and "trim_space (in_webhook_url i) = [] \<or> vs \<noteq> [''ALL'']"
  shows "snd (synced_row c token i (x\<lparr>ei_events := join '','' vs\<rparr>)) = x\<lparr>ei_events := join '','' vs\<rparr>"
proof -
  have ev: "trim_space (join '','' vs) \<noteq> []" "trim_space (in_webhook_url i) = [] \<or> to_lower (trim_space (join '','' vs)) \<noteq> ''all''"
    using join_trim [OF assms(2,3)] assms(4) by blast+
  from ev(2) have "snd (synced_row c token i (x\<lparr>ei_events := join '','' vs\<rparr>)) = (snd (synced_row c token i x))\<lparr>ei_events := join '','' vs\<rparr>"
    by (rule disjE) (simp_all add: synced_row_def Let_def ev(1))
  then show ?thesis by (simp add: assms(1))
qed

lemma requested_events:
  assumes "normalizeRequestedEvents events existing enabled = Inr vs" and "\<exists>v \<in> set events. trim_space v \<noteq> []"
  shows "distinct vs" and "vs \<noteq> []" and "\<forall>v \<in> set vs. isSupportedInstanceEvent v"
proof -
  obtain ws where ws: "requested events [] = Inr ws"
    using assms by (auto simp: normalizeRequestedEvents_def split: if_splits sum.splits)
  note ne = requested_some [OF ws assms(2)]
  then have "vs = ws" using assms ws by (auto simp: normalizeRequestedEvents_def split: if_splits)
  then show "distinct vs" "vs \<noteq> []" "\<forall>v \<in> set vs. isSupportedInstanceEvent v"
    using requested_result [OF ws] ne by (simp_all add: list_all_iff)
qed

context connector_column
begin

lemma set_then_found:
  assumes "set_connector assign (Legacy rt) token now tenantID reference input s = (Inr c, s')"
    and "resolve (sv_db s) tenantID reference = Inr i" and "engine_db_ok (es_db (sv_runtime s))"
    and "trimmed (in_name i)" and "trim_space token \<noteq> []" and "\<exists>v \<in> set (cc_events input). trim_space v \<noteq> []"
    and "trim_space (in_webhook_url i) = [] \<or> cc_events c \<noteq> [''ALL'']"
  obtains x u where "resolveLegacyInstance (Legacy rt) token now tenantID reference s = (Inr (i, rt, x), u)"
    and "c = \<lparr>cc_id = [], cc_enabled = cc_enabled input, cc_events = cc_events c\<rparr>"
    and "parseLegacyEvents (join '','' (cc_events c)) = cc_events c"
    and "resolveLegacyInstance (Legacy rt) token' now' tenantID reference s' =
      (Inr (i, rt, (assign (connectorState (cc_enabled input)) x)\<lparr>ei_events := join '','' (cc_events c)\<rparr>), s')"
proof -
  obtain x r where e: "ensureLegacyInstance rt token now i (sv_runtime s) = (Inr x, r)"
    using assms(1,2) by (auto simp: set_connector_def resolveLegacyInstance_def need_legacy_def in_runtime_def
        split: prod.splits sum.splits)
  let ?u = "s\<lparr>sv_runtime := r\<rparr>"
  have res: "resolveLegacyInstance (Legacy rt) token now tenantID reference s = (Inr (i, rt, x), ?u)"
    using assms(2) e by (simp add: resolveLegacyInstance_def need_legacy_def in_runtime_def)
  let ?y = "(assign (connectorState (cc_enabled input)) x)\<lparr>ei_events := join '','' (cc_events c)\<rparr>"
  obtain v where n: "normalizeRequestedEvents (cc_events input) (ei_events x) (cc_enabled input) = Inr (cc_events c)"
    and c: "c = \<lparr>cc_id = [], cc_enabled = cc_enabled input, cc_events = cc_events c\<rparr>"
    and up: "update_row ?y ?u = (None, v)" and s': "syncLegacyInstanceSettings rt i v = s'"
    using assms(1) res by (auto simp: set_connector_def split: prod.splits sum.splits option.splits)
  note vs = requested_events [OF n assms(6)]
  from ensure_again [OF e assms(3,4,5), of token' now']
  have x: "x \<in> set (ed_rows (es_db r))" "engine_db_ok (es_db r)" "ei_name x = in_name i" "settled rt token' i x r" by simp_all
  have ed: "in_db (engine_Update ?y) r = (None, sv_runtime v)" and v_db: "sv_db v = sv_db s"
    using up by (auto simp: update_row_def in_runtime_def split: prod.splits)
  have id: "ei_id ?y = ei_id x" "ei_name ?y = in_name i" using x(3) assign_kept by simp_all
  have rep: "sv_runtime v = replace_row ?y r" by (rule in_db_Update [OF ed]) (use x(1) id in force)
  have "r\<lparr>es_db := snd (engine_Update ?y (es_db r))\<rparr> = sv_runtime v"
    using arg_cong [OF ed, of snd] by (simp add: in_db_fst_snd)
  then have "es_db (sv_runtime v) = snd (engine_Update ?y (es_db r))" by (metis engine_state.select_convs(1) engine_state.surjective engine_state.update_convs(1))
  then have ok: "engine_db_ok (es_db (replace_row ?y r))" using engine_Update_ok [OF x(2)] rep by simp
  have f: "find_legacy rt i r = Inr (Some x)" and ready: "ensureReady rt = None"
    and sync: "snd (synced_row (en_config (rt_engine rt)) token' i x) = x" using x(4) by (simp_all add: settled_def)
  have db: "es_db (sv_runtime s') = es_db (replace_row ?y r)" using s' rep by auto
  have "find_legacy rt i (replace_row ?y r) = Inr (Some ?y)"
    by (rule find_legacy_replaced [OF f x(2) ok id assms(4)])
  then have f': "find_legacy rt i (sv_runtime s') = Inr (Some ?y)" using find_legacy_db [OF db] by simp
  have "snd (synced_row (en_config (rt_engine rt)) token' i (assign (connectorState (cc_enabled input)) x)) =
      assign (connectorState (cc_enabled input)) x"
    using sync by (simp add: assign_synced case_prod_beta)
  then have "snd (synced_row (en_config (rt_engine rt)) token' i ?y) = ?y" by (rule synced_events [OF _ vs(2,3) assms(7)])
  moreover have "?y \<in> set (ed_rows (es_db (replace_row ?y r)))" using x(1) id(1) by (force simp: replace_row_def)
  moreover have "ed_outage (es_db (replace_row ?y r)) = None" using find_legacy_Inr [OF f] by (simp add: replace_row_def)
  ultimately have "sync_legacy rt token' i ?y (sv_runtime s') = (Inr ?y, sv_runtime s')"
    by (intro sync_legacy_again) (use ok db in simp_all)
  then have "ensureLegacyInstance rt token' now' i (sv_runtime s') = (Inr ?y, sv_runtime s')"
    using ready f' by (simp add: ensureLegacyInstance_def)
  moreover have "sv_db s' = sv_db s" using s' v_db by auto
  ultimately have "resolveLegacyInstance (Legacy rt) token' now' tenantID reference s' = (Inr (i, rt, ?y), s')"
    using assms(2) by (simp add: resolveLegacyInstance_def need_legacy_def in_runtime_def)
  then show ?thesis using that res c parse_join [OF vs] by blast
qed

lemma read_back:
  assumes "set_connector assign (Legacy rt) token now tenantID reference input s = (Inr c, s')"
    and "resolve (sv_db s) tenantID reference = Inr i" and "engine_db_ok (es_db (sv_runtime s))"
    and "trimmed (in_name i)" and "trim_space token \<noteq> []" and "\<exists>v \<in> set (cc_events input). trim_space v \<noteq> []"
    and "trim_space (in_webhook_url i) = [] \<or> cc_events c \<noteq> [''ALL'']"
  shows "get_connector column (Legacy rt) token' now' tenantID reference s' = (Inr c, s')"
proof -
  obtain x where c: "c = \<lparr>cc_id = [], cc_enabled = cc_enabled input, cc_events = cc_events c\<rparr>"
    and p: "parseLegacyEvents (join '','' (cc_events c)) = cc_events c"
    and r: "resolveLegacyInstance (Legacy rt) token' now' tenantID reference s' =
      (Inr (i, rt, (assign (connectorState (cc_enabled input)) x)\<lparr>ei_events := join '','' (cc_events c)\<rparr>), s')"
    by (rule set_then_found [OF assms])
  have "get_connector column (Legacy rt) token' now' tenantID reference s' =
      (Inr \<lparr>cc_id = [], cc_enabled = cc_enabled input, cc_events = cc_events c\<rparr>, s')"
    using p by (simp add: get_connector_def r column_events column_assigned)
  then show ?thesis using c by simp
qed

text \<open>The events are one column: another connector reads the new ones, with its own switch as it was.\<close>

lemma read_by_other:
  assumes "set_connector assign (Legacy rt) token now tenantID reference input s = (Inr c, s')"
    and "resolve (sv_db s) tenantID reference = Inr i" and "engine_db_ok (es_db (sv_runtime s))"
    and "trimmed (in_name i)" and "trim_space token \<noteq> []" and "\<exists>v \<in> set (cc_events input). trim_space v \<noteq> []"
    and "trim_space (in_webhook_url i) = [] \<or> cc_events c \<noteq> [''ALL'']"
    and "\<And>v x. other (assign v x) = other x" and "\<And>e x. other (x\<lparr>ei_events := e\<rparr>) = other x"
  shows "\<exists>r. fst (get_connector other (Legacy rt) token now tenantID reference s) = Inr r \<and>
    get_connector other (Legacy rt) token' now' tenantID reference s' = (Inr (r\<lparr>cc_events := cc_events c\<rparr>), s')"
proof -
  obtain x u where a: "resolveLegacyInstance (Legacy rt) token now tenantID reference s = (Inr (i, rt, x), u)"
    and p: "parseLegacyEvents (join '','' (cc_events c)) = cc_events c"
    and r: "resolveLegacyInstance (Legacy rt) token' now' tenantID reference s' =
      (Inr (i, rt, (assign (connectorState (cc_enabled input)) x)\<lparr>ei_events := join '','' (cc_events c)\<rparr>), s')"
    by (rule set_then_found [OF assms(1-7)])
  show ?thesis using p by (simp add: get_connector_def a r assms(8,9))
qed

end


section \<open>Witness, and what is not read back\<close>

definition feed_input :: EventConnectorConfig where
  "feed_input = \<lparr>cc_id = [], cc_enabled = True, cc_events = ['' message'', ''CALL'', ''Message'']\<rparr>"

definition feed_set :: "(go_error + EventConnectorConfig) \<times> engine_service" where
  "feed_set = SetWebsocketConfig (Legacy shop_runtime) ''t1'' 1 ''A'' ''sales'' feed_input (shop_service [])"

definition feed_config :: EventConnectorConfig where
  "feed_config = \<lparr>cc_id = [], cc_enabled = True, cc_events = [''MESSAGE'', ''CALL'']\<rparr>"

lemma feed_value: "fst feed_set = Inr feed_config"
  by code_simp

lemma feed_sides:
  "resolve (sv_db (shop_service [])) ''A'' ''sales'' = Inr sales_instance" "trim_space ''t1'' \<noteq> []"
  "trim_space '' message'' \<noteq> []" "trim_space (in_webhook_url sales_instance) = []"
  by code_simp+


text \<open>All events are asked for and confirmed, but with a webhook only messages are read back: a look-up rewrites them.\<close>

definition hooked_service :: engine_service where
  "hooked_service = (shop_service [])\<lparr>sv_db := watch_db\<lparr>ad_instances := [sales_instance\<lparr>in_webhook_url := ''h1''\<rparr>]\<rparr>\<rparr>"

lemma all_events_lost:
  "case SetWebsocketConfig (Legacy shop_runtime) ''t1'' 1 ''A'' ''sales'' \<lparr>cc_id = [], cc_enabled = True, cc_events = [''ALL'']\<rparr>
       hooked_service of
     (r, s) \<Rightarrow> map_sum id cc_events r = Inr [''ALL''] \<and>
       map_sum id cc_events (fst (GetWebsocketConfig (Legacy shop_runtime) ''t1'' 1 ''A'' ''sales'' s)) = Inr [''MESSAGE'']"
  by code_simp

text \<open>
  The row of an instance is found by its name, so the connector is set; the proxy is not, as it is stored by id.
\<close>

lemma proxy_not_set_by_name:
  "case SetProxyConfig (Legacy shop_runtime) ''t1'' 1 ''A'' ''sales''
       (proxy_off\<lparr>pc_enabled := True, pc_host := ''p'', pc_port := ''1''\<rparr>) (shop_service [shop_row\<lparr>ei_id := ''e9''\<rparr>]) of
     (r, s) \<Rightarrow> (case r of Inl _ \<Rightarrow> True | Inr _ \<Rightarrow> False) \<and>
       (case GetWebsocketConfig (Legacy shop_runtime) ''t1'' 1 ''A'' ''sales'' s of (Inr _, _) \<Rightarrow> True | _ \<Rightarrow> False)"
  by code_simp

end
