(* ===== verification/Instance_Errors.thy ===== *)
theory Instance_Errors
  imports Instance_System
begin

text \<open>
  What the life-cycle operations of an instance leave behind when they fail, and what happens to a row that is written
  back after others have changed it: the operations read the row, wait for the runtime, and then save the whole row.
\<close>

section \<open>Failures\<close>

lemma failed_save: "save_instance i s = (Some e, s') \<Longrightarrow> s' = s \<and> ad_outage (sv_db s) ''instances'' = Some e"
  by (auto simp: save_instance_def instance_Update_def split: option.splits if_splits)

lemma failed_snapshot: "applySnapshot now i n s = (Inl e, s') \<Longrightarrow> s' = s \<and> ad_outage (sv_db s) ''instances'' = Some e"
  by (auto simp: applySnapshot_def Let_def split: option.splits if_splits prod.splits dest: failed_save)

text \<open>The four operations that change a session, cut down to the instance they answer with.\<close>

definition lifecycle_calls ::
  "'s runtime_handle \<Rightarrow> (nat \<Rightarrow> time) \<Rightarrow> string \<Rightarrow> string \<Rightarrow> ('s service \<Rightarrow> (go_error + Instance) \<times> 's service) list" where
  "lifecycle_calls rt clock tenantID reference =
     [svc_connect rt clock tenantID reference, svc_disconnect rt clock tenantID reference,
      apfst (map_sum id fst) \<circ> svc_reconnect rt clock tenantID reference,
      apfst (map_sum id fst) \<circ> svc_logout rt clock tenantID reference]"

text \<open>What a failure of an operation on a found instance may be.\<close>

definition failed_well :: "'s runtime_handle \<Rightarrow> 's service \<Rightarrow> go_error \<Rightarrow> 's service \<Rightarrow> bool" where
  "failed_well rt s e s' \<longleftrightarrow> sv_db s' = sv_db s \<and> (\<forall>b. rt = Inl b \<longrightarrow>
     s' = s \<and> (ad_outage (sv_db s) ''instances'' = Some e \<or> err_is e = Some ErrConflict \<or> b = Some e))"

lemma change_status_failed:
  assumes "change_status act local eventType message rt clock i s = (Inl e, s')"
  shows "failed_well rt s e s'"
  using assms unfolding change_status_def failed_well_def
  by (auto split: sum.splits prod.splits option.splits dest!: failed_save failed_snapshot in_runtime_eq)

lemma runtime_missing_conflict:
  "err_is (normalizeBridgeUnavailableLifecycleError b action) = Some ErrConflict \<or>
     b = Some (normalizeBridgeUnavailableLifecycleError b action)"
proof -
  have "contains (to_lower (trim_space ''runtime unavailable'')) ''runtime unavailable''" by code_simp
  then show ?thesis
    by (auto simp: normalizeBridgeUnavailableLifecycleError_def Let_def plain_error_def split: option.splits if_splits)
qed

lemma lifecycle_found_failed:
  assumes "lifecycle_found act action eventType message rt clock i s = (Inl e, s')"
  shows "failed_well rt s e s'"
  using assms runtime_missing_conflict [of "projl rt" action] unfolding lifecycle_found_def failed_well_def
  by (auto split: sum.splits prod.splits dest!: failed_snapshot in_runtime_eq)

text \<open>
  C34: a connect, disconnect, reconnect or logout that fails has changed no instance; without a runtime it has changed
  nothing at all, and the error is that of the reference, of the table, of the runtime's factory, or a conflict.
\<close>

theorem lifecycle_errors:
  assumes "call \<in> set (lifecycle_calls rt clock t ref)" and "call s = (Inl e, s')"
  shows "sv_db s' = sv_db s \<and> (\<forall>b. rt = Inl b \<longrightarrow> s' = s \<and>
    (resolve (sv_db s) t ref = Inl e \<or> ad_outage (sv_db s) ''instances'' = Some e \<or> err_is e = Some ErrConflict \<or> b = Some e))"
proof (cases "resolve (sv_db s) t ref")
  case (Inl x)
  have "call s = (Inl x, s)" using assms(1) by (auto simp: lifecycle_calls_def Inl svc_connect_def svc_disconnect_def
      svc_reconnect_def svc_logout_def)
  then show ?thesis using assms(2) Inl by simp
next
  case (Inr i)
  have cut: "p = (Inl e, s')" if "apfst (map_sum id fst) p = (Inl e, s')" for p :: "(go_error + Instance \<times> RuntimeSnapshot) \<times> 'a service"
    using that by (cases p; cases "fst p") auto
  have "failed_well rt s e s'" using assms
    by (auto simp: lifecycle_calls_def Inr svc_connect_def svc_disconnect_def svc_reconnect_def svc_logout_def connect_found_def
        disconnect_found_def reconnect_found_def logout_found_def dest!: cut change_status_failed lifecycle_found_failed)
  then show ?thesis by (auto simp: failed_well_def)
qed

section \<open>Rows written back\<close>

text \<open>
  Between the look-up and the save other requests run: \<open>s\<close> is where the row \<open>i\<close> was read, \<open>s1\<close> where the
  operation goes on. Whatever happened in between, the whole old row is in the table again, with the new status.
\<close>

lemma stale_row_written_back:
  assumes "applySnapshot now i (Some n) s1 = (Inr j, s2)" and "in_status j \<noteq> in_status i"
  shows "j = i\<lparr>in_status := trim_space (rs_status n)\<rparr> \<and> j \<in> set (ad_instances (sv_db s2))"
  using assms by (auto simp: applySnapshot_def Let_def save_instance_def instance_Update_def
      split: if_splits prod.splits option.splits)

text \<open>An instance that was deleted while the runtime was connecting is there again.\<close>

lemma deleted_instance_returns:
  "case svc_delete ''A'' ''i1'' (shop_service []) of
     (r, s1) \<Rightarrow> r = None \<and> ad_instances (sv_db s1) = [] \<and>
       (case connect_found (handle_of ''t1'' 1 (Legacy shop_runtime)) (\<lambda>k. 1) sales_instance s1 of
          (_, s2) \<Rightarrow> map in_id (ad_instances (sv_db s2)) = [''i1''])"
  by code_simp

text \<open>A webhook that was set while the runtime was connecting is forgotten.\<close>

lemma webhook_lost:
  "case svc_set_webhook (NoRuntime None) ''t1'' 1 ''A'' ''i1'' ''h9'' [] False False (shop_service []) of
     (_, s1) \<Rightarrow> map in_webhook_url (ad_instances (sv_db s1)) = [''h9''] \<and>
       (case connect_found (Inl None) (\<lambda>k. 1) sales_instance s1 of
          (_, s2) \<Rightarrow> map in_webhook_url (ad_instances (sv_db s2)) = [[]])"
  by code_simp

text \<open>
  The reconnections of the start leave the status of an instance whose session is not up at once as \<open>connecting\<close>; the
  next start reconnects the open ones only.
\<close>

definition open_service :: engine_service where
  "open_service = (shop_service [])\<lparr>sv_db := watch_db\<lparr>ad_instances := [sales_instance\<lparr>in_status := ''open''\<rparr>]\<rparr>\<rparr>"

lemma second_start_skips:
  "case BootstrapReconnectAll (handle_of ''t1'' 1 (Legacy shop_runtime)) (\<lambda>n k. 1) (\<lambda>is. is) open_service of
     s1 \<Rightarrow> map in_status (ad_instances (sv_db s1)) = [''connecting''] \<and>
       instance_ListByStatus (sv_db s1) ''open'' = Inr []"
  by code_simp

section \<open>Witness\<close>

lemma reconnect_without_runtime:
  "svc_reconnect (Inl None) (\<lambda>k. 1) ''A'' ''sales'' (shop_service []) =
     (Inl (wrap ErrConflict ''runtime unavailable for reconnect''), shop_service [])"
proof -
  have "resolve (sv_db (shop_service [])) ''A'' ''sales'' = Inr sales_instance"
    "normalizeBridgeUnavailableLifecycleError None ''reconnect'' = wrap ErrConflict ''runtime unavailable for reconnect''"
    by code_simp+
  then show ?thesis by (simp add: svc_reconnect_def reconnect_found_def lifecycle_found_def)
qed

theorem lifecycle_errors_witness:
  "sv_db (snd (svc_reconnect (Inl None) (\<lambda>k. 1) ''A'' ''sales'' (shop_service []))) = watch_db"
proof -
  let ?call = "apfst (map_sum id fst) \<circ> svc_reconnect (Inl None) (\<lambda>k. 1) ''A'' ''sales''"
  have call: "?call \<in> set (lifecycle_calls (Inl None) (\<lambda>k. 1) ''A'' ''sales'')" by (simp add: lifecycle_calls_def)
  have "?call (shop_service []) = (Inl (wrap ErrConflict ''runtime unavailable for reconnect''),
      snd (svc_reconnect (Inl None) (\<lambda>k. 1) ''A'' ''sales'' (shop_service [])))"
    by (simp add: reconnect_without_runtime)
  then have "sv_db (snd (svc_reconnect (Inl None) (\<lambda>k. 1) ''A'' ''sales'' (shop_service []))) = sv_db (shop_service [])"
    using lifecycle_errors [OF call] by blast
  then show ?thesis by (simp add: shop_service_def)
qed

end
