(* ===== verification/Crm.thy ===== *)
theory Crm
  imports Auth_Store
begin

text \<open>
  Contacts with their tags and notes: the tables of \<open>gormCRMRepository\<close> (\<open>internal/repository/gorm.go\<close>) and the
  service over them (\<open>internal/crm/service.go\<close>). The parameters \<open>crm_env\<close> are the database's: which texts are a uuid,
  its \<open>lower\<close>, and the ids the library makes. Sizes of columns are not modelled.
\<close>

section \<open>Tables\<close>

record Contact_row =
  co_id :: string
  co_tenant_id :: string
  co_phone :: string
  co_name :: string
  co_email :: string
  co_instance_id :: string
  co_created_at :: time

record Tag =
  tg_id :: string
  tg_tenant_id :: string
  tg_name :: string
  tg_color :: string

record Note =
  nt_id :: string
  nt_tenant_id :: string
  nt_contact_id :: string
  nt_body :: string

text \<open>A contact as \<open>Preload\<close> gives it.\<close>

record loaded_contact =
  lc_contact :: Contact_row
  lc_tags :: "Tag list"
  lc_notes :: "Note list"

record crm_db =
  cd_contacts :: "Contact_row list"
  cd_tags :: "Tag list"
  cd_notes :: "Note list"
  cd_contact_tags :: "(string \<times> string) list"
  cd_made :: nat
  cd_outage :: "go_error option"

record crm_env =
  ce_uuid_ok :: "string \<Rightarrow> bool"
  ce_lower :: "string \<Rightarrow> string"
  ce_new_id :: "nat \<Rightarrow> string"

definition bad_uuid :: go_error where "bad_uuid = plain_error ''invalid input syntax for type uuid''"

text \<open>The id that \<open>BeforeCreate\<close> gives to the next row.\<close>

definition new_id :: "crm_env \<Rightarrow> crm_db \<Rightarrow> string \<times> crm_db" where
  "new_id en db = (ce_new_id en (cd_made db), db\<lparr>cd_made := Suc (cd_made db)\<rparr>)"

definition preload :: "crm_db \<Rightarrow> Contact_row \<Rightarrow> loaded_contact" where
  "preload db c =
     \<lparr>lc_contact = c, lc_tags = filter (\<lambda>t. (co_id c, tg_id t) \<in> set (cd_contact_tags db)) (cd_tags db),
      lc_notes = filter (\<lambda>n. nt_contact_id n = co_id c) (cd_notes db)\<rparr>"

section \<open>The repository\<close>

definition crm_CreateContact :: "crm_env \<Rightarrow> Contact_row \<Rightarrow> crm_db \<Rightarrow> (go_error + Contact_row) \<times> crm_db" where
  "crm_CreateContact en contact db =
     (case new_id en db of (n, db) \<Rightarrow>
        let c = contact\<lparr>co_id := n\<rparr> in
        (case cd_outage db of
           Some e \<Rightarrow> (Inl e, db)
         | None \<Rightarrow>
             if \<not> ce_uuid_ok en (co_instance_id c) then (Inl bad_uuid, db)
             else if \<exists>x \<in> set (cd_contacts db). co_id x = co_id c \<or> co_tenant_id x = co_tenant_id c \<and> co_phone x = co_phone c
             then (Inl duplicate_key, db)
             else (Inr c, db\<lparr>cd_contacts := cd_contacts db @ [c]\<rparr>)))"

definition first_contact :: "crm_env \<Rightarrow> string \<Rightarrow> string \<Rightarrow> crm_db \<Rightarrow> go_error + Contact_row" where
  "first_contact en tenantID contactID db =
     (if \<not> ce_uuid_ok en contactID then Inl (case cd_outage db of Some e \<Rightarrow> e | None \<Rightarrow> bad_uuid)
      else gorm_first (cd_outage db) co_id (\<lambda>c. co_tenant_id c = tenantID \<and> co_id c = contactID) (cd_contacts db))"

definition crm_GetContact :: "crm_env \<Rightarrow> string \<Rightarrow> string \<Rightarrow> crm_db \<Rightarrow> go_error + loaded_contact" where
  "crm_GetContact en tenantID contactID db = map_sum id (preload db) (first_contact en tenantID contactID db)"

text \<open>The newest come first.\<close>

definition crm_ListContacts :: "string \<Rightarrow> crm_db \<Rightarrow> go_error + loaded_contact list" where
  "crm_ListContacts tenantID db =
     (case cd_outage db of
        Some e \<Rightarrow> Inl e
      | None \<Rightarrow> Inr (map (preload db) (sort_key (\<lambda>c. - co_created_at c) (filter (\<lambda>c. co_tenant_id c = tenantID) (cd_contacts db)))))"

definition crm_CountContactsByTenant :: "string \<Rightarrow> crm_db \<Rightarrow> go_error + nat" where
  "crm_CountContactsByTenant tenantID db =
     (case cd_outage db of Some e \<Rightarrow> Inl e | None \<Rightarrow> Inr (length (filter (\<lambda>c. co_tenant_id c = tenantID) (cd_contacts db))))"

text \<open>\<open>Save\<close> of a contact that was loaded: its tags and notes are written as they were read.\<close>

definition crm_UpdateContact :: "crm_env \<Rightarrow> Contact_row \<Rightarrow> crm_db \<Rightarrow> go_error option \<times> crm_db" where
  "crm_UpdateContact en c db =
     (case cd_outage db of
        Some e \<Rightarrow> (Some e, db)
      | None \<Rightarrow>
          if \<not> ce_uuid_ok en (co_instance_id c) then (Some bad_uuid, db)
          else if \<exists>x \<in> set (cd_contacts db). co_id x \<noteq> co_id c \<and> co_tenant_id x = co_tenant_id c \<and> co_phone x = co_phone c
          then (Some duplicate_key, db)
          else (None, db\<lparr>cd_contacts := map (\<lambda>x. if co_id x = co_id c then c else x) (cd_contacts db)\<rparr>))"

definition crm_FindContactByPhone :: "string \<Rightarrow> string \<Rightarrow> crm_db \<Rightarrow> go_error + Contact_row" where
  "crm_FindContactByPhone tenantID phone db =
     gorm_first (cd_outage db) co_id (\<lambda>c. co_tenant_id c = tenantID \<and> co_phone c = phone) (cd_contacts db)"

definition crm_CreateTag :: "crm_env \<Rightarrow> Tag \<Rightarrow> crm_db \<Rightarrow> (go_error + Tag) \<times> crm_db" where
  "crm_CreateTag en tag db =
     (case new_id en db of (n, db) \<Rightarrow>
        let t = tag\<lparr>tg_id := n\<rparr> in
        (case cd_outage db of
           Some e \<Rightarrow> (Inl e, db)
         | None \<Rightarrow>
             if \<exists>x \<in> set (cd_tags db). tg_id x = tg_id t \<or> tg_tenant_id x = tg_tenant_id t \<and> tg_name x = tg_name t
             then (Inl duplicate_key, db)
             else (Inr t, db\<lparr>cd_tags := cd_tags db @ [t]\<rparr>)))"

definition crm_FindTagByName :: "crm_env \<Rightarrow> string \<Rightarrow> string \<Rightarrow> crm_db \<Rightarrow> go_error + Tag" where
  "crm_FindTagByName en tenantID name db =
     gorm_first (cd_outage db) tg_id (\<lambda>t. tg_tenant_id t = tenantID \<and> ce_lower en (tg_name t) = ce_lower en name) (cd_tags db)"

definition crm_AssignTags :: "crm_env \<Rightarrow> string \<Rightarrow> string \<Rightarrow> string list \<Rightarrow> crm_db \<Rightarrow> go_error option \<times> crm_db" where
  "crm_AssignTags en tenantID contactID tagIDs db =
     (case first_contact en tenantID contactID db of
        Inl e \<Rightarrow> (Some e, db)
      | Inr c \<Rightarrow>
          (let tags = filter (\<lambda>t. tg_tenant_id t = tenantID \<and> tg_id t \<in> set tagIDs) (cd_tags db) in
           (None, db\<lparr>cd_contact_tags :=
              filter (\<lambda>p. fst p \<noteq> co_id c) (cd_contact_tags db) @ map (\<lambda>t. (co_id c, tg_id t)) tags\<rparr>)))"

definition crm_CreateNote :: "crm_env \<Rightarrow> Note \<Rightarrow> crm_db \<Rightarrow> (go_error + Note) \<times> crm_db" where
  "crm_CreateNote en note db =
     (case new_id en db of (n, db) \<Rightarrow>
        let m = note\<lparr>nt_id := n\<rparr> in
        (case cd_outage db of
           Some e \<Rightarrow> (Inl e, db)
         | None \<Rightarrow>
             if \<exists>x \<in> set (cd_notes db). nt_id x = nt_id m then (Inl duplicate_key, db)
             else (Inr m, db\<lparr>cd_notes := cd_notes db @ [m]\<rparr>)))"

section \<open>Texts\<close>

definition normalizePhone :: "string \<Rightarrow> string" where "normalizePhone phone = filter is_digit phone"

text \<open>The code points of a text, as \<open>range\<close> reads them: a byte that starts none counts as U+FFFD.\<close>

definition continues :: "nat \<Rightarrow> bool" where "continues b \<longleftrightarrow> 128 \<le> b \<and> b < 192"

definition second_ok :: "nat \<Rightarrow> nat \<Rightarrow> bool" where
  "second_ok b c \<longleftrightarrow> continues c \<and> (b = 224 \<longrightarrow> 160 \<le> c) \<and> (b = 237 \<longrightarrow> c < 160) \<and> (b = 240 \<longrightarrow> 144 \<le> c) \<and> (b = 244 \<longrightarrow> c < 144)"

definition rune :: "nat list \<Rightarrow> nat \<times> nat" where
  "rune bs =
     (case bs of
        [] \<Rightarrow> (65533, 0)
      | b # cs \<Rightarrow>
          if b < 128 then (b, 1)
          else if 194 \<le> b \<and> b < 224 \<and> cs \<noteq> [] \<and> continues (cs ! 0) then ((b mod 32) * 64 + cs ! 0 mod 64, 2)
          else if 224 \<le> b \<and> b < 240 \<and> 2 \<le> length cs \<and> second_ok b (cs ! 0) \<and> continues (cs ! 1) then
            ((b mod 16) * 4096 + (cs ! 0 mod 64) * 64 + cs ! 1 mod 64, 3)
          else if 240 \<le> b \<and> b < 245 \<and> 3 \<le> length cs \<and> second_ok b (cs ! 0) \<and> continues (cs ! 1) \<and> continues (cs ! 2) then
            ((b mod 8) * 262144 + (cs ! 0 mod 64) * 4096 + (cs ! 1 mod 64) * 64 + cs ! 2 mod 64, 4)
          else (65533, 1))"

lemma rune_advances: "0 < snd (rune (b # bs))"
  by (simp add: rune_def)

function runes :: "nat list \<Rightarrow> nat list" where
  "runes bs = (if bs = [] then [] else fst (rune bs) # runes (drop (snd (rune bs)) bs))"
  by pat_completeness auto

termination
proof (relation "measure length")
  fix bs :: "nat list" assume "bs \<noteq> []"
  then show "(drop (snd (rune bs)) bs, bs) \<in> measure length" using rune_advances by (cases bs) (simp_all add: diff_less)
qed simp

declare runes.simps [simp del]

definition defaultTagColor :: "string \<Rightarrow> string" where
  "defaultTagColor tag =
     [''slate'', ''blue'', ''green'', ''amber'', ''rose'', ''violet''] ! (sum_list (runes (map of_char tag)) mod 6)"

definition crm_isNotFound :: "go_error \<Rightarrow> bool" where
  "crm_isNotFound err \<longleftrightarrow> contains (to_lower (err_text err)) ''not found''"

section \<open>The service\<close>

record CreateContactInput =
  cc_name :: string
  cc_phone :: string
  cc_email :: string
  cc_instance_id :: string
  cc_tags :: "string list option"
  cc_notes :: "string list"

record UpdateContactInput =
  uc_name :: string
  uc_phone :: string
  uc_email :: string
  uc_instance_id :: string
  uc_tags :: "string list option"

definition crm_Get :: "crm_env \<Rightarrow> string \<Rightarrow> string \<Rightarrow> crm_db \<Rightarrow> go_error + loaded_contact" where
  "crm_Get en tenantID contactID db =
     (case crm_GetContact en tenantID contactID db of
        Inl _ \<Rightarrow> Inl (wrap ErrNotFound ''contact not found'')
      | Inr c \<Rightarrow> Inr c)"

definition AddNote ::
  "crm_env \<Rightarrow> string \<Rightarrow> string \<Rightarrow> string \<Rightarrow> crm_db \<Rightarrow> (go_error + Note) \<times> crm_db" where
  "AddNote en tenantID contactID body db =
     (if trim_space body = [] then (Inl (wrap ErrValidation ''note body is required''), db)
      else case crm_Get en tenantID contactID db of
        Inl e \<Rightarrow> (Inl e, db)
      | Inr _ \<Rightarrow>
          crm_CreateNote en \<lparr>nt_id = [], nt_tenant_id = tenantID, nt_contact_id = contactID, nt_body = trim_space body\<rparr> db)"

fun add_notes :: "crm_env \<Rightarrow> string \<Rightarrow> string \<Rightarrow> string list \<Rightarrow> crm_db \<Rightarrow> go_error option \<times> crm_db" where
  "add_notes en tenantID contactID [] db = (None, db)"
| "add_notes en tenantID contactID (body # notes) db =
     (case AddNote en tenantID contactID body db of
        (Inl e, db) \<Rightarrow> (Some e, db)
      | (Inr _, db) \<Rightarrow> add_notes en tenantID contactID notes db)"

text \<open>The tag of a name, made when there is none.\<close>

definition tag_of :: "crm_env \<Rightarrow> string \<Rightarrow> string \<Rightarrow> crm_db \<Rightarrow> (go_error + Tag) \<times> crm_db" where
  "tag_of en tenantID name db =
     (case crm_FindTagByName en tenantID name db of
        Inr t \<Rightarrow> (Inr t, db)
      | Inl e \<Rightarrow>
          if \<not> crm_isNotFound e then (Inl e, db)
          else crm_CreateTag en \<lparr>tg_id = [], tg_tenant_id = tenantID, tg_name = name, tg_color = defaultTagColor name\<rparr> db)"

fun tag_ids :: "crm_env \<Rightarrow> string \<Rightarrow> string list \<Rightarrow> crm_db \<Rightarrow> (go_error + string list) \<times> crm_db" where
  "tag_ids en tenantID [] db = (Inr [], db)"
| "tag_ids en tenantID (rawTag # tags) db =
     (if trim_space rawTag = [] then tag_ids en tenantID tags db
      else case tag_of en tenantID (trim_space rawTag) db of
        (Inl e, db) \<Rightarrow> (Inl e, db)
      | (Inr t, db) \<Rightarrow>
          (case tag_ids en tenantID tags db of
             (Inl e, db) \<Rightarrow> (Inl e, db)
           | (Inr ids, db) \<Rightarrow> (Inr (tg_id t # ids), db)))"

text \<open>\<open>None\<close> is the nil slice.\<close>

definition replaceTags ::
  "crm_env \<Rightarrow> string \<Rightarrow> string \<Rightarrow> string list option \<Rightarrow> crm_db \<Rightarrow> go_error option \<times> crm_db" where
  "replaceTags en tenantID contactID tags db =
     (case tags of
        None \<Rightarrow> (None, db)
      | Some tags \<Rightarrow>
          (case tag_ids en tenantID tags db of
             (Inl e, db) \<Rightarrow> (Some e, db)
           | (Inr ids, db) \<Rightarrow> crm_AssignTags en tenantID contactID ids db))"

text \<open>Whether a phone is free for a contact, or for a new one.\<close>

definition phone_free :: "string \<Rightarrow> string \<Rightarrow> string option \<Rightarrow> crm_db \<Rightarrow> go_error option" where
  "phone_free tenantID phone contactID db =
     (case crm_FindContactByPhone tenantID phone db of
        Inr x \<Rightarrow> if Some (co_id x) \<noteq> contactID then Some (wrap ErrConflict ''contact already exists for phone'') else None
      | Inl e \<Rightarrow> if \<not> crm_isNotFound e then Some e else None)"

definition CreateContact ::
  "crm_env \<Rightarrow> time \<Rightarrow> string \<Rightarrow> CreateContactInput \<Rightarrow> crm_db \<Rightarrow> (go_error + loaded_contact) \<times> crm_db" where
  "CreateContact en now tenantID input db =
     (let phone = normalizePhone (cc_phone input) in
      if tenantID = [] \<or> trim_space (cc_name input) = [] \<or> trim_space (cc_phone input) = [] then
        (Inl (wrap ErrValidation ''name and phone are required''), db)
      else if phone = [] then (Inl (wrap ErrValidation ''phone must contain digits''), db)
      else case phone_free tenantID phone None db of
        Some e \<Rightarrow> (Inl e, db)
      | None \<Rightarrow>
          (case crm_CreateContact en
               \<lparr>co_id = [], co_tenant_id = tenantID, co_phone = phone, co_name = trim_space (cc_name input),
                co_email = to_lower (trim_space (cc_email input)), co_instance_id = trim_space (cc_instance_id input),
                co_created_at = now\<rparr> db of
             (Inl e, db) \<Rightarrow> (Inl e, db)
           | (Inr c, db) \<Rightarrow>
               (case replaceTags en tenantID (co_id c) (cc_tags input) db of
                  (Some e, db) \<Rightarrow> (Inl e, db)
                | (None, db) \<Rightarrow>
                    (case add_notes en tenantID (co_id c) (cc_notes input) db of
                       (Some e, db) \<Rightarrow> (Inl e, db)
                     | (None, db) \<Rightarrow> (crm_Get en tenantID (co_id c) db, db)))))"

text \<open>The columns an update gives, the phone apart; an empty one is left as it is.\<close>

definition updated_columns :: "UpdateContactInput \<Rightarrow> Contact_row \<Rightarrow> Contact_row" where
  "updated_columns input c =
     c\<lparr>co_name := (if uc_name input \<noteq> [] then trim_space (uc_name input) else co_name c),
       co_email := (if uc_email input \<noteq> [] then to_lower (trim_space (uc_email input)) else co_email c),
       co_instance_id := (if uc_instance_id input \<noteq> [] then trim_space (uc_instance_id input) else co_instance_id c)\<rparr>"

definition updated_phone :: "string \<Rightarrow> string \<Rightarrow> Contact_row \<Rightarrow> crm_db \<Rightarrow> go_error + Contact_row" where
  "updated_phone tenantID phone c db =
     (if phone = [] then Inr c
      else if normalizePhone phone = [] then Inl (wrap ErrValidation ''phone must contain digits'')
      else case phone_free tenantID (normalizePhone phone) (Some (co_id c)) db of
        Some e \<Rightarrow> Inl e
      | None \<Rightarrow> Inr (c\<lparr>co_phone := normalizePhone phone\<rparr>))"

definition UpdateContact ::
  "crm_env \<Rightarrow> string \<Rightarrow> string \<Rightarrow> UpdateContactInput \<Rightarrow> crm_db \<Rightarrow> (go_error + loaded_contact) \<times> crm_db" where
  "UpdateContact en tenantID contactID input db =
     (case crm_Get en tenantID contactID db of
        Inl e \<Rightarrow> (Inl e, db)
      | Inr l \<Rightarrow>
          (case updated_phone tenantID (uc_phone input) (lc_contact l) db of
             Inl e \<Rightarrow> (Inl e, db)
           | Inr c \<Rightarrow>
               (case crm_UpdateContact en (updated_columns input c) db of
                  (Some e, db) \<Rightarrow> (Inl e, db)
                | (None, db) \<Rightarrow>
                    (case replaceTags en tenantID (co_id c) (uc_tags input) db of
                       (Some e, db) \<Rightarrow> (Inl e, db)
                     | (None, db) \<Rightarrow> (crm_Get en tenantID (co_id c) db, db)))))"

definition AssignTags ::
  "crm_env \<Rightarrow> string \<Rightarrow> string \<Rightarrow> string list option \<Rightarrow> crm_db \<Rightarrow> (go_error + loaded_contact) \<times> crm_db" where
  "AssignTags en tenantID contactID tags db =
     (case crm_Get en tenantID contactID db of
        Inl e \<Rightarrow> (Inl e, db)
      | Inr _ \<Rightarrow>
          (case replaceTags en tenantID contactID tags db of
             (Some e, db) \<Rightarrow> (Inl e, db)
           | (None, db) \<Rightarrow> (crm_Get en tenantID contactID db, db)))"

end
