(* ===== verification/Crm_System.thy ===== *)
theory Crm_System
  imports Crm
begin

text \<open>
  What holds of contacts, tags and notes: the invariant every operation of the service keeps, that a tenant's
  operations do not show in another's contacts, what a new contact looks like, and where a failure leaves it.
\<close>

section \<open>The invariant\<close>

definition contacts_ok :: "Contact_row list \<Rightarrow> bool" where
  "contacts_ok cs \<longleftrightarrow> distinct (map co_id cs) \<and> distinct (map (\<lambda>c. (co_tenant_id c, co_phone c)) cs) \<and>
     (\<forall>c \<in> set cs. co_phone c \<noteq> [] \<and> list_all is_digit (co_phone c))"

definition tags_ok :: "crm_env \<Rightarrow> Tag list \<Rightarrow> bool" where
  "tags_ok en ts \<longleftrightarrow> distinct (map tg_id ts) \<and> distinct (map (\<lambda>t. (tg_tenant_id t, ce_lower en (tg_name t))) ts) \<and>
     (\<forall>t \<in> set ts. trimmed (tg_name t) \<and> tg_name t \<noteq> [])"

definition links_ok :: "crm_db \<Rightarrow> bool" where
  "links_ok db \<longleftrightarrow> (\<forall>p \<in> set (cd_contact_tags db). \<exists>c \<in> set (cd_contacts db). \<exists>t \<in> set (cd_tags db).
     p = (co_id c, tg_id t) \<and> tg_tenant_id t = co_tenant_id c)"

definition notes_ok :: "crm_db \<Rightarrow> bool" where
  "notes_ok db \<longleftrightarrow> (\<forall>n \<in> set (cd_notes db). trimmed (nt_body n) \<and> nt_body n \<noteq> [] \<and>
     (\<exists>c \<in> set (cd_contacts db). nt_contact_id n = co_id c \<and> nt_tenant_id n = co_tenant_id c))"

definition crm_ok :: "crm_env \<Rightarrow> crm_db \<Rightarrow> bool" where
  "crm_ok en db \<longleftrightarrow> contacts_ok (cd_contacts db) \<and> tags_ok en (cd_tags db) \<and> links_ok db \<and> notes_ok db"

text \<open>Nothing of other tenants is touched.\<close>

definition only_of :: "string \<Rightarrow> crm_db \<Rightarrow> crm_db \<Rightarrow> bool" where
  "only_of u db db' \<longleftrightarrow> cd_outage db' = cd_outage db \<and>
     filter (\<lambda>c. co_tenant_id c \<noteq> u) (cd_contacts db') = filter (\<lambda>c. co_tenant_id c \<noteq> u) (cd_contacts db) \<and>
     filter (\<lambda>t. tg_tenant_id t \<noteq> u) (cd_tags db') = filter (\<lambda>t. tg_tenant_id t \<noteq> u) (cd_tags db) \<and>
     filter (\<lambda>n. nt_tenant_id n \<noteq> u) (cd_notes db') = filter (\<lambda>n. nt_tenant_id n \<noteq> u) (cd_notes db) \<and>
     (\<forall>c \<in> set (cd_contacts db). co_tenant_id c \<noteq> u \<longrightarrow>
        (\<forall>x. (co_id c, x) \<in> set (cd_contact_tags db') \<longleftrightarrow> (co_id c, x) \<in> set (cd_contact_tags db)))"

lemma only_of_refl [simp]: "only_of u db db" by (simp add: only_of_def)

lemma others_same:
  assumes "filter P xs = filter P ys" and "x \<in> set xs" and "P x"
  shows "x \<in> set ys"
proof -
  have "x \<in> set (filter P xs)" using assms(2,3) by simp
  then show ?thesis unfolding assms(1) by simp
qed

lemma only_of_trans:
  assumes "only_of u db db1" and "only_of u db1 db2"
  shows "only_of u db db2"
proof -
  have "c \<in> set (cd_contacts db1)" if "c \<in> set (cd_contacts db)" "co_tenant_id c \<noteq> u" for c
    using others_same [of "\<lambda>c. co_tenant_id c \<noteq> u" "cd_contacts db" "cd_contacts db1" c] assms(1) that
    by (simp add: only_of_def)
  then show ?thesis using assms by (simp add: only_of_def)
qed

definition keeps :: "crm_env \<Rightarrow> string \<Rightarrow> crm_db \<Rightarrow> crm_db \<Rightarrow> bool" where
  "keeps en u db db' \<longleftrightarrow> crm_ok en db' \<and> only_of u db db' \<and>
     (\<forall>c \<in> set (cd_contacts db). \<exists>c' \<in> set (cd_contacts db'). co_id c' = co_id c \<and> co_tenant_id c' = co_tenant_id c)"

lemma keeps_refl: "crm_ok en db \<Longrightarrow> keeps en u db db"
  by (auto simp: keeps_def)

lemma keeps_trans: "keeps en u db db1 \<Longrightarrow> keeps en u db1 db2 \<Longrightarrow> keeps en u db db2"
  unfolding keeps_def using only_of_trans by metis

lemma keeps_ok: "keeps en u db db' \<Longrightarrow> crm_ok en db'" by (simp add: keeps_def)

text \<open>The counter of ids is no part of it.\<close>

lemma made_ok [simp]: "crm_ok en (db\<lparr>cd_made := k\<rparr>) = crm_ok en db"
  by (simp add: crm_ok_def links_ok_def notes_ok_def)

lemma keeps_made: "crm_ok en db \<Longrightarrow> keeps en u db (db\<lparr>cd_made := k\<rparr>)"
  by (auto simp: keeps_def only_of_def)

lemma new_id_eq: "new_id en db = (n, db') \<Longrightarrow> db' = db\<lparr>cd_made := Suc (cd_made db)\<rparr>"
  by (simp add: new_id_def)

section \<open>The statements\<close>

lemma first_contact_Inr:
  "first_contact en u n db = Inr c \<Longrightarrow> c \<in> set (cd_contacts db) \<and> co_tenant_id c = u \<and> co_id c = n \<and> cd_outage db = None"
  by (auto simp: first_contact_def gorm_first_def split: if_splits option.splits dest: find_Some_mem)

lemma crm_Get_Inr:
  "crm_Get en u n db = Inr l \<Longrightarrow> first_contact en u n db = Inr (lc_contact l) \<and> l = preload db (lc_contact l)"
  by (cases "first_contact en u n db") (auto simp: crm_Get_def crm_GetContact_def preload_def)

lemma crm_CreateContact_keeps:
  assumes "crm_CreateContact en c db = (r, db')" and "crm_ok en db" and "co_phone c \<noteq> []" and "list_all is_digit (co_phone c)"
  shows "keeps en (co_tenant_id c) db db' \<and> (\<forall>x. r = Inr x \<longrightarrow> x \<in> set (cd_contacts db') \<and> co_tenant_id x = co_tenant_id c \<and>
    x = c\<lparr>co_id := co_id x\<rparr> \<and> co_id x \<notin> co_id ` set (cd_contacts db) \<and> cd_contacts db' = cd_contacts db @ [x] \<and>
    cd_contact_tags db' = cd_contact_tags db \<and> cd_notes db' = cd_notes db \<and> cd_tags db' = cd_tags db)"
proof -
  obtain n d where n: "new_id en db = (n, d)" by (rule prod.exhaust)
  have d: "d = db\<lparr>cd_made := Suc (cd_made db)\<rparr>" by (rule new_id_eq [OF n])
  let ?x = "c\<lparr>co_id := n\<rparr>"
  have none: "keeps en (co_tenant_id c) db d" using keeps_made [OF assms(2)] d by simp
  show ?thesis
  proof (cases r)
    case (Inl e)
    then have "db' = d" using assms(1) n by (auto simp: crm_CreateContact_def Let_def split: option.splits if_splits)
    then show ?thesis using none Inl by simp
  next
    case (Inr x)
    then have x: "x = ?x" "db' = d\<lparr>cd_contacts := cd_contacts d @ [?x]\<rparr>"
      and new: "\<forall>y \<in> set (cd_contacts d). co_id y \<noteq> n \<and> (co_tenant_id y = co_tenant_id c \<longrightarrow> co_phone y \<noteq> co_phone c)"
      using assms(1) n by (auto simp: crm_CreateContact_def Let_def split: option.splits if_splits)
    have "crm_ok en db'" using assms(2-4) new unfolding x d
      by (fastforce simp: crm_ok_def contacts_ok_def links_ok_def notes_ok_def)
    moreover have "only_of (co_tenant_id c) db db'" unfolding x d by (simp add: only_of_def)
    ultimately show ?thesis using Inr new unfolding keeps_def x d by auto
  qed
qed

lemma crm_UpdateContact_keeps:
  assumes "crm_UpdateContact en c db = (r, db')" and "crm_ok en db" and "co_phone c \<noteq> []" and "list_all is_digit (co_phone c)"
    and "x \<in> set (cd_contacts db)" and "co_id x = co_id c" and "co_tenant_id x = co_tenant_id c"
  shows "keeps en (co_tenant_id c) db db'"
proof (cases r)
  case (Some e)
  then have "db' = db" using assms(1) by (auto simp: crm_UpdateContact_def split: option.splits if_splits)
  then show ?thesis using keeps_refl [OF assms(2)] by simp
next
  case None
  let ?f = "\<lambda>y. if co_id y = co_id c then c else y"
  have db': "db' = db\<lparr>cd_contacts := map ?f (cd_contacts db)\<rparr>"
    and free: "\<forall>y \<in> set (cd_contacts db). co_id y \<noteq> co_id c \<longrightarrow> co_tenant_id y = co_tenant_id c \<longrightarrow> co_phone y \<noteq> co_phone c"
    using None assms(1) by (auto simp: crm_UpdateContact_def split: option.splits if_splits)
  have cs: "contacts_ok (cd_contacts db)" using assms(2) by (simp add: crm_ok_def)
  then have inj: "inj_on co_id (set (cd_contacts db))" by (simp add: contacts_ok_def distinct_map)
  have same: "co_tenant_id (?f y) = co_tenant_id y \<and> co_id (?f y) = co_id y" if "y \<in> set (cd_contacts db)" for y
    using inj_onD [OF inj _ that assms(5)] assms(6,7) by auto
  have ids: "map co_id (map ?f (cd_contacts db)) = map co_id (cd_contacts db)" by simp
  have d1: "distinct (map co_id (map ?f (cd_contacts db)))" unfolding ids using cs by (simp add: contacts_ok_def)
  have "inj_on (\<lambda>y. (co_tenant_id (?f y), co_phone (?f y))) (set (cd_contacts db))"
    using cs free inj unfolding contacts_ok_def distinct_map by (auto simp: inj_on_def)
  moreover have "distinct (cd_contacts db)" using cs by (simp add: contacts_ok_def distinct_map)
  ultimately have d2: "distinct (map (\<lambda>y. (co_tenant_id y, co_phone y)) (map ?f (cd_contacts db)))"
    by (simp add: distinct_map o_def)
  have "\<forall>y \<in> set (map ?f (cd_contacts db)). co_phone y \<noteq> [] \<and> list_all is_digit (co_phone y)"
    using cs assms(3,4) by (auto simp: contacts_ok_def)
  with d1 d2 have "contacts_ok (map ?f (cd_contacts db))" unfolding contacts_ok_def by blast
  moreover have "links_ok db'"
  proof -
    have "\<exists>c' \<in> set (map ?f (cd_contacts db)). \<exists>t \<in> set (cd_tags db). p = (co_id c', tg_id t) \<and> tg_tenant_id t = co_tenant_id c'"
      if "p \<in> set (cd_contact_tags db)" for p
    proof -
      obtain y t where "y \<in> set (cd_contacts db)" "t \<in> set (cd_tags db)" "p = (co_id y, tg_id t)" "tg_tenant_id t = co_tenant_id y"
        using \<open>p \<in> _\<close> assms(2) by (auto simp: crm_ok_def links_ok_def)
      then show ?thesis using same [of y] by (intro bexI [of _ "?f y"] bexI [of _ t]) simp_all
    qed
    then show ?thesis by (simp add: links_ok_def db')
  qed
  moreover have "notes_ok db'"
  proof -
    have "\<exists>c' \<in> set (map ?f (cd_contacts db)). nt_contact_id m = co_id c' \<and> nt_tenant_id m = co_tenant_id c'"
      if m: "m \<in> set (cd_notes db)" for m
    proof -
      obtain y where "y \<in> set (cd_contacts db)" "nt_contact_id m = co_id y" "nt_tenant_id m = co_tenant_id y"
        using m assms(2) unfolding crm_ok_def notes_ok_def by blast
      then show ?thesis using same [of y] by (intro bexI [of _ "?f y"]) simp_all
    qed
    then show ?thesis using assms(2) by (simp add: crm_ok_def notes_ok_def db')
  qed
  moreover have "filter (\<lambda>y. co_tenant_id y \<noteq> co_tenant_id c) (map ?f (cd_contacts db)) =
      filter (\<lambda>y. co_tenant_id y \<noteq> co_tenant_id c) (cd_contacts db)"
  proof -
    have "filter (\<lambda>y. co_tenant_id y \<noteq> co_tenant_id c) (map ?f ys) = filter (\<lambda>y. co_tenant_id y \<noteq> co_tenant_id c) ys"
      if "\<forall>y \<in> set ys. co_id y = co_id c \<longrightarrow> co_tenant_id y = co_tenant_id c" for ys
      using that by (induction ys) auto
    moreover have "\<forall>y \<in> set (cd_contacts db). co_id y = co_id c \<longrightarrow> co_tenant_id y = co_tenant_id c"
      using same by (metis (full_types))
    ultimately show ?thesis by blast
  qed
  moreover have "\<exists>c' \<in> set (map ?f (cd_contacts db)). co_id c' = co_id y \<and> co_tenant_id c' = co_tenant_id y"
    if "y \<in> set (cd_contacts db)" for y
    using same [OF that] that by (intro bexI [of _ "?f y"]) simp_all
  ultimately show ?thesis using assms(2) by (simp add: keeps_def only_of_def crm_ok_def db')
qed

lemma crm_CreateTag_keeps:
  assumes "crm_CreateTag en t db = (r, db')" and "crm_ok en db" and "trimmed (tg_name t)" and "tg_name t \<noteq> []"
    and "\<forall>x \<in> set (cd_tags db). tg_tenant_id x = tg_tenant_id t \<longrightarrow> ce_lower en (tg_name x) \<noteq> ce_lower en (tg_name t)"
  shows "keeps en (tg_tenant_id t) db db' \<and> cd_contacts db' = cd_contacts db \<and> cd_notes db' = cd_notes db \<and>
    cd_contact_tags db' = cd_contact_tags db \<and>
    (\<forall>x. r = Inr x \<longrightarrow> tg_tenant_id x = tg_tenant_id t \<and> tg_name x = tg_name t \<and> cd_tags db' = cd_tags db @ [x])"
proof -
  obtain n d where n: "new_id en db = (n, d)" by (rule prod.exhaust)
  have d: "d = db\<lparr>cd_made := Suc (cd_made db)\<rparr>" by (rule new_id_eq [OF n])
  let ?x = "t\<lparr>tg_id := n\<rparr>"
  show ?thesis
  proof (cases r)
    case (Inl e)
    then have "db' = d" using assms(1) n by (auto simp: crm_CreateTag_def Let_def split: option.splits if_splits)
    then show ?thesis using keeps_made [OF assms(2)] d Inl by simp
  next
    case (Inr x)
    then have x: "x = ?x" "db' = d\<lparr>cd_tags := cd_tags d @ [?x]\<rparr>" and new: "\<forall>y \<in> set (cd_tags d). tg_id y \<noteq> n"
      using assms(1) n by (auto simp: crm_CreateTag_def Let_def split: option.splits if_splits)
    have "crm_ok en db'" using assms(2-5) new unfolding x d
      by (fastforce simp: crm_ok_def tags_ok_def links_ok_def notes_ok_def)
    moreover have "only_of (tg_tenant_id t) db db'" unfolding x d by (simp add: only_of_def)
    ultimately show ?thesis using Inr unfolding keeps_def x d by auto
  qed
qed

lemma crm_AssignTags_keeps:
  assumes "crm_AssignTags en u n ids db = (r, db')" and "crm_ok en db"
  shows "keeps en u db db'"
proof (cases "first_contact en u n db")
  case (Inr c)
  note c = first_contact_Inr [OF Inr]
  have db': "db' = db\<lparr>cd_contact_tags := filter (\<lambda>p. fst p \<noteq> co_id c) (cd_contact_tags db) @
      map (\<lambda>t. (co_id c, tg_id t)) (filter (\<lambda>t. tg_tenant_id t = u \<and> tg_id t \<in> set ids) (cd_tags db))\<rparr>"
    using assms(1) Inr by (simp add: crm_AssignTags_def Let_def)
  have "links_ok db'" using assms(2) c unfolding db' by (auto simp: crm_ok_def links_ok_def)
  then have "crm_ok en db'" using assms(2) by (simp add: crm_ok_def notes_ok_def db')
  moreover have "co_id x \<noteq> co_id c" if "x \<in> set (cd_contacts db)" "co_tenant_id x \<noteq> u" for x
    using that c assms(2) by (auto simp: crm_ok_def contacts_ok_def distinct_map dest: inj_onD)
  ultimately show ?thesis by (auto simp: keeps_def only_of_def db')
qed (use assms in \<open>simp add: crm_AssignTags_def keeps_refl\<close>)

lemma crm_CreateNote_keeps:
  assumes "crm_CreateNote en m db = (r, db')" and "crm_ok en db" and "trimmed (nt_body m)" and "nt_body m \<noteq> []"
    and "c \<in> set (cd_contacts db)" and "nt_contact_id m = co_id c" and "nt_tenant_id m = co_tenant_id c"
  shows "keeps en (nt_tenant_id m) db db' \<and> cd_contacts db' = cd_contacts db \<and> cd_tags db' = cd_tags db \<and>
    cd_contact_tags db' = cd_contact_tags db \<and>
    (\<forall>x. r = Inr x \<longrightarrow> nt_contact_id x = nt_contact_id m \<and> nt_body x = nt_body m \<and> cd_notes db' = cd_notes db @ [x])"
proof -
  obtain n d where n: "new_id en db = (n, d)" by (rule prod.exhaust)
  have d: "d = db\<lparr>cd_made := Suc (cd_made db)\<rparr>" by (rule new_id_eq [OF n])
  show ?thesis
  proof (cases r)
    case (Inl e)
    then have "db' = d" using assms(1) n by (auto simp: crm_CreateNote_def Let_def split: option.splits if_splits)
    then show ?thesis using keeps_made [OF assms(2)] d Inl by simp
  next
    case (Inr x)
    then have x: "x = m\<lparr>nt_id := n\<rparr>" "db' = d\<lparr>cd_notes := cd_notes d @ [m\<lparr>nt_id := n\<rparr>]\<rparr>"
      using assms(1) n by (auto simp: crm_CreateNote_def Let_def split: option.splits if_splits)
    have "crm_ok en db'" using assms(2-7) unfolding x d
      by (auto simp: crm_ok_def links_ok_def notes_ok_def)
    moreover have "only_of (nt_tenant_id m) db db'" unfolding x d by (simp add: only_of_def)
    ultimately show ?thesis using Inr unfolding keeps_def x d by auto
  qed
qed

section \<open>The service\<close>

lemma not_found_record: "crm_isNotFound (wrap_error ''record not found'' (sentinel_error ErrRecordNotFound))"
  by code_simp

text \<open>A tag that the service makes has a name no tag of the tenant has.\<close>

lemma tag_missing:
  assumes "crm_FindTagByName en u name db = Inl e" and "cd_outage db = None"
  shows "\<forall>x \<in> set (cd_tags db). tg_tenant_id x = u \<longrightarrow> ce_lower en (tg_name x) \<noteq> ce_lower en name"
  using assms by (auto simp: crm_FindTagByName_def gorm_first_def find_None_iff split: option.splits)

lemma tag_of_keeps:
  assumes "tag_of en u name db = (r, db')" and "crm_ok en db" and "trimmed name" and "name \<noteq> []"
  shows "keeps en u db db' \<and> cd_contacts db' = cd_contacts db \<and> cd_notes db' = cd_notes db \<and> cd_contact_tags db' = cd_contact_tags db \<and>
    set (cd_tags db) \<subseteq> set (cd_tags db') \<and>
    (\<forall>t. r = Inr t \<longrightarrow> t \<in> set (cd_tags db') \<and> tg_tenant_id t = u \<and> ce_lower en (tg_name t) = ce_lower en name)"
proof (cases "crm_FindTagByName en u name db")
  case (Inr t)
  then have "t \<in> set (cd_tags db) \<and> tg_tenant_id t = u \<and> ce_lower en (tg_name t) = ce_lower en name"
    unfolding crm_FindTagByName_def by (rule gorm_first_Inr)
  then show ?thesis using assms(1,2) Inr by (auto simp: tag_of_def keeps_refl)
next
  case (Inl e)
  show ?thesis
  proof (cases "crm_isNotFound e")
    case False
    then show ?thesis using assms(1,2) Inl by (auto simp: tag_of_def keeps_refl)
  next
    case True
    let ?t = "\<lparr>tg_id = [], tg_tenant_id = u, tg_name = name, tg_color = defaultTagColor name\<rparr>"
    have c: "crm_CreateTag en ?t db = (r, db')" using assms(1) Inl True by (simp add: tag_of_def)
    show ?thesis
    proof (cases "cd_outage db")
      case None
      from crm_CreateTag_keeps [OF c assms(2)] tag_missing [OF Inl None] assms(3,4)
      have k: "keeps en u db db' \<and> cd_contacts db' = cd_contacts db \<and> cd_notes db' = cd_notes db \<and>
          cd_contact_tags db' = cd_contact_tags db \<and> (\<forall>x. r = Inr x \<longrightarrow> tg_tenant_id x = u \<and> tg_name x = name \<and> cd_tags db' = cd_tags db @ [x])"
        by simp
      have "cd_tags db' = cd_tags db" if "r = Inl f" for f
        using c that by (auto simp: crm_CreateTag_def new_id_def Let_def split: option.splits if_splits)
      then show ?thesis using k by (cases r) auto
    next
      case (Some f)
      then have "r = Inl f" "db' = db\<lparr>cd_made := Suc (cd_made db)\<rparr>"
        using c by (auto simp: crm_CreateTag_def new_id_def Let_def)
      then show ?thesis using keeps_made [OF assms(2)] by simp
    qed
  qed
qed

text \<open>The ids of the tags asked for: exactly one tag for each name, as the database compares names.\<close>

lemma tag_ids_keeps:
  "tag_ids en u tags db = (r, db') \<Longrightarrow> crm_ok en db \<Longrightarrow>
     keeps en u db db' \<and> cd_contacts db' = cd_contacts db \<and> cd_notes db' = cd_notes db \<and> cd_contact_tags db' = cd_contact_tags db \<and>
     set (cd_tags db) \<subseteq> set (cd_tags db') \<and>
     (\<forall>ids. r = Inr ids \<longrightarrow>
        (\<forall>n \<in> set tags. trim_space n \<noteq> [] \<longrightarrow>
           (\<exists>t \<in> set (cd_tags db'). tg_id t \<in> set ids \<and> tg_tenant_id t = u \<and> ce_lower en (tg_name t) = ce_lower en (trim_space n))) \<and>
        (\<forall>k \<in> set ids. \<exists>t \<in> set (cd_tags db'). tg_id t = k \<and> tg_tenant_id t = u \<and>
           (\<exists>n \<in> set tags. trim_space n \<noteq> [] \<and> ce_lower en (tg_name t) = ce_lower en (trim_space n))))"
proof (induction tags arbitrary: db r db')
  case Nil
  then show ?case by (auto simp: keeps_refl)
next
  case (Cons raw tags)
  show ?case
  proof (cases "trim_space raw = []")
    case True
    then show ?thesis using Cons.IH [of db r db'] Cons.prems by auto
  next
    case False
    obtain q d where q: "tag_of en u (trim_space raw) db = (q, d)" by (rule prod.exhaust)
    note k = tag_of_keeps [OF q Cons.prems(2) trim_space_trimmed False]
    show ?thesis
    proof (cases q)
      case (Inl e)
      then have "r = Inl e" "db' = d" using Cons.prems(1) q False by simp_all
      then show ?thesis using k by simp
    next
      case (Inr t)
      obtain p d' where p: "tag_ids en u tags d = (p, d')" by (rule prod.exhaust)
      have IH: "keeps en u d d' \<and> cd_contacts d' = cd_contacts d \<and> cd_notes d' = cd_notes d \<and> cd_contact_tags d' = cd_contact_tags d \<and>
          set (cd_tags d) \<subseteq> set (cd_tags d') \<and>
          (\<forall>ids. p = Inr ids \<longrightarrow>
             (\<forall>n \<in> set tags. trim_space n \<noteq> [] \<longrightarrow>
                (\<exists>t \<in> set (cd_tags d'). tg_id t \<in> set ids \<and> tg_tenant_id t = u \<and> ce_lower en (tg_name t) = ce_lower en (trim_space n))) \<and>
             (\<forall>k \<in> set ids. \<exists>t \<in> set (cd_tags d'). tg_id t = k \<and> tg_tenant_id t = u \<and>
                (\<exists>n \<in> set tags. trim_space n \<noteq> [] \<and> ce_lower en (tg_name t) = ce_lower en (trim_space n))))"
      proof -
        have "keeps en u db d" using k by blast
        then have "crm_ok en d" by (rule keeps_ok)
        with p show ?thesis by (rule Cons.IH)
      qed
      have d': "db' = d'" "r = (case p of Inl e \<Rightarrow> Inl e | Inr ids \<Rightarrow> Inr (tg_id t # ids))"
        using Cons.prems(1) q Inr False p by (auto split: sum.splits)
      have t: "t \<in> set (cd_tags d')" "tg_tenant_id t = u" "ce_lower en (tg_name t) = ce_lower en (trim_space raw)"
        using k Inr IH by auto
      have base: "keeps en u db d'" "cd_contacts d' = cd_contacts db" "cd_notes d' = cd_notes db" "cd_contact_tags d' = cd_contact_tags db"
        "set (cd_tags db) \<subseteq> set (cd_tags d')"
        using k IH keeps_trans by (blast, simp, simp, simp, blast)
      show ?thesis
      proof (cases p)
        case (Inl e)
        then show ?thesis using base d' by simp
      next
        case ids: (Inr ids)
        then have r: "r = Inr (tg_id t # ids)" using d' by simp
        have a: "\<exists>x \<in> set (cd_tags d'). tg_id x \<in> set (tg_id t # ids) \<and> tg_tenant_id x = u \<and> ce_lower en (tg_name x) = ce_lower en (trim_space n)"
          if "n \<in> set (raw # tags)" "trim_space n \<noteq> []" for n
          using that t IH ids by (cases "n = raw") fastforce+
        have b: "\<exists>x \<in> set (cd_tags d'). tg_id x = j \<and> tg_tenant_id x = u \<and>
            (\<exists>n \<in> set (raw # tags). trim_space n \<noteq> [] \<and> ce_lower en (tg_name x) = ce_lower en (trim_space n))"
          if "j \<in> set (tg_id t # ids)" for j
          using that t IH ids False by (cases "j = tg_id t") fastforce+
        show ?thesis using base a b unfolding d'(1) r by blast
      qed
    qed
  qed
qed

text \<open>The names asked for, as the database compares them.\<close>

definition wanted :: "crm_env \<Rightarrow> string list \<Rightarrow> string set" where
  "wanted en tags = {ce_lower en (trim_space n) | n. n \<in> set tags \<and> trim_space n \<noteq> []}"

definition tag_names :: "crm_env \<Rightarrow> Tag list \<Rightarrow> string set" where
  "tag_names en ts = (\<lambda>t. ce_lower en (tg_name t)) ` set ts"

lemma preload_tags: "lc_tags (preload db c) = filter (\<lambda>t. (co_id c, tg_id t) \<in> set (cd_contact_tags db)) (cd_tags db)"
  by (simp add: preload_def)

lemma replaceTags_keeps:
  assumes "replaceTags en u n tags db = (r, db')" and "crm_ok en db"
  shows "keeps en u db db' \<and> cd_contacts db' = cd_contacts db \<and> cd_notes db' = cd_notes db"
proof (cases tags)
  case (Some ts)
  obtain q d where q: "tag_ids en u ts db = (q, d)" by (rule prod.exhaust)
  note k = tag_ids_keeps [OF q assms(2)]
  show ?thesis
  proof (cases q)
    case (Inr ids)
    then have a: "crm_AssignTags en u n ids d = (r, db')" using assms(1) q Some by (simp add: replaceTags_def)
    have ok: "crm_ok en d" using k keeps_ok by blast
    have "cd_contacts db' = cd_contacts d \<and> cd_notes db' = cd_notes d"
      using a by (auto simp: crm_AssignTags_def Let_def split: sum.splits)
    then show ?thesis using keeps_trans [OF _ crm_AssignTags_keeps [OF a ok]] k by auto
  next
    case (Inl e)
    then have "db' = d" using assms(1) q Some by (simp add: replaceTags_def)
    then show ?thesis using k by blast
  qed
qed (use assms in \<open>auto simp: replaceTags_def keeps_refl\<close>)

lemma replaceTags_names:
  assumes "replaceTags en u (co_id c) (Some tags) db = (None, db')" and "crm_ok en db"
    and "c \<in> set (cd_contacts db)" and "co_tenant_id c = u"
  shows "tag_names en (lc_tags (preload db' c)) = wanted en tags"
proof -
  obtain ids d where q: "tag_ids en u tags db = (Inr ids, d)" and a: "crm_AssignTags en u (co_id c) ids d = (None, db')"
    using assms(1) by (auto simp: replaceTags_def split: prod.splits sum.splits)
  note k = tag_ids_keeps [OF q assms(2)]
  obtain c' where c': "first_contact en u (co_id c) d = Inr c'" using a by (auto simp: crm_AssignTags_def split: sum.splits)
  have id: "co_id c' = co_id c" using first_contact_Inr [OF c'] by simp
  have "lc_tags (preload db' c) = filter (\<lambda>t. tg_tenant_id t = u \<and> tg_id t \<in> set ids) (cd_tags d)"
  proof -
    have ok: "tags_ok en (cd_tags d)" using k keeps_ok by (auto simp: crm_ok_def)
    have "(co_id c, tg_id t) \<in> set (cd_contact_tags db') \<longleftrightarrow> tg_tenant_id t = u \<and> tg_id t \<in> set ids" if "t \<in> set (cd_tags d)" for t
      using a c' id that ok by (auto simp: crm_AssignTags_def Let_def tags_ok_def distinct_map dest: inj_onD)
    moreover have "cd_tags db' = cd_tags d" using a c' by (auto simp: crm_AssignTags_def Let_def)
    ultimately show ?thesis by (auto simp: preload_tags intro: filter_cong)
  qed
  moreover have "tag_names en (filter (\<lambda>t. tg_tenant_id t = u \<and> tg_id t \<in> set ids) (cd_tags d)) = wanted en tags"
  proof -
    have names: "\<forall>n \<in> set tags. trim_space n \<noteq> [] \<longrightarrow>
        (\<exists>t \<in> set (cd_tags d). tg_id t \<in> set ids \<and> tg_tenant_id t = u \<and> ce_lower en (tg_name t) = ce_lower en (trim_space n))"
      and ids: "\<forall>j \<in> set ids. \<exists>t \<in> set (cd_tags d). tg_id t = j \<and> tg_tenant_id t = u \<and>
        (\<exists>n \<in> set tags. trim_space n \<noteq> [] \<and> ce_lower en (tg_name t) = ce_lower en (trim_space n))"
      using k by blast+
    have "tags_ok en (cd_tags d)" using k keeps_ok by (auto simp: crm_ok_def)
    then have one: "x = y" if "x \<in> set (cd_tags d)" "y \<in> set (cd_tags d)" "tg_id x = tg_id y" for x y
      using that by (auto simp: tags_ok_def distinct_map dest: inj_onD)
    show ?thesis
    proof (intro set_eqI iffI)
      fix s assume "s \<in> wanted en tags"
      then obtain m where m: "m \<in> set tags" "trim_space m \<noteq> []" "s = ce_lower en (trim_space m)"
        by (auto simp: wanted_def)
      then obtain t where "t \<in> set (cd_tags d)" "tg_id t \<in> set ids" "tg_tenant_id t = u" "ce_lower en (tg_name t) = s"
        using names by auto
      then show "s \<in> tag_names en (filter (\<lambda>t. tg_tenant_id t = u \<and> tg_id t \<in> set ids) (cd_tags d))"
        by (auto simp: tag_names_def)
    next
      fix s assume "s \<in> tag_names en (filter (\<lambda>t. tg_tenant_id t = u \<and> tg_id t \<in> set ids) (cd_tags d))"
      then obtain t where t: "t \<in> set (cd_tags d)" "tg_id t \<in> set ids" "s = ce_lower en (tg_name t)"
        by (auto simp: tag_names_def)
      then obtain y m where "y \<in> set (cd_tags d)" "tg_id y = tg_id t" "m \<in> set tags" "trim_space m \<noteq> []"
        "ce_lower en (tg_name y) = ce_lower en (trim_space m)"
        using ids by blast
      then show "s \<in> wanted en tags" using one [of y t] t by (auto simp: wanted_def)
    qed
  qed
  ultimately show ?thesis by simp
qed

lemma AddNote_keeps:
  assumes "AddNote en u n body db = (r, db')" and "crm_ok en db"
  shows "keeps en u db db' \<and> cd_contacts db' = cd_contacts db \<and> cd_tags db' = cd_tags db \<and> cd_contact_tags db' = cd_contact_tags db \<and>
    (\<forall>x. r = Inr x \<longrightarrow> nt_contact_id x = n \<and> nt_body x = trim_space body \<and> cd_notes db' = cd_notes db @ [x])"
proof (cases "trim_space body \<noteq> [] \<and> (\<exists>l. crm_Get en u n db = Inr l)")
  case True
  then obtain l where l: "trim_space body \<noteq> []" "crm_Get en u n db = Inr l" by blast
  let ?m = "\<lparr>nt_id = [], nt_tenant_id = u, nt_contact_id = n, nt_body = trim_space body\<rparr>"
  have m: "crm_CreateNote en ?m db = (r, db')" using assms(1) l by (simp add: AddNote_def)
  have c: "lc_contact l \<in> set (cd_contacts db) \<and> co_tenant_id (lc_contact l) = u \<and> co_id (lc_contact l) = n"
    using first_contact_Inr crm_Get_Inr [OF l(2)] by blast
  from crm_CreateNote_keeps [OF m assms(2), of "lc_contact l"] show ?thesis using l(1) c by (simp add: trim_space_trimmed)
next
  case False
  then obtain e where "r = Inl e" "db' = db" using assms(1) by (auto simp: AddNote_def split: if_splits sum.splits)
  then show ?thesis using keeps_refl [OF assms(2)] by simp
qed

lemma add_notes_keeps:
  "add_notes en u n bodies db = (r, db') \<Longrightarrow> crm_ok en db \<Longrightarrow>
     keeps en u db db' \<and> cd_contacts db' = cd_contacts db \<and> cd_tags db' = cd_tags db \<and> cd_contact_tags db' = cd_contact_tags db \<and>
     (r = None \<longrightarrow> (\<forall>b \<in> set bodies. trim_space b \<noteq> []) \<and>
       (\<exists>ns. cd_notes db' = cd_notes db @ ns \<and> map nt_body ns = map trim_space bodies \<and> (\<forall>m \<in> set ns. nt_contact_id m = n)))"
proof (induction bodies arbitrary: db)
  case Nil
  then show ?case by (auto simp: keeps_refl)
next
  case (Cons body bodies)
  obtain q d where q: "AddNote en u n body db = (q, d)" by (rule prod.exhaust)
  note k = AddNote_keeps [OF q Cons.prems(2)]
  show ?case
  proof (cases q)
    case (Inl e)
    then have "r = Some e" "db' = d" using Cons.prems(1) q by simp_all
    then show ?thesis using k by simp
  next
    case (Inr m)
    then have rest: "add_notes en u n bodies d = (r, db')" using Cons.prems(1) q by simp
    have "keeps en u db d" using k by blast
    then have "crm_ok en d" by (rule keeps_ok)
    note IH = Cons.IH [OF rest this]
    have "trim_space body \<noteq> []" using q Inr by (auto simp: AddNote_def split: if_splits)
    moreover have "keeps en u db db'" using keeps_trans k IH by blast
    moreover have "\<exists>ns'. cd_notes db' = cd_notes db @ ns' \<and> map nt_body ns' = map trim_space (body # bodies) \<and> (\<forall>x \<in> set ns'. nt_contact_id x = n)"
      if "cd_notes db' = cd_notes d @ ns" "map nt_body ns = map trim_space bodies" "\<forall>x \<in> set ns. nt_contact_id x = n" for ns
      using that k Inr by (intro exI [of _ "m # ns"]) simp
    ultimately show ?thesis using k IH by auto
  qed
qed

section \<open>Contacts\<close>

lemma normalized_digits: "list_all is_digit (normalizePhone s)"
  by (simp add: normalizePhone_def list_all_iff)

text \<open>A new contact: what was written before its tags and notes.\<close>

lemma CreateContact_parts:
  assumes "CreateContact en now u input db = (r, db')" and "crm_ok en db"
  obtains "keeps en u db db'" "\<forall>l. r \<noteq> Inr l"
  | c d d1 where "keeps en u db d" "crm_ok en d" "c \<in> set (cd_contacts d)" "co_tenant_id c = u" "co_id c \<notin> co_id ` set (cd_contacts db)"
    "co_phone c = normalizePhone (cc_phone input)" "co_name c = trim_space (cc_name input)"
    "co_email c = to_lower (trim_space (cc_email input))" "co_instance_id c = trim_space (cc_instance_id input)"
    "cd_contact_tags d = cd_contact_tags db" "cd_notes d = cd_notes db" "cd_tags d = cd_tags db"
    "replaceTags en u (co_id c) (cc_tags input) d = (None, d1)"
    "\<exists>q. add_notes en u (co_id c) (cc_notes input) d1 = (q, db') \<and> (\<forall>l. r = Inr l \<longrightarrow> q = None \<and> crm_Get en u (co_id c) db' = Inr l)"
proof -
  let ?row = "\<lparr>co_id = [], co_tenant_id = u, co_phone = normalizePhone (cc_phone input), co_name = trim_space (cc_name input),
     co_email = to_lower (trim_space (cc_email input)), co_instance_id = trim_space (cc_instance_id input), co_created_at = now\<rparr>"
  show ?thesis
  proof (cases "db' = db \<and> (\<exists>e. r = Inl e)")
    case True
    then show ?thesis using that(1) keeps_refl [OF assms(2)] by auto
  next
    case False
    obtain q d where q: "crm_CreateContact en ?row db = (q, d)" by (rule prod.exhaust)
    have phone: "normalizePhone (cc_phone input) \<noteq> []"
      using assms(1) False by (auto simp: CreateContact_def Let_def split: if_splits)
    have k: "keeps en u db d \<and> (\<forall>x. q = Inr x \<longrightarrow> x \<in> set (cd_contacts d) \<and> co_tenant_id x = u \<and>
        x = ?row\<lparr>co_id := co_id x\<rparr> \<and> co_id x \<notin> co_id ` set (cd_contacts db) \<and> cd_contacts d = cd_contacts db @ [x] \<and>
        cd_contact_tags d = cd_contact_tags db \<and> cd_notes d = cd_notes db \<and> cd_tags d = cd_tags db)"
      using crm_CreateContact_keeps [OF q assms(2)] phone normalized_digits by simp
    have go: "(r, db') = (case q of Inl e \<Rightarrow> (Inl e, d)
      | Inr c \<Rightarrow> (case replaceTags en u (co_id c) (cc_tags input) d of
          (Some e, db) \<Rightarrow> (Inl e, db)
        | (None, db) \<Rightarrow> (case add_notes en u (co_id c) (cc_notes input) db of
            (Some e, db) \<Rightarrow> (Inl e, db)
          | (None, db) \<Rightarrow> (crm_Get en u (co_id c) db, db))))"
      using assms(1) False q by (auto simp: CreateContact_def Let_def split: if_splits option.splits sum.splits)
    show ?thesis
    proof (cases q)
      case (Inl e)
      then show ?thesis using go k that(1) by simp
    next
      case (Inr c)
      obtain t d1 where t: "replaceTags en u (co_id c) (cc_tags input) d = (t, d1)" by (rule prod.exhaust)
      have ok: "crm_ok en d" using k keeps_ok by blast
      show ?thesis
      proof (cases t)
        case (Some e)
        then have "db' = d1" "r = Inl e" using go Inr t by simp_all
        then show ?thesis using that(1) replaceTags_keeps [OF t ok] k keeps_trans by blast
      next
        case None
        obtain m d2 where m: "add_notes en u (co_id c) (cc_notes input) d1 = (m, d2)" by (rule prod.exhaust)
        have r: "r = (case m of Some e \<Rightarrow> Inl e | None \<Rightarrow> crm_Get en u (co_id c) d2)" "db' = d2"
          using go Inr t None m by (auto split: option.splits)
        have row: "c = ?row\<lparr>co_id := co_id c\<rparr>" using k Inr by blast
        have cols: "co_phone c = normalizePhone (cc_phone input)" "co_name c = trim_space (cc_name input)"
          "co_email c = to_lower (trim_space (cc_email input))" "co_instance_id c = trim_space (cc_instance_id input)"
          by (subst row, simp)+
        have last: "\<exists>q. add_notes en u (co_id c) (cc_notes input) d1 = (q, db') \<and>
            (\<forall>l. r = Inr l \<longrightarrow> q = None \<and> crm_Get en u (co_id c) db' = Inr l)"
          using m r by (auto split: option.splits)
        show ?thesis by (rule that(2) [of d c d1]) (use k Inr ok cols t None last in simp_all)
      qed
    qed
  qed
qed

lemma CreateContact_keeps:
  assumes "CreateContact en now u input db = (r, db')" and "crm_ok en db"
  shows "keeps en u db db'"
  using assms
proof (rule CreateContact_parts)
  fix c d d1
  assume k: "keeps en u db d" "crm_ok en d"
    and t: "replaceTags en u (co_id c) (cc_tags input) d = (None, d1)"
    and "\<exists>q. add_notes en u (co_id c) (cc_notes input) d1 = (q, db') \<and> (\<forall>l. r = Inr l \<longrightarrow> q = None \<and> crm_Get en u (co_id c) db' = Inr l)"
  then obtain q where m: "add_notes en u (co_id c) (cc_notes input) d1 = (q, db')" by blast
  have d1: "keeps en u d d1" using replaceTags_keeps [OF t k(2)] by blast
  have "keeps en u d1 db'" using add_notes_keeps [OF m keeps_ok [OF d1]] by blast
  then show "keeps en u db db'" using k(1) d1 keeps_trans by blast
qed

lemma updated_phone_Inr:
  "updated_phone u phone c db = Inr c' \<Longrightarrow> c' = c \<or> c' = c\<lparr>co_phone := normalizePhone phone\<rparr> \<and> normalizePhone phone \<noteq> []"
  by (auto simp: updated_phone_def split: if_splits option.splits)

lemma UpdateContact_keeps:
  assumes "UpdateContact en u n input db = (r, db')" and "crm_ok en db"
  shows "keeps en u db db'"
proof (cases "db' = db")
  case False
  then obtain l c where l: "crm_Get en u n db = Inr l" and c: "updated_phone u (uc_phone input) (lc_contact l) db = Inr c"
    using assms(1) by (auto simp: UpdateContact_def split: sum.splits)
  obtain q d where q: "crm_UpdateContact en (updated_columns input c) db = (q, d)" by (rule prod.exhaust)
  have x: "lc_contact l \<in> set (cd_contacts db)" "co_tenant_id (lc_contact l) = u"
    using crm_Get_Inr [OF l] first_contact_Inr by blast+
  note p = updated_phone_Inr [OF c]
  have "co_phone (lc_contact l) \<noteq> [] \<and> list_all is_digit (co_phone (lc_contact l))"
    using assms(2) x by (auto simp: crm_ok_def contacts_ok_def)
  then have ph: "co_phone c \<noteq> []" "list_all is_digit (co_phone c)" using p normalized_digits by auto
  moreover have "co_id c = co_id (lc_contact l)" "co_tenant_id c = co_tenant_id (lc_contact l)" using p by auto
  ultimately have k: "keeps en u db d"
    using crm_UpdateContact_keeps [OF q assms(2), of "lc_contact l"] x ph by (simp add: updated_columns_def)
  show ?thesis
  proof (cases q)
    case (Some e)
    then show ?thesis using assms(1) l c q k by (simp add: UpdateContact_def)
  next
    case None
    obtain t d1 where t: "replaceTags en u (co_id c) (uc_tags input) d = (t, d1)" by (rule prod.exhaust)
    then have "db' = d1" using assms(1) l c q None by (auto simp: UpdateContact_def split: option.splits)
    then show ?thesis using replaceTags_keeps [OF t keeps_ok [OF k]] k keeps_trans by blast
  qed
qed (simp add: assms(2) keeps_refl)

lemma AssignTags_keeps:
  assumes "AssignTags en u n tags db = (r, db')" and "crm_ok en db"
  shows "keeps en u db db'"
proof (cases "crm_Get en u n db")
  case (Inr l)
  obtain t d1 where t: "replaceTags en u n tags db = (t, d1)" by (rule prod.exhaust)
  then have "db' = d1" using assms(1) Inr by (auto simp: AssignTags_def split: option.splits)
  then show ?thesis using replaceTags_keeps [OF t assms(2)] by blast
qed (use assms in \<open>simp add: AssignTags_def keeps_refl\<close>)

inductive crm_step :: "crm_env \<Rightarrow> string \<Rightarrow> crm_db \<Rightarrow> crm_db \<Rightarrow> bool" for en u where
  contact_created: "crm_step en u db (snd (CreateContact en now u input db))"
| contact_updated: "crm_step en u db (snd (UpdateContact en u n changes db))"
| note_added: "crm_step en u db (snd (AddNote en u n body db))"
| tags_assigned: "crm_step en u db (snd (AssignTags en u n tags db))"

lemma crm_step_keeps: "crm_step en u db db' \<Longrightarrow> crm_ok en db \<Longrightarrow> keeps en u db db'"
proof (induction rule: crm_step.cases)
  case (note_added db n body)
  then show ?case using AddNote_keeps [of en u n body db "fst (AddNote en u n body db)"] by simp
qed (auto intro: CreateContact_keeps UpdateContact_keeps AssignTags_keeps prod.collapse [symmetric])

section \<open>Properties\<close>

lemma other_tenant_view:
  assumes "only_of u db db'" and "crm_ok en db" and "crm_ok en db'" and "v \<noteq> u"
  shows "crm_ListContacts v db' = crm_ListContacts v db"
proof -
  have pick: "filter (\<lambda>x. f x = v) xs = filter (\<lambda>x. f x = v) ys"
    if "filter (\<lambda>x. f x \<noteq> u) xs = filter (\<lambda>x. f x \<noteq> u) ys" for f and xs ys :: "'x list"
  proof -
    have "filter (\<lambda>x. f x = v) zs = filter (\<lambda>x. f x = v) (filter (\<lambda>x. f x \<noteq> u) zs)" for zs :: "'x list"
      using assms(4) by (simp, intro filter_cong) auto
    then show ?thesis using that by metis
  qed
  have cs: "filter (\<lambda>c. co_tenant_id c = v) (cd_contacts db') = filter (\<lambda>c. co_tenant_id c = v) (cd_contacts db)"
    and ts: "filter (\<lambda>t. tg_tenant_id t = v) (cd_tags db') = filter (\<lambda>t. tg_tenant_id t = v) (cd_tags db)"
    and ns: "filter (\<lambda>n. nt_tenant_id n = v) (cd_notes db') = filter (\<lambda>n. nt_tenant_id n = v) (cd_notes db)"
    using assms(1) by (auto simp: only_of_def intro!: pick)
  have own: "preload e c = \<lparr>lc_contact = c,
      lc_tags = filter (\<lambda>t. (co_id c, tg_id t) \<in> set (cd_contact_tags e)) (filter (\<lambda>t. tg_tenant_id t = v) (cd_tags e)),
      lc_notes = filter (\<lambda>n. nt_contact_id n = co_id c) (filter (\<lambda>n. nt_tenant_id n = v) (cd_notes e))\<rparr>"
    if ok: "crm_ok en e" and c: "c \<in> set (cd_contacts e)" "co_tenant_id c = v" for e c
  proof -
    have one: "x = c" if "x \<in> set (cd_contacts e)" "co_id x = co_id c" for x
      using that c ok by (auto simp: crm_ok_def contacts_ok_def distinct_map dest: inj_onD)
    have same_tag: "x = y" if "x \<in> set (cd_tags e)" "y \<in> set (cd_tags e)" "tg_id x = tg_id y" for x y
      using that ok by (auto simp: crm_ok_def tags_ok_def distinct_map dest: inj_onD)
    have "tg_tenant_id t = v" if t: "t \<in> set (cd_tags e)" "(co_id c, tg_id t) \<in> set (cd_contact_tags e)" for t
    proof -
      from t(2) ok obtain x y where "x \<in> set (cd_contacts e)" "y \<in> set (cd_tags e)" "co_id x = co_id c" "tg_id y = tg_id t"
        "tg_tenant_id y = co_tenant_id x" by (force simp: crm_ok_def links_ok_def)
      then show ?thesis using one [of x] same_tag [of y t] t(1) c(2) by simp
    qed
    moreover have "nt_tenant_id m = v" if "m \<in> set (cd_notes e)" "nt_contact_id m = co_id c" for m
    proof -
      from that ok obtain x where "x \<in> set (cd_contacts e)" "co_id x = co_id c" "nt_tenant_id m = co_tenant_id x"
        by (force simp: crm_ok_def notes_ok_def)
      then show ?thesis using one [of x] c(2) by simp
    qed
    ultimately show ?thesis by (auto simp: preload_def intro!: filter_cong)
  qed
  have "preload db' c = preload db c" if "c \<in> set (filter (\<lambda>c. co_tenant_id c = v) (cd_contacts db))" for c
  proof -
    have in_db: "c \<in> set (cd_contacts db)" "co_tenant_id c = v" using that by simp_all
    have "c \<in> set (cd_contacts db')" using that unfolding cs [symmetric] by simp
    then have "preload db' c = \<lparr>lc_contact = c,
        lc_tags = filter (\<lambda>t. (co_id c, tg_id t) \<in> set (cd_contact_tags db')) (filter (\<lambda>t. tg_tenant_id t = v) (cd_tags db)),
        lc_notes = filter (\<lambda>n. nt_contact_id n = co_id c) (filter (\<lambda>n. nt_tenant_id n = v) (cd_notes db))\<rparr>"
      using own [OF assms(3)] in_db ts ns by simp
    moreover have "(co_id c, x) \<in> set (cd_contact_tags db') \<longleftrightarrow> (co_id c, x) \<in> set (cd_contact_tags db)" for x
      using assms(1,4) in_db by (simp add: only_of_def)
    ultimately show ?thesis using own [OF assms(2) in_db] by simp
  qed
  then have "map (preload db') (sort_key k (filter (\<lambda>c. co_tenant_id c = v) (cd_contacts db))) =
      map (preload db) (sort_key k (filter (\<lambda>c. co_tenant_id c = v) (cd_contacts db)))" for k :: "Contact_row \<Rightarrow> int"
    by (intro map_cong) simp_all
  then show ?thesis using cs assms(1) by (simp add: crm_ListContacts_def only_of_def split: option.split)
qed



section \<open>The same tags again\<close>

text \<open>Once the tags are there, asking for them again finds the same ids and makes none.\<close>

lemma tag_of_again:
  assumes "t \<in> set (cd_tags e)" and "tg_tenant_id t = u" and "ce_lower en (tg_name t) = ce_lower en name"
    and "tags_ok en (cd_tags e)" and "cd_outage e = None"
  shows "tag_of en u name e = (Inr t, e)"
proof -
  have "crm_FindTagByName en u name e = Inr t"
    unfolding crm_FindTagByName_def by (rule gorm_first_found) (use assms in \<open>auto simp: tags_ok_def distinct_map dest: inj_onD\<close>)
  then show ?thesis by (simp add: tag_of_def)
qed

lemma tag_ids_again:
  "tag_ids en u tags db = (Inr ids, d) \<Longrightarrow> crm_ok en db \<Longrightarrow> set (cd_tags d) \<subseteq> set (cd_tags e) \<Longrightarrow> tags_ok en (cd_tags e) \<Longrightarrow>
     cd_outage e = None \<Longrightarrow> tag_ids en u tags e = (Inr ids, e)"
proof (induction tags arbitrary: db ids)
  case (Cons raw tags)
  show ?case
  proof (cases "trim_space raw = []")
    case True
    then show ?thesis using Cons.IH [of db ids] Cons.prems by simp
  next
    case False
    obtain q d1 where q: "tag_of en u (trim_space raw) db = (q, d1)" by (rule prod.exhaust)
    then obtain t js where t: "q = Inr t" and js: "tag_ids en u tags d1 = (Inr js, d)" and ids: "ids = tg_id t # js"
      using Cons.prems(1) False by (auto split: sum.splits prod.splits)
    note k = tag_of_keeps [OF q Cons.prems(2) trim_space_trimmed False]
    have "keeps en u db d1" using k by blast
    then have ok: "crm_ok en d1" by (rule keeps_ok)
    have sub: "set (cd_tags d1) \<subseteq> set (cd_tags d)" using tag_ids_keeps [OF js ok] by blast
    have "t \<in> set (cd_tags e)" "tg_tenant_id t = u" "ce_lower en (tg_name t) = ce_lower en (trim_space raw)"
      using k t sub Cons.prems(3) by auto
    then have "tag_of en u (trim_space raw) e = (Inr t, e)" using tag_of_again Cons.prems(4,5) by blast
    then show ?thesis using Cons.IH [OF js ok Cons.prems(3-5)] ids False by simp
  qed
qed simp

text \<open>Assigning tags a second time changes nothing and makes no tag.\<close>

theorem tags_assigned_again:
  assumes "AssignTags en u n (Some tags) db = (Inr l, db')" and "crm_ok en db"
  shows "AssignTags en u n (Some tags) db' = (Inr l, db')"
proof -
  obtain ids d where ids: "tag_ids en u tags db = (Inr ids, d)" and a: "crm_AssignTags en u n ids d = (None, db')"
    and got: "crm_Get en u n db' = Inr l"
    using assms(1) by (auto simp: AssignTags_def replaceTags_def split: sum.splits prod.splits option.splits)
  have ok': "crm_ok en db'" using AssignTags_keeps [OF assms] by (rule keeps_ok)
  obtain c where c: "first_contact en u n d = Inr c" using a by (auto simp: crm_AssignTags_def split: sum.splits)
  let ?links = "map (\<lambda>t. (co_id c, tg_id t)) (filter (\<lambda>t. tg_tenant_id t = u \<and> tg_id t \<in> set ids) (cd_tags d))"
  have db': "db' = d\<lparr>cd_contact_tags := filter (\<lambda>p. fst p \<noteq> co_id c) (cd_contact_tags d) @ ?links\<rparr>"
    using a c by (simp add: crm_AssignTags_def Let_def)
  have out: "cd_outage db' = None" using first_contact_Inr [OF c] db' by simp
  have again: "tag_ids en u tags db' = (Inr ids, db')"
    by (rule tag_ids_again [OF ids assms(2) _ _ out]) (use ok' db' in \<open>simp_all add: crm_ok_def\<close>)
  have "first_contact en u n db' = Inr c" using c by (simp add: first_contact_def db' split: if_splits)
  moreover have "filter (\<lambda>p. fst p \<noteq> co_id c) ?links = []" by (auto simp: filter_empty_conv)
  ultimately have "crm_AssignTags en u n ids db' = (None, db')"
    by (simp add: crm_AssignTags_def Let_def db')
  then show ?thesis using again got by (simp add: AssignTags_def replaceTags_def)
qed

section \<open>Witnesses\<close>

definition desk_env :: crm_env where
  "desk_env = \<lparr>ce_uuid_ok = (\<lambda>u. u \<noteq> []), ce_lower = to_lower, ce_new_id = (\<lambda>k. replicate (Suc k) CHR ''n'')\<rparr>"

definition empty_crm :: crm_db where
  "empty_crm = \<lparr>cd_contacts = [], cd_tags = [], cd_notes = [], cd_contact_tags = [], cd_made = 0, cd_outage = None\<rparr>"

lemma empty_crm_ok: "crm_ok en empty_crm"
  by (simp add: crm_ok_def contacts_ok_def tags_ok_def links_ok_def notes_ok_def empty_crm_def)

definition alice :: CreateContactInput where
  "alice = \<lparr>cc_name = '' Alice '', cc_phone = ''+52 55-12'', cc_email = ''A@X'', cc_instance_id = ''i1'',
     cc_tags = Some [''VIP'', '' vip''], cc_notes = [''first'']\<rparr>"

definition desk :: "(go_error + loaded_contact) \<times> crm_db" where
  "desk = CreateContact desk_env 5 ''A'' alice empty_crm"


lemma desk_value: "case fst desk of Inr l \<Rightarrow> map tg_name (lc_tags l) = [''VIP''] | Inl _ \<Rightarrow> False"
  by code_simp

lemma desk_result: "\<exists>l. desk = (Inr l, snd desk)"
  using desk_value by (cases "fst desk") (auto simp: prod_eq_iff)

lemma desk_phone: "normalizePhone (cc_phone alice) = ''525512''"
  by code_simp


lemma desk_tags_value:
  "case AssignTags desk_env ''A'' ''n'' (Some [''lead'']) (snd desk) of (Inr _, _) \<Rightarrow> True | _ \<Rightarrow> False"
  by code_simp

theorem tags_assigned_again_witness:
  "\<exists>l s. AssignTags desk_env ''A'' ''n'' (Some [''lead'']) (snd desk) = (Inr l, s) \<and>
     AssignTags desk_env ''A'' ''n'' (Some [''lead'']) s = (Inr l, s)"
proof -
  obtain l s where a: "AssignTags desk_env ''A'' ''n'' (Some [''lead'']) (snd desk) = (Inr l, s)"
    using desk_tags_value by (auto split: prod.splits sum.splits)
  have "keeps desk_env ''A'' empty_crm (snd desk)"
    unfolding desk_def by (rule CreateContact_keeps [OF prod.collapse [symmetric] empty_crm_ok])
  from tags_assigned_again [OF a keeps_ok [OF this]] a show ?thesis by blast
qed

text \<open>
  A blank note fails the request after the contact was stored: the second try, without it, is a conflict. And a
  contact for no instance is refused by the database, whose column holds a uuid.
\<close>

lemma failed_request_leaves_contact:
  "case CreateContact desk_env 5 ''A'' (alice\<lparr>cc_notes := [''ok'', '' '']\<rparr>) empty_crm of
     (r, d) \<Rightarrow> r = Inl (wrap ErrValidation ''note body is required'') \<and> length (cd_contacts d) = 1 \<and>
       fst (CreateContact desk_env 6 ''A'' alice d) = Inl (wrap ErrConflict ''contact already exists for phone'')"
  by code_simp

lemma contact_needs_instance:
  "fst (CreateContact desk_env 5 ''A'' (alice\<lparr>cc_instance_id := []\<rparr>) empty_crm) = Inl bad_uuid"
  by code_simp

text \<open>An update takes a name of white space, which the creation refuses.\<close>

lemma blank_name_by_update:
  "case UpdateContact desk_env ''A'' ''n''
       \<lparr>uc_name = '' '', uc_phone = [], uc_email = [], uc_instance_id = [], uc_tags = None\<rparr> (snd desk) of
     (Inr l, _) \<Rightarrow> co_name (lc_contact l) = [] | _ \<Rightarrow> False"
  by code_simp

end
