(* ===== verification/Ai.thy ===== *)
theory Ai
  imports Webhook_Service Instance_Store
begin

text \<open>
  Automatic replies, \<open>internal/ai/service.go\<close>: settings of tenants and instances, the queue of inbound messages, and
  the workers. A worker's run of \<open>process\<close> is split at its statements on shared state (\<open>phase\<close>), so that runs of other
  workers and requests come in between. The library's parts of a request are the parameter \<open>ai_lib\<close>.
\<close>

section \<open>Tables\<close>

record AISettings =
  st_id :: string
  st_tenant_id :: string
  st_enabled :: bool
  st_auto_reply :: bool
  st_provider :: string
  st_model :: string
  st_base_url :: string
  st_system_prompt :: string

record AIConversationMessage =
  am_tenant_id :: string
  am_instance_id :: string
  am_conversation_key :: string
  am_role :: string
  am_content :: string
  am_created_at :: time

record ai_db =
  ab_settings :: "AISettings list"
  ab_messages :: "AIConversationMessage list"
  ab_outage :: "go_error option"

definition settings_first :: "string \<Rightarrow> ai_db \<Rightarrow> go_error + AISettings" where
  "settings_first tenantID db = gorm_first (ab_outage db) st_id (\<lambda>x. st_tenant_id x = tenantID) (ab_settings db)"

text \<open>\<open>newID\<close> is the id that \<open>BeforeCreate\<close> gives to a new row.\<close>

definition settings_Upsert :: "string \<Rightarrow> AISettings \<Rightarrow> ai_db \<Rightarrow> go_error option \<times> ai_db" where
  "settings_Upsert newID settings db =
     (case settings_first (st_tenant_id settings) db of
        Inl e \<Rightarrow>
          if err_is e \<noteq> Some ErrRecordNotFound then (Some e, db)
          else if \<exists>x \<in> set (ab_settings db). st_id x = newID then (Some duplicate_key, db)
          else (None, db\<lparr>ab_settings := ab_settings db @ [settings\<lparr>st_id := newID\<rparr>]\<rparr>)
      | Inr existing \<Rightarrow>
          (None, db\<lparr>ab_settings := map (\<lambda>x. if st_id x = st_id existing then settings\<lparr>st_id := st_id existing\<rparr> else x)
             (ab_settings db)\<rparr>))"

definition settings_GetByTenant :: "string \<Rightarrow> ai_db \<Rightarrow> go_error + AISettings" where
  "settings_GetByTenant = settings_first"

definition AppendConversationMessage :: "AIConversationMessage \<Rightarrow> ai_db \<Rightarrow> go_error option \<times> ai_db" where
  "AppendConversationMessage m db =
     (case ab_outage db of Some e \<Rightarrow> (Some e, db) | None \<Rightarrow> (None, db\<lparr>ab_messages := ab_messages db @ [m]\<rparr>))"

definition of_conversation :: "string \<Rightarrow> string \<Rightarrow> string \<Rightarrow> AIConversationMessage \<Rightarrow> bool" where
  "of_conversation tenantID instanceID key m \<longleftrightarrow>
     am_tenant_id m = tenantID \<and> am_instance_id m = instanceID \<and> am_conversation_key m = key"

text \<open>The newest, the oldest of them first.\<close>

definition ListConversationMessages ::
  "string \<Rightarrow> string \<Rightarrow> string \<Rightarrow> int \<Rightarrow> ai_db \<Rightarrow> go_error + AIConversationMessage list" where
  "ListConversationMessages tenantID instanceID key limit db =
     (case ab_outage db of
        Some e \<Rightarrow> Inl e
      | None \<Rightarrow>
          (let rows = sort_key (\<lambda>m. - am_created_at m) (filter (of_conversation tenantID instanceID key) (ab_messages db)) in
           Inr (rev (if 0 < limit then take (nat limit) rows else rows))))"

section \<open>Settings\<close>

record AIConfig =
  cg_api_key :: string
  cg_base_url :: string
  cg_model :: string
  cg_workers :: int
  cg_memory_limit :: int

record TenantSettingsInput =
  ts_enabled :: bool
  ts_auto_reply :: bool
  ts_provider :: string
  ts_model :: string
  ts_base_url :: string
  ts_system_prompt :: string

definition defaultString :: "string \<Rightarrow> string \<Rightarrow> string" where
  "defaultString v fallback = (if trim_space v \<noteq> [] then trim_space v else trim_space fallback)"

definition ConfigureTenant ::
  "AIConfig \<Rightarrow> string \<Rightarrow> string \<Rightarrow> TenantSettingsInput \<Rightarrow> ai_db \<Rightarrow> (go_error + AISettings) \<times> ai_db" where
  "ConfigureTenant cfg newID tenantID input db =
     (let provider = to_lower (trim_space (defaultString (ts_provider input) ''openai''));
          model = trim_space (defaultString (ts_model input) (cg_model cfg));
          baseURL = trim_space (defaultString (ts_base_url input) (cg_base_url cfg))
      in if tenantID = [] then (Inl (wrap ErrValidation ''tenant_id is required''), db)
         else if provider \<noteq> ''openai'' then
           (Inl (wrap ErrValidation ''only openai-compatible provider is currently supported''), db)
         else if model = [] then (Inl (wrap ErrValidation ''model is required''), db)
         else if baseURL = [] then (Inl (wrap ErrValidation ''base_url is required''), db)
         else case settings_Upsert newID
             \<lparr>st_id = [], st_tenant_id = tenantID, st_enabled = ts_enabled input, st_auto_reply = ts_auto_reply input,
              st_provider = provider, st_model = model, st_base_url = baseURL,
              st_system_prompt = trim_space (ts_system_prompt input)\<rparr> db of
           (Some e, db) \<Rightarrow> (Inl e, db)
         | (None, db) \<Rightarrow> (settings_GetByTenant tenantID db, db))"

definition isSettingsMissing :: "go_error \<Rightarrow> bool" where
  "isSettingsMissing e \<longleftrightarrow> err_is e = Some ErrNotFound \<or> err_is e = Some ErrRecordNotFound"

definition defaultTenantSettings :: "AIConfig \<Rightarrow> string \<Rightarrow> AISettings" where
  "defaultTenantSettings cfg tenantID =
     \<lparr>st_id = [], st_tenant_id = tenantID, st_enabled = False, st_auto_reply = False, st_provider = ''openai'',
      st_model = trim_space (cg_model cfg), st_base_url = trim_space (cg_base_url cfg), st_system_prompt = []\<rparr>"

definition getTenantSettingsWithConfiguredStatus :: "AIConfig \<Rightarrow> string \<Rightarrow> ai_db \<Rightarrow> go_error + AISettings \<times> bool" where
  "getTenantSettingsWithConfiguredStatus cfg tenantID db =
     (case settings_GetByTenant tenantID db of
        Inr x \<Rightarrow> Inr (x, True)
      | Inl e \<Rightarrow> if isSettingsMissing e then Inr (defaultTenantSettings cfg tenantID, False) else Inl e)"

definition GetTenantSettings :: "AIConfig \<Rightarrow> string \<Rightarrow> ai_db \<Rightarrow> go_error + AISettings" where
  "GetTenantSettings cfg tenantID db =
     (if tenantID = [] then Inl (wrap ErrValidation ''tenant_id is required'')
      else case settings_GetByTenant tenantID db of
        Inr x \<Rightarrow> Inr x
      | Inl e \<Rightarrow> if isSettingsMissing e then Inr (defaultTenantSettings cfg tenantID) else Inl e)"

definition ConfigureInstance ::
  "string \<Rightarrow> string \<Rightarrow> bool \<Rightarrow> bool \<Rightarrow> auth_db \<Rightarrow> (go_error + Instance) \<times> auth_db" where
  "ConfigureInstance tenantID instanceID enabled autoReply adb =
     (case instance_GetByID adb tenantID instanceID of
        Inl _ \<Rightarrow> (Inl (wrap ErrNotFound ''instance not found''), adb)
      | Inr i \<Rightarrow>
          (let i = i\<lparr>in_ai_enabled := enabled, in_ai_auto_reply := autoReply\<rparr> in
           case instance_Update i adb of
             (Some e, adb) \<Rightarrow> (Inl e, adb)
           | (None, adb) \<Rightarrow> (Inr i, adb)))"

record InstanceSettings =
  is_instance_id :: string
  is_enabled :: bool
  is_auto_reply :: bool
  is_tenant_enabled :: bool
  is_tenant_auto_reply :: bool
  is_effective_enabled :: bool
  is_effective_auto_reply :: bool
  is_tenant_settings_configured :: bool
  is_tenant_settings :: AISettings

definition GetInstanceSettings ::
  "AIConfig \<Rightarrow> string \<Rightarrow> string \<Rightarrow> ai_db \<Rightarrow> auth_db \<Rightarrow> go_error + InstanceSettings" where
  "GetInstanceSettings cfg tenantID instanceID db adb =
     (case instance_GetByID adb tenantID instanceID of
        Inl _ \<Rightarrow> Inl (wrap ErrNotFound ''instance not found'')
      | Inr i \<Rightarrow>
          (case getTenantSettingsWithConfiguredStatus cfg tenantID db of
             Inl e \<Rightarrow> Inl e
           | Inr (x, configured) \<Rightarrow>
               Inr \<lparr>is_instance_id = in_id i, is_enabled = in_ai_enabled i, is_auto_reply = in_ai_auto_reply i,
                    is_tenant_enabled = st_enabled x, is_tenant_auto_reply = st_auto_reply x,
                    is_effective_enabled = (st_enabled x \<and> in_ai_enabled i),
                    is_effective_auto_reply = (st_enabled x \<and> st_auto_reply x \<and> in_ai_enabled i \<and> in_ai_auto_reply i),
                    is_tenant_settings_configured = configured, is_tenant_settings = x\<rparr>))"

section \<open>Requests to the model\<close>

text \<open>
  \<open>al_marshal\<close> is the body of a request, \<open>al_request_error\<close> the error of \<open>http.NewRequest\<close> for a URL, \<open>al_choices\<close> the
  contents of the choices of a response.
\<close>

record ai_lib =
  al_marshal :: "string \<Rightarrow> (string \<times> string) list \<Rightarrow> go_error + string"
  al_request_error :: "string \<Rightarrow> go_error option"
  al_choices :: "string \<Rightarrow> go_error + string list"

record ai_request =
  ar_url :: string
  ar_authorization :: "string option"
  ar_messages :: "(string \<times> string) list"
  ar_body :: string

datatype http_answer = NoAnswer go_error | HttpAnswer int string

definition memory_limit :: "AIConfig \<Rightarrow> int" where
  "memory_limit cfg = (if cg_memory_limit cfg \<le> 0 then 12 else cg_memory_limit cfg)"

definition chat_messages :: "AISettings \<Rightarrow> AIConversationMessage list \<Rightarrow> (string \<times> string) list" where
  "chat_messages settings memory =
     (if trim_space (st_system_prompt settings) \<noteq> [] then [(''system'', trim_space (st_system_prompt settings))] else []) @
     map (\<lambda>m. (am_role m, am_content m)) memory"

fun trim_slashes :: "string \<Rightarrow> string" where
  "trim_slashes s = (if s \<noteq> [] \<and> last s = CHR ''/'' then trim_slashes (butlast s) else s)"

declare trim_slashes.simps [simp del]

text \<open>The request that \<open>generateReply\<close> sends.\<close>

definition build_request :: "AIConfig \<Rightarrow> ai_lib \<Rightarrow> AISettings \<Rightarrow> AIConversationMessage list \<Rightarrow> go_error + ai_request" where
  "build_request cfg lib settings memory =
     (let messages = chat_messages settings memory;
          url = trim_slashes (defaultString (st_base_url settings) (cg_base_url cfg)) @ ''/chat/completions''
      in case al_marshal lib (defaultString (st_model settings) (cg_model cfg)) messages of
           Inl e \<Rightarrow> Inl e
         | Inr body \<Rightarrow>
             (case al_request_error lib url of
                Some e \<Rightarrow> Inl e
              | None \<Rightarrow>
                  Inr \<lparr>ar_url = url,
                    ar_authorization = (if cg_api_key cfg \<noteq> [] then Some (''Bearer '' @ cg_api_key cfg) else None),
                    ar_messages = messages, ar_body = body\<rparr>))"

text \<open>\<open>io.LimitReader\<close>.\<close>

fun limit_read :: "int \<Rightarrow> string \<Rightarrow> string" where
  "limit_read n [] = []"
| "limit_read n (c # cs) = (if n \<le> 0 then [] else c # limit_read (n - 1) cs)"

text \<open>What \<open>generateReply\<close> makes of the answer; at most one megabyte of it is read.\<close>

definition read_answer :: "ai_lib \<Rightarrow> http_answer \<Rightarrow> go_error + string" where
  "read_answer lib answer =
     (case answer of
        NoAnswer e \<Rightarrow> Inl e
      | HttpAnswer code body \<Rightarrow>
          (let payload = limit_read 1048576 body in
           if code < 200 \<or> 300 \<le> code then
             Inl (plain_error (''openai compatible api returned '' @ show_int code @ '': '' @ trim_space payload))
           else case al_choices lib payload of
             Inl e \<Rightarrow> Inl e
           | Inr [] \<Rightarrow> Inl (plain_error ''openai compatible api returned no choices'')
           | Inr (c # _) \<Rightarrow> Inr c))"

section \<open>The queue\<close>

type_synonym ai_job = "string \<times> AITriggerInput"

text \<open>\<open>make\<close> of a channel of a negative size panics.\<close>

definition NewService_panics :: "AIConfig \<Rightarrow> bool" where "NewService_panics cfg \<longleftrightarrow> cg_workers cfg * 8 < 0"

text \<open>A channel of size 0 takes a job only when a worker waits for one.\<close>

definition has_room :: "AIConfig \<Rightarrow> bool \<Rightarrow> ai_job list \<Rightarrow> bool" where
  "has_room cfg waiting q \<longleftrightarrow> int (length q) < cg_workers cfg * 8 \<or> cg_workers cfg * 8 = 0 \<and> waiting \<and> q = []"

definition HandleInboundAsync :: "AIConfig \<Rightarrow> bool \<Rightarrow> string \<Rightarrow> AITriggerInput \<Rightarrow> ai_job list \<Rightarrow> ai_job list" where
  "HandleInboundAsync cfg waiting tenantID input q =
     (if trim_space (ai_instance_id input) = [] \<or> trim_space (ai_message_text input) = [] then q
      else
        (let input = (if trim_space (ai_conversation_key input) = []
                      then input\<lparr>ai_conversation_key := trim_space (ai_instance_id input)\<rparr> else input)
         in if has_room cfg waiting q then q @ [(tenantID, input)] else q))"

definition worker_count :: "AIConfig \<Rightarrow> nat" where
  "worker_count cfg = (if cg_workers cfg \<le> 0 then 1 else nat (cg_workers cfg))"

section \<open>Workers\<close>

text \<open>Where a run of \<open>process\<close> stands.\<close>

datatype phase =
    Taken ai_job
  | Configured ai_job AISettings
  | Allowed ai_job AISettings
  | Remembered ai_job AISettings
  | Asked ai_job
  | Answered ai_job string
  | Stored ai_job string

fun phase_job :: "phase \<Rightarrow> ai_job" where
  "phase_job (Taken j) = j"
| "phase_job (Configured j x) = j"
| "phase_job (Allowed j x) = j"
| "phase_job (Remembered j x) = j"
| "phase_job (Asked j) = j"
| "phase_job (Answered j r) = j"
| "phase_job (Stored j r) = j"

record ai_world =
  aw_db :: ai_db
  aw_auth :: auth_db
  aw_queue :: "ai_job list"
  aw_busy :: "phase list"
  aw_requests :: "(ai_job \<times> ai_request) list"
  aw_dispatched :: "(string \<times> DispatchInput) list"
  aw_has_dispatcher :: bool

definition memory_row :: "ai_job \<Rightarrow> string \<Rightarrow> string \<Rightarrow> time \<Rightarrow> AIConversationMessage" where
  "memory_row j role content now =
     \<lparr>am_tenant_id = fst j, am_instance_id = ai_instance_id (snd j), am_conversation_key = ai_conversation_key (snd j),
      am_role = role, am_content = content, am_created_at = now\<rparr>"

definition reply_event :: "ai_job \<Rightarrow> string \<Rightarrow> DispatchInput" where
  "reply_event j reply =
     \<lparr>di_event_type = ''ai.reply.generated'', di_instance_id = ai_instance_id (snd j), di_message_id = ai_message_id (snd j),
      di_data = [(''conversation_key'', JStr (ai_conversation_key (snd j))), (''reply'', JStr reply),
        (''source_event'', JStr (ai_event_type (snd j))), (''metadata'', JObj (ai_metadata (snd j)))]\<rparr>"

text \<open>The next statement of a run; \<open>None\<close> when it ends. A failed append is no append here.\<close>

definition append_row :: "AIConversationMessage \<Rightarrow> phase \<Rightarrow> ai_world \<Rightarrow> phase option \<times> ai_world" where
  "append_row m p w =
     (case AppendConversationMessage m (aw_db w) of
        (Some _, db) \<Rightarrow> (None, w\<lparr>aw_db := db\<rparr>)
      | (None, db) \<Rightarrow> (Some p, w\<lparr>aw_db := db\<rparr>))"

fun turn :: "AIConfig \<Rightarrow> ai_lib \<Rightarrow> time \<Rightarrow> http_answer \<Rightarrow> phase \<Rightarrow> ai_world \<Rightarrow> phase option \<times> ai_world" where
  "turn cfg lib now answer (Taken j) w =
     (case settings_GetByTenant (fst j) (aw_db w) of
        Inl _ \<Rightarrow> (None, w)
      | Inr x \<Rightarrow> if \<not> st_enabled x \<or> \<not> st_auto_reply x then (None, w) else (Some (Configured j x), w))"
| "turn cfg lib now answer (Configured j x) w =
     (case instance_GetByID (aw_auth w) (fst j) (ai_instance_id (snd j)) of
        Inl _ \<Rightarrow> (None, w)
      | Inr i \<Rightarrow> if \<not> in_ai_enabled i \<or> \<not> in_ai_auto_reply i then (None, w) else (Some (Allowed j x), w))"
| "turn cfg lib now answer (Allowed j x) w =
     append_row (memory_row j ''user'' (trim_space (ai_message_text (snd j))) now) (Remembered j x) w"
| "turn cfg lib now answer (Remembered j x) w =
     (case ListConversationMessages (fst j) (ai_instance_id (snd j)) (ai_conversation_key (snd j)) (memory_limit cfg) (aw_db w) of
        Inl _ \<Rightarrow> (None, w)
      | Inr memory \<Rightarrow>
          (case build_request cfg lib x memory of
             Inl _ \<Rightarrow> (None, w)
           | Inr r \<Rightarrow> (Some (Asked j), w\<lparr>aw_requests := aw_requests w @ [(j, r)]\<rparr>)))"
| "turn cfg lib now answer (Asked j) w =
     (case read_answer lib answer of
        Inl _ \<Rightarrow> (None, w)
      | Inr reply \<Rightarrow> if trim_space reply = [] then (None, w) else (Some (Answered j (trim_space reply)), w))"
| "turn cfg lib now answer (Answered j reply) w =
     append_row (memory_row j ''assistant'' reply now) (Stored j reply) w"
| "turn cfg lib now answer (Stored j reply) w =
     (None, if aw_has_dispatcher w then w\<lparr>aw_dispatched := aw_dispatched w @ [(fst j, reply_event j reply)]\<rparr> else w)"

text \<open>
  The service at work. The list are the settings tenants were given, in their order; the table of instances is changed
  by other parts of the program.
\<close>

inductive ai_run :: "AIConfig \<Rightarrow> ai_lib \<Rightarrow> ai_world \<Rightarrow> (string \<times> TenantSettingsInput) list \<Rightarrow> ai_world \<Rightarrow> bool"
  for cfg lib w0 where
  started: "ai_run cfg lib w0 [] w0"
| queued: "ai_run cfg lib w0 cs w \<Longrightarrow>
    ai_run cfg lib w0 cs (w\<lparr>aw_queue := HandleInboundAsync cfg (length (aw_busy w) < worker_count cfg) tenantID input (aw_queue w)\<rparr>)"
| taken: "ai_run cfg lib w0 cs w \<Longrightarrow> aw_queue w = j # q \<Longrightarrow> length (aw_busy w) < worker_count cfg \<Longrightarrow>
    ai_run cfg lib w0 cs (w\<lparr>aw_queue := q, aw_busy := aw_busy w @ [Taken j]\<rparr>)"
| worked: "ai_run cfg lib w0 cs w \<Longrightarrow> aw_busy w = ps @ p # qs \<Longrightarrow> turn cfg lib now answer p w = (r, w') \<Longrightarrow>
    ai_run cfg lib w0 cs (w'\<lparr>aw_busy := ps @ (case r of None \<Rightarrow> [] | Some p' \<Rightarrow> [p']) @ qs\<rparr>)"
| configured: "ai_run cfg lib w0 cs w \<Longrightarrow>
    ai_run cfg lib w0 (cs @ [(tenantID, input)]) (w\<lparr>aw_db := snd (ConfigureTenant cfg newID tenantID input (aw_db w))\<rparr>)"
| instances_changed: "ai_run cfg lib w0 cs w \<Longrightarrow> ai_run cfg lib w0 cs (w\<lparr>aw_auth := adb\<rparr>)"
| outage_changed: "ai_run cfg lib w0 cs w \<Longrightarrow> ai_run cfg lib w0 cs (w\<lparr>aw_db := (aw_db w)\<lparr>ab_outage := e\<rparr>\<rparr>)"

end
