(* ===== verification/Ai_System.thy ===== *)
theory Ai_System
  imports Ai
begin

text \<open>
  What holds of the automatic replies, whatever the workers do in between: who gets none, how many there are, how much
  of a conversation a request shows, and that the settings shown to a user are those the workers go by.
\<close>

section \<open>Settings\<close>

text \<open>
  C40: the flag of automatic replies that is shown for an instance is true exactly when a worker that reads the settings
  and the instance now goes on to answer.
\<close>

theorem shown_flag_decides:
  "(case GetInstanceSettings cfg (fst j) (ai_instance_id (snd j)) (aw_db w) (aw_auth w) of
      Inl _ \<Rightarrow> False | Inr s \<Rightarrow> is_effective_auto_reply s) \<longleftrightarrow>
    (\<exists>x. turn cfg lib now answer (Taken j) w = (Some (Configured j x), w) \<and>
       turn cfg lib now' answer' (Configured j x) w = (Some (Allowed j x), w))"
  by (auto simp: GetInstanceSettings_def getTenantSettingsWithConfiguredStatus_def defaultTenantSettings_def
      split: sum.split)

lemma settings_first_Inr: "settings_first u db = Inr x \<Longrightarrow> x \<in> set (ab_settings db) \<and> st_tenant_id x = u"
  unfolding settings_first_def by (rule gorm_first_Inr)

lemma Upsert_settings:
  assumes "settings_Upsert newID x db = (r, db')" and "y \<in> set (ab_settings db')"
  shows "y \<in> set (ab_settings db) \<or> (\<exists>i. y = x\<lparr>st_id := i\<rparr>)"
  using assms by (auto simp: settings_Upsert_def split: sum.splits if_splits)

lemma Upsert_messages: "ab_messages (snd (settings_Upsert newID x db)) = ab_messages db"
  by (auto simp: settings_Upsert_def split: sum.split)

lemma ConfigureTenant_settings:
  assumes "y \<in> set (ab_settings (snd (ConfigureTenant cfg newID u input db)))"
  shows "y \<in> set (ab_settings db) \<or>
    st_tenant_id y = u \<and> st_enabled y = ts_enabled input \<and> st_auto_reply y = ts_auto_reply input"
  using assms
  by (auto simp: ConfigureTenant_def Let_def split: if_splits prod.splits option.splits dest!: Upsert_settings)

lemma ConfigureTenant_messages [simp]: "ab_messages (snd (ConfigureTenant cfg newID u input db)) = ab_messages db"
proof -
  have m: "ab_messages db' = ab_messages db" if "settings_Upsert newID x db = (r, db')" for x r db'
    using Upsert_messages [of newID x db] that by simp
  show ?thesis by (auto simp: ConfigureTenant_def Let_def split: prod.split option.split dest: m)
qed

section \<open>Counting\<close>

definition count :: "('a \<Rightarrow> bool) \<Rightarrow> 'a list \<Rightarrow> nat" where "count P xs = length (filter P xs)"

lemma count_simps [simp]:
  "count P [] = 0" "count P (x # xs) = (if P x then 1 else 0) + count P xs" "count P (xs @ ys) = count P xs + count P ys"
  by (simp_all add: count_def)

type_synonym conversation = "string \<times> string \<times> string"

definition row_conversation :: "AIConversationMessage \<Rightarrow> conversation" where
  "row_conversation m = (am_tenant_id m, am_instance_id m, am_conversation_key m)"

definition job_conversation :: "ai_job \<Rightarrow> conversation" where
  "job_conversation j = (fst j, ai_instance_id (snd j), ai_conversation_key (snd j))"

definition event_conversation :: "string \<times> DispatchInput \<Rightarrow> conversation" where
  "event_conversation d = (fst d, di_instance_id (snd d),
     (case map_of (di_data (snd d)) ''conversation_key'' of Some (JStr k) \<Rightarrow> k | _ \<Rightarrow> []))"

lemma conversations [simp]:
  "row_conversation (memory_row j role content now) = job_conversation j"
  "event_conversation (fst j, reply_event j reply) = job_conversation j"
  "event_conversation (u, reply_event (u, input) reply) = job_conversation (u, input)"
  "am_role (memory_row j role content now) = role"
  by (simp_all add: row_conversation_def job_conversation_def event_conversation_def memory_row_def reply_event_def)

definition said :: "string \<Rightarrow> conversation \<Rightarrow> ai_world \<Rightarrow> nat" where
  "said role c w = count (\<lambda>m. row_conversation m = c \<and> am_role m = role) (ab_messages (aw_db w))"

definition requests_of :: "conversation \<Rightarrow> ai_world \<Rightarrow> nat" where
  "requests_of c w = count (\<lambda>r. job_conversation (fst r) = c) (aw_requests w)"

definition events_of :: "conversation \<Rightarrow> ai_world \<Rightarrow> nat" where
  "events_of c w = count (\<lambda>d. event_conversation d = c) (aw_dispatched w)"

fun at_stage :: "nat \<Rightarrow> phase \<Rightarrow> bool" where
  "at_stage n (Remembered j x) \<longleftrightarrow> n = 0"
| "at_stage n (Asked j) \<longleftrightarrow> n = 1"
| "at_stage n (Answered j r) \<longleftrightarrow> n = 1"
| "at_stage n (Stored j r) \<longleftrightarrow> n = 2"
| "at_stage n _ \<longleftrightarrow> False"

definition runs_at :: "nat \<Rightarrow> conversation \<Rightarrow> ai_world \<Rightarrow> nat" where
  "runs_at n c w = count (\<lambda>p. job_conversation (phase_job p) = c \<and> at_stage n p) (aw_busy w)"

definition balanced_for :: "conversation \<Rightarrow> ai_world \<Rightarrow> bool" where
  "balanced_for c w \<longleftrightarrow> requests_of c w + runs_at 0 c w \<le> said ''user'' c w \<and>
     said ''assistant'' c w + runs_at 1 c w \<le> requests_of c w \<and>
     events_of c w + runs_at 2 c w \<le> said ''assistant'' c w"

definition balanced :: "ai_world \<Rightarrow> bool" where "balanced w \<longleftrightarrow> (\<forall>c. balanced_for c w)"

definition requests_short :: "AIConfig \<Rightarrow> ai_world \<Rightarrow> bool" where
  "requests_short cfg w \<longleftrightarrow> (\<forall>r \<in> set (aw_requests w). int (length (ar_messages (snd r))) \<le> memory_limit cfg + 1)"

definition within_bounds :: "AIConfig \<Rightarrow> ai_world \<Rightarrow> bool" where
  "within_bounds cfg w \<longleftrightarrow> length (aw_busy w) \<le> worker_count cfg \<and> int (length (aw_queue w)) \<le> max 1 (cg_workers cfg * 8)"

text \<open>No run has begun.\<close>

definition fresh_world :: "ai_world \<Rightarrow> bool" where
  "fresh_world w \<longleftrightarrow> ab_messages (aw_db w) = [] \<and> aw_queue w = [] \<and> aw_busy w = [] \<and> aw_requests w = [] \<and> aw_dispatched w = []"

section \<open>One turn\<close>

lemmas counted = said_def requests_of_def events_of_def runs_at_def

definition busy_with :: "phase list \<Rightarrow> ai_world \<Rightarrow> ai_world" where "busy_with ps w = w\<lparr>aw_busy := ps\<rparr>"

definition still :: "phase option \<Rightarrow> phase list" where "still r = (case r of None \<Rightarrow> [] | Some p \<Rightarrow> [p])"

lemma still_simps [simp]: "still None = []" "still (Some p) = [p]" by (simp_all add: still_def)

lemma turn_balanced:
  assumes "turn cfg lib now answer p w = (r, w')" and "balanced w" and "aw_busy w = ps @ p # qs"
  shows "balanced (w'\<lparr>aw_busy := ps @ still r @ qs\<rparr>)"
proof -
  have "balanced_for c (w'\<lparr>aw_busy := ps @ still r @ qs\<rparr>)" for c
  proof -
    have "balanced_for c w" using assms(2) unfolding balanced_def by blast
    then show ?thesis using assms(1,3)
      by (cases p) (auto simp: balanced_for_def counted append_row_def AppendConversationMessage_def
          split: sum.splits if_splits option.splits prod.splits)
  qed
  then show ?thesis unfolding balanced_def by blast
qed

lemma memory_limit_pos: "0 < memory_limit cfg" by (simp add: memory_limit_def)

lemma List_bounded:
  "ListConversationMessages u i k limit db = Inr ms \<Longrightarrow> 0 < limit \<Longrightarrow> int (length ms) \<le> limit"
  by (auto simp: ListConversationMessages_def Let_def split: option.splits)

lemma build_request_short:
  "build_request cfg lib x ms = Inr r \<Longrightarrow> ar_messages r = chat_messages x ms \<and> length (ar_messages r) \<le> length ms + 1"
  by (auto simp: build_request_def chat_messages_def Let_def split: sum.splits option.splits)

lemma turn_requests:
  assumes "turn cfg lib now answer p w = (r, w')" and "requests_short cfg w"
  shows "requests_short cfg w'"
proof (cases p)
  case (Remembered j x)
  then show ?thesis using assms
    by (fastforce simp: requests_short_def memory_limit_pos split: sum.splits
        dest!: build_request_short List_bounded [OF _ memory_limit_pos])
qed (use assms in \<open>auto simp: requests_short_def append_row_def split: sum.splits if_splits option.splits prod.splits\<close>)

lemma turn_keeps:
  "turn cfg lib now answer p w = (r, w') \<Longrightarrow> aw_queue w' = aw_queue w \<and> aw_busy w' = aw_busy w \<and>
     ab_settings (aw_db w') = ab_settings (aw_db w)"
  by (cases p) (auto simp: append_row_def AppendConversationMessage_def split: sum.splits if_splits option.splits prod.splits)

lemma still_short: "length (still r) \<le> 1" by (simp add: still_def split: option.split)

lemma queue_bounded:
  "int (length q) \<le> max 1 (cg_workers cfg * 8) \<Longrightarrow>
     int (length (HandleInboundAsync cfg b u input q)) \<le> max 1 (cg_workers cfg * 8)"
  by (auto simp: HandleInboundAsync_def Let_def has_room_def)

text \<open>
  C38: in every conversation there are at most as many requests to the model as messages of the user, at most as many
  replies as requests, and at most as many reply events as replies; a request shows no more of a conversation than the
  limit; and neither the workers nor the queue exceed their number.
\<close>

theorem replies_balanced:
  assumes "ai_run cfg lib w0 cs w" and "fresh_world w0"
  shows "balanced w \<and> requests_short cfg w \<and> within_bounds cfg w"
  using assms
proof (induction rule: ai_run.induct)
  case started
  then show ?case by (simp add: fresh_world_def balanced_def balanced_for_def counted requests_short_def within_bounds_def)
next
  case (queued cs w tenantID input)
  then show ?case using queue_bounded by (simp add: balanced_def balanced_for_def counted requests_short_def within_bounds_def)
next
  case (taken cs w j q)
  then show ?case by (simp add: balanced_def balanced_for_def counted requests_short_def within_bounds_def)
next
  case (worked cs w ps p qs now answer r w')
  then have old: "balanced w" "requests_short cfg w" "within_bounds cfg w" by simp_all
  note t = worked.hyps(3)
  have b: "balanced (w'\<lparr>aw_busy := ps @ still r @ qs\<rparr>)" by (rule turn_balanced [OF t old(1) worked.hyps(2)])
  have s: "requests_short cfg (w'\<lparr>aw_busy := ps @ still r @ qs\<rparr>)"
    using turn_requests [OF t old(2)] by (simp add: requests_short_def)
  have "within_bounds cfg (w'\<lparr>aw_busy := ps @ still r @ qs\<rparr>)"
    using old(3) worked.hyps(2) turn_keeps [OF t] still_short [of r] by (simp add: within_bounds_def)
  with b s show ?case by (simp add: still_def)
next
  case (configured cs w newID tenantID input)
  then show ?case by (simp add: balanced_def balanced_for_def counted requests_short_def within_bounds_def)
qed (simp_all add: balanced_def balanced_for_def counted requests_short_def within_bounds_def)

section \<open>Tenants without automatic replies\<close>

definition silent :: "string \<Rightarrow> ai_world \<Rightarrow> bool" where
  "silent u w \<longleftrightarrow> (\<forall>m \<in> set (ab_messages (aw_db w)). am_tenant_id m \<noteq> u) \<and>
     (\<forall>r \<in> set (aw_requests w). fst (fst r) \<noteq> u) \<and> (\<forall>d \<in> set (aw_dispatched w). fst d \<noteq> u)"

definition replies_off :: "string \<Rightarrow> ai_world \<Rightarrow> bool" where
  "replies_off u w \<longleftrightarrow> (\<forall>x \<in> set (ab_settings (aw_db w)). st_tenant_id x = u \<longrightarrow> \<not> (st_enabled x \<and> st_auto_reply x))"

definition waiting_only :: "string \<Rightarrow> ai_world \<Rightarrow> bool" where
  "waiting_only u w \<longleftrightarrow> (\<forall>p \<in> set (aw_busy w). fst (phase_job p) = u \<longrightarrow> (\<exists>j. p = Taken j))"

lemma turn_silent:
  assumes "turn cfg lib now answer p w = (r, w')" and "silent u w" and "replies_off u w"
    and "fst (phase_job p) = u \<longrightarrow> (\<exists>j. p = Taken j)"
  shows "silent u w' \<and> (\<forall>p'. r = Some p' \<longrightarrow> fst (phase_job p') = u \<longrightarrow> (\<exists>j. p' = Taken j))"
  using assms
  by (cases p) (auto simp: silent_def replies_off_def append_row_def AppendConversationMessage_def memory_row_def settings_GetByTenant_def
      split: sum.splits if_splits option.splits prod.splits dest!: settings_first_Inr)

text \<open>
  C39: for a tenant whose settings were never given automatic replies, whatever other tenants and the workers do, no
  message is remembered, the model is not asked and no reply is dispatched.
\<close>

theorem no_reply_unless_configured:
  assumes "ai_run cfg lib w0 cs w" and "fresh_world w0" and "replies_off u w0"
    and "\<forall>c \<in> set cs. fst c = u \<longrightarrow> \<not> (ts_enabled (snd c) \<and> ts_auto_reply (snd c))"
  shows "silent u w"
proof -
  have "silent u w \<and> replies_off u w \<and> waiting_only u w"
    using assms
  proof (induction rule: ai_run.induct)
    case started
    then show ?case by (simp add: fresh_world_def silent_def waiting_only_def)
  next
    case (taken cs w j q)
    then show ?case by (auto simp: silent_def replies_off_def waiting_only_def)
  next
    case (worked cs w ps p qs now answer r w')
    then have old: "silent u w" "replies_off u w" "waiting_only u w" by simp_all
    note t = worked.hyps(3)
    have p: "fst (phase_job p) = u \<longrightarrow> (\<exists>j. p = Taken j)" using old(3) worked.hyps(2) by (simp add: waiting_only_def)
    note s = turn_silent [OF t old(1,2) p]
    have "replies_off u w'" using old(2) turn_keeps [OF t] by (simp add: replies_off_def)
    then show ?case using s old(3) worked.hyps(2) by (auto simp: silent_def replies_off_def waiting_only_def split: option.splits)
  next
    case (configured cs w tenantID input newID)
    then show ?case
      by (fastforce simp: silent_def replies_off_def waiting_only_def dest!: ConfigureTenant_settings)
  qed (auto simp: silent_def replies_off_def waiting_only_def)
  then show ?thesis by blast
qed

section \<open>Witnesses\<close>

text \<open>The first worker's run driven on, n turns.\<close>

fun drive :: "AIConfig \<Rightarrow> ai_lib \<Rightarrow> http_answer \<Rightarrow> nat \<Rightarrow> ai_world \<Rightarrow> ai_world" where
  "drive cfg lib answer 0 w = w"
| "drive cfg lib answer (Suc n) w =
     (case aw_busy w of
        [] \<Rightarrow> w
      | p # qs \<Rightarrow>
          (case turn cfg lib (int n) answer p w of (r, w') \<Rightarrow> drive cfg lib answer n (w'\<lparr>aw_busy := still r @ qs\<rparr>)))"

lemma drive_run: "ai_run cfg lib w0 cs w \<Longrightarrow> ai_run cfg lib w0 cs (drive cfg lib answer n w)"
proof (induction n arbitrary: w)
  case (Suc n)
  show ?case
  proof (cases "aw_busy w")
    case (Cons p qs)
    obtain r w' where t: "turn cfg lib (int n) answer p w = (r, w')" by (rule prod.exhaust)
    have "ai_run cfg lib w0 cs (w'\<lparr>aw_busy := [] @ still r @ qs\<rparr>)"
      unfolding still_def by (rule worked [OF Suc.prems _ t]) (simp add: Cons)
    then have "ai_run cfg lib w0 cs (w'\<lparr>aw_busy := still r @ qs\<rparr>)" by simp
    from Suc.IH [OF this] show ?thesis using Cons t by simp
  qed (use Suc.prems in simp)
qed simp

definition bot_config :: AIConfig where
  "bot_config = \<lparr>cg_api_key = ''k'', cg_base_url = ''u/'', cg_model = ''m'', cg_workers = 2, cg_memory_limit = 12\<rparr>"

definition bot_lib :: ai_lib where
  "bot_lib = \<lparr>al_marshal = (\<lambda>m ms. Inr m), al_request_error = (\<lambda>u. None), al_choices = (\<lambda>p. Inr [p])\<rparr>"

definition bot_start :: ai_world where
  "bot_start =
     \<lparr>aw_db = \<lparr>ab_settings = [], ab_messages = [], ab_outage = None\<rparr>,
      aw_auth = \<lparr>ad_tenants = [], ad_users = [],
        ad_instances = [\<lparr>in_id = ''i1'', in_tenant_id = ''A'', in_name = ''sales'', in_status = ''open'',
          in_engine_instance_id = [], in_webhook_url = [], in_webhook_events = [], in_webhook_base64 = False,
          in_webhook_by_events = False, in_ai_enabled = True, in_ai_auto_reply = True, in_created_at = 1\<rparr>],
        ad_legacy = [], ad_outage = (\<lambda>t. None)\<rparr>,
      aw_queue = [], aw_busy = [], aw_requests = [], aw_dispatched = [], aw_has_dispatcher = True\<rparr>"

definition bot_on :: TenantSettingsInput where
  "bot_on = \<lparr>ts_enabled = True, ts_auto_reply = True, ts_provider = [], ts_model = [], ts_base_url = [],
     ts_system_prompt = ''be kind''\<rparr>"

definition bot_message :: AITriggerInput where
  "bot_message = \<lparr>ai_event_type = ''message'', ai_instance_id = ''i1'', ai_conversation_key = ''c1'', ai_message_id = ''m1'',
     ai_message_text = '' hello '', ai_metadata = []\<rparr>"

definition bot_configured :: ai_world where
  "bot_configured = bot_start\<lparr>aw_db := snd (ConfigureTenant bot_config ''s1'' ''A'' bot_on (aw_db bot_start))\<rparr>"

definition bot_queued :: ai_world where
  "bot_queued = bot_configured\<lparr>aw_queue := HandleInboundAsync bot_config (length (aw_busy bot_configured) < worker_count bot_config)
     ''A'' bot_message (aw_queue bot_configured)\<rparr>"

definition bot_done :: ai_world where
  "bot_done = drive bot_config bot_lib (HttpAnswer 200 '' hi '') 7 (bot_queued\<lparr>aw_queue := [], aw_busy := aw_busy bot_queued @ [Taken (''A'', bot_message)]\<rparr>)"

lemma bot_queue: "aw_queue bot_queued = [(''A'', bot_message)]" "length (aw_busy bot_queued) < worker_count bot_config"
  by code_simp+

lemma bot_run: "ai_run bot_config bot_lib bot_start [(''A'', bot_on)] bot_done"
proof -
  have "ai_run bot_config bot_lib bot_start ([] @ [(''A'', bot_on)]) bot_configured"
    unfolding bot_configured_def by (rule configured [OF started])
  then have "ai_run bot_config bot_lib bot_start [(''A'', bot_on)] bot_queued"
    unfolding bot_queued_def append_Nil by (rule queued)
  from taken [OF this bot_queue] show ?thesis unfolding bot_done_def by (rule drive_run)
qed

lemma bot_fresh: "fresh_world bot_start" "replies_off ''B'' bot_start"
  by (simp_all add: fresh_world_def replies_off_def bot_start_def)

text \<open>The run answers: the request shows the prompt and the message, the reply is remembered and dispatched.\<close>

lemma bot_answers:
  "map am_content (ab_messages (aw_db bot_done)) = [''hello'', ''hi'']"
  "map (ar_messages \<circ> snd) (aw_requests bot_done) = [[(''system'', ''be kind''), (''user'', ''hello'')]]"
  "map fst (aw_dispatched bot_done) = [''A'']"
  by code_simp+

theorem replies_balanced_witness: "balanced bot_done \<and> requests_short bot_config bot_done"
  using replies_balanced [OF bot_run bot_fresh(1)] by blast

theorem no_reply_unless_configured_witness: "silent ''B'' bot_done"
  by (rule no_reply_unless_configured [OF bot_run bot_fresh]) simp

text \<open>
  Two workers on two messages of one conversation: each has remembered its message before either asks, so both requests
  end with the same message, the first is asked about twice, and there are two replies.
\<close>

definition second_message :: AITriggerInput where
  "second_message = bot_message\<lparr>ai_message_id := ''m2'', ai_message_text := ''anyone?''\<rparr>"

definition both_taken :: ai_world where
  "both_taken = bot_configured\<lparr>aw_busy := [Taken (''A'', bot_message), Taken (''A'', second_message)]\<rparr>"

text \<open>Turns of the workers in a given order.\<close>

fun turns :: "nat list \<Rightarrow> time \<Rightarrow> ai_world \<Rightarrow> ai_world" where
  "turns [] now w = w"
| "turns (k # ks) now w =
     (case turn bot_config bot_lib now (HttpAnswer 200 ''hi'') (aw_busy w ! k) w of
        (Some p, w') \<Rightarrow> turns ks (now + 1) (w'\<lparr>aw_busy := (aw_busy w)[k := p]\<rparr>)
      | (None, w') \<Rightarrow> turns ks (now + 1) w')"

lemma both_answer_the_same:
  "map (ar_messages \<circ> snd) (aw_requests (turns [0, 0, 0, 1, 1, 1, 0, 1] 1 both_taken)) =
     replicate 2 [(''system'', ''be kind''), (''user'', ''hello''), (''user'', ''anyone?'')]"
  by code_simp

end
