(* ===== verification/Spec2Isabelle.thy ===== *)
theory Spec2Isabelle
  imports Jid_Middleware Rate_Limit Broadcast_System Webhook_System Auth_System Send_System Chat_Cache Message_System Runtime_Obs Engine_System Runtime_System Connector_Settings Instance_Errors Crm_System Ai_System
begin

text \<open>
  A model of the core of fmxevolution-go, a multi-tenant WhatsApp API server written in Go, and the
  theorems that make it correct.

  The program. An HTTP server (\<open>internal/server/server.go\<close>) serves many tenants. A request passes the
  guard, the tenant check, the audit trail and the roles (\<open>internal/middleware\<close>, \<open>internal/auth\<close>), for
  some routes a rate limiter, and reaches a service of \<open>internal/\<close>: broadcasts are written to tables and
  delivered by workers, webhooks carry events out with retries, instances stand for WhatsApp sessions of
  the engine under \<open>pkg/\<close>. Messages that come in are fanned out to listeners (\<open>pkg/chathistory\<close>) and
  reach the webhook service; receipts reach the broadcast service. The services see the database through
  the repositories of \<open>internal/repository/gorm.go\<close>.

  The theories, in the order of their dependence.

  \<^item> \<open>Prelude\<close>: Go strings as byte strings (with \<open>TrimSpace\<close>, \<open>ToLower\<close> on ASCII, \<open>Split\<close>,
    \<open>Contains\<close>), 64-bit durations and times, errors with the sentinel they wrap, JSON values.
  \<^item> \<open>Jid\<close> and \<open>Jid_Middleware\<close>: \<open>pkg/utils/utils.go\<close> (\<open>CreateJID\<close>, number formats, the check of
    numbers) and \<open>pkg/middleware/jid_validation_middleware.go\<close>. The lemmas give the three forms of a
    JID, the inputs that are refused, and that what has been normalised stays as it is.
  \<^item> \<open>Rate_Limit\<close>: \<open>internal/middleware/rate_limit.go\<close>: the in-memory store with pruning and the
    limiters by tenant, instance and address. The locale \<open>rate_store\<close> states what a limiter may expect
    of a store; the store refines a counter without pruning.
  \<^item> \<open>Broadcast_Store\<close>, \<open>Broadcast_Processor\<close>, \<open>Broadcast_World\<close>, \<open>Broadcast_Service\<close>,
    \<open>Broadcast_System\<close>: \<open>internal/broadcast/service.go\<close>, \<open>processor.go\<close> and \<open>gormBroadcastRepository\<close>.
    The processor is proved correct in a locale over the operations it calls, which is interpreted on
    the tables; the system is a step relation of dispatcher, workers, API and receipts with its
    reachable states and their invariants.
  \<^item> \<open>Rfc3339\<close>, \<open>Chat_History\<close>, \<open>Webhook_Events\<close>, \<open>Webhook_Store\<close>, \<open>Webhook_Service\<close>,
    \<open>Webhook_System\<close>: \<open>internal/webhook/normalize.go\<close>, \<open>service.go\<close>, \<open>retry.go\<close>,
    \<open>gormWebhookRepository\<close> and \<open>pkg/chathistory/registry.go\<close>: event types and payloads, dispatch with
    the suppression of duplicates, signed requests, retries with backoff, and the sweep as a step relation.
  \<^item> \<open>Base64\<close>, \<open>Auth_Tokens\<close>, \<open>Auth_Store\<close>, \<open>Auth_Service\<close>, \<open>Auth_Middleware\<close>, \<open>Auth_System\<close>:
    \<open>internal/auth\<close> (tokens, login, refresh, keys), \<open>internal/tenant/service.go\<close>, the guards of
    \<open>internal/middleware\<close> (\<open>auth.go\<close>, \<open>tenant.go\<close>, \<open>platform.go\<close>, \<open>audit.go\<close>, \<open>cors.go\<close>) and
    \<open>pkg/middleware/auth_middleware.go\<close>. The locale \<open>identity_store\<close> states what the services rely on of
    the repositories; its instance is \<open>gorm.go\<close>.

  \<^item> \<open>Instance_Store\<close>, \<open>Send_Status\<close>, \<open>Send_System\<close>: \<open>gormInstanceRepository\<close>, the look-up of an instance by
    reference (\<open>resolve\<close> of \<open>internal/instance/service.go\<close>), the queue of text messages and the registry of
    their states (\<open>pkg/sendstatus/registry.go\<close>) as a step relation: jobs only move forward, a tenant reads
    its own, receipts reach jobs.
  \<^item> \<open>Chat_Cache\<close>: the search of chats behind a cache with a throttle (\<open>internal/instance/chat_cache.go\<close>).
  \<^item> \<open>Rfc3339_Format\<close>, \<open>Message_Store\<close>, \<open>Message_History\<close>, \<open>Message_Sending\<close>, \<open>Message_Search\<close>,
    \<open>Message_Paging\<close>, \<open>Message_System\<close>: the message history, from \<open>gormConversationMessageRepository\<close> with the
    patterns of \<open>LIKE\<close> over \<open>internal/instance/message_history.go\<close> and \<open>group_handler.go\<close> to the senders and
    listeners that write it. A query is compared with a plain search for a substring, the pages of a client that
    walks back with cursors with the whole list.

  State. A table is a list of records in the order of insertion; a statement of a repository is a function
  from the tables to an answer and the tables after it. Errors are values: \<open>go_error\<close> holds the text and the
  sentinel that \<open>errors.Is\<close> finds; a fallible operation returns a sum or an option. Clock readings, random
  bytes and ids, answers of remote servers and failures of the database come from the state (a script in the
  \<open>world\<close> of broadcasts and webhooks) or are arguments, one for each reading.

  Concurrency. One step of a step relation is what the code does under a lock, in a transaction or in one
  turn of a worker; the header of each system theory says why that loses nothing.

  Parameters. HMAC-SHA256, bcrypt, \<open>net/url\<close> and the JSON printer are arguments: of bcrypt a hash is
  assumed to check against what it was made of, of JSON that decoding gives the printed claims back. Each
  such hypothesis has a witness with a concrete function. RFC 3339, Base64 and decimal numbers of the
  standard library are modelled.

  Bounds. All recursion of the code is structural or over the length of a list. Only \<open>history_walk\<close>, a client of
  the search, has fuel: one more than the number of messages is enough. Durations wrap
  around at 64 bits as in Go where the code computes them from input (\<open>backoffFor\<close>, \<open>available_at\<close>).
  The ids of instances and messages the database gives are UUIDs; where two ids are joined to a key it is assumed
  that they hold neither the separator bar nor the zero byte.
  \<open>ToLower\<close> changes ASCII letters only, where Go also changes other letters.

  Not modelled. The engine (\<open>pkg/whatsmeow\<close>, \<open>pkg/sendMessage\<close>, the API handlers under \<open>pkg/\<close>) is a client
  of the whatsmeow library, which is not in the repository. Event producers, object storage, logging,
  configuration, start-up, route tables, generated documentation and the licence client are input and
  output or wiring. The Redis store of the rate limiter is a script run by a server. Still to come:
  the connection of instances (\<open>internal/instance/service.go\<close>) with \<open>pkg/runtimeobs\<close>, \<open>internal/crm\<close>,
  \<open>internal/ai\<close> and \<open>internal/dashboard\<close>.
\<close>

end
